(* ===== verification/Prelude.thy ===== *)
theory Prelude
  imports Main "HOL-Library.AList" "HOL-Library.Sublist"
begin

text \<open>
  Shared vocabulary of the development: the parts of the JavaScript standard library the
  modelled code uses (\<open>String.prototype.trim\<close>, \<open>startsWith\<close>, \<open>split\<close>, \<open>join\<close>,
  \<open>Number.prototype.toString\<close>, insertion-ordered \<open>Set\<close> and \<open>Map\<close>, the JSON values that
  \<open>JSON.stringify\<close> and \<open>JSON.parse\<close> exchange), the result type of code that throws, and the
  generic lemmas about lists, options and runs of a system that the component theories share.

  A JavaScript string is a list of UTF-16 code units. Here it is a \<open>string\<close>, whose characters are
  the code units below 256; nothing in the modelled code looks at a code unit above that.
\<close>

named_theorems inv_intros \<open>preservation of component invariants\<close>
named_theorems res_simps \<open>what it means for a fallible operation to have returned\<close>

section \<open>Results\<close>

text \<open>A call that may throw returns \<open>Inl\<close> the error or \<open>Inr\<close> the value.\<close>

type_synonym ('e, 'a) res = "'e + 'a"

definition guard :: "bool \<Rightarrow> 'e \<Rightarrow> ('e, unit) res" where
  "guard b e = (if b then Inr () else Inl e)"

definition from_option :: "'e \<Rightarrow> 'a option \<Rightarrow> ('e, 'a) res" where
  "from_option e x = (case x of None \<Rightarrow> Inl e | Some a \<Rightarrow> Inr a)"

definition andThen :: "('e, 'a) res \<Rightarrow> ('a \<Rightarrow> ('e, 'b) res) \<Rightarrow> ('e, 'b) res" where
  "andThen m f = (case m of Inl e \<Rightarrow> Inl e | Inr a \<Rightarrow> f a)"

definition is_ok :: "('e, 'a) res \<Rightarrow> bool" where
  "is_ok m = (case m of Inl _ \<Rightarrow> False | Inr _ \<Rightarrow> True)"

lemma andThen_simps [simp]:
  "andThen (Inl e) f = Inl e" "andThen (Inr a) f = f a"
  by (simp_all add: andThen_def)

lemma andThen_Inr [res_simps]: "andThen m f = Inr y \<longleftrightarrow> (\<exists>x. m = Inr x \<and> f x = Inr y)"
  by (cases m) auto

lemma andThen_Inl [res_simps]:
  "andThen m f = Inl e \<longleftrightarrow> m = Inl e \<or> (\<exists>x. m = Inr x \<and> f x = Inl e)"
  by (cases m) auto

lemma guard_Inr [res_simps]: "guard b e = Inr u \<longleftrightarrow> b"
  by (cases u) (simp add: guard_def)

lemma guard_Inl [res_simps]: "guard b e = Inl e' \<longleftrightarrow> \<not> b \<and> e' = e"
  by (auto simp: guard_def)

lemma guard_simps [simp]: "guard True e = Inr ()" "guard False e = Inl e"
  by (simp_all add: guard_def)

lemma from_option_Inr [res_simps]: "from_option e x = Inr a \<longleftrightarrow> x = Some a"
  by (auto simp: from_option_def split: option.splits)

lemma from_option_Inl [res_simps]: "from_option e x = Inl e' \<longleftrightarrow> x = None \<and> e' = e"
  by (auto simp: from_option_def split: option.splits)

lemma from_option_simps [simp]: "from_option e None = Inl e" "from_option e (Some a) = Inr a"
  by (simp_all add: from_option_def)

lemma is_ok_simps [simp]: "\<not> is_ok (Inl e)" "is_ok (Inr a)"
  by (simp_all add: is_ok_def)

lemma is_okE: "is_ok m \<Longrightarrow> (\<And>a. m = Inr a \<Longrightarrow> P) \<Longrightarrow> P"
  by (cases m) auto

section \<open>Strings\<close>

text \<open>\<open>String.prototype.trim\<close> strips white space and line terminators; these are the ones below 256.\<close>

definition is_ws :: "char \<Rightarrow> bool" where
  "is_ws c \<longleftrightarrow> of_char c \<in> {9 :: nat, 10, 11, 12, 13, 32, 160}"

definition js_trim :: "string \<Rightarrow> string" where
  "js_trim s = rev (dropWhile is_ws (rev (dropWhile is_ws s)))"

definition starts_with :: "string \<Rightarrow> string \<Rightarrow> bool" where
  "starts_with s p \<longleftrightarrow> take (length p) s = p"

text \<open>\<open>s.split(c)\<close> for a one-character separator: always at least one piece.\<close>

fun js_split :: "char \<Rightarrow> string \<Rightarrow> string list" where
  "js_split c [] = [[]]"
| "js_split c (x # xs) =
     (if x = c then [] # js_split c xs
      else (case js_split c xs of [] \<Rightarrow> [[x]] | p # ps \<Rightarrow> (x # p) # ps))"

text \<open>\<open>xs.join(c)\<close> for a one-character separator.\<close>

fun js_join :: "char \<Rightarrow> string list \<Rightarrow> string" where
  "js_join c [] = []"
| "js_join c [s] = s"
| "js_join c (s # t # ts) = s @ c # js_join c (t # ts)"

definition is_lower :: "char \<Rightarrow> bool" where
  "is_lower c \<longleftrightarrow> (97 :: nat) \<le> of_char c \<and> of_char c \<le> (122 :: nat)"

definition is_upper :: "char \<Rightarrow> bool" where
  "is_upper c \<longleftrightarrow> (65 :: nat) \<le> of_char c \<and> of_char c \<le> (90 :: nat)"

definition is_digit :: "char \<Rightarrow> bool" where
  "is_digit c \<longleftrightarrow> (48 :: nat) \<le> of_char c \<and> of_char c \<le> (57 :: nat)"

definition is_alnum :: "char \<Rightarrow> bool" where
  "is_alnum c \<longleftrightarrow> is_lower c \<or> is_upper c \<or> is_digit c"

text \<open>\<open>toUpperCase\<close> and \<open>toLowerCase\<close> on ASCII letters.\<close>

definition up_char :: "char \<Rightarrow> char" where
  "up_char c = (if is_lower c then char_of (of_char c - 32 :: nat) else c)"

definition low_char :: "char \<Rightarrow> char" where
  "low_char c = (if is_upper c then char_of (of_char c + 32 :: nat) else c)"

definition js_upper :: "string \<Rightarrow> string" where
  "js_upper s = List.map up_char s"

definition js_lower :: "string \<Rightarrow> string" where
  "js_lower s = List.map low_char s"

text \<open>\<open>n.toString(radix)\<close> for a natural number, digits \<open>0-9a-z\<close>.\<close>

definition digit_char :: "nat \<Rightarrow> char" where
  "digit_char d = (if d < 10 then char_of (48 + d) else char_of (87 + d))"

fun radix_string :: "nat \<Rightarrow> nat \<Rightarrow> string" where
  "radix_string b n =
     (if b < 2 \<or> n < b then [digit_char n] else radix_string b (n div b) @ [digit_char (n mod b)])"

declare radix_string.simps [simp del]

lemma js_trim_idem [simp]: "js_trim (js_trim s) = js_trim s"
proof -
  have h: "dropWhile is_ws (dropWhile is_ws xs) = dropWhile is_ws xs" for xs
    by (induction xs) auto
  show ?thesis
  proof (cases "js_trim s")
    case Nil
    have "js_trim [] = []" by (simp add: js_trim_def)
    with Nil show ?thesis by simp
  next
    case (Cons c cs)
    define a where "a = dropWhile is_ws s"
    define t where "t = dropWhile is_ws (rev a)"
    have jt: "js_trim s = rev t" by (simp add: js_trim_def a_def t_def)
    have tne: "t \<noteq> []" using Cons jt by auto
    then have ane: "a \<noteq> []" by (auto simp: t_def)
    have hda: "\<not> is_ws (hd a)"
      using ane hd_dropWhile [of is_ws s] by (simp add: a_def)
    have "last t = hd a"
      using tne ane by (metis dropWhile_eq_Nil_conv dropWhile_last hd_rev last_in_set last_rev rev_rev_ident t_def)
    then have "\<not> is_ws (hd (rev t))" using hda tne by (simp add: hd_rev)
    then have 1: "dropWhile is_ws (rev t) = rev t"
      using tne by (simp add: dropWhile_eq_self_iff)
    have "dropWhile is_ws t = t" using h [of "rev a"] by (simp add: t_def)
    with 1 have "js_trim (rev t) = rev t" by (simp add: js_trim_def)
    then show ?thesis by (simp add: jt)
  qed
qed

lemma js_trim_Nil [simp]: "js_trim [] = []"
  by (simp add: js_trim_def)

lemma starts_with_iff: "starts_with s p \<longleftrightarrow> (\<exists>t. s = p @ t)"
  by (metis append_eq_conv_conj append_take_drop_id starts_with_def)

lemma js_split_nonempty [simp]: "js_split c s \<noteq> []"
  by (cases s) (auto split: list.splits)

lemma js_split_no_sep: "c \<notin> set s \<Longrightarrow> js_split c s = [s]"
  by (induction s) auto

lemma js_split_append: "c \<notin> set p \<Longrightarrow> js_split c (p @ c # t) = p # js_split c t"
  by (induction p) auto

lemma js_split_join:
  "ps \<noteq> [] \<Longrightarrow> \<forall>p \<in> set ps. c \<notin> set p \<Longrightarrow> js_split c (js_join c ps) = ps"
  by (induction c ps rule: js_join.induct) (auto simp: js_split_append js_split_no_sep)

lemma js_join_split: "js_join c (js_split c s) = s"
proof (induction s)
  case (Cons x xs)
  then show ?case
    by (cases "js_split c xs"; cases "tl (js_split c xs)") auto
qed simp

section \<open>Insertion-ordered sets\<close>

text \<open>A \<open>Set\<close> iterates in insertion order: a distinct list, \<open>add\<close> appending what is new.\<close>

definition set_add :: "'a \<Rightarrow> 'a list \<Rightarrow> 'a list" where
  "set_add x s = (if x \<in> set s then s else s @ [x])"

definition js_set :: "'a list \<Rightarrow> 'a list" where
  "js_set xs = fold set_add xs []"

lemma set_set_add [simp]: "set (set_add x s) = insert x (set s)"
  by (auto simp: set_add_def)

lemma distinct_set_add [simp]: "distinct s \<Longrightarrow> distinct (set_add x s)"
  by (simp add: set_add_def)

lemma set_fold_set_add [simp]: "set (fold set_add xs s) = set xs \<union> set s"
  by (induction xs arbitrary: s) auto

lemma distinct_fold_set_add [simp]: "distinct s \<Longrightarrow> distinct (fold set_add xs s)"
  by (induction xs arbitrary: s) auto

lemma set_js_set [simp]: "set (js_set xs) = set xs"
  by (simp add: js_set_def)

lemma distinct_js_set [simp]: "distinct (js_set xs)"
  by (simp add: js_set_def)

text \<open>Rows that come of rows keep their keys apart.\<close>

lemma map_filter_distinct:
  assumes f: "\<And>x y. f x = Some y \<Longrightarrow> k' y = k x" and "distinct (List.map k xs)"
  shows "distinct (List.map k' (List.map_filter f xs))"
  using assms(2)
proof (induction xs)
  case (Cons x xs)
  have "k' ` set (List.map_filter f xs) \<subseteq> k ` set xs" using f by (fastforce simp: List.map_filter_def)
  then show ?case using Cons f [of x] by (cases "f x") (auto simp: List.map_filter_simps)
qed (simp add: List.map_filter_simps)

section \<open>JSON\<close>

text \<open>
  The values \<open>JSON.parse\<close> produces; numbers are the integers the code stores. A \<open>TEXT\<close> column
  that holds JSON is either the output of \<open>JSON.stringify\<close> on a value or a text that does not
  parse; \<open>json_parse\<close> is \<open>JSON.parse\<close> with \<open>None\<close> for the exception.
\<close>

datatype json =
    JNull
  | JBool bool
  | JNum int
  | JStr string
  | JArr "json list"
  | JObj "(string \<times> json) list"

datatype json_text = Stringified json | Malformed string

definition json_stringify :: "json \<Rightarrow> json_text" where
  "json_stringify j = Stringified j"

fun json_parse :: "json_text \<Rightarrow> json option" where
  "json_parse (Stringified j) = Some j"
| "json_parse (Malformed s) = None"

lemma json_roundtrip [simp]: "json_parse (json_stringify j) = Some j"
  by (simp add: json_stringify_def)

section \<open>Runs of a system\<close>

text \<open>
  What the components promise of their operations, stated once: an operation keeps the
  component's invariant, and an operation only appends to the component's log. Each component
  interprets the locale on its own step relation.
\<close>

locale invariant_system =
  fixes step :: "'s \<Rightarrow> 's \<Rightarrow> bool" and inv :: "'s \<Rightarrow> bool"
  assumes preserved: "step s t \<Longrightarrow> inv s \<Longrightarrow> inv t"
begin

lemma run_preserved: "rtranclp step s t \<Longrightarrow> inv s \<Longrightarrow> inv t"
  by (induction rule: rtranclp_induct) (auto intro: preserved)

end

locale append_only_log =
  fixes step :: "'s \<Rightarrow> 's \<Rightarrow> bool" and log :: "'s \<Rightarrow> 'e list"
  assumes appends: "step s t \<Longrightarrow> prefix (log s) (log t)"
begin

lemma run_appends: "rtranclp step s t \<Longrightarrow> prefix (log s) (log t)"
  by (induction rule: rtranclp_induct) (auto intro: appends prefix_order.trans)

lemma entry_survives:
  "rtranclp step s t \<Longrightarrow> i < length (log s) \<Longrightarrow> i < length (log t) \<and> log t ! i = log s ! i"
  using run_appends [of s t] by (auto simp: prefix_def nth_append)

end

text \<open>A part of the state that no step changes once it satisfies a condition.\<close>

locale frozen_once = 
  fixes step :: "'s \<Rightarrow> 's \<Rightarrow> bool" and final :: "'s \<Rightarrow> bool" and view :: "'s \<Rightarrow> 'v"
  assumes stays_final: "step s t \<Longrightarrow> final s \<Longrightarrow> final t"
    and keeps_view: "step s t \<Longrightarrow> final s \<Longrightarrow> view t = view s"
begin

sublocale invariant_system step final
  by unfold_locales (rule stays_final)

lemma run_frozen: "rtranclp step s t \<Longrightarrow> final s \<Longrightarrow> final t \<and> view t = view s"
  by (induction rule: rtranclp_induct) (auto dest: keeps_view intro: stays_final)

end

end
