(* ===== verification/SqlTables.thy ===== *)
theory SqlTables
  imports Prelude "HOL-Library.Product_Lexorder" "HOL-Library.List_Lexorder" "HOL-Library.Char_ord"
begin

text \<open>
  SQLite as the stores use it (\<open>packages/core/src/sql-driver.ts\<close>). A table is the list of its
  rows in rowid order. A prepared statement is a function on that list: \<open>get\<close> is the first row
  that matches, \<open>all\<close> the matching rows, \<open>UPDATE\<close> and \<open>DELETE\<close> act on every matching row and
  report how many there were, \<open>INSERT\<close> appends and fails on a key that is taken. A statement
  without \<open>ORDER BY\<close> reads the table in rowid order; \<open>ORDER BY\<close> sorts stably.
  The second half models three-valued logic for \<open>WHERE\<close> clauses over columns that may be NULL.
\<close>

section \<open>Statements\<close>

definition sql_get :: "('r \<Rightarrow> bool) \<Rightarrow> 'r list \<Rightarrow> 'r option" where
  "sql_get P t = List.find P t"

definition sql_all :: "('r \<Rightarrow> bool) \<Rightarrow> 'r list \<Rightarrow> 'r list" where
  "sql_all P t = filter P t"

definition sql_update :: "('r \<Rightarrow> bool) \<Rightarrow> ('r \<Rightarrow> 'r) \<Rightarrow> 'r list \<Rightarrow> 'r list" where
  "sql_update P f t = List.map (\<lambda>r. if P r then f r else r) t"

definition sql_delete :: "('r \<Rightarrow> bool) \<Rightarrow> 'r list \<Rightarrow> 'r list" where
  "sql_delete P t = filter (\<lambda>r. \<not> P r) t"

definition sql_changes :: "('r \<Rightarrow> bool) \<Rightarrow> 'r list \<Rightarrow> nat" where
  "sql_changes P t = length (filter P t)"

text \<open>\<open>clash r r'\<close>: a PRIMARY KEY or UNIQUE constraint forbids \<open>r\<close> beside \<open>r'\<close>.\<close>

definition sql_insert :: "('r \<Rightarrow> 'r \<Rightarrow> bool) \<Rightarrow> 'r \<Rightarrow> 'r list \<Rightarrow> 'r list option" where
  "sql_insert clash r t = (if \<exists>r' \<in> set t. clash r r' then None else Some (t @ [r]))"

definition sql_insert_ignore :: "('r \<Rightarrow> 'r \<Rightarrow> bool) \<Rightarrow> 'r \<Rightarrow> 'r list \<Rightarrow> 'r list" where
  "sql_insert_ignore clash r t = (if \<exists>r' \<in> set t. clash r r' then t else t @ [r])"

definition order_asc :: "('r \<Rightarrow> 'k :: linorder) \<Rightarrow> 'r list \<Rightarrow> 'r list" where
  "order_asc k t = sort_key k t"

definition order_desc :: "('r \<Rightarrow> 'k :: linorder) \<Rightarrow> 'r list \<Rightarrow> 'r list" where
  "order_desc k t = rev (sort_key k (rev t))"

section \<open>Lemmas\<close>

lemma sql_get_None: "sql_get P t = None \<longleftrightarrow> (\<forall>r \<in> set t. \<not> P r)"
  by (auto simp: sql_get_def find_None_iff)

lemma sql_get_SomeD: "sql_get P t = Some r \<Longrightarrow> r \<in> set t \<and> P r"
  by (auto simp: sql_get_def find_Some_iff)

lemma sql_get_append:
  "sql_get P (t @ u) = (case sql_get P t of None \<Rightarrow> sql_get P u | Some r \<Rightarrow> Some r)"
  by (induction t) (auto simp: sql_get_def)

lemma sql_get_unique:
  assumes "distinct (List.map k t)" "r \<in> set t" "k r = x"
  shows "sql_get (\<lambda>r. k r = x) t = Some r"
  using assms by (induction t) (auto simp: sql_get_def)

lemma sql_get_key_iff:
  assumes "distinct (List.map k t)"
  shows "sql_get (\<lambda>r. k r = x) t = Some r \<longleftrightarrow> r \<in> set t \<and> k r = x"
  using assms sql_get_unique [OF assms] by (auto dest: sql_get_SomeD)

lemma sql_get_update_key:
  assumes "\<And>r. k (f r) = k r"
  shows "sql_get (\<lambda>r. k r = x) (sql_update (\<lambda>r. k r = y) f t) =
    (if x = y then map_option f (sql_get (\<lambda>r. k r = x) t) else sql_get (\<lambda>r. k r = x) t)"
  using assms by (induction t) (auto simp: sql_get_def sql_update_def)

lemma sql_get_filter_key:
  assumes "distinct (List.map k t)"
  shows "sql_get (\<lambda>r. k r = x) (filter P t) =
    (case sql_get (\<lambda>r. k r = x) t of None \<Rightarrow> None | Some r \<Rightarrow> if P r then Some r else None)"
  using assms
proof (induction t)
  case (Cons a t)
  have "sql_get (\<lambda>r. k r = x) t = None" if "k a = x"
    using Cons.prems that by (auto simp: sql_get_None image_iff)
  moreover have "sql_get (\<lambda>r. k r = x) (a # t) = (if k a = x then Some a else sql_get (\<lambda>r. k r = x) t)" for a t
    by (simp add: sql_get_def)
  ultimately show ?case using Cons by auto
qed (simp add: sql_get_def)

lemma sql_get_delete_key:
  "sql_get (\<lambda>r. k r = x) (sql_delete (\<lambda>r. k r = y) t) =
    (if x = y then None else sql_get (\<lambda>r. k r = x) t)"
  by (induction t) (auto simp: sql_get_def sql_delete_def)

lemma set_sql_update: "set (sql_update P f t) = (\<lambda>r. if P r then f r else r) ` set t"
  by (simp add: sql_update_def)

lemma set_sql_delete [simp]: "set (sql_delete P t) = {r \<in> set t. \<not> P r}"
  by (auto simp: sql_delete_def)

lemma set_sql_all [simp]: "set (sql_all P t) = {r \<in> set t. P r}"
  by (auto simp: sql_all_def)

lemma length_sql_update [simp]: "length (sql_update P f t) = length t"
  by (simp add: sql_update_def)

lemma map_key_sql_update [simp]:
  "(\<And>r. k (f r) = k r) \<Longrightarrow> List.map k (sql_update P f t) = List.map k t"
  by (auto simp: sql_update_def)

lemma distinct_sql_delete [simp]:
  "distinct (List.map k t) \<Longrightarrow> distinct (List.map k (sql_delete P t))"
  by (auto simp: sql_delete_def intro: distinct_map_filter)

lemma sql_insert_Some:
  "sql_insert clash r t = Some t' \<longleftrightarrow> t' = t @ [r] \<and> (\<forall>r' \<in> set t. \<not> clash r r')"
  by (auto simp: sql_insert_def)

lemma set_order [simp]: "set (order_asc k t) = set t" "set (order_desc k t) = set t"
  by (simp_all add: order_asc_def order_desc_def)

lemma sorted_order_asc: "sorted (List.map k (order_asc k t))"
  by (simp add: order_asc_def)

lemma sql_changes_pos: "0 < sql_changes P t \<longleftrightarrow> (\<exists>r \<in> set t. P r)"
  by (auto simp: sql_changes_def filter_empty_conv)

lemma sql_update_none: "\<forall>r \<in> set t. \<not> P r \<Longrightarrow> sql_update P f t = t"
  by (induction t) (auto simp: sql_update_def)

section \<open>Transactions\<close>

text \<open>
  \<open>runInTransaction\<close>: \<open>BEGIN\<close>, the body, \<open>COMMIT\<close>; when the body throws, \<open>ROLLBACK\<close> restores the
  database and the error is rethrown. The body returns the database it reached together with
  its result or its error.
\<close>

definition run_in_transaction ::
  "('db \<Rightarrow> 'db \<times> ('e, 'a) res) \<Rightarrow> 'db \<Rightarrow> 'db \<times> ('e, 'a) res" where
  "run_in_transaction body db =
     (case body db of (db', Inr a) \<Rightarrow> (db', Inr a) | (db', Inl e) \<Rightarrow> (db, Inl e))"

lemma run_in_transaction_rollback:
  "snd (run_in_transaction body db) = Inl e \<Longrightarrow> fst (run_in_transaction body db) = db"
  by (auto simp: run_in_transaction_def split: prod.splits sum.splits)

lemma run_in_transaction_commit:
  "run_in_transaction body db = (db', Inr a) \<longleftrightarrow> body db = (db', Inr a)"
  by (auto simp: run_in_transaction_def split: prod.splits sum.splits)

section \<open>Three-valued logic\<close>

text \<open>\<open>None\<close> is NULL. A \<open>WHERE\<close> clause keeps a row when its value is \<open>Some True\<close>.\<close>

type_synonym bool3 = "bool option"

fun and3 :: "bool3 \<Rightarrow> bool3 \<Rightarrow> bool3" where
  "and3 (Some False) _ = Some False"
| "and3 _ (Some False) = Some False"
| "and3 (Some True) (Some True) = Some True"
| "and3 _ _ = None"

fun or3 :: "bool3 \<Rightarrow> bool3 \<Rightarrow> bool3" where
  "or3 (Some True) _ = Some True"
| "or3 _ (Some True) = Some True"
| "or3 (Some False) (Some False) = Some False"
| "or3 _ _ = None"

definition not3 :: "bool3 \<Rightarrow> bool3" where
  "not3 = map_option Not"

definition eq3 :: "'a option \<Rightarrow> 'a option \<Rightarrow> bool3" where
  "eq3 x y = (case (x, y) of (Some a, Some b) \<Rightarrow> Some (a = b) | _ \<Rightarrow> None)"

definition is_null :: "'a option \<Rightarrow> bool3" where
  "is_null x = Some (x = None)"

definition holds :: "bool3 \<Rightarrow> bool" where
  "holds b \<longleftrightarrow> b = Some True"

lemma holds_and3 [simp]: "holds (and3 a b) \<longleftrightarrow> holds a \<and> holds b"
  by (cases "(a, b)" rule: and3.cases) (auto simp: holds_def)

lemma holds_or3 [simp]: "holds (or3 a b) \<longleftrightarrow> holds a \<or> holds b"
  by (cases "(a, b)" rule: or3.cases) (auto simp: holds_def)

lemma holds_is_null [simp]: "holds (is_null x) \<longleftrightarrow> x = None"
  by (simp add: holds_def is_null_def)

lemma holds_eq3 [simp]: "holds (eq3 x y) \<longleftrightarrow> x \<noteq> None \<and> x = y"
  by (auto simp: holds_def eq3_def split: option.splits)

lemma holds_not3_eq3 [simp]: "holds (not3 (eq3 x y)) \<longleftrightarrow> x \<noteq> None \<and> y \<noteq> None \<and> x \<noteq> y"
  by (auto simp: holds_def eq3_def not3_def split: option.splits)

lemma holds_Some [simp]: "holds (Some b) \<longleftrightarrow> b"
  by (simp add: holds_def)

lemma holds_not3_is_null [simp]: "holds (not3 (is_null x)) \<longleftrightarrow> x \<noteq> None"
  by (simp add: holds_def is_null_def not3_def)

end
