(* ===== verification/Wire.thy ===== *)
theory Wire
  imports SqlTables
begin

text \<open>
  The wire types and validators of \<open>packages/sdk/src\<close> that the core components share: messages,
  disposition frames, client identities, runner frames, member names, reserved environment names
  and the bearer-token detector. Attachments and the entries of \<open>data\<close> are JSON values, which
  the modelled code stores and forwards without looking inside; only \<open>data.thread\<close> and
  \<open>data.kind\<close> are read.
\<close>

section \<open>Messages\<close>

type_synonym attachment = json
type_synonym data = "(string \<times> json) list"

datatype log_level = Debug | Info | Notice | Warning | ErrorLevel | Critical

record message =
  m_id :: string
  m_ts :: int
  m_to :: "string option"
  m_from :: "string option"
  m_title :: "string option"
  m_body :: string
  m_level :: log_level
  m_data :: data
  m_attachments :: "attachment list"

record push_payload =
  p_to :: "string option"
  p_title :: "string option"
  p_body :: string
  p_level :: "log_level option"
  p_data :: "data option"
  p_attachments :: "attachment list option"

datatype disposition = Accepted | Acted | Handled | Deferred | Refused

datatype reason_code = RDegraded | RTurnFailed | RExpired | RUnsupported | ROperatorPolicy

type_synonym disposition_reason = "reason_code \<times> string"

record disposition_frame =
  df_message_id :: string
  df_disposition :: disposition
  df_at :: int
  df_reason :: "disposition_reason option"

section \<open>Runners and clients\<close>

datatype runner_kind = ClaudeRunner | CodexRunner | StubRunner
datatype build_source = NpmBuild | MainBuild
datatype supervision = Systemd string | NoSupervision

record runner_identity =
  ri_runner :: runner_kind
  ri_model_id :: "string option"
  ri_version :: string
  ri_build_source :: build_source
  ri_disposition_v1 :: bool    \<comment> \<open>\<open>deliveryProtocol === 'disposition-v1'\<close>; absent is False\<close>
  ri_runner_state_v1 :: bool   \<comment> \<open>\<open>livenessProtocol === 'runner-state-v1'\<close>; absent is False\<close>
  ri_supervision :: "supervision option"

datatype client_identity =
    Runner runner_identity
  | Browser string
  | Cli string
  | Sdk string

datatype condition_code =
  NoCredential | InvalidModel | ModelUnavailable | ServerOverloaded | AuthBlocked | UnknownCode

datatype condition_state = Ready | Degraded

record condition_frame =
  cf_at :: int
  cf_state :: condition_state
  cf_reason :: "(condition_code \<times> string) option"

datatype turn_outcome = TurnActed | TurnNoAction | TurnFailed

datatype turn_phase = TurnStarted | TurnCompleted turn_outcome

record turn_frame =
  tf_at :: int
  tf_turn_id :: string
  tf_phase :: turn_phase

section \<open>Validators\<close>

text \<open>\<open>NameSchema\<close>: 1 to 128 characters of \<open>[a-zA-Z0-9._-]\<close>.\<close>

definition name_char :: "char \<Rightarrow> bool" where
  "name_char c \<longleftrightarrow> is_alnum c \<or> c = CHR ''.'' \<or> c = CHR ''_'' \<or> c = CHR ''-''"

definition name_ok :: "string \<Rightarrow> bool" where
  "name_ok s \<longleftrightarrow> 1 \<le> length s \<and> length s \<le> 128 \<and> list_all name_char s"

text \<open>
  \<open>BEARER_TOKEN_PATTERN\<close>: a delimiter or the start, the prefix, 43 base64url characters, and a
  delimiter or the end. \<open>bearer_here\<close> matches from a given position, \<open>bearer_scan\<close> tries every
  position with the character before it.
\<close>

definition b64url_char :: "char \<Rightarrow> bool" where
  "b64url_char c \<longleftrightarrow> is_alnum c \<or> c = CHR ''_'' \<or> c = CHR ''-''"

definition bearer_here :: "string \<Rightarrow> bool" where
  "bearer_here s \<longleftrightarrow>
     starts_with s ''csuite_'' \<and>
     (let r = drop 7 s in
        length (take 43 r) = 43 \<and> list_all b64url_char (take 43 r) \<and>
        (case drop 43 r of [] \<Rightarrow> True | c # _ \<Rightarrow> \<not> b64url_char c))"

fun bearer_scan :: "bool \<Rightarrow> string \<Rightarrow> bool" where
  "bearer_scan delim [] = False"
| "bearer_scan delim (c # cs) =
     ((delim \<and> bearer_here (c # cs)) \<or> bearer_scan (\<not> b64url_char c) cs)"

definition contains_bearer_token :: "string \<Rightarrow> bool" where
  "contains_bearer_token text = bearer_scan True text"

lemma bearer_scan_iff:
  "bearer_scan d s \<longleftrightarrow>
    (\<exists>pre post. s = pre @ post \<and> bearer_here post \<and>
       (if pre = [] then d else \<not> b64url_char (last pre)))"
proof (induction s arbitrary: d)
  case Nil
  show ?case by (auto simp: bearer_here_def starts_with_def)
next
  case (Cons c cs)
  have "(\<exists>pre post. c # cs = pre @ post \<and> bearer_here post \<and>
       (if pre = [] then d else \<not> b64url_char (last pre))) \<longleftrightarrow>
     (d \<and> bearer_here (c # cs)) \<or>
     (\<exists>pre post. cs = pre @ post \<and> bearer_here post \<and>
       (if pre = [] then \<not> b64url_char c else \<not> b64url_char (last pre)))"
    (is "?L \<longleftrightarrow> ?R")
  proof
    assume ?L
    then obtain pre post where *: "c # cs = pre @ post" "bearer_here post"
      "if pre = [] then d else \<not> b64url_char (last pre)" by blast
    show ?R
    proof (cases pre)
      case Nil
      with * show ?thesis by auto
    next
      case (Cons x xs)
      with * have "cs = xs @ post" "x = c" by auto
      with * Cons show ?thesis by (intro disjI2 exI [of _ xs] exI [of _ post]) (auto split: if_splits)
    qed
  next
    assume ?R
    then consider "d" "bearer_here (c # cs)" | pre post where "cs = pre @ post" "bearer_here post"
      "if pre = [] then \<not> b64url_char c else \<not> b64url_char (last pre)" by blast
    then show ?L
    proof cases
      case 1
      then show ?thesis by (intro exI [of _ "[]"] exI [of _ "c # cs"]) auto
    next
      case (2 pre post)
      then show ?thesis
        by (intro exI [of _ "c # pre"] exI [of _ post]) (auto split: if_splits)
    qed
  qed
  then show ?case by (simp add: Cons.IH)
qed

text \<open>\<open>isReservedEnvName\<close>.\<close>

definition reserved_env_prefixes :: "string list" where
  "reserved_env_prefixes =
     [''CSUITE_'', ''OTEL_'', ''CLAUDE_CODE_'', ''CODEX_'', ''LD_'', ''DYLD_'']"

definition reserved_env_names :: "string list" where
  "reserved_env_names =
     [''PATH'', ''HOME'', ''SHELL'', ''TERM'', ''TMPDIR'', ''USER'', ''LOGNAME'', ''IFS'', ''ENV'',
      ''BASH_ENV'', ''PS4'', ''PROMPT_COMMAND'', ''NODE_OPTIONS'', ''NODE_PATH'',
      ''NODE_EXTRA_CA_CERTS'', ''PYTHONPATH'', ''PYTHONSTARTUP'', ''PERL5LIB'', ''PERL5OPT'',
      ''RUBYOPT'', ''GIT_ASKPASS'', ''SSH_ASKPASS'']"

definition is_reserved_env_name :: "string \<Rightarrow> bool" where
  "is_reserved_env_name name =
     (let upper = js_upper name in
        upper \<in> set reserved_env_names \<or> list_ex (starts_with upper) reserved_env_prefixes)"

section \<open>State-passing calls that may throw\<close>

type_synonym ('s, 'e, 'a) call = "'s \<Rightarrow> 's \<times> ('e, 'a) res"

definition cbind :: "('s, 'e, 'a) call \<Rightarrow> ('a \<Rightarrow> ('s, 'e, 'b) call) \<Rightarrow> ('s, 'e, 'b) call" where
  "cbind m f s = (case m s of (s', Inl e) \<Rightarrow> (s', Inl e) | (s', Inr a) \<Rightarrow> f a s')"

definition cret :: "'a \<Rightarrow> ('s, 'e, 'a) call" where
  "cret a s = (s, Inr a)"

definition cmod :: "('s \<Rightarrow> 's) \<Rightarrow> ('s, 'e, unit) call" where
  "cmod f s = (f s, Inr ())"

lemma cbind_Inr [res_simps]:
  "cbind m f s = (s', Inr b) \<longleftrightarrow> (\<exists>s1 a. m s = (s1, Inr a) \<and> f a s1 = (s', Inr b))"
  by (auto simp: cbind_def split: prod.splits sum.splits)

lemma cret_iff [res_simps, simp]: "cret a s = (s', r) \<longleftrightarrow> s' = s \<and> r = Inr a"
  by (auto simp: cret_def)

lemma cmod_iff [res_simps, simp]: "cmod f s = (s', r) \<longleftrightarrow> s' = f s \<and> r = Inr ()"
  by (auto simp: cmod_def)

end
