(* ===== verification/Objectives.thy ===== *)
theory Objectives
  imports Wire "HOL-Library.Word"
begin

text \<open>
  The objectives store, \<open>packages/core/src/objectives.ts\<close>: two SQLite tables, the four-state
  lifecycle, and the audit log that every lifecycle change appends to. The random UUIDs a call
  draws are its argument \<open>uu\<close> (the i-th draw is \<open>uu i\<close>), the time is its argument \<open>now\<close>. An
  error is its code; the wording of messages is not modelled.
\<close>

section \<open>Data\<close>

datatype obj_status = Active | Blocked | Done | Cancelled

datatype obj_kind =
    KAssigned | KBlocked | KUnblocked | KCompleted | KCancelled | KReassigned
  | KWatcherAdded | KWatcherRemoved | KAmended | KEventCorrected

record objective_row =
  r_id :: string
  r_title :: string
  r_body :: string
  r_outcome :: string
  r_status :: obj_status
  r_assignee :: string
  r_originator :: string
  r_watchers :: json_text
  r_created_at :: int
  r_updated_at :: int
  r_completed_at :: "int option"
  r_result :: "string option"
  r_block_reason :: "string option"
  r_attachments :: json_text

record objective_event_row =
  er_event_id :: "string option"
  er_objective_id :: string
  er_ts :: int
  er_actor :: string
  er_kind :: obj_kind
  er_payload :: json_text

record objective =
  ob_id :: string
  ob_title :: string
  ob_body :: string
  ob_outcome :: string
  ob_status :: obj_status
  ob_assignee :: string
  ob_originator :: string
  ob_watchers :: "string list"
  ob_created_at :: int
  ob_updated_at :: int
  ob_completed_at :: "int option"
  ob_result :: "string option"
  ob_block_reason :: "string option"
  ob_attachments :: "attachment list"

record objective_event =
  oe_id :: string
  oe_objective_id :: string
  oe_ts :: int
  oe_actor :: string
  oe_kind :: obj_kind
  oe_payload :: data

datatype obj_code = ONotFound | OInvalidTransition | OInvalidInput | OTerminal

datatype obj_error = ObjectivesError obj_code | ObjSqlConstraint

type_synonym mutation_result = "objective \<times> objective_event list"

record obj_store =
  o_rows :: "objective_row list"
  o_events :: "objective_event_row list"
  o_counter :: "16 word"

section \<open>Reading rows\<close>

fun json_string :: "json \<Rightarrow> string option" where
  "json_string (JStr s) = Some s"
| "json_string _ = None"

definition parse_watchers :: "json_text \<Rightarrow> string list" where
  "parse_watchers raw =
     (case json_parse raw of Some (JArr vs) \<Rightarrow> List.map_filter json_string vs | _ \<Rightarrow> [])"

definition parse_attachments :: "json_text \<Rightarrow> attachment list" where
  "parse_attachments raw = (case json_parse raw of Some (JArr vs) \<Rightarrow> vs | _ \<Rightarrow> [])"

definition parse_payload :: "json_text \<Rightarrow> data" where
  "parse_payload raw = (case json_parse raw of Some (JObj d) \<Rightarrow> d | _ \<Rightarrow> [])"

definition stringify_watchers :: "string list \<Rightarrow> json_text" where
  "stringify_watchers ws = json_stringify (JArr (List.map JStr ws))"

definition row_to_objective :: "objective_row \<Rightarrow> objective" where
  "row_to_objective r =
     \<lparr> ob_id = r_id r, ob_title = r_title r, ob_body = r_body r, ob_outcome = r_outcome r,
       ob_status = r_status r, ob_assignee = r_assignee r, ob_originator = r_originator r,
       ob_watchers = parse_watchers (r_watchers r), ob_created_at = r_created_at r,
       ob_updated_at = r_updated_at r, ob_completed_at = r_completed_at r,
       ob_result = r_result r, ob_block_reason = r_block_reason r,
       ob_attachments = parse_attachments (r_attachments r) \<rparr>"

definition row_to_event :: "objective_event_row \<Rightarrow> objective_event" where
  "row_to_event r =
     \<lparr> oe_id = (case er_event_id r of None \<Rightarrow> [] | Some i \<Rightarrow> i),
       oe_objective_id = er_objective_id r, oe_ts = er_ts r, oe_actor = er_actor r,
       oe_kind = er_kind r, oe_payload = parse_payload (er_payload r) \<rparr>"

section \<open>Prepared statements\<close>

definition obj_get_row :: "string \<Rightarrow> obj_store \<Rightarrow> objective_row option" where
  "obj_get_row i st = sql_get (\<lambda>r. r_id r = i) (o_rows st)"

definition obj_insert_stmt :: "objective_row \<Rightarrow> (obj_store, obj_error, unit) call" where
  "obj_insert_stmt row st =
     (case sql_insert (\<lambda>r r'. r_id r = r_id r') row (o_rows st) of
        None \<Rightarrow> (st, Inl ObjSqlConstraint)
      | Some t \<Rightarrow> (st\<lparr>o_rows := t\<rparr>, Inr ()))"

definition obj_update_row_stmt ::
  "obj_status \<Rightarrow> string \<Rightarrow> int \<Rightarrow> int option \<Rightarrow> string option \<Rightarrow> string option \<Rightarrow> string \<Rightarrow>
   obj_store \<Rightarrow> obj_store" where
  "obj_update_row_stmt status assignee now completed result reason i st =
     st\<lparr>o_rows := sql_update (\<lambda>r. r_id r = i)
         (\<lambda>r. r\<lparr>r_status := status, r_assignee := assignee, r_updated_at := now,
               r_completed_at := completed, r_result := result, r_block_reason := reason\<rparr>)
         (o_rows st)\<rparr>"

definition obj_update_watchers_stmt :: "json_text \<Rightarrow> int \<Rightarrow> string \<Rightarrow> obj_store \<Rightarrow> obj_store" where
  "obj_update_watchers_stmt ws now i st =
     st\<lparr>o_rows := sql_update (\<lambda>r. r_id r = i) (\<lambda>r. r\<lparr>r_watchers := ws, r_updated_at := now\<rparr>)
         (o_rows st)\<rparr>"

definition obj_update_attachments_stmt :: "json_text \<Rightarrow> int \<Rightarrow> string \<Rightarrow> obj_store \<Rightarrow> obj_store" where
  "obj_update_attachments_stmt as now i st =
     st\<lparr>o_rows := sql_update (\<lambda>r. r_id r = i) (\<lambda>r. r\<lparr>r_attachments := as, r_updated_at := now\<rparr>)
         (o_rows st)\<rparr>"

text \<open>The private \<open>appendEvent\<close>: the event's id is unique by storage.\<close>

definition append_event ::
  "string \<Rightarrow> string \<Rightarrow> int \<Rightarrow> string \<Rightarrow> obj_kind \<Rightarrow> data \<Rightarrow> (obj_store, obj_error, objective_event) call" where
  "append_event u i ts actor kind payload st =
     (let eid = ''ev-'' @ u;
          row = \<lparr>er_event_id = Some eid, er_objective_id = i, er_ts = ts, er_actor = actor,
                 er_kind = kind, er_payload = json_stringify (JObj payload)\<rparr>
      in case sql_insert (\<lambda>r r'. er_event_id r = er_event_id r') row (o_events st) of
           None \<Rightarrow> (st, Inl ObjSqlConstraint)
         | Some t \<Rightarrow> (st\<lparr>o_events := t\<rparr>,
             Inr \<lparr>oe_id = eid, oe_objective_id = i, oe_ts = ts, oe_actor = actor,
                  oe_kind = kind, oe_payload = payload\<rparr>))"

section \<open>Opening the store\<close>

text \<open>
  The constructor's backfill: an event without an id gets \<open>ev-\<close> and its ROWID (its position,
  counted from 1; the table never deletes), and the unique index is then created, which fails on
  a duplicate. Either everything commits or the store does not open.
\<close>

definition backfill_event_id :: "nat \<Rightarrow> objective_event_row \<Rightarrow> objective_event_row" where
  "backfill_event_id rowid e =
     (if er_event_id e = None \<or> er_event_id e = Some []
      then e\<lparr>er_event_id := Some (''ev-'' @ radix_string 10 rowid)\<rparr> else e)"

definition objectives_open :: "(obj_store, obj_error, unit) call" where
  "objectives_open =
     run_in_transaction (\<lambda>st.
       let evs = List.map (\<lambda>(i, e). backfill_event_id i e) (List.enumerate 1 (o_events st));
           leftover = length (filter (\<lambda>e. er_event_id e = None \<or> er_event_id e = Some []) evs)
       in if leftover > 0 then (st, Inl ObjSqlConstraint)
          else if \<not> distinct (List.map er_event_id evs) then (st, Inl ObjSqlConstraint)
          else (st\<lparr>o_events := evs\<rparr>, Inr ()))"

section \<open>Queries\<close>

definition obj_list :: "string option \<Rightarrow> obj_status option \<Rightarrow> obj_store \<Rightarrow> objective list" where
  "obj_list assignee status st =
     (let truthy = (\<lambda>a. a \<noteq> None \<and> a \<noteq> Some []);
          rows = (if truthy assignee \<and> status \<noteq> None
                  then sql_all (\<lambda>r. Some (r_assignee r) = assignee \<and> Some (r_status r) = status) (o_rows st)
                  else if truthy assignee then sql_all (\<lambda>r. Some (r_assignee r) = assignee) (o_rows st)
                  else if status \<noteq> None then sql_all (\<lambda>r. Some (r_status r) = status) (o_rows st)
                  else o_rows st)
      in List.map row_to_objective (order_desc (\<lambda>r. (r_created_at r, r_id r)) rows))"

definition obj_get :: "string \<Rightarrow> obj_store \<Rightarrow> objective option" where
  "obj_get i st = map_option row_to_objective (obj_get_row i st)"

definition obj_event_list :: "string \<Rightarrow> obj_store \<Rightarrow> objective_event list" where
  "obj_event_list i st =
     List.map row_to_event (order_asc er_ts (sql_all (\<lambda>e. er_objective_id e = i) (o_events st)))"

text \<open>Every mutation ends by reading the objective back.\<close>

definition obj_reread ::
  "string \<Rightarrow> objective_event list \<Rightarrow> (obj_store, obj_error, mutation_result) call" where
  "obj_reread i evs st =
     (case obj_get i st of
        None \<Rightarrow> (st, Inl (ObjectivesError ONotFound))
      | Some obj \<Rightarrow> (st, Inr (obj, evs)))"

section \<open>create\<close>

record create_request =
  cr_title :: string
  cr_outcome :: string
  cr_body :: "string option"
  cr_assignee :: string
  cr_watchers :: "string list option"
  cr_attachments :: "attachment list option"

text \<open>The loop that drops empty names, the assignee, the originator and repetitions.\<close>

fun norm_watchers :: "string list \<Rightarrow> string list \<Rightarrow> string list" where
  "norm_watchers seen [] = []"
| "norm_watchers seen (w # ws) =
     (if w = [] then norm_watchers seen ws
      else if w \<in> set seen then norm_watchers seen ws
      else w # norm_watchers (w # seen) ws)"

text \<open>\<open>generateObjectiveId\<close>: a 16-bit counter in the process and the clock, in base 36.\<close>

definition objective_id :: "int \<Rightarrow> 16 word \<Rightarrow> string" where
  "objective_id clock c =
     ''obj-'' @ radix_string 36 (nat clock) @ ''-'' @ radix_string 36 (unat c)"

definition generate_objective_id :: "int \<Rightarrow> obj_store \<Rightarrow> obj_store \<times> string" where
  "generate_objective_id clock st =
     (let c = o_counter st + 1 in (st\<lparr>o_counter := c\<rparr>, objective_id clock c))"

definition obj_create ::
  "(nat \<Rightarrow> string) \<Rightarrow> int \<Rightarrow> create_request \<Rightarrow> string \<Rightarrow> int \<Rightarrow>
   (obj_store, obj_error, mutation_result) call" where
  "obj_create uu clock input originator now st =
     (let title = js_trim (cr_title input);
          outcome = js_trim (cr_outcome input);
          body = js_trim (case cr_body input of None \<Rightarrow> [] | Some b \<Rightarrow> b)
      in if title = [] then (st, Inl (ObjectivesError OInvalidInput))
         else if outcome = [] then (st, Inl (ObjectivesError OInvalidInput))
         else
           (let raw = (case cr_watchers input of None \<Rightarrow> [] | Some ws \<Rightarrow> ws);
                watchers = norm_watchers [cr_assignee input, originator] raw;
                (st1, i) = generate_objective_id clock st
            in cbind
                (run_in_transaction
                  (cbind
                    (obj_insert_stmt
                      \<lparr> r_id = i, r_title = title, r_body = body, r_outcome = outcome,
                        r_status = Active, r_assignee = cr_assignee input,
                        r_originator = originator, r_watchers = stringify_watchers watchers,
                        r_created_at = now, r_updated_at = now, r_completed_at = None,
                        r_result = None, r_block_reason = None,
                        r_attachments = json_stringify
                          (JArr (case cr_attachments input of None \<Rightarrow> [] | Some as \<Rightarrow> as)) \<rparr>)
                    (\<lambda>_. append_event (uu 0) i now originator KAssigned
                      ([(''title'', JStr title), (''outcome'', JStr outcome),
                        (''assignee'', JStr (cr_assignee input))] @
                       (if watchers \<noteq> [] then [(''watchers'', JArr (List.map JStr watchers))] else [])))))
                (\<lambda>e. obj_reread i [e]) st1))"

section \<open>Lifecycle operations\<close>

datatype status_patch = ToActive | ToBlocked

record update_request =
  ur_status :: "status_patch option"
  ur_block_reason :: "string option"

text \<open>The next status and block reason an \<open>update\<close> asks for.\<close>

definition next_lifecycle ::
  "update_request \<Rightarrow> objective \<Rightarrow> obj_status \<times> string option" where
  "next_lifecycle input cur =
     (case ur_status input of
        Some ToBlocked \<Rightarrow>
          (let trimmed = js_trim (case ur_block_reason input of None \<Rightarrow> [] | Some b \<Rightarrow> b)
           in (Blocked, if length trimmed > 0 then Some trimmed else None))
      | Some ToActive \<Rightarrow> (Active, None)
      | None \<Rightarrow> (ob_status cur, ob_block_reason cur))"

fun json_of_option :: "string option \<Rightarrow> json" where
  "json_of_option None = JNull"
| "json_of_option (Some s) = JStr s"

definition obj_update ::
  "(nat \<Rightarrow> string) \<Rightarrow> string \<Rightarrow> update_request \<Rightarrow> string \<Rightarrow> int \<Rightarrow>
   (obj_store, obj_error, mutation_result) call" where
  "obj_update uu i input actor now st =
     (case obj_get i st of
        None \<Rightarrow> (st, Inl (ObjectivesError ONotFound))
      | Some cur \<Rightarrow>
          if ob_status cur = Done \<or> ob_status cur = Cancelled
          then (st, Inl (ObjectivesError OTerminal))
          else
            (let (nextStatus, nextReason) = next_lifecycle input cur
             in if \<not> nextStatus \<noteq> ob_status cur \<and> \<not> nextReason \<noteq> ob_block_reason cur
                then (st, Inr (cur, []))
                else cbind
                  (run_in_transaction
                    (cbind
                      (cmod (obj_update_row_stmt nextStatus (ob_assignee cur) now
                               (ob_completed_at cur) (ob_result cur) nextReason i))
                      (\<lambda>_. if ur_status input = Some ToBlocked \<and> ob_status cur \<noteq> Blocked
                           then cbind (append_event (uu 0) i now actor KBlocked
                                        [(''reason'', json_of_option nextReason)])
                                  (\<lambda>e. cret [e])
                           else if ur_status input = Some ToActive \<and> ob_status cur = Blocked
                           then cbind (append_event (uu 0) i now actor KUnblocked []) (\<lambda>e. cret [e])
                           else cret [])))
                  (obj_reread i) st))"

definition obj_complete ::
  "(nat \<Rightarrow> string) \<Rightarrow> string \<Rightarrow> string \<Rightarrow> string \<Rightarrow> int \<Rightarrow>
   (obj_store, obj_error, mutation_result) call" where
  "obj_complete uu i rawResult actor now st =
     (case obj_get i st of
        None \<Rightarrow> (st, Inl (ObjectivesError ONotFound))
      | Some cur \<Rightarrow>
          if ob_status cur = Done \<or> ob_status cur = Cancelled
          then (st, Inl (ObjectivesError OTerminal))
          else
            (let result = js_trim rawResult
             in if length result = 0 then (st, Inl (ObjectivesError OInvalidInput))
                else cbind
                  (run_in_transaction
                    (cbind
                      (cmod (obj_update_row_stmt Done (ob_assignee cur) now (Some now) (Some result) None i))
                      (\<lambda>_. append_event (uu 0) i now actor KCompleted [(''result'', JStr result)])))
                  (\<lambda>e. obj_reread i [e]) st))"

text \<open>\<open>input.reason?.trim() || null\<close>.\<close>

definition trim_or_null :: "string option \<Rightarrow> string option" where
  "trim_or_null r =
     (case r of None \<Rightarrow> None | Some s \<Rightarrow> if js_trim s = [] then None else Some (js_trim s))"

definition obj_cancel ::
  "(nat \<Rightarrow> string) \<Rightarrow> string \<Rightarrow> string option \<Rightarrow> string \<Rightarrow> int \<Rightarrow>
   (obj_store, obj_error, mutation_result) call" where
  "obj_cancel uu i rawReason actor now st =
     (case obj_get i st of
        None \<Rightarrow> (st, Inl (ObjectivesError ONotFound))
      | Some cur \<Rightarrow>
          if ob_status cur = Done \<or> ob_status cur = Cancelled
          then (st, Inl (ObjectivesError OTerminal))
          else
            (let reason = trim_or_null rawReason
             in cbind
                  (run_in_transaction
                    (cbind
                      (cmod (obj_update_row_stmt Cancelled (ob_assignee cur) now
                               (ob_completed_at cur) (ob_result cur) (ob_block_reason cur) i))
                      (\<lambda>_. append_event (uu 0) i now actor KCancelled
                             (case reason of None \<Rightarrow> [] | Some r \<Rightarrow> [(''reason'', JStr r)]))))
                  (\<lambda>e. obj_reread i [e]) st))"

definition obj_reassign ::
  "(nat \<Rightarrow> string) \<Rightarrow> string \<Rightarrow> string \<Rightarrow> string option \<Rightarrow> string \<Rightarrow> int \<Rightarrow>
   (obj_store, obj_error, mutation_result) call" where
  "obj_reassign uu i to note actor now st =
     (case obj_get i st of
        None \<Rightarrow> (st, Inl (ObjectivesError ONotFound))
      | Some cur \<Rightarrow>
          if ob_status cur = Done \<or> ob_status cur = Cancelled
          then (st, Inl (ObjectivesError OTerminal))
          else if to = ob_assignee cur then (st, Inl (ObjectivesError OInvalidInput))
          else
            (let prev = ob_assignee cur;
                 promote = (prev \<noteq> ob_originator cur \<and> prev \<notin> set (ob_watchers cur));
                 nextWatchers = (if promote then ob_watchers cur @ [prev] else ob_watchers cur)
             in cbind
                  (run_in_transaction
                    (cbind
                      (cmod (obj_update_row_stmt (ob_status cur) to now (ob_completed_at cur)
                               (ob_result cur) (ob_block_reason cur) i))
                      (\<lambda>_. cbind
                        (append_event (uu 0) i now actor KReassigned
                          ([(''from'', JStr prev), (''to'', JStr to)] @
                           (case note of None \<Rightarrow> [] | Some n \<Rightarrow>
                              if n = [] then [] else [(''note'', JStr (js_trim n))])))
                        (\<lambda>e. if promote
                             then cbind (cmod (obj_update_watchers_stmt (stringify_watchers nextWatchers) now i))
                               (\<lambda>_. cbind
                                 (append_event (uu 1) i now actor KWatcherAdded
                                   [(''name'', JStr prev), (''reason'', JStr ''reassigned-from'')])
                                 (\<lambda>e'. cret [e, e']))
                             else cret [e]))))
                  (obj_reread i) st))"

section \<open>Watchers and attachments\<close>

text \<open>The two loops of \<open>updateWatchers\<close>; \<open>acc\<close> is the list built so far.\<close>

fun watchers_to_add :: "string list \<Rightarrow> string \<Rightarrow> string \<Rightarrow> string list \<Rightarrow> string list \<Rightarrow> string list" where
  "watchers_to_add cur assignee originator acc [] = acc"
| "watchers_to_add cur assignee originator acc (cs # rest) =
     (if cs = [] then watchers_to_add cur assignee originator acc rest
      else if cs = assignee \<or> cs = originator then watchers_to_add cur assignee originator acc rest
      else if cs \<in> set cur then watchers_to_add cur assignee originator acc rest
      else if cs \<in> set acc then watchers_to_add cur assignee originator acc rest
      else watchers_to_add cur assignee originator (acc @ [cs]) rest)"

fun watchers_to_remove :: "string list \<Rightarrow> string list \<Rightarrow> string list \<Rightarrow> string list" where
  "watchers_to_remove cur acc [] = acc"
| "watchers_to_remove cur acc (cs # rest) =
     (if cs = [] then watchers_to_remove cur acc rest
      else if cs \<notin> set cur then watchers_to_remove cur acc rest
      else if cs \<in> set acc then watchers_to_remove cur acc rest
      else watchers_to_remove cur (acc @ [cs]) rest)"

fun append_watcher_events ::
  "(nat \<Rightarrow> string) \<Rightarrow> nat \<Rightarrow> string \<Rightarrow> int \<Rightarrow> string \<Rightarrow> obj_kind \<Rightarrow> string list \<Rightarrow>
   (obj_store, obj_error, objective_event list) call" where
  "append_watcher_events uu k i now actor kind [] = cret []"
| "append_watcher_events uu k i now actor kind (w # ws) =
     cbind (append_event (uu k) i now actor kind [(''name'', JStr w)])
       (\<lambda>e. cbind (append_watcher_events uu (Suc k) i now actor kind ws) (\<lambda>es. cret (e # es)))"

definition obj_update_watchers ::
  "(nat \<Rightarrow> string) \<Rightarrow> string \<Rightarrow> string list option \<Rightarrow> string list option \<Rightarrow> string \<Rightarrow> int \<Rightarrow>
   (obj_store, obj_error, mutation_result) call" where
  "obj_update_watchers uu i add remove actor now st =
     (case obj_get i st of
        None \<Rightarrow> (st, Inl (ObjectivesError ONotFound))
      | Some cur \<Rightarrow>
          (let toAdd = watchers_to_add (ob_watchers cur) (ob_assignee cur) (ob_originator cur) []
                         (case add of None \<Rightarrow> [] | Some a \<Rightarrow> a);
               toRemove = watchers_to_remove (ob_watchers cur) [] (case remove of None \<Rightarrow> [] | Some r \<Rightarrow> r)
           in if length toAdd = 0 \<and> length toRemove = 0 then (st, Inr (cur, []))
              else
                (let nextWatchers = filter (\<lambda>w. w \<notin> set toRemove) (ob_watchers cur) @ toAdd
                 in cbind
                   (run_in_transaction
                     (cbind (cmod (obj_update_watchers_stmt (stringify_watchers nextWatchers) now i))
                       (\<lambda>_. cbind (append_watcher_events uu 0 i now actor KWatcherAdded toAdd)
                         (\<lambda>es. cbind (append_watcher_events uu (length toAdd) i now actor KWatcherRemoved toRemove)
                           (\<lambda>es'. cret (es @ es'))))))
                   (obj_reread i) st)))"

definition obj_set_attachments ::
  "string \<Rightarrow> attachment list \<Rightarrow> int \<Rightarrow> (obj_store, obj_error, objective) call" where
  "obj_set_attachments i as now st =
     (case obj_get i st of
        None \<Rightarrow> (st, Inl (ObjectivesError ONotFound))
      | Some cur \<Rightarrow>
          (let st' = obj_update_attachments_stmt (json_stringify (JArr as)) now i st
           in case obj_get i st' of
                None \<Rightarrow> (st', Inl (ObjectivesError ONotFound))
              | Some updated \<Rightarrow> (st', Inr updated)))"

section \<open>Thread membership\<close>

text \<open>
  \<open>objectiveThreadMembers\<close> of \<open>packages/core/src/app.ts\<close>; \<open>managers\<close> are the names of the
  members with \<open>members.manage\<close>.
\<close>

definition objective_thread_members ::
  "string list \<Rightarrow> objective \<Rightarrow> objective_event option \<Rightarrow> string list" where
  "objective_thread_members managers obj extra =
     js_set ([ob_assignee obj, ob_originator obj] @ ob_watchers obj @ managers @
       (case extra of None \<Rightarrow> []
        | Some ev \<Rightarrow>
           (case oe_kind ev of
              KReassigned \<Rightarrow> (case map_of (oe_payload ev) ''from'' of Some (JStr n) \<Rightarrow> [n] | _ \<Rightarrow> [])
            | KWatcherRemoved \<Rightarrow> (case map_of (oe_payload ev) ''name'' of Some (JStr n) \<Rightarrow> [n] | _ \<Rightarrow> [])
            | _ \<Rightarrow> [])))"

end
