(* ===== verification/ObjectiveCalls.thy ===== *)
theory ObjectiveCalls
  imports Objectives
begin

text \<open>
  What each call of the objectives store did: either it left both tables alone, or it rewrote the
  one row it was about and appended audit rows about that objective and nothing else
  (\<open>obj_commit\<close>). The invariant, the audit log and the lifecycle all follow from these cases.
\<close>

section \<open>What a successful call did\<close>

definition event_row :: "string \<Rightarrow> string \<Rightarrow> int \<Rightarrow> string \<Rightarrow> obj_kind \<Rightarrow> data \<Rightarrow> objective_event_row" where
  "event_row u i ts actor kind payload =
     \<lparr>er_event_id = Some (''ev-'' @ u), er_objective_id = i, er_ts = ts, er_actor = actor,
      er_kind = kind, er_payload = json_stringify (JObj payload)\<rparr>"

lemma event_row_sel [simp]:
  "er_event_id (event_row u i ts a k p) = Some (''ev-'' @ u)"
  "er_objective_id (event_row u i ts a k p) = i"
  "er_ts (event_row u i ts a k p) = ts"
  "er_actor (event_row u i ts a k p) = a"
  "er_kind (event_row u i ts a k p) = k"
  "er_payload (event_row u i ts a k p) = json_stringify (JObj p)"
  by (simp_all add: event_row_def)

lemma parse_payload_stringify [simp]: "parse_payload (json_stringify (JObj p)) = p"
  by (simp add: parse_payload_def)

lemma parse_stringify_watchers [simp]: "parse_watchers (stringify_watchers ws) = ws"
  by (induction ws) (auto simp: parse_watchers_def stringify_watchers_def List.map_filter_simps)

lemma append_event_eq:
  "append_event u i ts a k p st =
     (if Some (''ev-'' @ u) \<in> er_event_id ` set (o_events st) then (st, Inl ObjSqlConstraint)
      else (st\<lparr>o_events := o_events st @ [event_row u i ts a k p]\<rparr>,
            Inr (row_to_event (event_row u i ts a k p))))"
proof (cases "Some (''ev-'' @ u) \<in> er_event_id ` set (o_events st)")
  case True
  then have "\<exists>r' \<in> set (o_events st). Some (''ev-'' @ u) = er_event_id r'" by auto
  with True show ?thesis
    by (simp add: append_event_def sql_insert_def)
next
  case False
  then have "\<not> (\<exists>r' \<in> set (o_events st). Some (''ev-'' @ u) = er_event_id r')" by auto
  with False show ?thesis
    by (simp add: append_event_def sql_insert_def event_row_def row_to_event_def Let_def)
qed

text \<open>
  \<open>obj_commit i f new st st'\<close>: the call found objective \<open>i\<close>, rewrote its row with \<open>f\<close>, appended the
  audit rows \<open>new\<close>, all of them about \<open>i\<close> and under fresh ids, and touched nothing else.
\<close>

definition obj_commit ::
  "string \<Rightarrow> (objective_row \<Rightarrow> objective_row) \<Rightarrow> objective_event_row list \<Rightarrow> obj_store \<Rightarrow> obj_store \<Rightarrow> bool" where
  "obj_commit i f new st st' \<longleftrightarrow>
     (\<exists>r. obj_get_row i st = Some r) \<and> (\<forall>r. r_id (f r) = r_id r) \<and>
     (\<forall>e \<in> set new. er_objective_id e = i) \<and>
     (distinct (List.map er_event_id (o_events st)) \<longrightarrow> distinct (List.map er_event_id (o_events st @ new))) \<and>
     st' = st\<lparr>o_rows := sql_update (\<lambda>r. r_id r = i) f (o_rows st), o_events := o_events st @ new\<rparr>"

lemma sql_update_twice:
  "(\<And>r. P (f r) = P r) \<Longrightarrow> sql_update P g (sql_update P f t) = sql_update P (\<lambda>r. g (f r)) t"
  by (auto simp: sql_update_def)

lemma obj_commit_get:
  assumes "obj_commit i f new st st'" "obj_get_row i st = Some r"
  shows "obj_get_row i st' = Some (f r)"
  using assms
  by (auto simp: obj_commit_def obj_get_row_def sql_get_update_key [of r_id])

lemma obj_commit_other:
  assumes "obj_commit i f new st st'" "j \<noteq> i"
  shows "obj_get_row j st' = obj_get_row j st"
  using assms
  by (auto simp: obj_commit_def obj_get_row_def sql_get_update_key [of r_id])

lemma obj_get_Some:
  "obj_get i st = Some obj \<longleftrightarrow> (\<exists>r. obj_get_row i st = Some r \<and> obj = row_to_objective r)"
  by (auto simp: obj_get_def)

lemma obj_get_row_events [simp]:
  "obj_get_row i (st\<lparr>o_events := evs\<rparr>) = obj_get_row i st"
  "obj_get_row i (st\<lparr>o_counter := c\<rparr>) = obj_get_row i st"
  by (simp_all add: obj_get_row_def)

lemma row_to_objective_sel [simp]:
  "ob_id (row_to_objective r) = r_id r"
  "ob_status (row_to_objective r) = r_status r"
  "ob_assignee (row_to_objective r) = r_assignee r"
  "ob_originator (row_to_objective r) = r_originator r"
  "ob_watchers (row_to_objective r) = parse_watchers (r_watchers r)"
  "ob_completed_at (row_to_objective r) = r_completed_at r"
  "ob_result (row_to_objective r) = r_result r"
  "ob_block_reason (row_to_objective r) = r_block_reason r"
  by (simp_all add: row_to_objective_def)

abbreviation set_lifecycle ::
  "obj_status \<Rightarrow> string \<Rightarrow> int \<Rightarrow> int option \<Rightarrow> string option \<Rightarrow> string option \<Rightarrow> objective_row \<Rightarrow> objective_row" where
  "set_lifecycle s a now c res reason r \<equiv>
     r\<lparr>r_status := s, r_assignee := a, r_updated_at := now, r_completed_at := c,
       r_result := res, r_block_reason := reason\<rparr>"

lemma obj_reread_commit:
  assumes "obj_commit i f new st st'" "obj_get_row i st = Some r"
  shows "obj_reread i evs st' = (st', Inr (row_to_objective (f r), evs))"
  using obj_commit_get [OF assms] by (simp add: obj_reread_def obj_get_def)


definition upd_row :: "string \<Rightarrow> (objective_row \<Rightarrow> objective_row) \<Rightarrow> obj_store \<Rightarrow> obj_store" where
  "upd_row i f st = st\<lparr>o_rows := sql_update (\<lambda>r. r_id r = i) f (o_rows st)\<rparr>"

lemma obj_update_row_stmt_eq:
  "obj_update_row_stmt s a now c res reason i = upd_row i (set_lifecycle s a now c res reason)"
  by (rule ext) (simp add: obj_update_row_stmt_def upd_row_def)

lemma obj_update_watchers_stmt_eq:
  "obj_update_watchers_stmt ws now i = upd_row i (\<lambda>r. r\<lparr>r_watchers := ws, r_updated_at := now\<rparr>)"
  by (rule ext) (simp add: obj_update_watchers_stmt_def upd_row_def)

lemma obj_update_attachments_stmt_eq:
  "obj_update_attachments_stmt as now i = upd_row i (\<lambda>r. r\<lparr>r_attachments := as, r_updated_at := now\<rparr>)"
  by (rule ext) (simp add: obj_update_attachments_stmt_def upd_row_def)

lemmas obj_stmts = obj_update_row_stmt_eq obj_update_watchers_stmt_eq obj_update_attachments_stmt_eq

lemma append_event_Inr:
  "append_event u i ts a k p st = (st', Inr e) \<longleftrightarrow>
     Some (''ev-'' @ u) \<notin> er_event_id ` set (o_events st) \<and>
     st' = st\<lparr>o_events := o_events st @ [event_row u i ts a k p]\<rparr> \<and>
     e = row_to_event (event_row u i ts a k p)"
  by (auto simp: append_event_eq)

text \<open>One piece of a transaction body: rewrite row \<open>i\<close>, append rows about \<open>i\<close>.\<close>

lemma obj_commit_row:
  assumes "obj_get_row i st = Some r" "\<And>r. r_id (f r) = r_id r"
  shows "obj_commit i f [] st (upd_row i f st)"
  using assms by (auto simp: obj_commit_def upd_row_def)

lemma obj_commit_event:
  assumes "obj_commit i f new st st1" "append_event u i ts a k p st1 = (st2, Inr e)"
  shows "obj_commit i f (new @ [event_row u i ts a k p]) st st2"
proof -
  have "Some (''ev-'' @ u) \<notin> er_event_id ` set (o_events st @ new)"
    using assms by (auto simp: append_event_Inr obj_commit_def)
  then show ?thesis using assms
    by (auto simp: append_event_Inr obj_commit_def)
qed

lemma obj_commit_row_again:
  assumes "obj_commit i f new st st1" "\<And>r. r_id (g r) = r_id r"
  shows "obj_commit i (\<lambda>r. g (f r)) new st (upd_row i g st1)"
  using assms by (auto simp: obj_commit_def upd_row_def sql_update_twice)

lemma append_watcher_events_commit:
  assumes "obj_commit i f new st st1"
    and "append_watcher_events uu k i now actor kind ws st1 = (st2, Inr es)"
  shows "\<exists>us. length us = length ws \<and>
    obj_commit i f (new @ List.map (\<lambda>(u, w). event_row u i now actor kind [(''name'', JStr w)]) (zip us ws)) st st2 \<and>
    es = List.map (\<lambda>(u, w). row_to_event (event_row u i now actor kind [(''name'', JStr w)])) (zip us ws)"
  using assms
proof (induction ws arbitrary: k new st1 es)
  case Nil
  then show ?case by auto
next
  case (Cons w ws)
  from Cons.prems(2) obtain s1 e es' where
    e: "append_event (uu k) i now actor kind [(''name'', JStr w)] st1 = (s1, Inr e)" and
    rest: "append_watcher_events uu (Suc k) i now actor kind ws s1 = (st2, Inr es')" and
    es: "es = e # es'"
    by (auto simp: cbind_Inr)
  from Cons.IH [OF obj_commit_event [OF Cons.prems(1) e] rest] obtain us where us:
    "length us = length ws"
    "obj_commit i f ((new @ [event_row (uu k) i now actor kind [(''name'', JStr w)]]) @
       List.map (\<lambda>(u, w). event_row u i now actor kind [(''name'', JStr w)]) (zip us ws)) st st2"
    "es' = List.map (\<lambda>(u, w). row_to_event (event_row u i now actor kind [(''name'', JStr w)])) (zip us ws)"
    by auto
  with es e show ?case
    by (intro exI [of _ "uu k # us"]) (auto simp: append_event_Inr)
qed

lemma txn_cases:
  assumes run: "cbind (run_in_transaction body) (\<lambda>a. obj_reread i (g a)) st = (st', res)"
    and row: "obj_get_row i st = Some r"
    and body: "\<And>st1 a. body st = (st1, Inr a) \<Longrightarrow> \<exists>new. obj_commit i f new st st1 \<and> Q a new"
  shows "(\<exists>e. res = Inl e \<and> st' = st) \<or>
    (\<exists>a new. obj_commit i f new st st' \<and> Q a new \<and> res = Inr (row_to_objective (f r), g a))"
proof (cases "body st")
  case (Pair st1 x)
  show ?thesis
  proof (cases x)
    case (Inl e')
    with Pair run show ?thesis
      by (auto simp: cbind_def run_in_transaction_def)
  next
    case (Inr a)
    with body Pair obtain new where c: "obj_commit i f new st st1" "Q a new" by blast
    from Pair Inr run obj_reread_commit [OF c(1) row] have "st' = st1" "res = Inr (row_to_objective (f r), g a)"
      by (auto simp: cbind_def run_in_transaction_def)
    with c show ?thesis by blast
  qed
qed

definition open_status :: "obj_status \<Rightarrow> bool" where
  "open_status s \<longleftrightarrow> s \<noteq> Done \<and> s \<noteq> Cancelled"

text \<open>The transaction bodies, as commits.\<close>

lemma body_one_event:
  assumes "obj_get_row i st = Some r" "\<And>r. r_id (f r) = r_id r"
    and "cbind (cmod (upd_row i f)) (\<lambda>_. append_event u i now actor k p) st = (st1, Inr e)"
  shows "obj_commit i f [event_row u i now actor k p] st st1 \<and> e = row_to_event (event_row u i now actor k p)"
proof -
  from assms(3) have ae: "append_event u i now actor k p (upd_row i f st) = (st1, Inr e)"
    by (auto simp: cbind_Inr)
  from obj_commit_event [OF obj_commit_row [OF assms(1,2)] ae] ae show ?thesis
    by (auto simp: append_event_Inr)
qed


lemma obj_complete_cases:
  assumes "obj_complete uu i raw actor now st = (st', res)"
  shows "(\<exists>e. res = Inl e \<and> st' = st) \<or>
    (\<exists>r. obj_get_row i st = Some r \<and> open_status (r_status r) \<and> js_trim raw \<noteq> [] \<and>
      obj_commit i (set_lifecycle Done (r_assignee r) now (Some now) (Some (js_trim raw)) None)
         [event_row (uu 0) i now actor KCompleted [(''result'', JStr (js_trim raw))]] st st' \<and>
      res = Inr (row_to_objective (set_lifecycle Done (r_assignee r) now (Some now) (Some (js_trim raw)) None r),
                  [row_to_event (event_row (uu 0) i now actor KCompleted [(''result'', JStr (js_trim raw))])]))"
proof (cases "obj_get_row i st")
  case None
  with assms show ?thesis by (auto simp: obj_complete_def obj_get_def)
next
  case (Some r)
  let ?f = "set_lifecycle Done (r_assignee r) now (Some now) (Some (js_trim raw)) None"
  let ?ev = "event_row (uu 0) i now actor KCompleted [(''result'', JStr (js_trim raw))]"
  let ?body = "cbind (cmod (upd_row i ?f)) (\<lambda>_. append_event (uu 0) i now actor KCompleted [(''result'', JStr (js_trim raw))])"
  show ?thesis
  proof (cases "open_status (r_status r) \<and> js_trim raw \<noteq> []")
    case False
    with assms Some show ?thesis
      by (auto simp: obj_complete_def obj_get_def open_status_def Let_def split: if_splits)
  next
    case True
    with assms Some have run: "cbind (run_in_transaction ?body) (\<lambda>e. obj_reread i [e]) st = (st', res)"
      by (auto simp: obj_complete_def obj_get_def open_status_def Let_def obj_stmts)
    have "\<exists>new. obj_commit i ?f new st st1 \<and> (new = [?ev] \<and> e = row_to_event ?ev)"
      if "?body st = (st1, Inr e)" for st1 e
      using body_one_event [OF Some _ that] by auto
    from txn_cases [where Q = "\<lambda>e new. new = [?ev] \<and> e = row_to_event ?ev", OF run Some this]
    consider (err) e where "res = Inl e" "st' = st"
      | (ok) "obj_commit i ?f [?ev] st st'" "res = Inr (row_to_objective (?f r), [row_to_event ?ev])"
      by blast
    then show ?thesis
    proof cases
      case err
      then show ?thesis by simp
    next
      case ok
      with True Some show ?thesis by (intro disjI2 exI [of _ r] conjI) simp_all
    qed
  qed
qed

lemma obj_cancel_cases:
  assumes "obj_cancel uu i raw actor now st = (st', res)"
  defines "p \<equiv> (case trim_or_null raw of None \<Rightarrow> [] | Some x \<Rightarrow> [(''reason'', JStr x)])"
  shows "(\<exists>e. res = Inl e \<and> st' = st) \<or>
    (\<exists>r. obj_get_row i st = Some r \<and> open_status (r_status r) \<and>
      obj_commit i (set_lifecycle Cancelled (r_assignee r) now (r_completed_at r) (r_result r) (r_block_reason r))
         [event_row (uu 0) i now actor KCancelled p] st st' \<and>
      res = Inr (row_to_objective (set_lifecycle Cancelled (r_assignee r) now (r_completed_at r) (r_result r) (r_block_reason r) r),
                  [row_to_event (event_row (uu 0) i now actor KCancelled p)]))"
proof (cases "obj_get_row i st")
  case None
  with assms show ?thesis by (auto simp: obj_cancel_def obj_get_def)
next
  case (Some r)
  let ?f = "set_lifecycle Cancelled (r_assignee r) now (r_completed_at r) (r_result r) (r_block_reason r)"
  let ?ev = "event_row (uu 0) i now actor KCancelled p"
  let ?body = "cbind (cmod (upd_row i ?f)) (\<lambda>_. append_event (uu 0) i now actor KCancelled p)"
  show ?thesis
  proof (cases "open_status (r_status r)")
    case False
    with assms(1) Some show ?thesis
      by (auto simp: obj_cancel_def obj_get_def open_status_def Let_def split: if_splits)
  next
    case True
    with assms(1) Some have run: "cbind (run_in_transaction ?body) (\<lambda>e. obj_reread i [e]) st = (st', res)"
      by (auto simp: obj_cancel_def obj_get_def open_status_def Let_def obj_stmts p_def)
    have "\<exists>new. obj_commit i ?f new st st1 \<and> (new = [?ev] \<and> e = row_to_event ?ev)"
      if "?body st = (st1, Inr e)" for st1 e
      using body_one_event [OF Some _ that] by auto
    from txn_cases [where Q = "\<lambda>e new. new = [?ev] \<and> e = row_to_event ?ev", OF run Some this]
    consider (err) e where "res = Inl e" "st' = st"
      | (ok) "obj_commit i ?f [?ev] st st'" "res = Inr (row_to_objective (?f r), [row_to_event ?ev])"
      by blast
    then show ?thesis
    proof cases
      case err
      then show ?thesis by simp
    next
      case ok
      with True Some show ?thesis by (intro disjI2 exI [of _ r] conjI) simp_all
    qed
  qed
qed

text \<open>The audit rows an \<open>update\<close> appends: one when the status changes, none otherwise.\<close>

definition update_events ::
  "(nat \<Rightarrow> string) \<Rightarrow> string \<Rightarrow> update_request \<Rightarrow> string \<Rightarrow> int \<Rightarrow> objective_row \<Rightarrow> objective_event_row list" where
  "update_events uu i input actor now r =
     (if ur_status input = Some ToBlocked \<and> r_status r \<noteq> Blocked
      then [event_row (uu 0) i now actor KBlocked
             [(''reason'', json_of_option (snd (next_lifecycle input (row_to_objective r))))]]
      else if ur_status input = Some ToActive \<and> r_status r = Blocked
      then [event_row (uu 0) i now actor KUnblocked []]
      else [])"

lemma obj_update_cases:
  assumes "obj_update uu i input actor now st = (st', res)"
  shows "(\<exists>e. res = Inl e \<and> st' = st) \<or>
    (\<exists>r. obj_get_row i st = Some r \<and> open_status (r_status r) \<and> st' = st \<and>
       res = Inr (row_to_objective r, []) \<and>
       next_lifecycle input (row_to_objective r) = (r_status r, r_block_reason r)) \<or>
    (\<exists>r s b. obj_get_row i st = Some r \<and> open_status (r_status r) \<and>
      next_lifecycle input (row_to_objective r) = (s, b) \<and> (s, b) \<noteq> (r_status r, r_block_reason r) \<and>
      obj_commit i (set_lifecycle s (r_assignee r) now (r_completed_at r) (r_result r) b)
         (update_events uu i input actor now r) st st' \<and>
      res = Inr (row_to_objective (set_lifecycle s (r_assignee r) now (r_completed_at r) (r_result r) b r),
                 List.map row_to_event (update_events uu i input actor now r)))"
proof (cases "obj_get_row i st")
  case None
  with assms show ?thesis by (auto simp: obj_update_def obj_get_def)
next
  case (Some r)
  obtain s b where nl: "next_lifecycle input (row_to_objective r) = (s, b)" by force
  let ?f = "set_lifecycle s (r_assignee r) now (r_completed_at r) (r_result r) b"
  let ?evs = "update_events uu i input actor now r"
  let ?tail = "\<lambda>_. if ur_status input = Some ToBlocked \<and> r_status r \<noteq> Blocked
                 then cbind (append_event (uu 0) i now actor KBlocked [(''reason'', json_of_option b)]) (\<lambda>e. cret [e])
                 else if ur_status input = Some ToActive \<and> r_status r = Blocked
                 then cbind (append_event (uu 0) i now actor KUnblocked []) (\<lambda>e. cret [e])
                 else cret []"
  let ?body = "cbind (cmod (upd_row i ?f)) ?tail"
  show ?thesis
  proof (cases "open_status (r_status r) \<and> (s, b) \<noteq> (r_status r, r_block_reason r)")
    case False
    with assms Some nl show ?thesis
      by (auto simp: obj_update_def obj_get_def open_status_def Let_def split: if_splits)
  next
    case True
    with assms Some nl have run: "cbind (run_in_transaction ?body) (obj_reread i) st = (st', res)"
      by (auto simp: obj_update_def obj_get_def open_status_def Let_def obj_stmts split: if_splits)
    have "\<exists>new. obj_commit i ?f new st st1 \<and> (new = ?evs \<and> es = List.map row_to_event ?evs)"
      if "?body st = (st1, Inr es)" for st1 es
    proof -
      from that have t: "?tail () (upd_row i ?f st) = (st1, Inr es)" by (auto simp: cbind_Inr)
      have c: "obj_commit i ?f [] st (upd_row i ?f st)" by (rule obj_commit_row [OF Some]) simp
      show ?thesis using t nl c obj_commit_event [OF c]
        by (auto simp: update_events_def cbind_Inr append_event_Inr split: if_splits)
    qed
    from txn_cases [where Q = "\<lambda>es new. new = ?evs \<and> es = List.map row_to_event ?evs", OF run Some this]
    consider (err) e where "res = Inl e" "st' = st"
      | (ok) "obj_commit i ?f ?evs st st'" "res = Inr (row_to_objective (?f r), List.map row_to_event ?evs)"
      by blast
    then show ?thesis
    proof cases
      case err
      then show ?thesis by simp
    next
      case ok
      with True Some nl show ?thesis
        by (intro disjI2 exI [of _ r] exI [of _ s] exI [of _ b] conjI) simp_all
    qed
  qed
qed


lemma obj_reassign_cases:
  assumes "obj_reassign uu i to note actor now st = (st', res)"
  shows "(\<exists>e. res = Inl e \<and> st' = st) \<or>
    (\<exists>r ws new p. obj_get_row i st = Some r \<and> open_status (r_status r) \<and> to \<noteq> r_assignee r \<and>
      ws = parse_watchers (r_watchers r) \<and>
      map_of p ''to'' = Some (JStr to) \<and> map_of p ''from'' = Some (JStr (r_assignee r)) \<and>
      (if r_assignee r \<noteq> r_originator r \<and> r_assignee r \<notin> set ws
       then new = [event_row (uu 0) i now actor KReassigned p,
                   event_row (uu 1) i now actor KWatcherAdded
                     [(''name'', JStr (r_assignee r)), (''reason'', JStr ''reassigned-from'')]] \<and>
            obj_commit i (\<lambda>x. (set_lifecycle (r_status r) to now (r_completed_at r) (r_result r) (r_block_reason r) x)
               \<lparr>r_watchers := stringify_watchers (ws @ [r_assignee r]), r_updated_at := now\<rparr>) new st st'
       else new = [event_row (uu 0) i now actor KReassigned p] \<and>
            obj_commit i (set_lifecycle (r_status r) to now (r_completed_at r) (r_result r) (r_block_reason r)) new st st') \<and>
      (\<exists>r'. obj_get_row i st' = Some r' \<and> res = Inr (row_to_objective r', List.map row_to_event new)))"
proof (cases "obj_get_row i st")
  case None
  with assms show ?thesis by (auto simp: obj_reassign_def obj_get_def)
next
  case (Some r)
  define ws where "ws = parse_watchers (r_watchers r)"
  define promote where "promote \<longleftrightarrow> r_assignee r \<noteq> r_originator r \<and> r_assignee r \<notin> set ws"
  define p where "p = [(''from'', JStr (r_assignee r)), (''to'', JStr to)] @
      (case note of None \<Rightarrow> [] | Some n \<Rightarrow> if n = [] then [] else [(''note'', JStr (js_trim n))])"
  define f0 :: "objective_row \<Rightarrow> objective_row" where "f0 = set_lifecycle (r_status r) to now (r_completed_at r) (r_result r) (r_block_reason r)"
  define g :: "objective_row \<Rightarrow> objective_row" where "g = (\<lambda>x. x\<lparr>r_watchers := stringify_watchers (ws @ [r_assignee r]), r_updated_at := now\<rparr>)"
  define f :: "objective_row \<Rightarrow> objective_row" where "f = (if promote then \<lambda>x. g (f0 x) else f0)"
  define wp where "wp = [(''name'', JStr (r_assignee r)), (''reason'', JStr ''reassigned-from'')]"
  let ?e0 = "event_row (uu 0) i now actor KReassigned p"
  let ?e1 = "event_row (uu 1) i now actor KWatcherAdded wp"
  define evs where "evs = (if promote then [?e0, ?e1] else [?e0])"
  let ?body = "cbind (cmod (upd_row i f0)) (\<lambda>_. cbind (append_event (uu 0) i now actor KReassigned p)
     (\<lambda>e. if promote then cbind (cmod (upd_row i g))
             (\<lambda>_. cbind (append_event (uu 1) i now actor KWatcherAdded wp) (\<lambda>e'. cret [e, e']))
           else cret [e]))"
  have ids: "\<And>x. r_id (f0 x) = r_id x" "\<And>x. r_id (g x) = r_id x" by (simp_all add: f0_def g_def)
  show ?thesis
  proof (cases "open_status (r_status r) \<and> to \<noteq> r_assignee r")
    case False
    with assms Some show ?thesis
      by (auto simp: obj_reassign_def obj_get_def open_status_def Let_def split: if_splits)
  next
    case True
    with assms Some have run: "cbind (run_in_transaction ?body) (obj_reread i) st = (st', res)"
      by (auto simp: obj_reassign_def obj_get_def open_status_def Let_def obj_stmts ws_def promote_def
          p_def f0_def g_def wp_def cong: if_cong)
    have "\<exists>new. obj_commit i f new st st1 \<and> (new = evs \<and> es = List.map row_to_event evs)"
      if b: "?body st = (st1, Inr es)" for st1 es
    proof -
      from b obtain s2 e where a: "append_event (uu 0) i now actor KReassigned p (upd_row i f0 st) = (s2, Inr e)"
        and t: "(if promote then cbind (cmod (upd_row i g))
             (\<lambda>_. cbind (append_event (uu 1) i now actor KWatcherAdded wp) (\<lambda>e'. cret [e, e']))
           else cret [e]) s2 = (st1, Inr es)" by (auto simp: cbind_Inr)
      have c0: "obj_commit i f0 [?e0] st s2"
        using obj_commit_event [OF obj_commit_row [where f = f0, OF Some ids(1)] a] by simp
      from a have e: "e = row_to_event ?e0" by (simp add: append_event_Inr)
      show ?thesis
      proof (cases promote)
        case False
        with t c0 e show ?thesis by (auto simp: f_def evs_def)
      next
        case True
        with t obtain e' where a': "append_event (uu 1) i now actor KWatcherAdded wp (upd_row i g s2) = (st1, Inr e')"
          and es: "es = [e, e']" by (auto simp: cbind_Inr)
        from obj_commit_event [OF obj_commit_row_again [where g = g, OF c0 ids(2)] a']
        have "obj_commit i (\<lambda>x. g (f0 x)) [?e0, ?e1] st st1" by simp
        with True es e a' show ?thesis by (auto simp: f_def evs_def append_event_Inr)
      qed
    qed
    from txn_cases [where Q = "\<lambda>es new. new = evs \<and> es = List.map row_to_event evs", OF run Some this]
    consider (err) e where "res = Inl e" "st' = st"
      | (ok) "obj_commit i f evs st st'" "res = Inr (row_to_objective (f r), List.map row_to_event evs)"
      by auto
    then show ?thesis
    proof cases
      case ok
      have "obj_get_row i st' = Some (f r)" using obj_commit_get [OF ok(1) Some] .
      moreover have "map_of p ''to'' = Some (JStr to)" "map_of p ''from'' = Some (JStr (r_assignee r))"
        by (simp_all add: p_def)
      ultimately show ?thesis using ok True Some
        by (intro disjI2 exI [of _ r] exI [of _ ws] exI [of _ evs] exI [of _ p])
          (auto simp: ws_def promote_def f_def evs_def f0_def g_def wp_def)
    qed auto
  qed
qed

lemma set_watchers_to_add:
  "set (watchers_to_add cur a orig acc xs) =
     set acc \<union> {x \<in> set xs. x \<noteq> [] \<and> x \<noteq> a \<and> x \<noteq> orig \<and> x \<notin> set cur}"
  by (induction cur a orig acc xs rule: watchers_to_add.induct) auto

lemma distinct_watchers_to_add: "distinct acc \<Longrightarrow> distinct (watchers_to_add cur a orig acc xs)"
  by (induction cur a orig acc xs rule: watchers_to_add.induct) auto

lemma set_watchers_to_remove:
  "set (watchers_to_remove cur acc xs) = set acc \<union> {x \<in> set xs. x \<noteq> [] \<and> x \<in> set cur}"
  by (induction cur acc xs rule: watchers_to_remove.induct) auto

definition watcher_event_rows ::
  "string \<Rightarrow> int \<Rightarrow> string \<Rightarrow> obj_kind \<Rightarrow> string list \<Rightarrow> string list \<Rightarrow> objective_event_row list" where
  "watcher_event_rows i now actor kind us ws =
     List.map (\<lambda>(u, w). event_row u i now actor kind [(''name'', JStr w)]) (zip us ws)"

lemma obj_update_watchers_cases:
  assumes "obj_update_watchers uu i add remove actor now st = (st', res)"
  shows "(\<exists>e. res = Inl e \<and> st' = st) \<or>
    (\<exists>r. obj_get_row i st = Some r \<and> st' = st \<and> res = Inr (row_to_objective r, [])) \<or>
    (\<exists>r ws adds removes us us'. obj_get_row i st = Some r \<and> ws = parse_watchers (r_watchers r) \<and>
      adds = watchers_to_add ws (r_assignee r) (r_originator r) [] (case add of None \<Rightarrow> [] | Some a \<Rightarrow> a) \<and>
      removes = watchers_to_remove ws [] (case remove of None \<Rightarrow> [] | Some a \<Rightarrow> a) \<and>
      length us = length adds \<and> length us' = length removes \<and>
      obj_commit i (\<lambda>x. x\<lparr>r_watchers := stringify_watchers (filter (\<lambda>w. w \<notin> set removes) ws @ adds),
                         r_updated_at := now\<rparr>)
        (watcher_event_rows i now actor KWatcherAdded us adds @
         watcher_event_rows i now actor KWatcherRemoved us' removes) st st' \<and>
      (\<exists>r'. obj_get_row i st' = Some r' \<and>
        res = Inr (row_to_objective r', List.map row_to_event
          (watcher_event_rows i now actor KWatcherAdded us adds @
           watcher_event_rows i now actor KWatcherRemoved us' removes))))"
proof (cases "obj_get_row i st")
  case None
  with assms show ?thesis by (auto simp: obj_update_watchers_def obj_get_def)
next
  case (Some r)
  define ws where "ws = parse_watchers (r_watchers r)"
  define adds where "adds = watchers_to_add ws (r_assignee r) (r_originator r) [] (case add of None \<Rightarrow> [] | Some a \<Rightarrow> a)"
  define removes where "removes = watchers_to_remove ws [] (case remove of None \<Rightarrow> [] | Some a \<Rightarrow> a)"
  define f :: "objective_row \<Rightarrow> objective_row" where "f = (\<lambda>x. x\<lparr>r_watchers := stringify_watchers (filter (\<lambda>w. w \<notin> set removes) ws @ adds),
                         r_updated_at := now\<rparr>)"
  let ?body = "cbind (cmod (upd_row i f))
     (\<lambda>_. cbind (append_watcher_events uu 0 i now actor KWatcherAdded adds)
       (\<lambda>es. cbind (append_watcher_events uu (length adds) i now actor KWatcherRemoved removes)
         (\<lambda>es'. cret (es @ es'))))"
  let ?rows = "\<lambda>us us'. watcher_event_rows i now actor KWatcherAdded us adds @
         watcher_event_rows i now actor KWatcherRemoved us' removes"
  let ?Q = "\<lambda>es new. \<exists>us us'. length us = length adds \<and> length us' = length removes \<and>
     new = ?rows us us' \<and> es = List.map row_to_event (?rows us us')"
  show ?thesis
  proof (cases "adds = [] \<and> removes = []")
    case True
    with assms Some show ?thesis
      by (auto simp: obj_update_watchers_def obj_get_def Let_def ws_def adds_def removes_def)
  next
    case False
    with assms Some have run: "cbind (run_in_transaction ?body) (obj_reread i) st = (st', res)"
      by (auto simp: obj_update_watchers_def obj_get_def Let_def obj_stmts ws_def adds_def removes_def f_def)
    have "\<exists>new. obj_commit i f new st st1 \<and> ?Q es new" if b: "?body st = (st1, Inr es)" for st1 es
    proof -
      from b obtain s2 e1 e2 where
        a1: "append_watcher_events uu 0 i now actor KWatcherAdded adds (upd_row i f st) = (s2, Inr e1)" and
        a2: "append_watcher_events uu (length adds) i now actor KWatcherRemoved removes s2 = (st1, Inr e2)" and
        es: "es = e1 @ e2" by (auto simp: cbind_Inr)
      have "obj_commit i f [] st (upd_row i f st)" by (rule obj_commit_row [OF Some]) (simp add: f_def)
      from append_watcher_events_commit [OF this a1] obtain us where us: "length us = length adds"
        "obj_commit i f ([] @ watcher_event_rows i now actor KWatcherAdded us adds) st s2"
        "e1 = List.map row_to_event (watcher_event_rows i now actor KWatcherAdded us adds)"
        by (auto simp: watcher_event_rows_def comp_def split_def)
      from append_watcher_events_commit [OF us(2) a2] obtain us' where us': "length us' = length removes"
        "obj_commit i f (?rows us us') st st1"
        "e2 = List.map row_to_event (watcher_event_rows i now actor KWatcherRemoved us' removes)"
        by (auto simp: watcher_event_rows_def comp_def split_def)
      from us us' es show ?thesis by (intro exI [of _ "?rows us us'"]) auto
    qed
    from txn_cases [where Q = ?Q, OF run Some this]
    consider (err) e where "res = Inl e" "st' = st"
      | (ok) us us' where "obj_commit i f (?rows us us') st st'" "length us = length adds" "length us' = length removes"
          "res = Inr (row_to_objective (f r), List.map row_to_event (?rows us us'))"
      by auto
    then show ?thesis
    proof cases
      case ok
      have "obj_get_row i st' = Some (f r)" using obj_commit_get [OF ok(1) Some] .
      with ok Some show ?thesis
        by (intro disjI2 exI [of _ r] exI [of _ ws] exI [of _ adds] exI [of _ removes] exI [of _ us] exI [of _ us'])
          (simp add: ws_def adds_def removes_def f_def)
    qed auto
  qed
qed

end
