(* ===== verification/ObjectiveAudit.thy ===== *)
theory ObjectiveAudit
  imports ObjectiveCalls
begin

text \<open>
  The objectives store as an event-sourced state machine: the audit log determines status,
  assignee, watchers and result of every objective (\<open>replay\<close> is the abstract machine), nothing is
  ever removed from it, and a terminal objective keeps its contract for good.
\<close>

section \<open>Replaying the audit log\<close>

record lifecycle =
  lc_status :: obj_status
  lc_assignee :: string
  lc_watchers :: "string list"
  lc_result :: "string option"

definition payload_str :: "string \<Rightarrow> data \<Rightarrow> string" where
  "payload_str k d = (case map_of d k of Some (JStr s) \<Rightarrow> s | _ \<Rightarrow> [])"

definition payload_names :: "string \<Rightarrow> data \<Rightarrow> string list" where
  "payload_names k d =
     (case map_of d k of Some (JArr vs) \<Rightarrow> List.map_filter json_string vs | _ \<Rightarrow> [])"

fun apply_event :: "obj_kind \<Rightarrow> data \<Rightarrow> lifecycle \<Rightarrow> lifecycle" where
  "apply_event KAssigned p lc =
     \<lparr>lc_status = Active, lc_assignee = payload_str ''assignee'' p,
      lc_watchers = payload_names ''watchers'' p, lc_result = None\<rparr>"
| "apply_event KBlocked p lc = lc\<lparr>lc_status := Blocked\<rparr>"
| "apply_event KUnblocked p lc = lc\<lparr>lc_status := Active\<rparr>"
| "apply_event KCompleted p lc =
     lc\<lparr>lc_status := Done, lc_result := Some (payload_str ''result'' p)\<rparr>"
| "apply_event KCancelled p lc = lc\<lparr>lc_status := Cancelled\<rparr>"
| "apply_event KReassigned p lc = lc\<lparr>lc_assignee := payload_str ''to'' p\<rparr>"
| "apply_event KWatcherAdded p lc = lc\<lparr>lc_watchers := lc_watchers lc @ [payload_str ''name'' p]\<rparr>"
| "apply_event KWatcherRemoved p lc =
     lc\<lparr>lc_watchers := filter (\<lambda>w. w \<noteq> payload_str ''name'' p) (lc_watchers lc)\<rparr>"
| "apply_event KAmended p lc = lc"
| "apply_event KEventCorrected p lc = lc"

definition replay_from :: "objective_event_row list \<Rightarrow> lifecycle \<Rightarrow> lifecycle" where
  "replay_from evs lc = fold (\<lambda>e. apply_event (er_kind e) (parse_payload (er_payload e))) evs lc"

definition replay :: "objective_event_row list \<Rightarrow> lifecycle" where
  "replay evs =
     replay_from evs \<lparr>lc_status = Active, lc_assignee = [], lc_watchers = [], lc_result = None\<rparr>"

definition row_lifecycle :: "objective_row \<Rightarrow> lifecycle" where
  "row_lifecycle r =
     \<lparr>lc_status = r_status r, lc_assignee = r_assignee r,
      lc_watchers = parse_watchers (r_watchers r), lc_result = r_result r\<rparr>"

definition objective_events :: "string \<Rightarrow> obj_store \<Rightarrow> objective_event_row list" where
  "objective_events i st = sql_all (\<lambda>e. er_objective_id e = i) (o_events st)"

lemma replay_from_append [simp]: "replay_from (xs @ ys) lc = replay_from ys (replay_from xs lc)"
  by (simp add: replay_from_def)

lemma replay_from_Nil [simp]: "replay_from [] lc = lc"
  by (simp add: replay_from_def)

lemma replay_from_event [simp]:
  "replay_from (event_row u i ts a k p # evs) lc = replay_from evs (apply_event k p lc)"
  by (simp add: replay_from_def)

lemma payload_str_Cons [simp]:
  "payload_str k ((k', v) # d) = (if k' = k then (case v of JStr s \<Rightarrow> s | _ \<Rightarrow> []) else payload_str k d)"
  by (auto simp: payload_str_def split: json.splits)

lemma payload_names_Cons [simp]:
  "payload_names k ((k', v) # d) =
     (if k' = k then (case v of JArr vs \<Rightarrow> List.map_filter json_string vs | _ \<Rightarrow> []) else payload_names k d)"
  by (auto simp: payload_names_def split: json.splits)

lemma payload_names_Nil [simp]: "payload_names k [] = []"
  by (simp add: payload_names_def)

lemma map_filter_JStr [simp]: "List.map_filter json_string (List.map JStr ws) = ws"
  by (induction ws) (simp_all add: List.map_filter_simps)

lemma payload_str_map_of: "map_of p k = Some (JStr s) \<Longrightarrow> payload_str k p = s"
  by (simp add: payload_str_def)

lemma replay_watchers_added:
  "length us = length ws \<Longrightarrow>
   replay_from (watcher_event_rows i now a KWatcherAdded us ws) lc = lc\<lparr>lc_watchers := lc_watchers lc @ ws\<rparr>"
  by (induction us ws arbitrary: lc rule: list_induct2) (auto simp: watcher_event_rows_def)

lemma replay_watchers_removed:
  "length us = length ws \<Longrightarrow>
   replay_from (watcher_event_rows i now a KWatcherRemoved us ws) lc =
     lc\<lparr>lc_watchers := filter (\<lambda>w. w \<notin> set ws) (lc_watchers lc)\<rparr>"
  by (induction us ws arbitrary: lc rule: list_induct2)
    (auto simp: watcher_event_rows_def intro!: arg_cong [where f = "\<lambda>x. lifecycle.lc_watchers_update (\<lambda>_. x) _"]
      filter_cong)

section \<open>The invariant\<close>

text \<open>
  What holds of every row: the watchers column is the JSON of a list of distinct names without the
  originator; title and outcome are trimmed and not empty; an objective is done exactly when it has
  a completion time and exactly when it has a result, which is trimmed and not empty; an active or
  done objective has no block reason.
\<close>

definition row_ok :: "objective_row \<Rightarrow> bool" where
  "row_ok r \<longleftrightarrow>
     r_watchers r = stringify_watchers (parse_watchers (r_watchers r)) \<and>
     distinct (parse_watchers (r_watchers r)) \<and>
     r_originator r \<notin> set (parse_watchers (r_watchers r)) \<and>
     js_trim (r_title r) = r_title r \<and> r_title r \<noteq> [] \<and>
     js_trim (r_outcome r) = r_outcome r \<and> r_outcome r \<noteq> [] \<and>
     (r_status r = Done \<longleftrightarrow> r_completed_at r \<noteq> None) \<and>
     (r_status r = Done \<longleftrightarrow> r_result r \<noteq> None) \<and>
     (\<forall>x. r_result r = Some x \<longrightarrow> js_trim x = x \<and> x \<noteq> []) \<and>
     (r_status r = Active \<or> r_status r = Done \<longrightarrow> r_block_reason r = None)"

definition obj_inv :: "obj_store \<Rightarrow> bool" where
  "obj_inv st \<longleftrightarrow>
     distinct (List.map r_id (o_rows st)) \<and>
     distinct (List.map er_event_id (o_events st)) \<and>
     (\<forall>e \<in> set (o_events st). er_objective_id e \<in> r_id ` set (o_rows st)) \<and>
     (\<forall>r \<in> set (o_rows st). row_ok r \<and> replay (objective_events (r_id r) st) = row_lifecycle r)"

lemma obj_inv_row:
  assumes "obj_inv st" "obj_get_row i st = Some r"
  shows "row_ok r" "replay (objective_events i st) = row_lifecycle r" "r_id r = i" "r \<in> set (o_rows st)"
  using assms by (auto simp: obj_inv_def obj_get_row_def dest: sql_get_SomeD)

lemma obj_inv_commit:
  assumes inv: "obj_inv st" and c: "obj_commit i f new st st'" and row: "obj_get_row i st = Some r"
    and ok: "row_ok (f r)" and rep: "replay_from new (row_lifecycle r) = row_lifecycle (f r)"
  shows "obj_inv st'"
proof -
  from c have st': "st' = st\<lparr>o_rows := sql_update (\<lambda>r. r_id r = i) f (o_rows st), o_events := o_events st @ new\<rparr>"
    and ids: "\<And>r. r_id (f r) = r_id r" and about: "\<forall>e \<in> set new. er_objective_id e = i"
    and dist: "distinct (List.map er_event_id (o_events st')) "
    using inv by (auto simp: obj_commit_def obj_inv_def)
  have key: "r_id ` set (o_rows st') = r_id ` set (o_rows st)"
  proof -
    have "List.map r_id (o_rows st') = List.map r_id (o_rows st)" using ids by (simp add: st')
    then show ?thesis by (metis list.set_map)
  qed
  have uniq: "x = r" if "x \<in> set (o_rows st)" "r_id x = i" for x
  proof -
    have "sql_get (\<lambda>r. r_id r = i) (o_rows st) = Some x"
      using inv that by (intro sql_get_unique) (auto simp: obj_inv_def)
    with row show ?thesis by (simp add: obj_get_row_def)
  qed
  have evs: "objective_events j st' = objective_events j st @ (if j = i then new else [])" for j
    using about by (auto simp: objective_events_def sql_all_def st' filter_empty_conv intro: filter_True)
  have "row_ok x' \<and> replay (objective_events (r_id x') st') = row_lifecycle x'" if x': "x' \<in> set (o_rows st')" for x'
  proof -
    from x' obtain x where x: "x \<in> set (o_rows st)" "x' = (if r_id x = i then f x else x)"
      by (auto simp: st' set_sql_update)
    show ?thesis
    proof (cases "r_id x = i")
      case True
      with x uniq have "x' = f r" "x = r" by auto
      with ok rep ids evs True obj_inv_row [OF inv row] show ?thesis by (simp add: replay_def)
    next
      case False
      with x inv evs show ?thesis by (auto simp: obj_inv_def)
    qed
  qed
  moreover have "\<forall>e \<in> set (o_events st'). er_objective_id e \<in> r_id ` set (o_rows st')"
    using inv about obj_inv_row [OF inv row] key by (auto simp: st' obj_inv_def)
  ultimately show ?thesis using inv dist ids
    by (auto simp: obj_inv_def st')
qed

lemma obj_inv_create:
  assumes inv: "obj_inv st" and fresh: "i \<notin> r_id ` set (o_rows st)" and rid: "r_id row = i"
    and ok: "row_ok row" and about: "er_objective_id ev = i"
    and new: "er_event_id ev \<notin> er_event_id ` set (o_events st)"
    and rep: "replay [ev] = row_lifecycle row"
  shows "obj_inv (st\<lparr>o_counter := c, o_rows := o_rows st @ [row], o_events := o_events st @ [ev]\<rparr>)"
proof -
  have "objective_events i st = []"
    using inv fresh by (auto simp: objective_events_def sql_all_def obj_inv_def filter_empty_conv)
  then show ?thesis using assms
    by (auto simp: obj_inv_def objective_events_def sql_all_def)
qed


lemma norm_watchers_set: "set (norm_watchers seen ws) = {w \<in> set ws. w \<noteq> [] \<and> w \<notin> set seen}"
  by (induction seen ws rule: norm_watchers.induct) auto

lemma norm_watchers_distinct: "distinct (norm_watchers seen ws)"
  by (induction seen ws rule: norm_watchers.induct) (auto simp: norm_watchers_set)

text \<open>The row and the audit row \<open>create\<close> writes.\<close>

definition created_row :: "string \<Rightarrow> create_request \<Rightarrow> string \<Rightarrow> int \<Rightarrow> objective_row" where
  "created_row i input originator now =
     \<lparr> r_id = i, r_title = js_trim (cr_title input),
       r_body = js_trim (case cr_body input of None \<Rightarrow> [] | Some b \<Rightarrow> b),
       r_outcome = js_trim (cr_outcome input), r_status = Active,
       r_assignee = cr_assignee input, r_originator = originator,
       r_watchers = stringify_watchers (norm_watchers [cr_assignee input, originator]
          (case cr_watchers input of None \<Rightarrow> [] | Some ws \<Rightarrow> ws)),
       r_created_at = now, r_updated_at = now, r_completed_at = None, r_result = None,
       r_block_reason = None,
       r_attachments = json_stringify
          (JArr (case cr_attachments input of None \<Rightarrow> [] | Some as \<Rightarrow> as)) \<rparr>"

definition created_payload :: "string \<Rightarrow> create_request \<Rightarrow> data" where
  "created_payload originator input =
     (let watchers = norm_watchers [cr_assignee input, originator]
          (case cr_watchers input of None \<Rightarrow> [] | Some ws \<Rightarrow> ws)
      in [(''title'', JStr (js_trim (cr_title input))), (''outcome'', JStr (js_trim (cr_outcome input))),
          (''assignee'', JStr (cr_assignee input))] @
         (if watchers \<noteq> [] then [(''watchers'', JArr (List.map JStr watchers))] else []))"

definition created_event :: "string \<Rightarrow> string \<Rightarrow> create_request \<Rightarrow> string \<Rightarrow> int \<Rightarrow> objective_event_row" where
  "created_event u i input originator now = event_row u i now originator KAssigned (created_payload originator input)"

lemma obj_create_eq:
  "obj_create uu clock input originator now st =
    (let c = o_counter st + 1; i = objective_id clock c
     in if js_trim (cr_title input) = [] \<or> js_trim (cr_outcome input) = []
        then (st, Inl (ObjectivesError OInvalidInput))
        else if i \<in> r_id ` set (o_rows st) \<or> Some (''ev-'' @ uu 0) \<in> er_event_id ` set (o_events st)
        then (st\<lparr>o_counter := c\<rparr>, Inl ObjSqlConstraint)
        else (st\<lparr>o_counter := c, o_rows := o_rows st @ [created_row i input originator now],
                o_events := o_events st @ [created_event (uu 0) i input originator now]\<rparr>,
              Inr (row_to_objective (created_row i input originator now),
                   [row_to_event (created_event (uu 0) i input originator now)])))"
proof (cases "js_trim (cr_title input) = [] \<or> js_trim (cr_outcome input) = []")
  case True
  then show ?thesis by (auto simp: obj_create_def Let_def)
next
  case False
  define c where "c = o_counter st + 1"
  define i where "i = objective_id clock c"
  let ?row = "created_row i input originator now"
  let ?ev = "created_event (uu 0) i input originator now"
  let ?st1 = "st\<lparr>o_counter := c\<rparr>"
  let ?st2 = "?st1\<lparr>o_rows := o_rows st @ [?row]\<rparr>"
  let ?p = "created_payload originator input"
  have run: "obj_create uu clock input originator now st =
      cbind (run_in_transaction (cbind (obj_insert_stmt ?row)
        (\<lambda>_. append_event (uu 0) i now originator KAssigned ?p))) (\<lambda>e. obj_reread i [e]) ?st1"
    using False
    by (simp add: obj_create_def Let_def generate_objective_id_def created_row_def created_payload_def
        c_def [symmetric] i_def [symmetric] cong: if_cong)
  have ev: "event_row (uu 0) i now originator KAssigned ?p = ?ev" by (simp add: created_event_def)
  have rid: "r_id ?row = i" by (simp add: created_row_def)
  show ?thesis
  proof (cases "i \<in> r_id ` set (o_rows st)")
    case True
    then have "obj_insert_stmt ?row ?st1 = (?st1, Inl ObjSqlConstraint)"
      by (auto simp: obj_insert_stmt_def sql_insert_def rid)
    with run True False show ?thesis
      by (simp add: cbind_def run_in_transaction_def c_def [symmetric] i_def [symmetric])
  next
    case fresh: False
    then have ins: "obj_insert_stmt ?row ?st1 = (?st2, Inr ())"
      by (auto simp: obj_insert_stmt_def sql_insert_def rid)
    show ?thesis
    proof (cases "Some (''ev-'' @ uu 0) \<in> er_event_id ` set (o_events st)")
      case True
      with run ins False show ?thesis
        by (simp add: cbind_def run_in_transaction_def append_event_eq c_def [symmetric] i_def [symmetric])
    next
      case new: False
      let ?st3 = "?st2\<lparr>o_events := o_events st @ [?ev]\<rparr>"
      have ae: "append_event (uu 0) i now originator KAssigned ?p ?st2 = (?st3, Inr (row_to_event ?ev))"
        using new by (simp add: append_event_eq ev)
      have "sql_get (\<lambda>r. r_id r = i) (o_rows st) = None"
        using fresh by (auto simp: sql_get_None)
      then have "obj_get i ?st3 = Some (row_to_objective ?row)"
        by (simp add: obj_get_def obj_get_row_def sql_get_append rid) (simp add: sql_get_def rid)
      with run ins ae False fresh new show ?thesis
        by (simp add: cbind_def run_in_transaction_def obj_reread_def c_def [symmetric] i_def [symmetric])
    qed
  qed
qed

lemma obj_create_cases:
  assumes "obj_create uu clock input originator now st = (st', res)"
  defines "c \<equiv> o_counter st + 1"
  defines "i \<equiv> objective_id clock c"
  shows "(\<exists>e. res = Inl e \<and> (st' = st \<or> st' = st\<lparr>o_counter := c\<rparr>)) \<or>
    (js_trim (cr_title input) \<noteq> [] \<and> js_trim (cr_outcome input) \<noteq> [] \<and>
     i \<notin> r_id ` set (o_rows st) \<and> Some (''ev-'' @ uu 0) \<notin> er_event_id ` set (o_events st) \<and>
     st' = st\<lparr>o_counter := c, o_rows := o_rows st @ [created_row i input originator now],
              o_events := o_events st @ [created_event (uu 0) i input originator now]\<rparr> \<and>
     res = Inr (row_to_objective (created_row i input originator now),
                [row_to_event (created_event (uu 0) i input originator now)]))"
  using assms(1) unfolding obj_create_eq Let_def c_def i_def by (simp split: if_splits) blast+

lemma obj_inv_counter [simp]: "obj_inv (st\<lparr>o_counter := c\<rparr>) = obj_inv st"
  by (simp add: obj_inv_def objective_events_def)

section \<open>Every call keeps the invariant\<close>

lemma create_inv [inv_intros]:
  assumes "obj_create uu clock input originator now st = (st', res)" "obj_inv st"
  shows "obj_inv st'"
proof -
  define i where "i = objective_id clock (o_counter st + 1)"
  from obj_create_cases [OF assms(1), folded i_def]
  consider "st' = st \<or> st' = st\<lparr>o_counter := o_counter st + 1\<rparr>" | (ok)
    "js_trim (cr_title input) \<noteq> []" "js_trim (cr_outcome input) \<noteq> []"
     "i \<notin> r_id ` set (o_rows st)" "Some (''ev-'' @ uu 0) \<notin> er_event_id ` set (o_events st)"
     "st' = st\<lparr>o_counter := o_counter st + 1, o_rows := o_rows st @ [created_row i input originator now],
              o_events := o_events st @ [created_event (uu 0) i input originator now]\<rparr>"
    by blast
  then show ?thesis
  proof cases
    case ok
    have rok: "row_ok (created_row i input originator now)"
      using ok by (simp add: row_ok_def created_row_def norm_watchers_set norm_watchers_distinct)
    have rep: "replay [created_event (uu 0) i input originator now] = row_lifecycle (created_row i input originator now)"
      by (simp add: replay_def created_event_def created_payload_def Let_def row_lifecycle_def created_row_def)
    show ?thesis unfolding ok(5)
      by (rule obj_inv_create [OF assms(2) ok(3) _ rok _ _ rep])
        (use ok in \<open>auto simp: created_row_def created_event_def Let_def\<close>)
  qed (use assms in auto)
qed

lemma complete_inv [inv_intros]:
  assumes "obj_complete uu i raw actor now st = (st', res)" "obj_inv st"
  shows "obj_inv st'"
proof -
  from obj_complete_cases [OF assms(1)]
  consider "st' = st" | (ok) r where "obj_get_row i st = Some r" "open_status (r_status r)" "js_trim raw \<noteq> []"
      "obj_commit i (set_lifecycle Done (r_assignee r) now (Some now) (Some (js_trim raw)) None)
         [event_row (uu 0) i now actor KCompleted [(''result'', JStr (js_trim raw))]] st st'"
    by blast
  then show ?thesis
  proof cases
    case ok
    from obj_inv_row [OF assms(2) ok(1)] show ?thesis
      by (intro obj_inv_commit [OF assms(2) ok(4,1)])
        (use ok in \<open>auto simp: row_ok_def row_lifecycle_def\<close>)
  qed (use assms in simp)
qed

lemma cancel_inv [inv_intros]:
  assumes "obj_cancel uu i raw actor now st = (st', res)" "obj_inv st"
  shows "obj_inv st'"
proof -
  from obj_cancel_cases [OF assms(1)]
  consider "st' = st" | (ok) r p where "obj_get_row i st = Some r" "open_status (r_status r)"
      "obj_commit i (set_lifecycle Cancelled (r_assignee r) now (r_completed_at r) (r_result r) (r_block_reason r))
         [event_row (uu 0) i now actor KCancelled p] st st'"
    by blast
  then show ?thesis
  proof cases
    case ok
    from obj_inv_row [OF assms(2) ok(1)] show ?thesis
      by (intro obj_inv_commit [OF assms(2) ok(3,1)])
        (use ok in \<open>auto simp: row_ok_def row_lifecycle_def open_status_def\<close>)
  qed (use assms in simp)
qed

lemma next_lifecycle_cases:
  "next_lifecycle input cur =
     (case ur_status input of
        None \<Rightarrow> (ob_status cur, ob_block_reason cur)
      | Some ToActive \<Rightarrow> (Active, None)
      | Some ToBlocked \<Rightarrow> (Blocked, trim_or_null (ur_block_reason input)))"
  by (auto simp: next_lifecycle_def trim_or_null_def Let_def split: option.splits status_patch.splits)

lemma update_inv [inv_intros]:
  assumes "obj_update uu i input actor now st = (st', res)" "obj_inv st"
  shows "obj_inv st'"
proof -
  from obj_update_cases [OF assms(1)]
  consider "st' = st" | (ok) r s b where "obj_get_row i st = Some r" "open_status (r_status r)"
      "next_lifecycle input (row_to_objective r) = (s, b)" "(s, b) \<noteq> (r_status r, r_block_reason r)"
      "obj_commit i (set_lifecycle s (r_assignee r) now (r_completed_at r) (r_result r) b)
         (update_events uu i input actor now r) st st'"
    by blast
  then show ?thesis
  proof cases
    case ok
    from obj_inv_row [OF assms(2) ok(1)] have r: "row_ok r" by simp
    have st: "ur_status input \<noteq> None" using ok(3,4) by (cases "ur_status input") (auto simp: next_lifecycle_cases)
    show ?thesis
    proof (rule obj_inv_commit [OF assms(2) ok(5,1)])
      show "row_ok (set_lifecycle s (r_assignee r) now (r_completed_at r) (r_result r) b r)"
        using r ok(2,3,4) st
        by (auto simp: row_ok_def open_status_def next_lifecycle_cases split: status_patch.splits option.splits)
      show "replay_from (update_events uu i input actor now r) (row_lifecycle r) =
        row_lifecycle (set_lifecycle s (r_assignee r) now (r_completed_at r) (r_result r) b r)"
        using r ok(2,3,4) st
        by (cases "r_status r") (auto simp: row_ok_def update_events_def open_status_def next_lifecycle_cases row_lifecycle_def
            split: status_patch.splits option.splits)
    qed
  qed (use assms in simp)
qed

lemma reassign_inv [inv_intros]:
  assumes "obj_reassign uu i to note actor now st = (st', res)" "obj_inv st"
  shows "obj_inv st'"
proof -
  from obj_reassign_cases [OF assms(1)]
  consider (same) "st' = st"
    | (promote) r p where "obj_get_row i st = Some r" "open_status (r_status r)"
        "map_of p ''to'' = Some (JStr to)"
        "r_assignee r \<noteq> r_originator r" "r_assignee r \<notin> set (parse_watchers (r_watchers r))"
        "obj_commit i (\<lambda>x. (set_lifecycle (r_status r) to now (r_completed_at r) (r_result r) (r_block_reason r) x)
               \<lparr>r_watchers := stringify_watchers (parse_watchers (r_watchers r) @ [r_assignee r]), r_updated_at := now\<rparr>)
           [event_row (uu 0) i now actor KReassigned p,
                   event_row (uu 1) i now actor KWatcherAdded
                     [(''name'', JStr (r_assignee r)), (''reason'', JStr ''reassigned-from'')]] st st'"
    | (plain) r p where "obj_get_row i st = Some r" "open_status (r_status r)"
        "map_of p ''to'' = Some (JStr to)"
        "obj_commit i (set_lifecycle (r_status r) to now (r_completed_at r) (r_result r) (r_block_reason r))
           [event_row (uu 0) i now actor KReassigned p] st st'"
    by (elim disjE exE conjE) (auto split: if_splits)
  then show ?thesis
  proof cases
    case promote
    from obj_inv_row [OF assms(2) promote(1)] show ?thesis
      by (intro obj_inv_commit [OF assms(2) promote(6,1)])
        (use promote in \<open>auto simp: row_ok_def row_lifecycle_def open_status_def payload_str_map_of\<close>)
  next
    case plain
    from obj_inv_row [OF assms(2) plain(1)] show ?thesis
      by (intro obj_inv_commit [OF assms(2) plain(4,1)])
        (use plain in \<open>auto simp: row_ok_def row_lifecycle_def open_status_def payload_str_map_of\<close>)
  qed (use assms in simp)
qed

lemma update_watchers_inv [inv_intros]:
  assumes "obj_update_watchers uu i add remove actor now st = (st', res)" "obj_inv st"
  shows "obj_inv st'"
proof -
  from obj_update_watchers_cases [OF assms(1)]
  consider (same) "st' = st" | (ok) r ws adds removes us us' where "obj_get_row i st = Some r"
      "ws = parse_watchers (r_watchers r)"
      "adds = watchers_to_add ws (r_assignee r) (r_originator r) [] (case add of None \<Rightarrow> [] | Some a \<Rightarrow> a)"
      "removes = watchers_to_remove ws [] (case remove of None \<Rightarrow> [] | Some a \<Rightarrow> a)"
      "length us = length adds" "length us' = length removes"
      "obj_commit i (\<lambda>x. x\<lparr>r_watchers := stringify_watchers (filter (\<lambda>w. w \<notin> set removes) ws @ adds),
                         r_updated_at := now\<rparr>)
        (watcher_event_rows i now actor KWatcherAdded us adds @
         watcher_event_rows i now actor KWatcherRemoved us' removes) st st'"
    by blast
  then show ?thesis
  proof cases
    case ok
    have disj: "set adds \<inter> set removes = {}" "set adds \<inter> set ws = {}" "r_originator r \<notin> set adds" "distinct adds"
      by (auto simp: ok set_watchers_to_add set_watchers_to_remove distinct_watchers_to_add)
    then have "filter (\<lambda>w. w \<notin> set removes) adds = adds" by (auto intro: filter_True)
    with obj_inv_row [OF assms(2) ok(1)] disj show ?thesis
      by (intro obj_inv_commit [OF assms(2) ok(7,1)])
        (auto simp: row_ok_def row_lifecycle_def ok(2,5,6) replay_watchers_added replay_watchers_removed)
  qed (use assms in simp)
qed

lemma obj_set_attachments_cases:
  assumes "obj_set_attachments i as now st = (st', res)"
  shows "(\<exists>e. res = Inl e \<and> st' = st) \<or>
    (\<exists>r. obj_get_row i st = Some r \<and>
       obj_commit i (\<lambda>r. r\<lparr>r_attachments := json_stringify (JArr as), r_updated_at := now\<rparr>) [] st st' \<and>
       res = Inr (row_to_objective (r\<lparr>r_attachments := json_stringify (JArr as), r_updated_at := now\<rparr>)))"
proof (cases "obj_get_row i st")
  case None
  with assms show ?thesis by (auto simp: obj_set_attachments_def obj_get_def)
next
  case (Some r)
  let ?f = "\<lambda>r. r\<lparr>r_attachments := json_stringify (JArr as), r_updated_at := now\<rparr>"
  have c: "obj_commit i ?f [] st (upd_row i ?f st)" by (rule obj_commit_row [OF Some]) simp
  with obj_commit_get [OF c Some] assms Some show ?thesis
    by (auto simp: obj_set_attachments_def obj_get_def obj_stmts Let_def)
qed

lemma set_attachments_inv [inv_intros]:
  assumes "obj_set_attachments i as now st = (st', res)" "obj_inv st"
  shows "obj_inv st'"
proof -
  from obj_set_attachments_cases [OF assms(1)]
  consider "st' = st" | (ok) r where "obj_get_row i st = Some r"
      "obj_commit i (\<lambda>r. r\<lparr>r_attachments := json_stringify (JArr as), r_updated_at := now\<rparr>) [] st st'"
    by blast
  then show ?thesis
  proof cases
    case ok
    from obj_inv_row [OF assms(2) ok(1)] show ?thesis
      by (intro obj_inv_commit [OF assms(2) ok(2,1)]) (auto simp: row_ok_def row_lifecycle_def)
  qed (use assms in simp)
qed

end
