(* ===== verification/ObjectiveLife.thy ===== *)
theory ObjectiveLife
  imports ObjectiveAudit
begin

text \<open>
  Histories of the objectives store: \<open>obj_step\<close> is one call of the class, successful or not, and
  the theorems below are about every store such calls reach.
\<close>

section \<open>Calls as steps\<close>

inductive obj_step :: "obj_store \<Rightarrow> obj_store \<Rightarrow> bool" where
  step_create: "obj_create uu clock input originator now st = (st', res) \<Longrightarrow> obj_step st st'"
| step_update: "obj_update uu i upd actor now st = (st', res) \<Longrightarrow> obj_step st st'"
| step_complete: "obj_complete uu i raw actor now st = (st', res) \<Longrightarrow> obj_step st st'"
| step_cancel: "obj_cancel uu i reason actor now st = (st', res) \<Longrightarrow> obj_step st st'"
| step_reassign: "obj_reassign uu i to note actor now st = (st', res) \<Longrightarrow> obj_step st st'"
| step_watchers: "obj_update_watchers uu i add remove actor now st = (st', res) \<Longrightarrow> obj_step st st'"
| step_attachments: "obj_set_attachments i as now st = (st', aresult) \<Longrightarrow> obj_step st st'"

inductive_cases obj_stepE: "obj_step st st'"

lemma obj_step_inv: "obj_step st st' \<Longrightarrow> obj_inv st \<Longrightarrow> obj_inv st'"
  by (induction rule: obj_step.induct) (blast intro: inv_intros)+

text \<open>
  Every step either leaves the two tables alone, or appends one new objective with its
  \<open>assigned\<close> event, or is a commit about one objective. The rewrite of a commit touches the
  lifecycle columns of an open objective only.
\<close>

definition contract :: "objective_row \<Rightarrow> string \<times> string \<times> string \<times> string \<times> int" where
  "contract r = (r_title r, r_body r, r_outcome r, r_originator r, r_created_at r)"

definition settlement ::
  "objective_row \<Rightarrow> obj_status \<times> string \<times> int option \<times> string option \<times> string option" where
  "settlement r = (r_status r, r_assignee r, r_completed_at r, r_result r, r_block_reason r)"

definition lifecycle_kind :: "obj_status \<Rightarrow> obj_status \<Rightarrow> obj_kind option" where
  "lifecycle_kind s s' =
     (case (s, s') of
        (Active, Blocked) \<Rightarrow> Some KBlocked
      | (Blocked, Active) \<Rightarrow> Some KUnblocked
      | (Active, Done) \<Rightarrow> Some KCompleted
      | (Blocked, Done) \<Rightarrow> Some KCompleted
      | (Active, Cancelled) \<Rightarrow> Some KCancelled
      | (Blocked, Cancelled) \<Rightarrow> Some KCancelled
      | _ \<Rightarrow> None)"

definition status_kinds :: "obj_kind set" where
  "status_kinds = {KBlocked, KUnblocked, KCompleted, KCancelled}"

definition row_change :: "objective_row \<Rightarrow> objective_row \<Rightarrow> objective_event_row list \<Rightarrow> bool" where
  "row_change r r' new \<longleftrightarrow>
     contract r' = contract r \<and>
     (\<not> open_status (r_status r) \<longrightarrow> settlement r' = settlement r) \<and>
     filter (\<lambda>k. k \<in> status_kinds) (List.map er_kind new) =
       (if r_status r' = r_status r then [] else [the (lifecycle_kind (r_status r) (r_status r'))]) \<and>
     (r_status r' \<noteq> r_status r \<longrightarrow> lifecycle_kind (r_status r) (r_status r') \<noteq> None)"

lemma row_change_watchers:
  "filter (\<lambda>k. k \<in> status_kinds) (List.map er_kind (watcher_event_rows i now a KWatcherAdded us ws)) = []"
  "filter (\<lambda>k. k \<in> status_kinds) (List.map er_kind (watcher_event_rows i now a KWatcherRemoved us ws)) = []"
  by (auto simp: watcher_event_rows_def status_kinds_def filter_empty_conv)

lemma obj_step_cases:
  assumes "obj_step st st'"
  obtains (same) "o_rows st' = o_rows st" "o_events st' = o_events st"
    | (create) i input originator now u where
        "i \<notin> r_id ` set (o_rows st)"
        "o_rows st' = o_rows st @ [created_row i input originator now]"
        "o_events st' = o_events st @ [created_event u i input originator now]"
    | (commit) i f new r where "obj_get_row i st = Some r" "obj_commit i f new st st'" "row_change r (f r) new"
  using assms
proof cases
  case (step_create uu clock input originator now res)
  from obj_create_cases [OF step_create] same create show ?thesis by auto
next
  case (step_update uu i upd actor now res)
  from obj_update_cases [OF step_update]
  consider "st' = st" | (ok) r s b where "obj_get_row i st = Some r" "open_status (r_status r)"
      "next_lifecycle upd (row_to_objective r) = (s, b)"
      "obj_commit i (set_lifecycle s (r_assignee r) now (r_completed_at r) (r_result r) b)
         (update_events uu i upd actor now r) st st'" by blast
  then show ?thesis
  proof cases
    case ok
    have "row_change r (set_lifecycle s (r_assignee r) now (r_completed_at r) (r_result r) b r)
        (update_events uu i upd actor now r)"
      using ok(2,3)
      by (cases "ur_status upd"; cases "r_status r")
        (auto simp: row_change_def contract_def open_status_def next_lifecycle_cases update_events_def
          status_kinds_def lifecycle_kind_def split: status_patch.splits)
    from commit [OF ok(1,4) this] show ?thesis .
  qed (use same in simp)
next
  case (step_complete uu i raw actor now res)
  from obj_complete_cases [OF step_complete]
  consider "st' = st" | (ok) r where "obj_get_row i st = Some r" "open_status (r_status r)"
      "obj_commit i (set_lifecycle Done (r_assignee r) now (Some now) (Some (js_trim raw)) None)
         [event_row (uu 0) i now actor KCompleted [(''result'', JStr (js_trim raw))]] st st'" by blast
  then show ?thesis
  proof cases
    case ok
    show ?thesis
      by (rule commit [OF ok(1,3)], cases "r_status r")
        (use ok(2) in \<open>auto simp: row_change_def contract_def open_status_def status_kinds_def lifecycle_kind_def\<close>)
  qed (use same in simp)
next
  case (step_cancel uu i reason actor now res)
  from obj_cancel_cases [OF step_cancel]
  consider "st' = st" | (ok) r p where "obj_get_row i st = Some r" "open_status (r_status r)"
      "obj_commit i (set_lifecycle Cancelled (r_assignee r) now (r_completed_at r) (r_result r) (r_block_reason r))
         [event_row (uu 0) i now actor KCancelled p] st st'" by blast
  then show ?thesis
  proof cases
    case ok
    show ?thesis
      by (rule commit [OF ok(1,3)], cases "r_status r")
        (use ok(2) in \<open>auto simp: row_change_def contract_def open_status_def status_kinds_def lifecycle_kind_def\<close>)
  qed (use same in simp)
next
  case (step_reassign uu i to nt actor now res)
  from obj_reassign_cases [OF step_reassign]
  consider "st' = st" | (ok) r ws new p where "obj_get_row i st = Some r" "open_status (r_status r)"
      "if r_assignee r \<noteq> r_originator r \<and> r_assignee r \<notin> set ws
       then new = [event_row (uu 0) i now actor KReassigned p,
                   event_row (uu 1) i now actor KWatcherAdded
                     [(''name'', JStr (r_assignee r)), (''reason'', JStr ''reassigned-from'')]] \<and>
            obj_commit i (\<lambda>x. (set_lifecycle (r_status r) to now (r_completed_at r) (r_result r) (r_block_reason r) x)
               \<lparr>r_watchers := stringify_watchers (ws @ [r_assignee r]), r_updated_at := now\<rparr>) new st st'
       else new = [event_row (uu 0) i now actor KReassigned p] \<and>
            obj_commit i (set_lifecycle (r_status r) to now (r_completed_at r) (r_result r) (r_block_reason r)) new st st'"
    by blast
  then show ?thesis
  proof cases
    case ok
    show ?thesis
    proof (cases "r_assignee r \<noteq> r_originator r \<and> r_assignee r \<notin> set ws")
      case True
      with ok show ?thesis
        by (intro commit [OF ok(1)]) (auto simp: row_change_def contract_def status_kinds_def)
    next
      case False
      with ok show ?thesis
        by (intro commit [OF ok(1)]) (auto simp: row_change_def contract_def status_kinds_def)
    qed
  qed (use same in simp)
next
  case (step_watchers uu i add remove actor now res)
  from obj_update_watchers_cases [OF step_watchers]
  consider "st' = st" | (ok) r ws adds removes us us' where "obj_get_row i st = Some r"
      "obj_commit i (\<lambda>x. x\<lparr>r_watchers := stringify_watchers (filter (\<lambda>w. w \<notin> set removes) ws @ adds),
                         r_updated_at := now\<rparr>)
        (watcher_event_rows i now actor KWatcherAdded us adds @
         watcher_event_rows i now actor KWatcherRemoved us' removes) st st'" by blast
  then show ?thesis
  proof cases
    case ok
    show ?thesis
      by (rule commit [OF ok]) (simp add: row_change_def contract_def settlement_def row_change_watchers)
  qed (use same in simp)
next
  case (step_attachments i ats now aresult)
  from obj_set_attachments_cases [OF step_attachments]
  consider "st' = st" | (ok) r where "obj_get_row i st = Some r"
      "obj_commit i (\<lambda>r. r\<lparr>r_attachments := json_stringify (JArr ats), r_updated_at := now\<rparr>) [] st st'"
    by blast
  then show ?thesis
  proof cases
    case ok
    show ?thesis by (rule commit [OF ok]) (simp add: row_change_def contract_def settlement_def)
  qed (use same in simp)
qed

lemma obj_get_row_created:
  assumes "i \<notin> r_id ` set (o_rows st)" "o_rows st' = o_rows st @ [row]" "r_id row = i"
  shows "obj_get_row j st' = (if j = i then Some row else obj_get_row j st)"
proof -
  have "sql_get (\<lambda>r. r_id r = i) (o_rows st) = None" using assms(1) by (auto simp: sql_get_None)
  moreover have "sql_get (\<lambda>r. r_id r = j) [row] = (if j = i then Some row else None)" for j
    using assms(3) by (simp add: sql_get_def)
  ultimately show ?thesis
    using assms(2) by (auto simp: obj_get_row_def sql_get_append split: option.splits)
qed

lemma created_row_id [simp]: "r_id (created_row i input originator now) = i"
  by (simp add: created_row_def)

text \<open>What one step does to an objective that exists already.\<close>

lemma obj_step_row:
  assumes "obj_step st st'" "obj_get_row i st = Some r"
  obtains r' new where "obj_get_row i st' = Some r'" "row_change r r' new"
    "objective_events i st' = objective_events i st @ new"
  using assms(1)
proof (cases rule: obj_step_cases)
  case same
  then show ?thesis using that [of r "[]"] assms(2)
    by (simp add: obj_get_row_def objective_events_def row_change_def)
next
  case (create j input originator now u)
  have "r \<in> set (o_rows st)" "r_id r = i" using assms(2) by (auto simp: obj_get_row_def dest: sql_get_SomeD)
  with create have "i \<noteq> j" by auto
  with create assms(2) show ?thesis
    by (intro that [of r "[]"])
      (auto simp: obj_get_row_created [OF create(1,2)] objective_events_def sql_all_def row_change_def created_event_def)
next
  case (commit j f new r0)
  show ?thesis
  proof (cases "j = i")
    case True
    with commit assms(2) have "r0 = r" "obj_get_row i st' = Some (f r)" by (auto simp: obj_commit_get)
    with True commit show ?thesis
      by (intro that [of "f r" new])
        (auto simp: objective_events_def sql_all_def obj_commit_def intro: filter_True)
  next
    case False
    with commit assms(2) have "obj_get_row i st' = Some r" by (auto simp: obj_commit_other)
    with False commit show ?thesis
      by (intro that [of r "[]"])
        (auto simp: objective_events_def sql_all_def obj_commit_def row_change_def filter_empty_conv)
  qed
qed

section \<open>Interpretations\<close>

interpretation obj_system: invariant_system obj_step obj_inv
  by unfold_locales (rule obj_step_inv)

lemma obj_step_appends: "obj_step st st' \<Longrightarrow> prefix (o_events st) (o_events st')"
  by (erule obj_step_cases) (auto simp: obj_commit_def)

interpretation obj_log: append_only_log obj_step o_events
  by unfold_locales (rule obj_step_appends)

definition settled :: "string \<Rightarrow> obj_store \<Rightarrow> bool" where
  "settled i st \<longleftrightarrow> (\<exists>r. obj_get_row i st = Some r \<and> \<not> open_status (r_status r))"

definition settled_view ::
  "string \<Rightarrow> obj_store \<Rightarrow>
   ((string \<times> string \<times> string \<times> string \<times> int) \<times>
    (obj_status \<times> string \<times> int option \<times> string option \<times> string option)) option \<times>
   obj_kind list" where
  "settled_view i st =
     (map_option (\<lambda>r. (contract r, settlement r)) (obj_get_row i st),
      filter (\<lambda>k. k \<in> status_kinds) (List.map er_kind (objective_events i st)))"

lemma settled_step:
  assumes "obj_step st st'" "settled i st"
  shows "settled i st' \<and> settled_view i st' = settled_view i st"
proof -
  from assms(2) obtain r where r: "obj_get_row i st = Some r" "\<not> open_status (r_status r)"
    by (auto simp: settled_def)
  obtain r' new where "obj_get_row i st' = Some r'" "row_change r r' new"
    "objective_events i st' = objective_events i st @ new"
    by (rule obj_step_row [OF assms(1) r(1)])
  with r show ?thesis by (auto simp: settled_def settled_view_def row_change_def settlement_def)
qed

interpretation obj_settled: frozen_once obj_step "settled i" "settled_view i" for i
  by unfold_locales (use settled_step in blast)+

section \<open>Reachable stores\<close>

definition obj_empty :: "16 word \<Rightarrow> obj_store" where
  "obj_empty c = \<lparr>o_rows = [], o_events = [], o_counter = c\<rparr>"

lemma obj_inv_empty: "obj_inv (obj_empty c)"
  by (simp add: obj_inv_def obj_empty_def)

lemma obj_inv_reachable: "rtranclp obj_step (obj_empty c) st \<Longrightarrow> obj_inv st"
  by (rule obj_system.run_preserved [OF _ obj_inv_empty])

lemma obj_step_fst:
  "obj_step st (fst (obj_create uu clock input originator now st))"
  "obj_step st (fst (obj_update uu i upd actor now st))"
  "obj_step st (fst (obj_complete uu i raw actor now st))"
  "obj_step st (fst (obj_cancel uu i reason actor now st))"
  "obj_step st (fst (obj_reassign uu i to nt actor now st))"
  by (metis prod.collapse obj_step.intros)+

text \<open>A concrete history: an objective is created, blocked and completed.\<close>

definition demo_request :: create_request where
  "demo_request = \<lparr>cr_title = '' ship '', cr_outcome = ''shipped'', cr_body = None, cr_assignee = ''ada'',
     cr_watchers = Some [''ada'', ''eve'', ''eve''], cr_attachments = None\<rparr>"

definition demo_created :: obj_store where
  "demo_created = fst (obj_create (\<lambda>k. ''a'') 0 demo_request ''bob'' 5 (obj_empty 0))"

definition demo_blocked :: obj_store where
  "demo_blocked = fst (obj_update (\<lambda>k. ''b'') ''obj-0-1''
     \<lparr>ur_status = Some ToBlocked, ur_block_reason = Some ''wait''\<rparr> ''ada'' 6 demo_created)"

definition demo_done :: obj_store where
  "demo_done = fst (obj_complete (\<lambda>k. ''c'') ''obj-0-1'' ''ok'' ''ada'' 7 demo_blocked)"

lemma demo_reachable:
  "rtranclp obj_step (obj_empty 0) demo_created"
  "rtranclp obj_step (obj_empty 0) demo_blocked"
  "rtranclp obj_step (obj_empty 0) demo_done"
  "rtranclp obj_step demo_created demo_done"
  using obj_step_fst unfolding demo_done_def demo_blocked_def demo_created_def
  by (meson rtranclp.rtrancl_into_rtrancl rtranclp.rtrancl_refl)+

end
