(* ===== verification/ObjectiveTheorems.thy ===== *)
theory ObjectiveTheorems
  imports ObjectiveLife
begin

text \<open>
  The properties of the objectives store, over the calls and histories of the theories before it.
\<close>

section \<open>Reachable stores\<close>

text \<open>
  C1. In every store that calls reach from an empty one, the audit log of an objective, replayed in
  insertion order, gives exactly the status, assignee, watchers and result its row holds: no call
  changes one of them without logging it, and none logs a change it does not make.
\<close>
theorem objective_audit_replay:
  assumes "rtranclp obj_step (obj_empty c) st" and "obj_get i st = Some ob"
  shows "replay (objective_events i st) =
    \<lparr>lc_status = ob_status ob, lc_assignee = ob_assignee ob, lc_watchers = ob_watchers ob,
     lc_result = ob_result ob\<rparr>"
  using assms obj_inv_row(2) [OF obj_inv_reachable]
  by (auto simp: obj_get_Some row_lifecycle_def)

theorem objective_audit_replay_witness:
  "lc_status (replay (objective_events ''obj-0-1'' demo_done)) = Done \<and>
   lc_watchers (replay (objective_events ''obj-0-1'' demo_done)) = [''eve'']"
proof -
  have "map_option (\<lambda>ob. (ob_status ob, ob_watchers ob)) (obj_get ''obj-0-1'' demo_done) = Some (Done, [''eve''])"
    by code_simp
  then obtain ob where ob: "obj_get ''obj-0-1'' demo_done = Some ob" "ob_status ob = Done" "ob_watchers ob = [''eve'']"
    by auto
  from objective_audit_replay [OF demo_reachable(3) ob(1)] ob show ?thesis by simp
qed

text \<open>
  C19. Every objective a client reads from a reachable store is well formed: its id is the one asked
  for, title and outcome are trimmed and not blank, the watchers are distinct and exclude the
  originator, it has a completion time exactly when it is done and a (trimmed, non-blank) result
  exactly when it is done, and an active or done objective carries no block reason.
\<close>
theorem objective_well_formed:
  assumes "rtranclp obj_step (obj_empty c) st" and "obj_get i st = Some ob"
  shows "ob_id ob = i \<and> js_trim (ob_title ob) = ob_title ob \<and> ob_title ob \<noteq> [] \<and>
    js_trim (ob_outcome ob) = ob_outcome ob \<and> ob_outcome ob \<noteq> [] \<and>
    distinct (ob_watchers ob) \<and> ob_originator ob \<notin> set (ob_watchers ob) \<and>
    (ob_status ob = Done \<longleftrightarrow> ob_completed_at ob \<noteq> None) \<and>
    (case ob_result ob of None \<Rightarrow> ob_status ob \<noteq> Done
     | Some x \<Rightarrow> ob_status ob = Done \<and> js_trim x = x \<and> x \<noteq> []) \<and>
    (ob_block_reason ob = None \<or> ob_status ob = Blocked \<or> ob_status ob = Cancelled)"
proof -
  from assms(2) obtain r where r: "obj_get_row i st = Some r" "ob = row_to_objective r"
    by (auto simp: obj_get_Some)
  from obj_inv_row [OF obj_inv_reachable [OF assms(1)] r(1)] have "row_ok r" "r_id r = i" by simp_all
  with r(2) show ?thesis
    by (cases "r_status r") (auto simp: row_ok_def row_to_objective_def split: option.splits)
qed

theorem objective_well_formed_witness:
  "obj_get ''obj-0-1'' demo_done \<noteq> None \<and>
   ob_title (the (obj_get ''obj-0-1'' demo_done)) \<noteq> []"
proof -
  have "map_option ob_id (obj_get ''obj-0-1'' demo_done) = Some ''obj-0-1''" by code_simp
  then obtain ob where ob: "obj_get ''obj-0-1'' demo_done = Some ob" by auto
  from objective_well_formed [OF demo_reachable(3) ob] ob show ?thesis by simp
qed

text \<open>
  The audit log is append-only: whatever calls follow, each event stays at its place, unchanged.
\<close>
theorem objective_log_append_only:
  assumes "rtranclp obj_step st st'" and "k < length (o_events st)"
  shows "k < length (o_events st') \<and> o_events st' ! k = o_events st ! k"
  by (rule obj_log.entry_survives [OF assms])

theorem objective_log_append_only_witness:
  "o_events demo_done ! 0 = o_events demo_created ! 0"
proof -
  have "0 < length (o_events demo_created)" by code_simp
  from objective_log_append_only [OF demo_reachable(4) this] show ?thesis by simp
qed

text \<open>
  C16. Done and cancelled are terminal: once an objective is there, no sequence of calls changes its
  title, body, outcome, originator, creation time, status, assignee, completion time, result or
  block reason, and no status event is logged about it again.
\<close>
theorem objective_terminal_frozen:
  assumes "rtranclp obj_step st st'" and "obj_get_row i st = Some r"
    and "r_status r = Done \<or> r_status r = Cancelled"
  shows "\<exists>r'. obj_get_row i st' = Some r' \<and> contract r' = contract r \<and> settlement r' = settlement r \<and>
    filter (\<lambda>k. k \<in> status_kinds) (List.map er_kind (objective_events i st')) =
    filter (\<lambda>k. k \<in> status_kinds) (List.map er_kind (objective_events i st))"
proof -
  have "settled i st" using assms(2,3) by (auto simp: settled_def open_status_def)
  with obj_settled.run_frozen [OF assms(1) this] assms(2) show ?thesis
    by (auto simp: settled_view_def settled_def)
qed

text \<open>A reassignment after completion is one such call: it fails and changes nothing.\<close>

definition demo_late :: obj_store where
  "demo_late = fst (obj_reassign (\<lambda>k. ''d'') ''obj-0-1'' ''eve'' None ''bob'' 8 demo_done)"

theorem objective_terminal_frozen_witness:
  "map_option r_assignee (obj_get_row ''obj-0-1'' demo_late) = Some ''ada''"
proof -
  have "map_option (\<lambda>r. (r_status r, r_assignee r)) (obj_get_row ''obj-0-1'' demo_done) = Some (Done, ''ada'')"
    by code_simp
  then obtain r where r: "obj_get_row ''obj-0-1'' demo_done = Some r" "r_status r = Done" "r_assignee r = ''ada''"
    by auto
  have "rtranclp obj_step demo_done demo_late"
    unfolding demo_late_def by (rule r_into_rtranclp) (rule obj_step_fst)
  from objective_terminal_frozen [OF this r(1) disjI1 [OF r(2)]] r(3) show ?thesis
    by (auto simp: settlement_def)
qed

text \<open>
  C17. The lifecycle: in one call an objective either keeps its status, and then no status event is
  logged about it, or it moves active to blocked, blocked to active, or an open status to done or
  cancelled, and then exactly the status event of that move is logged. Its title, body, outcome,
  originator and creation time never change, and it is never lost.
\<close>
theorem objective_status_moves:
  assumes "obj_step st st'" and "obj_get_row i st = Some r"
  shows "\<exists>r' new. obj_get_row i st' = Some r' \<and> contract r' = contract r \<and>
    objective_events i st' = objective_events i st @ new \<and>
    (case lifecycle_kind (r_status r) (r_status r') of
       None \<Rightarrow> r_status r' = r_status r \<and> filter (\<lambda>k. k \<in> status_kinds) (List.map er_kind new) = []
     | Some k \<Rightarrow> filter (\<lambda>k. k \<in> status_kinds) (List.map er_kind new) = [k])"
proof -
  obtain r' new where r': "obj_get_row i st' = Some r'" "row_change r r' new"
    "objective_events i st' = objective_events i st @ new"
    by (rule obj_step_row [OF assms])
  have "lifecycle_kind s s = None" for s by (cases s) (simp_all add: lifecycle_kind_def)
  with r' show ?thesis
    by (intro exI [of _ r'] exI [of _ new])
      (auto simp: row_change_def split: option.splits if_splits)
qed

theorem objective_status_moves_witness:
  "objective_events ''obj-0-1'' demo_blocked \<noteq> [] \<and> contract (the (obj_get_row ''obj-0-1'' demo_blocked)) =
     contract (the (obj_get_row ''obj-0-1'' demo_created))"
proof -
  have "map_option r_status (obj_get_row ''obj-0-1'' demo_created) = Some Active" by code_simp
  then obtain r where r: "obj_get_row ''obj-0-1'' demo_created = Some r" by auto
  have "obj_step demo_created demo_blocked" unfolding demo_blocked_def by (rule obj_step_fst)
  from objective_status_moves [OF this r] r
  have "contract (the (obj_get_row ''obj-0-1'' demo_blocked)) =
     contract (the (obj_get_row ''obj-0-1'' demo_created))" by auto
  moreover have "objective_events ''obj-0-1'' demo_blocked \<noteq> []" by code_simp
  ultimately show ?thesis by simp
qed

section \<open>Single calls\<close>

text \<open>
  C0. A mutating call that throws has changed nothing: the transaction leaves both tables as they
  were (only the process counter behind new ids may have moved, when \<open>create\<close> fails late).
\<close>
theorem objective_failure_atomic:
  "(case obj_create uu clock input originator now st of
      (st', Inl e) \<Rightarrow> o_rows st' = o_rows st \<and> o_events st' = o_events st | _ \<Rightarrow> True) \<and>
   (case obj_update uu i upd actor now st of (st', Inl e) \<Rightarrow> st' = st | _ \<Rightarrow> True) \<and>
   (case obj_complete uu i raw actor now st of (st', Inl e) \<Rightarrow> st' = st | _ \<Rightarrow> True) \<and>
   (case obj_cancel uu i reason actor now st of (st', Inl e) \<Rightarrow> st' = st | _ \<Rightarrow> True) \<and>
   (case obj_reassign uu i to nt actor now st of (st', Inl e) \<Rightarrow> st' = st | _ \<Rightarrow> True) \<and>
   (case obj_update_watchers uu i add remove actor now st of (st', Inl e) \<Rightarrow> st' = st | _ \<Rightarrow> True) \<and>
   (case obj_set_attachments i ats now st of (st', Inl e) \<Rightarrow> st' = st | _ \<Rightarrow> True)"
proof (intro conjI)
  show "case obj_create uu clock input originator now st of
      (st', Inl e) \<Rightarrow> o_rows st' = o_rows st \<and> o_events st' = o_events st | _ \<Rightarrow> True"
    using obj_create_cases [of uu clock input originator now st] by (fastforce split: prod.splits sum.splits)
  show "case obj_update uu i upd actor now st of (st', Inl e) \<Rightarrow> st' = st | _ \<Rightarrow> True"
    using obj_update_cases [of uu i upd actor now st] by (fastforce split: prod.splits sum.splits)
  show "case obj_complete uu i raw actor now st of (st', Inl e) \<Rightarrow> st' = st | _ \<Rightarrow> True"
    using obj_complete_cases [of uu i raw actor now st] by (fastforce split: prod.splits sum.splits)
  show "case obj_cancel uu i reason actor now st of (st', Inl e) \<Rightarrow> st' = st | _ \<Rightarrow> True"
    using obj_cancel_cases [of uu i reason actor now st] by (fastforce split: prod.splits sum.splits)
  show "case obj_reassign uu i to nt actor now st of (st', Inl e) \<Rightarrow> st' = st | _ \<Rightarrow> True"
    using obj_reassign_cases [of uu i to nt actor now st] by (fastforce split: prod.splits sum.splits)
  show "case obj_update_watchers uu i add remove actor now st of (st', Inl e) \<Rightarrow> st' = st | _ \<Rightarrow> True"
    using obj_update_watchers_cases [of uu i add remove actor now st] by (fastforce split: prod.splits sum.splits)
  show "case obj_set_attachments i ats now st of (st', Inl e) \<Rightarrow> st' = st | _ \<Rightarrow> True"
    using obj_set_attachments_cases [of i ats now st] by (fastforce split: prod.splits sum.splits)
qed

text \<open>
  C0. \<open>create\<close>: a blank title or outcome is refused before anything happens; a clash of the new id or
  the new event id is a constraint error; otherwise the new objective is active, holds the trimmed
  texts, its watchers are the requested names without repetitions, the empty name, the assignee and
  the originator, and it is logged with one \<open>assigned\<close> event. The first thread members are the
  assignee, the originator and those watchers.
\<close>
theorem objective_create:
  "(let c = o_counter st + 1; i = objective_id clock c;
        ws = (case cr_watchers input of None \<Rightarrow> [] | Some ws \<Rightarrow> ws);
        (st', res) = obj_create uu clock input originator now st
    in if js_trim (cr_title input) = [] \<or> js_trim (cr_outcome input) = []
       then st' = st \<and> res = Inl (ObjectivesError OInvalidInput)
       else if i \<in> r_id ` set (o_rows st) \<or> Some (''ev-'' @ uu 0) \<in> er_event_id ` set (o_events st)
       then st' = st\<lparr>o_counter := c\<rparr> \<and> res = Inl ObjSqlConstraint
       else \<exists>ob ev. res = Inr (ob, [ev]) \<and>
         o_rows st' = o_rows st @ [created_row i input originator now] \<and>
         o_events st' = o_events st @ [created_event (uu 0) i input originator now] \<and>
         ob_id ob = i \<and> ob_status ob = Active \<and> ob_title ob = js_trim (cr_title input) \<and>
         ob_assignee ob = cr_assignee input \<and> ob_originator ob = originator \<and>
         distinct (ob_watchers ob) \<and>
         set (ob_watchers ob) = set ws - {[], cr_assignee input, originator} \<and>
         oe_kind ev = KAssigned \<and> oe_objective_id ev = i \<and> oe_actor ev = originator \<and>
         set (objective_thread_members [] ob (Some ev)) = {cr_assignee input, originator} \<union> (set ws - {[]}))"
proof -
  have rd: "oe_kind (row_to_event (event_row u i now a k p)) = k"
    "oe_objective_id (row_to_event (event_row u i now a k p)) = i"
    "oe_actor (row_to_event (event_row u i now a k p)) = a" for u i now a k p
    by (simp_all add: row_to_event_def)
  show ?thesis
    unfolding obj_create_eq
    by (auto simp: Let_def created_event_def created_row_def row_to_objective_def rd norm_watchers_set
        norm_watchers_distinct objective_thread_members_def)
qed

text \<open>
  C0. \<open>reassign\<close> never drops anyone from the thread: when it succeeds, the new assignee and everyone
  who was a thread member (the previous assignee included) is a thread member of the objective it
  returns, and its first event records who it moved from and to.
\<close>
theorem objective_reassign_keeps_members:
  assumes "obj_get i st = Some ob"
    and "obj_reassign uu i to nt actor now st = (st', Inr (ob', evs))"
  shows "ob_assignee ob' = to \<and> to \<noteq> ob_assignee ob \<and> ob_status ob' = ob_status ob \<and>
    obj_get i st' = Some ob' \<and>
    insert to (set (objective_thread_members managers ob None)) \<subseteq>
      set (objective_thread_members managers ob' None) \<and>
    (\<exists>ev evs'. evs = ev # evs' \<and> oe_kind ev = KReassigned \<and>
       map_of (oe_payload ev) ''from'' = Some (JStr (ob_assignee ob)) \<and>
       map_of (oe_payload ev) ''to'' = Some (JStr to))"
proof -
  from assms(1) obtain r where r: "obj_get_row i st = Some r" "ob = row_to_objective r"
    by (auto simp: obj_get_Some)
  let ?ws = "parse_watchers (r_watchers r)"
  let ?promote = "r_assignee r \<noteq> r_originator r \<and> r_assignee r \<notin> set ?ws"
  let ?f0 = "set_lifecycle (r_status r) to now (r_completed_at r) (r_result r) (r_block_reason r)"
  let ?f = "\<lambda>x. if ?promote then (?f0 x)\<lparr>r_watchers := stringify_watchers (?ws @ [r_assignee r]), r_updated_at := now\<rparr>
     else ?f0 x"
  from obj_reassign_cases [OF assms(2)] r(1)
  obtain new p r' where c: "to \<noteq> r_assignee r" "map_of p ''to'' = Some (JStr to)"
      "map_of p ''from'' = Some (JStr (r_assignee r))" "obj_commit i ?f new st st'"
      "obj_get_row i st' = Some r'" "ob' = row_to_objective r'" "evs = List.map row_to_event new"
      "\<exists>new'. new = event_row (uu 0) i now actor KReassigned p # new'"
    by (auto split: if_splits)
  have "r' = ?f r" using obj_commit_get [OF c(4) r(1)] c(5) by simp
  moreover have "oe_kind (row_to_event (event_row u i now a k q)) = k"
    "oe_payload (row_to_event (event_row u i now a k q)) = q" for u a k q
    by (simp_all add: row_to_event_def)
  ultimately show ?thesis using c r(2)
    by (auto simp: obj_get_Some objective_thread_members_def split: if_splits)
qed

theorem objective_reassign_keeps_members_witness:
  "''ada'' \<in> set (objective_thread_members []
     (fst (projr (snd (obj_reassign (\<lambda>k. ''r'' @ radix_string 10 k) ''obj-0-1'' ''zoe'' None ''bob'' 8 demo_created)))) None)"
proof -
  let ?call = "obj_reassign (\<lambda>k. ''r'' @ radix_string 10 k) ''obj-0-1'' ''zoe'' None ''bob'' 8 demo_created"
  have "is_ok (snd ?call)" by code_simp
  then obtain st' ob' evs where call: "?call = (st', Inr (ob', evs))"
    by (metis is_okE prod.collapse)
  have "map_option ob_assignee (obj_get ''obj-0-1'' demo_created) = Some ''ada''" by code_simp
  then obtain ob where ob: "obj_get ''obj-0-1'' demo_created = Some ob" "ob_assignee ob = ''ada''" by auto
  have "''ada'' \<in> set (objective_thread_members [] ob None)"
    using ob(2) by (simp add: objective_thread_members_def)
  with objective_reassign_keeps_members [OF ob(1) call, of "[]"] call show ?thesis by auto
qed

text \<open>
  Blocking an objective that is already blocked, with another reason, rewrites its block reason
  and logs nothing: that change is the one the audit log does not show.
\<close>
theorem objective_reblock_not_logged:
  assumes "obj_get i st = Some ob" and "ob_status ob = Blocked"
    and "trim_or_null (Some reason) \<noteq> ob_block_reason ob"
  shows "case obj_update uu i \<lparr>ur_status = Some ToBlocked, ur_block_reason = Some reason\<rparr> actor now st of
    (st', res) \<Rightarrow> o_events st' = o_events st \<and>
      (\<exists>ob'. res = Inr (ob', []) \<and> obj_get i st' = Some ob' \<and>
         ob_block_reason ob' = trim_or_null (Some reason) \<and> ob_block_reason ob' \<noteq> ob_block_reason ob)"
proof -
  let ?u = "\<lparr>ur_status = Some ToBlocked, ur_block_reason = Some reason\<rparr>"
  from assms(1) obtain r where r: "obj_get_row i st = Some r" "ob = row_to_objective r"
    by (auto simp: obj_get_Some)
  let ?f = "set_lifecycle Blocked (r_assignee r) now (r_completed_at r) (r_result r) (trim_or_null (Some reason))"
  have nl: "next_lifecycle ?u (row_to_objective r) = (Blocked, trim_or_null (Some reason))"
    by (simp add: next_lifecycle_cases)
  have "obj_update uu i ?u actor now st = cbind (run_in_transaction
      (cbind (cmod (upd_row i ?f)) (\<lambda>_. cret []))) (obj_reread i) st"
    using assms r by (simp add: obj_update_def nl obj_stmts)
  moreover have c: "obj_commit i ?f [] st (upd_row i ?f st)" by (rule obj_commit_row [OF r(1)]) simp
  ultimately have "obj_update uu i ?u actor now st = (upd_row i ?f st, Inr (row_to_objective (?f r), []))"
    using obj_reread_commit [OF c r(1)]
    by (simp add: cbind_def run_in_transaction_def cmod_def cret_def)
  with obj_commit_get [OF c r(1)] assms(3) r(2) show ?thesis
    by (simp add: obj_get_def upd_row_def)
qed

theorem objective_reblock_not_logged_witness:
  "o_events (fst (obj_update (\<lambda>k. ''d'') ''obj-0-1'' \<lparr>ur_status = Some ToBlocked, ur_block_reason = Some ''other''\<rparr>
     ''ada'' 9 demo_blocked)) = o_events demo_blocked"
proof -
  have "map_option (\<lambda>ob. (ob_status ob, ob_block_reason ob)) (obj_get ''obj-0-1'' demo_blocked) = Some (Blocked, Some ''wait'')"
    by code_simp
  then obtain ob where ob: "obj_get ''obj-0-1'' demo_blocked = Some ob" "ob_status ob = Blocked"
    "ob_block_reason ob = Some ''wait''" by auto
  have "trim_or_null (Some ''other'') = Some ''other''" by code_simp
  with ob(3) have "trim_or_null (Some ''other'') \<noteq> ob_block_reason ob" by simp
  from objective_reblock_not_logged [OF ob(1,2) this, of "\<lambda>k. ''d''" "''ada''" 9] show ?thesis
    by (simp add: case_prod_beta)
qed

text \<open>
  Opening the store: when the constructor's backfill succeeds, every audit row has a non-empty
  id, no two share one, rows that had an id kept it, and opening the store again changes nothing;
  when it fails, the database is as it was.
\<close>
theorem objectives_open_backfill:
  "case objectives_open st of
     (st', Inr _) \<Rightarrow>
       distinct (List.map er_event_id (o_events st')) \<and>
       length (o_events st') = length (o_events st) \<and>
       (\<forall>k < length (o_events st).
          er_event_id (o_events st' ! k) \<notin> {None, Some []} \<and>
          (er_event_id (o_events st ! k) \<notin> {None, Some []} \<longrightarrow> o_events st' ! k = o_events st ! k)) \<and>
       objectives_open st' = (st', Inr ())
   | (st', Inl e) \<Rightarrow> st' = st"
proof -
  let ?fill = "\<lambda>evs. List.map (\<lambda>(i, e). backfill_event_id i e) (List.enumerate 1 evs)"
  let ?bad = "\<lambda>e. er_event_id e = None \<or> er_event_id e = Some []"
  have same: "?fill evs = evs" if "filter ?bad evs = []" for evs
  proof (rule nth_equalityI)
    fix k assume k: "k < length (?fill evs)"
    then have "\<not> ?bad (evs ! k)" using that by (auto simp: filter_empty_conv)
    with k show "?fill evs ! k = evs ! k" by (simp add: nth_enumerate_eq backfill_event_id_def)
  qed simp
  show ?thesis
  proof (cases "filter ?bad (?fill (o_events st)) = [] \<and> distinct (List.map er_event_id (?fill (o_events st)))")
    case True
    then have "objectives_open st = (st\<lparr>o_events := ?fill (o_events st)\<rparr>, Inr ())"
      by (simp add: objectives_open_def run_in_transaction_def Let_def)
    moreover have "er_event_id (?fill (o_events st) ! k) \<notin> {None, Some []} \<and>
        (er_event_id (o_events st ! k) \<notin> {None, Some []} \<longrightarrow> ?fill (o_events st) ! k = o_events st ! k)"
      if "k < length (o_events st)" for k
      using that by (simp add: nth_enumerate_eq backfill_event_id_def)
    moreover have "objectives_open (st\<lparr>o_events := ?fill (o_events st)\<rparr>) = (st\<lparr>o_events := ?fill (o_events st)\<rparr>, Inr ())"
      using True same by (simp add: objectives_open_def run_in_transaction_def Let_def)
    ultimately show ?thesis using True by simp
  next
    case False
    then show ?thesis by (auto simp: objectives_open_def run_in_transaction_def Let_def)
  qed
qed

definition demo_legacy :: obj_store where
  "demo_legacy = \<lparr>o_rows = [], o_events =
     [(event_row ''x'' ''obj-0-1'' 1 ''ada'' KBlocked [])\<lparr>er_event_id := None\<rparr>, event_row ''y'' ''obj-0-1'' 2 ''ada'' KUnblocked []], o_counter = 0\<rparr>"

theorem objectives_open_backfill_witness:
  "objectives_open (fst (objectives_open demo_legacy)) = (fst (objectives_open demo_legacy), Inr ())"
proof -
  have "is_ok (snd (objectives_open demo_legacy))" by code_simp
  then obtain st' u where "objectives_open demo_legacy = (st', Inr u)" by (metis is_okE prod.collapse)
  with objectives_open_backfill [of demo_legacy] show ?thesis by simp
qed

end
