(* ===== verification/Channels.thy ===== *)
theory Channels
  imports Wire
begin

text \<open>
  The channels store, \<open>packages/core/src/channels.ts\<close>: named team channels, their explicit members
  and their audit log in three SQLite tables, and the well-known \<open>general\<close> channel everyone is
  implicitly in. A random UUID is the argument \<open>u\<close> of the call that draws it. An error is its code.
\<close>

section \<open>Data\<close>

datatype ch_role = ChAdmin | ChMember

datatype ch_action =
    ACreate | ARename | ADescription | AMemberAdd | AMemberRemove | AMemberRole | AArchive

record channel_row =
  c_id :: string
  c_slug :: string
  c_description :: string
  c_created_by :: string
  c_created_at :: int
  c_archived_at :: "int option"

record member_row =
  mb_channel :: string
  mb_name :: string
  mb_role :: ch_role
  mb_joined_at :: int

record channel_audit_row =
  ca_id :: nat
  ca_channel :: string
  ca_actor :: string
  ca_action :: ch_action
  ca_at :: int
  ca_details :: json_text

datatype ch_code =
    CNotFound | CInvalidInput | CSlugTaken | CForbidden | CAlreadyMember | CNotMember | CReserved | CArchived

datatype ch_error = ChannelsError ch_code | ChSqlConstraint | ChRowVanished | ChJsonError

text \<open>\<open>ch_seq\<close> is the AUTOINCREMENT counter of \<open>channel_audit\<close>: the largest id given out.\<close>

record ch_store =
  c_rows :: "channel_row list"
  c_members :: "member_row list"
  c_audit :: "channel_audit_row list"
  c_seq :: nat

definition general_id :: string where
  "general_id = ''general''"

definition general_slug :: string where
  "general_slug = ''general''"

section \<open>Slugs\<close>

definition slug_char :: "char \<Rightarrow> bool" where
  "slug_char c \<longleftrightarrow> is_lower c \<or> is_digit c"

text \<open>
  The pattern \<open>[a-z0-9](?:[a-z0-9]|-(?!-))*[a-z0-9]\<close>, anchored: \<open>slug_tail\<close> is what follows the first
  character, by backtracking; one round of the group consumes a slug character, or a dash when the
  next character is not a dash.
\<close>

fun slug_tail :: "string \<Rightarrow> bool" where
  "slug_tail [] = False"
| "slug_tail (c # cs) =
     ((slug_char c \<or> c = CHR ''-'' \<and> (case cs of [] \<Rightarrow> True | d # _ \<Rightarrow> d \<noteq> CHR ''-'')) \<and> slug_tail cs
      \<or> slug_char c \<and> cs = [])"

definition slug_pattern :: "string \<Rightarrow> bool" where
  "slug_pattern s =
     (case s of [] \<Rightarrow> False | c # cs \<Rightarrow> slug_char c \<and> slug_tail cs \<or> slug_char c \<and> cs = [])"

definition validate_slug :: "string \<Rightarrow> (ch_error, unit) res" where
  "validate_slug slug =
     (if length slug = 0 then Inl (ChannelsError CInvalidInput)
      else if length slug > 32 then Inl (ChannelsError CInvalidInput)
      else if \<not> slug_pattern slug then Inl (ChannelsError CInvalidInput)
      else Inr ())"

section \<open>Prepared statements\<close>

definition active :: "channel_row \<Rightarrow> bool" where
  "active r \<longleftrightarrow> c_archived_at r = None"

text \<open>The primary key, and the partial unique index on the slugs of active channels.\<close>

definition channel_clash :: "channel_row \<Rightarrow> channel_row \<Rightarrow> bool" where
  "channel_clash r r' \<longleftrightarrow> c_id r = c_id r' \<or> active r \<and> active r' \<and> c_slug r = c_slug r'"

definition ch_insert_stmt ::
  "string \<Rightarrow> string \<Rightarrow> string \<Rightarrow> string \<Rightarrow> int \<Rightarrow> (ch_store, ch_error, unit) call" where
  "ch_insert_stmt i slug description creator now st =
     (case sql_insert channel_clash
        \<lparr>c_id = i, c_slug = slug, c_description = description, c_created_by = creator,
         c_created_at = now, c_archived_at = None\<rparr> (c_rows st) of
        None \<Rightarrow> (st, Inl ChSqlConstraint)
      | Some t \<Rightarrow> (st\<lparr>c_rows := t\<rparr>, Inr ()))"

definition ch_update_slug_stmt ::
  "string \<Rightarrow> string \<Rightarrow> string \<Rightarrow> (ch_store, ch_error, unit) call" where
  "ch_update_slug_stmt slug description i st =
     (if \<exists>r \<in> set (c_rows st). c_id r = i \<and> active r \<and>
           (\<exists>r' \<in> set (c_rows st). c_id r' \<noteq> i \<and> active r' \<and> c_slug r' = slug)
      then (st, Inl ChSqlConstraint)
      else (st\<lparr>c_rows := sql_update (\<lambda>r. c_id r = i)
                (\<lambda>r. r\<lparr>c_slug := slug, c_description := description\<rparr>) (c_rows st)\<rparr>, Inr ()))"

definition ch_archive_stmt :: "int \<Rightarrow> string \<Rightarrow> ch_store \<Rightarrow> ch_store" where
  "ch_archive_stmt now i st =
     st\<lparr>c_rows := sql_update (\<lambda>r. c_id r = i) (\<lambda>r. r\<lparr>c_archived_at := Some now\<rparr>) (c_rows st)\<rparr>"

text \<open>\<open>INSERT OR IGNORE\<close>; the foreign key is checked all the same.\<close>

definition ch_insert_member_stmt ::
  "string \<Rightarrow> string \<Rightarrow> ch_role \<Rightarrow> int \<Rightarrow> (ch_store, ch_error, unit) call" where
  "ch_insert_member_stmt i name role now st =
     (if i \<notin> c_id ` set (c_rows st) then (st, Inl ChSqlConstraint)
      else (st\<lparr>c_members := sql_insert_ignore
                (\<lambda>m m'. mb_channel m = mb_channel m' \<and> mb_name m = mb_name m')
                \<lparr>mb_channel = i, mb_name = name, mb_role = role, mb_joined_at = now\<rparr> (c_members st)\<rparr>,
            Inr ()))"

definition ch_delete_member_stmt :: "string \<Rightarrow> string \<Rightarrow> ch_store \<Rightarrow> ch_store" where
  "ch_delete_member_stmt i name st =
     st\<lparr>c_members := sql_delete (\<lambda>m. mb_channel m = i \<and> mb_name m = name) (c_members st)\<rparr>"

definition ch_select_member :: "string \<Rightarrow> string \<Rightarrow> ch_store \<Rightarrow> member_row option" where
  "ch_select_member i name st = sql_get (\<lambda>m. mb_channel m = i \<and> mb_name m = name) (c_members st)"

definition role_rank :: "ch_role \<Rightarrow> nat" where
  "role_rank r = (case r of ChAdmin \<Rightarrow> 0 | ChMember \<Rightarrow> 1)"

definition ch_select_members :: "string \<Rightarrow> ch_store \<Rightarrow> member_row list" where
  "ch_select_members i st =
     order_asc (\<lambda>m. (role_rank (mb_role m), mb_joined_at m)) (sql_all (\<lambda>m. mb_channel m = i) (c_members st))"

text \<open>The private \<open>audit\<close>: one row under the next AUTOINCREMENT id.\<close>

definition ch_audit_row ::
  "string \<Rightarrow> string \<Rightarrow> ch_action \<Rightarrow> int \<Rightarrow> data \<Rightarrow> ch_store \<Rightarrow> ch_store" where
  "ch_audit_row i actor action at details st =
     st\<lparr>c_seq := c_seq st + 1,
        c_audit := c_audit st @
          [\<lparr>ca_id = c_seq st + 1, ca_channel = i, ca_actor = actor, ca_action = action, ca_at = at,
            ca_details = json_stringify (JObj details)\<rparr>]\<rparr>"

section \<open>Queries\<close>

definition ch_get :: "string \<Rightarrow> ch_store \<Rightarrow> channel_row option" where
  "ch_get i st = sql_get (\<lambda>r. c_id r = i) (c_rows st)"

definition ch_get_by_slug :: "string \<Rightarrow> ch_store \<Rightarrow> channel_row option" where
  "ch_get_by_slug slug st = sql_get (\<lambda>r. c_slug r = slug) (c_rows st)"

definition ch_list_all :: "ch_store \<Rightarrow> channel_row list" where
  "ch_list_all st = order_desc c_created_at (sql_all active (c_rows st))"

definition ch_list_for_member :: "string \<Rightarrow> ch_store \<Rightarrow> channel_row list" where
  "ch_list_for_member name st =
     order_desc c_created_at
       (sql_all (\<lambda>c. active c \<and>
           (c_id c = general_id \<or> list_ex (\<lambda>m. mb_channel m = c_id c \<and> mb_name m = name) (c_members st)))
         (c_rows st))"

definition ch_list_members :: "string \<Rightarrow> ch_store \<Rightarrow> member_row list" where
  "ch_list_members i st = (if i = general_id then [] else ch_select_members i st)"

definition ch_is_member :: "string \<Rightarrow> string \<Rightarrow> ch_store \<Rightarrow> bool" where
  "ch_is_member i name st = (i = general_id \<or> ch_select_member i name st \<noteq> None)"

definition ch_role_of :: "string \<Rightarrow> string \<Rightarrow> ch_store \<Rightarrow> ch_role option" where
  "ch_role_of i name st =
     (if i = general_id then Some ChMember else map_option mb_role (ch_select_member i name st))"

definition ch_recipient_names :: "string \<Rightarrow> ch_store \<Rightarrow> string list option" where
  "ch_recipient_names i st =
     (if i = general_id then None else Some (List.map mb_name (ch_select_members i st)))"

text \<open>\<open>listAudit\<close>: oldest first; \<open>JSON.parse\<close> throws on a text that does not parse.\<close>

definition ch_list_audit ::
  "string \<Rightarrow> ch_store \<Rightarrow> (ch_error, (channel_audit_row \<times> json) list) res" where
  "ch_list_audit i st =
     foldr (\<lambda>r acc. andThen (from_option ChJsonError (json_parse (ca_details r)))
                     (\<lambda>j. andThen acc (\<lambda>rest. Inr ((r, j) # rest))))
       (order_asc ca_id (sql_all (\<lambda>r. ca_channel r = i) (c_audit st))) (Inr [])"

section \<open>Operations\<close>

text \<open>\<open>ensureGeneral\<close>, the last act of the constructor.\<close>

definition ch_ensure_general :: "int \<Rightarrow> (ch_store, ch_error, unit) call" where
  "ch_ensure_general now st =
     (case ch_get general_id st of
        Some _ \<Rightarrow> (st, Inr ())
      | None \<Rightarrow> ch_insert_stmt general_id general_slug [] ''__system__'' now st)"

definition ch_create ::
  "string \<Rightarrow> string \<Rightarrow> string option \<Rightarrow> string \<Rightarrow> int \<Rightarrow> (ch_store, ch_error, channel_row) call" where
  "ch_create u slug description creator now st =
     (let description = (case description of None \<Rightarrow> [] | Some d \<Rightarrow> d) in
      case validate_slug slug of
        Inl e \<Rightarrow> (st, Inl e)
      | Inr _ \<Rightarrow>
          if slug = general_slug then (st, Inl (ChannelsError CReserved))
          else if (case ch_get_by_slug slug st of None \<Rightarrow> False | Some existing \<Rightarrow> c_archived_at existing = None)
          then (st, Inl (ChannelsError CSlugTaken))
          else cbind
            (run_in_transaction
              (cbind (ch_insert_stmt u slug description creator now)
                (\<lambda>_. cbind (ch_insert_member_stmt u creator ChMember now)
                  (\<lambda>_. cmod (ch_audit_row u creator ACreate now
                         [(''slug'', JStr slug), (''description'', JStr description)])))))
            (\<lambda>_ s. (s, from_option ChRowVanished (ch_get u s))) st)"

record channel_patch =
  cp_slug :: "string option"
  cp_description :: "string option"

definition ch_update ::
  "string \<Rightarrow> channel_patch \<Rightarrow> string \<Rightarrow> int \<Rightarrow> (ch_store, ch_error, channel_row) call" where
  "ch_update i input actor now st =
     (case (case cp_slug input of None \<Rightarrow> Inr () | Some s \<Rightarrow> validate_slug s) of
        Inl e \<Rightarrow> (st, Inl e)
      | Inr _ \<Rightarrow>
          if i = general_id then (st, Inl (ChannelsError CReserved))
          else if cp_slug input = Some general_slug then (st, Inl (ChannelsError CReserved))
          else
            (case ch_get i st of
               None \<Rightarrow> (st, Inl (ChannelsError CNotFound))
             | Some channel \<Rightarrow>
                 if c_archived_at channel \<noteq> None then (st, Inl (ChannelsError CArchived))
                 else
                   (let nextSlug = (case cp_slug input of None \<Rightarrow> c_slug channel | Some s \<Rightarrow> s);
                        nextDescription =
                          (case cp_description input of None \<Rightarrow> c_description channel | Some d \<Rightarrow> d)
                    in if c_slug channel = nextSlug \<and> c_description channel = nextDescription
                       then (st, Inr channel)
                       else if (case ch_get_by_slug nextSlug st of None \<Rightarrow> False
                                | Some collide \<Rightarrow> c_id collide \<noteq> i \<and> c_archived_at collide = None)
                       then (st, Inl (ChannelsError CSlugTaken))
                       else cbind
                         (run_in_transaction
                           (cbind (ch_update_slug_stmt nextSlug nextDescription i)
                             (\<lambda>_. cbind
                               (cmod (if c_slug channel \<noteq> nextSlug
                                      then ch_audit_row i actor ARename now
                                        [(''from'', JStr (c_slug channel)), (''to'', JStr nextSlug)]
                                      else id))
                               (\<lambda>_. cmod (if c_description channel \<noteq> nextDescription
                                          then ch_audit_row i actor ADescription now
                                            [(''from'', JStr (c_description channel)),
                                             (''to'', JStr nextDescription)]
                                          else id)))))
                         (\<lambda>_ s. (s, from_option ChRowVanished (ch_get i s))) st)))"

definition ch_rename :: "string \<Rightarrow> string \<Rightarrow> string \<Rightarrow> int \<Rightarrow> (ch_store, ch_error, channel_row) call" where
  "ch_rename i newSlug actor now = ch_update i \<lparr>cp_slug = Some newSlug, cp_description = None\<rparr> actor now"

definition ch_archive :: "string \<Rightarrow> string \<Rightarrow> int \<Rightarrow> (ch_store, ch_error, channel_row) call" where
  "ch_archive i actor now st =
     (if i = general_id then (st, Inl (ChannelsError CReserved))
      else
        (case ch_get i st of
           None \<Rightarrow> (st, Inl (ChannelsError CNotFound))
         | Some channel \<Rightarrow>
             if c_archived_at channel \<noteq> None then (st, Inr channel)
             else cbind
               (run_in_transaction
                 (cbind (cmod (ch_archive_stmt now i))
                   (\<lambda>_. cmod (ch_audit_row i actor AArchive now [(''slug'', JStr (c_slug channel))]))))
               (\<lambda>_ s. (s, from_option ChRowVanished (ch_get i s))) st))"

definition json_of_role :: "ch_role option \<Rightarrow> json" where
  "json_of_role r =
     (case r of None \<Rightarrow> JNull | Some ChAdmin \<Rightarrow> JStr ''admin'' | Some ChMember \<Rightarrow> JStr ''member'')"

definition ch_add_member ::
  "string \<Rightarrow> string \<Rightarrow> ch_role option \<Rightarrow> string option \<Rightarrow> int \<Rightarrow> (ch_store, ch_error, unit) call" where
  "ch_add_member i name role actor now st =
     (let role = (case role of None \<Rightarrow> ChMember | Some r \<Rightarrow> r);
          actor = (case actor of None \<Rightarrow> name | Some a \<Rightarrow> a)
      in if i = general_id then (st, Inr ())
         else
           (case ch_get i st of
              None \<Rightarrow> (st, Inl (ChannelsError CNotFound))
            | Some channel \<Rightarrow>
                if c_archived_at channel \<noteq> None then (st, Inl (ChannelsError CArchived))
                else
                  (let prior = ch_role_of i name st
                   in run_in_transaction
                        (cbind (cmod (if prior \<noteq> None then ch_delete_member_stmt i name else id))
                          (\<lambda>_. cbind (ch_insert_member_stmt i name role now)
                            (\<lambda>_. cmod (ch_audit_row i actor
                                   (if prior = None then AMemberAdd else AMemberRole) now
                                   [(''member'', JStr name), (''from'', json_of_role prior),
                                    (''to'', json_of_role (Some role))])))) st)))"

definition ch_remove_member ::
  "string \<Rightarrow> string \<Rightarrow> string option \<Rightarrow> int \<Rightarrow> (ch_store, ch_error, unit) call" where
  "ch_remove_member i name actor now st =
     (let actor = (case actor of None \<Rightarrow> name | Some a \<Rightarrow> a)
      in if i = general_id then (st, Inl (ChannelsError CReserved))
         else
           (case ch_get i st of
              None \<Rightarrow> (st, Inl (ChannelsError CNotFound))
            | Some channel \<Rightarrow>
                (case ch_select_member i name st of
                   None \<Rightarrow> (st, Inl (ChannelsError CNotMember))
                 | Some m \<Rightarrow>
                     run_in_transaction
                       (cbind (cmod (ch_delete_member_stmt i name))
                         (\<lambda>_. cmod (ch_audit_row i actor AMemberRemove now
                                [(''member'', JStr name), (''role'', json_of_role (Some (mb_role m)))]))) st)))"

section \<open>What each call did\<close>

definition audit_entry ::
  "nat \<Rightarrow> string \<Rightarrow> string \<Rightarrow> ch_action \<Rightarrow> int \<Rightarrow> data \<Rightarrow> channel_audit_row" where
  "audit_entry n i actor action at details =
     \<lparr>ca_id = n, ca_channel = i, ca_actor = actor, ca_action = action, ca_at = at,
      ca_details = json_stringify (JObj details)\<rparr>"

lemma ch_audit_row_eq:
  "ch_audit_row i actor action at details st =
     st\<lparr>c_seq := Suc (c_seq st), c_audit := c_audit st @ [audit_entry (Suc (c_seq st)) i actor action at details]\<rparr>"
  by (simp add: ch_audit_row_def audit_entry_def)

lemma audit_entry_sel [simp]:
  "ca_id (audit_entry n i a k t d) = n"
  "ca_channel (audit_entry n i a k t d) = i"
  "ca_action (audit_entry n i a k t d) = k"
  "ca_details (audit_entry n i a k t d) = json_stringify (JObj d)"
  by (simp_all add: audit_entry_def)

definition new_channel :: "string \<Rightarrow> string \<Rightarrow> string \<Rightarrow> string \<Rightarrow> int \<Rightarrow> channel_row" where
  "new_channel i slug description creator now =
     \<lparr>c_id = i, c_slug = slug, c_description = description, c_created_by = creator,
      c_created_at = now, c_archived_at = None\<rparr>"

lemma new_channel_sel [simp]:
  "c_id (new_channel i s d c t) = i" "c_slug (new_channel i s d c t) = s"
  "c_description (new_channel i s d c t) = d" "c_created_by (new_channel i s d c t) = c"
  "c_created_at (new_channel i s d c t) = t" "c_archived_at (new_channel i s d c t) = None"
  "active (new_channel i s d c t)"
  by (simp_all add: new_channel_def active_def)

definition new_member :: "string \<Rightarrow> string \<Rightarrow> ch_role \<Rightarrow> int \<Rightarrow> member_row" where
  "new_member i name role now = \<lparr>mb_channel = i, mb_name = name, mb_role = role, mb_joined_at = now\<rparr>"

lemma new_member_sel [simp]:
  "mb_channel (new_member i n r t) = i" "mb_name (new_member i n r t) = n"
  "mb_role (new_member i n r t) = r" "mb_joined_at (new_member i n r t) = t"
  by (simp_all add: new_member_def)

text \<open>An id is free, and no active channel holds the slug.\<close>

definition id_free :: "string \<Rightarrow> ch_store \<Rightarrow> bool" where
  "id_free i st \<longleftrightarrow> (\<forall>r \<in> set (c_rows st). c_id r \<noteq> i)"

definition slug_free :: "string \<Rightarrow> ch_store \<Rightarrow> bool" where
  "slug_free s st \<longleftrightarrow> (\<forall>r \<in> set (c_rows st). active r \<longrightarrow> c_slug r \<noteq> s)"

lemma ch_insert_stmt_eq:
  "ch_insert_stmt i s d c now st =
     (if id_free i st \<and> slug_free s st
      then (st\<lparr>c_rows := c_rows st @ [new_channel i s d c now]\<rparr>, Inr ()) else (st, Inl ChSqlConstraint))"
proof -
  have "(\<exists>r' \<in> set (c_rows st). channel_clash (new_channel i s d c now) r') \<longleftrightarrow> \<not> (id_free i st \<and> slug_free s st)"
    by (auto simp: channel_clash_def id_free_def slug_free_def)
  then show ?thesis
    by (simp add: ch_insert_stmt_def sql_insert_def new_channel_def [symmetric])
qed

lemma ch_get_append:
  "id_free (c_id row) st \<Longrightarrow>
   sql_get (\<lambda>r. c_id r = i) (c_rows st @ [row]) = (if i = c_id row then Some row else ch_get i st)"
proof -
  assume "id_free (c_id row) st"
  then have "sql_get (\<lambda>r. c_id r = c_id row) (c_rows st) = None"
    by (auto simp: sql_get_None id_free_def)
  moreover have "sql_get (\<lambda>r. c_id r = i) [row] = (if i = c_id row then Some row else None)"
    by (simp add: sql_get_def)
  ultimately show ?thesis by (auto simp: ch_get_def sql_get_append split: option.splits)
qed

end
