(* ===== verification/ChannelAudit.thy ===== *)
theory ChannelAudit
  imports Channels
begin

text \<open>
  The channels store as a state machine: what each call did (\<open>ch_commit\<close>), the store's invariant,
  and the audit log as the history that determines a channel's slug, description, archival and the
  roles of its members.
\<close>

section \<open>The slug grammar\<close>

text \<open>The grammar of the documentation: 1 to 32 of lower-case letters, digits and dashes, letters or
  digits at both ends, no two dashes in a row.\<close>

definition no_double_dash :: "string \<Rightarrow> bool" where
  "no_double_dash s \<longleftrightarrow> (\<forall>k. Suc k < length s \<longrightarrow> \<not> (s ! k = CHR ''-'' \<and> s ! Suc k = CHR ''-''))"

definition slug_grammar :: "string \<Rightarrow> bool" where
  "slug_grammar s \<longleftrightarrow>
     1 \<le> length s \<and> length s \<le> 32 \<and> (\<forall>c \<in> set s. slug_char c \<or> c = CHR ''-'') \<and>
     slug_char (hd s) \<and> slug_char (last s) \<and> no_double_dash s"

lemma dash_not_slug_char [simp]: "\<not> slug_char (CHR ''-'')"
  by (simp add: slug_char_def is_lower_def is_digit_def)

lemma no_double_dash_simps [simp]:
  "no_double_dash []"
  "no_double_dash (c # cs) \<longleftrightarrow> \<not> (c = CHR ''-'' \<and> cs \<noteq> [] \<and> hd cs = CHR ''-'') \<and> no_double_dash cs"
  by (simp add: no_double_dash_def)
    (cases cs, auto simp: no_double_dash_def less_Suc_eq_0_disj All_less_Suc2)

lemma slug_tail_iff:
  "slug_tail s \<longleftrightarrow>
     s \<noteq> [] \<and> (\<forall>c \<in> set s. slug_char c \<or> c = CHR ''-'') \<and> slug_char (last s) \<and> no_double_dash s"
proof (induction s)
  case (Cons c cs)
  show ?case
    unfolding slug_tail.simps(2) Cons.IH by (cases cs) auto
qed simp

lemma validate_slug_iff: "is_ok (validate_slug s) \<longleftrightarrow> slug_grammar s"
proof (cases s)
  case (Cons c cs)
  have "slug_char c \<Longrightarrow> c \<noteq> CHR ''-''" by auto
  then show ?thesis
    unfolding Cons slug_grammar_def
    by (auto simp: validate_slug_def slug_pattern_def slug_tail_iff)
qed (simp add: validate_slug_def slug_grammar_def)

section \<open>Replaying the audit log\<close>

record channel_state =
  cs_slug :: string
  cs_description :: string
  cs_archived :: bool
  cs_roles :: "string \<Rightarrow> ch_role option"

definition details_str :: "string \<Rightarrow> data \<Rightarrow> string" where
  "details_str k d = (case map_of d k of Some (JStr s) \<Rightarrow> s | _ \<Rightarrow> [])"

definition details_role :: "data \<Rightarrow> ch_role" where
  "details_role d = (if map_of d ''to'' = Some (JStr ''admin'') then ChAdmin else ChMember)"

definition details_of :: "json_text \<Rightarrow> data" where
  "details_of t = (case json_parse t of Some (JObj d) \<Rightarrow> d | _ \<Rightarrow> [])"

fun apply_audit :: "ch_action \<Rightarrow> string \<Rightarrow> data \<Rightarrow> channel_state \<Rightarrow> channel_state" where
  "apply_audit ACreate actor d cs =
     \<lparr>cs_slug = details_str ''slug'' d, cs_description = details_str ''description'' d,
      cs_archived = False, cs_roles = [actor \<mapsto> ChMember]\<rparr>"
| "apply_audit ARename actor d cs = cs\<lparr>cs_slug := details_str ''to'' d\<rparr>"
| "apply_audit ADescription actor d cs = cs\<lparr>cs_description := details_str ''to'' d\<rparr>"
| "apply_audit AMemberAdd actor d cs = cs\<lparr>cs_roles := (cs_roles cs)(details_str ''member'' d \<mapsto> details_role d)\<rparr>"
| "apply_audit AMemberRole actor d cs = cs\<lparr>cs_roles := (cs_roles cs)(details_str ''member'' d \<mapsto> details_role d)\<rparr>"
| "apply_audit AMemberRemove actor d cs = cs\<lparr>cs_roles := (cs_roles cs)(details_str ''member'' d := None)\<rparr>"
| "apply_audit AArchive actor d cs = cs\<lparr>cs_archived := True\<rparr>"

definition replay_audit_from :: "channel_audit_row list \<Rightarrow> channel_state \<Rightarrow> channel_state" where
  "replay_audit_from es cs =
     fold (\<lambda>e. apply_audit (ca_action e) (ca_actor e) (details_of (ca_details e))) es cs"

definition replay_audit :: "channel_audit_row list \<Rightarrow> channel_state" where
  "replay_audit es =
     replay_audit_from es \<lparr>cs_slug = [], cs_description = [], cs_archived = False, cs_roles = Map.empty\<rparr>"

definition channel_entries :: "string \<Rightarrow> ch_store \<Rightarrow> channel_audit_row list" where
  "channel_entries i st = sql_all (\<lambda>e. ca_channel e = i) (c_audit st)"

definition roles_in :: "member_row list \<Rightarrow> string \<Rightarrow> string \<Rightarrow> ch_role option" where
  "roles_in ms i name = map_option mb_role (sql_get (\<lambda>m. mb_channel m = i \<and> mb_name m = name) ms)"

definition channel_view :: "channel_row \<Rightarrow> member_row list \<Rightarrow> channel_state" where
  "channel_view r ms =
     \<lparr>cs_slug = c_slug r, cs_description = c_description r, cs_archived = (c_archived_at r \<noteq> None),
      cs_roles = roles_in ms (c_id r)\<rparr>"

lemma replay_audit_from_simps [simp]:
  "replay_audit_from [] cs = cs"
  "replay_audit_from (es @ fs) cs = replay_audit_from fs (replay_audit_from es cs)"
  by (simp_all add: replay_audit_from_def)

lemma replay_audit_entry [simp]:
  "replay_audit_from (audit_entry n i a k t d # es) cs = replay_audit_from es (apply_audit k a d cs)"
  by (simp add: replay_audit_from_def audit_entry_def details_of_def)

lemma details_str_Cons [simp]:
  "details_str k ((k', v) # d) = (if k' = k then (case v of JStr s \<Rightarrow> s | _ \<Rightarrow> []) else details_str k d)"
  by (auto simp: details_str_def split: json.splits)

lemma sql_get_new_member [simp]:
  "sql_get (\<lambda>m. mb_channel m = i \<and> mb_name m = x) [new_member i n r t] =
   (if x = n then Some (new_member i n r t) else None)"
  by (simp add: sql_get_def)

lemma roles_in_add:
  "roles_in (ms @ [new_member i n r t]) i =
     (\<lambda>x. case roles_in ms i x of None \<Rightarrow> if x = n then Some r else None | Some r' \<Rightarrow> Some r')"
  by (rule ext) (auto simp: roles_in_def sql_get_append split: option.splits)

lemma sql_get_in_channel:
  "sql_get (\<lambda>m. mb_channel m = j \<and> mb_name m = n) ms =
   sql_get (\<lambda>m. mb_name m = n) (filter (\<lambda>m. mb_channel m = j) ms)"
  by (induction ms) (auto simp: sql_get_def)

lemma roles_in_other:
  assumes "filter (\<lambda>m. mb_channel m = j) ms' = filter (\<lambda>m. mb_channel m = j) ms"
  shows "roles_in ms' j = roles_in ms j"
  using assms by (simp add: roles_in_def fun_eq_iff sql_get_in_channel)

lemma sql_get_member_delete:
  "sql_get (\<lambda>m. mb_channel m = i \<and> mb_name m = x) (sql_delete (\<lambda>m. mb_channel m = i \<and> mb_name m = n) ms) =
   (if x = n then None else sql_get (\<lambda>m. mb_channel m = i \<and> mb_name m = x) ms)"
  by (induction ms) (auto simp: sql_get_def sql_delete_def)

lemma roles_in_delete:
  "roles_in (sql_delete (\<lambda>m. mb_channel m = i \<and> mb_name m = n) ms) i = (roles_in ms i)(n := None)"
  by (rule ext) (simp add: roles_in_def sql_get_member_delete)

section \<open>The invariant\<close>

definition member_key :: "member_row \<Rightarrow> string \<times> string" where
  "member_key m = (mb_channel m, mb_name m)"

definition ch_inv :: "ch_store \<Rightarrow> bool" where
  "ch_inv st \<longleftrightarrow>
     distinct (List.map c_id (c_rows st)) \<and>
     (\<forall>r \<in> set (c_rows st). \<forall>r' \<in> set (c_rows st). active r \<and> active r' \<and> c_slug r = c_slug r' \<longrightarrow> c_id r = c_id r') \<and>
     (\<exists>g \<in> set (c_rows st). c_id g = general_id \<and> c_slug g = general_slug \<and> active g) \<and>
     (\<forall>r \<in> set (c_rows st). c_id r \<noteq> general_id \<longrightarrow> c_slug r \<noteq> general_slug \<and> slug_grammar (c_slug r)) \<and>
     distinct (List.map member_key (c_members st)) \<and>
     (\<forall>m \<in> set (c_members st). mb_channel m \<noteq> general_id \<and> mb_channel m \<in> c_id ` set (c_rows st)) \<and>
     List.map ca_id (c_audit st) = [1..<Suc (c_seq st)] \<and>
     (\<forall>e \<in> set (c_audit st). ca_channel e \<noteq> general_id \<and> ca_channel e \<in> c_id ` set (c_rows st)) \<and>
     (\<forall>r \<in> set (c_rows st). c_id r \<noteq> general_id \<longrightarrow>
        replay_audit (channel_entries (c_id r) st) = channel_view r (c_members st))"

text \<open>
  \<open>ch_commit i f ms new st st'\<close>: the call rewrote the row of channel \<open>i\<close> with \<open>f\<close>, left the member
  table as \<open>ms\<close>, which differs from the old one in rows of \<open>i\<close> only, and appended the audit entries
  \<open>new\<close>, all about \<open>i\<close> and numbered on from the last id.
\<close>

definition ch_commit ::
  "string \<Rightarrow> (channel_row \<Rightarrow> channel_row) \<Rightarrow> member_row list \<Rightarrow> channel_audit_row list \<Rightarrow>
   ch_store \<Rightarrow> ch_store \<Rightarrow> bool" where
  "ch_commit i f ms new st st' \<longleftrightarrow>
     i \<noteq> general_id \<and> (\<forall>r. c_id (f r) = c_id r) \<and>
     (\<forall>j. j \<noteq> i \<longrightarrow> filter (\<lambda>m. mb_channel m = j) ms = filter (\<lambda>m. mb_channel m = j) (c_members st)) \<and>
     (distinct (List.map member_key (c_members st)) \<longrightarrow> distinct (List.map member_key ms)) \<and>
     (\<forall>e \<in> set new. ca_channel e = i) \<and>
     List.map ca_id new = [Suc (c_seq st)..<Suc (c_seq st + length new)] \<and>
     st' = st\<lparr>c_rows := sql_update (\<lambda>r. c_id r = i) f (c_rows st), c_members := ms,
              c_seq := c_seq st + length new, c_audit := c_audit st @ new\<rparr>"

lemma ch_commit_get:
  "ch_commit i f ms new st st' \<Longrightarrow>
   ch_get j st' = (if j = i then map_option f (ch_get j st) else ch_get j st)"
  by (auto simp: ch_commit_def ch_get_def sql_get_update_key [of c_id])

lemma ch_invD:
  assumes "ch_inv st"
  shows "distinct (List.map c_id (c_rows st))"
    and "\<And>r r'. r \<in> set (c_rows st) \<Longrightarrow> r' \<in> set (c_rows st) \<Longrightarrow> active r \<Longrightarrow> active r' \<Longrightarrow>
           c_slug r = c_slug r' \<Longrightarrow> c_id r = c_id r'"
    and "\<exists>g \<in> set (c_rows st). c_id g = general_id \<and> c_slug g = general_slug \<and> active g"
    and "\<And>r. r \<in> set (c_rows st) \<Longrightarrow> c_id r \<noteq> general_id \<Longrightarrow> c_slug r \<noteq> general_slug \<and> slug_grammar (c_slug r)"
    and "distinct (List.map member_key (c_members st))"
    and "\<And>m. m \<in> set (c_members st) \<Longrightarrow> mb_channel m \<noteq> general_id \<and> mb_channel m \<in> c_id ` set (c_rows st)"
    and "List.map ca_id (c_audit st) = [1..<Suc (c_seq st)]"
    and "\<And>e. e \<in> set (c_audit st) \<Longrightarrow> ca_channel e \<noteq> general_id \<and> ca_channel e \<in> c_id ` set (c_rows st)"
    and "\<And>r. r \<in> set (c_rows st) \<Longrightarrow> c_id r \<noteq> general_id \<Longrightarrow>
        replay_audit (channel_entries (c_id r) st) = channel_view r (c_members st)"
  using assms unfolding ch_inv_def by blast+

lemma ch_invI:
  assumes "distinct (List.map c_id (c_rows st))"
    and "\<And>r r'. r \<in> set (c_rows st) \<Longrightarrow> r' \<in> set (c_rows st) \<Longrightarrow> active r \<Longrightarrow> active r' \<Longrightarrow>
           c_slug r = c_slug r' \<Longrightarrow> c_id r = c_id r'"
    and "\<exists>g \<in> set (c_rows st). c_id g = general_id \<and> c_slug g = general_slug \<and> active g"
    and "\<And>r. r \<in> set (c_rows st) \<Longrightarrow> c_id r \<noteq> general_id \<Longrightarrow> c_slug r \<noteq> general_slug \<and> slug_grammar (c_slug r)"
    and "distinct (List.map member_key (c_members st))"
    and "\<And>m. m \<in> set (c_members st) \<Longrightarrow> mb_channel m \<noteq> general_id \<and> mb_channel m \<in> c_id ` set (c_rows st)"
    and "List.map ca_id (c_audit st) = [1..<Suc (c_seq st)]"
    and "\<And>e. e \<in> set (c_audit st) \<Longrightarrow> ca_channel e \<noteq> general_id \<and> ca_channel e \<in> c_id ` set (c_rows st)"
    and "\<And>r. r \<in> set (c_rows st) \<Longrightarrow> c_id r \<noteq> general_id \<Longrightarrow>
        replay_audit (channel_entries (c_id r) st) = channel_view r (c_members st)"
  shows "ch_inv st"
  using assms unfolding ch_inv_def by blast

lemma set_rows_update:
  assumes "r \<in> set t" "c_id r = i" "\<And>x. x \<in> set t \<Longrightarrow> c_id x = i \<Longrightarrow> x = r"
  shows "set (sql_update (\<lambda>x. c_id x = i) f t) = insert (f r) {x \<in> set t. c_id x \<noteq> i}"
proof (intro set_eqI iffI)
  fix y assume "y \<in> set (sql_update (\<lambda>x. c_id x = i) f t)"
  then obtain x where "x \<in> set t" "y = (if c_id x = i then f x else x)" by (auto simp: set_sql_update)
  with assms(3) show "y \<in> insert (f r) {x \<in> set t. c_id x \<noteq> i}" by (cases "c_id x = i") auto
next
  fix y assume "y \<in> insert (f r) {x \<in> set t. c_id x \<noteq> i}"
  then consider "y = f r" | "y \<in> set t" "c_id y \<noteq> i" by blast
  then show "y \<in> set (sql_update (\<lambda>x. c_id x = i) f t)"
    by cases (use assms(1,2) in \<open>force simp: set_sql_update image_iff\<close>)+
qed

lemma ch_inv_commit:
  assumes inv: "ch_inv st" and c: "ch_commit i f ms new st st'" and r: "ch_get i st = Some r"
    and slug: "c_slug (f r) \<noteq> general_slug" "slug_grammar (c_slug (f r))"
    and uniq: "active (f r) \<Longrightarrow> \<forall>r' \<in> set (c_rows st). c_id r' \<noteq> i \<and> active r' \<longrightarrow> c_slug r' \<noteq> c_slug (f r)"
    and rep: "replay_audit_from new (channel_view r (c_members st)) = channel_view (f r) ms"
  shows "ch_inv st'"
proof -
  note I = ch_invD [OF inv]
  from c have st': "c_rows st' = sql_update (\<lambda>r. c_id r = i) f (c_rows st)" "c_members st' = ms"
      "c_seq st' = c_seq st + length new" "c_audit st' = c_audit st @ new"
    and ids: "\<And>r. c_id (f r) = c_id r" and ng: "i \<noteq> general_id" and about: "\<forall>e \<in> set new. ca_channel e = i"
    and nums: "List.map ca_id new = [Suc (c_seq st)..<Suc (c_seq st + length new)]"
    and mems: "\<And>j. j \<noteq> i \<Longrightarrow> filter (\<lambda>m. mb_channel m = j) ms = filter (\<lambda>m. mb_channel m = j) (c_members st)"
    and dist: "distinct (List.map member_key ms)"
    using I(5) by (simp_all add: ch_commit_def)
  have rin: "r \<in> set (c_rows st)" "c_id r = i" using r by (auto simp: ch_get_def dest: sql_get_SomeD)
  have only: "x = r" if "x \<in> set (c_rows st)" "c_id x = i" for x
    using that rin I(1) by (metis distinct_map inj_on_eq_iff)
  have rows: "set (c_rows st') = insert (f r) {x \<in> set (c_rows st). c_id x \<noteq> i}"
    unfolding st'(1) by (rule set_rows_update [OF rin only])
  have "List.map c_id (c_rows st') = List.map c_id (c_rows st)" by (simp add: st' ids)
  then have key: "c_id ` set (c_rows st') = c_id ` set (c_rows st)"
    and dids: "distinct (List.map c_id (c_rows st'))" using I(1) by (metis list.set_map, simp)
  have old: "x \<in> set (c_rows st)" if "x \<in> set (c_rows st')" "x \<noteq> f r" for x
    using that rows by blast
  show ?thesis
  proof (rule ch_invI)
    show "distinct (List.map c_id (c_rows st'))" by (rule dids)
    show "\<exists>g \<in> set (c_rows st'). c_id g = general_id \<and> c_slug g = general_slug \<and> active g"
      using I(3) ng unfolding rows by blast
    show "c_slug x \<noteq> general_slug \<and> slug_grammar (c_slug x)"
      if "x \<in> set (c_rows st')" "c_id x \<noteq> general_id" for x
      using I(4) [OF old, OF that(1) _ that(2)] slug by (cases "x = f r") auto
    show "distinct (List.map member_key (c_members st'))" using dist st' by simp
    show "List.map ca_id (c_audit st') = [1..<Suc (c_seq st')]"
      using I(7) nums upt_add_eq_append [of 1 "Suc (c_seq st)" "length new"] by (simp add: st')
    show "ca_channel e \<noteq> general_id \<and> ca_channel e \<in> c_id ` set (c_rows st')" if "e \<in> set (c_audit st')" for e
      unfolding key using that I(8) about ng rin by (auto simp: st')
    show "mb_channel m \<noteq> general_id \<and> mb_channel m \<in> c_id ` set (c_rows st')" if "m \<in> set (c_members st')" for m
    proof (cases "mb_channel m = i")
      case True
      with ng rin key show ?thesis by auto
    next
      case False
      from that have "m \<in> set (filter (\<lambda>x. mb_channel x = mb_channel m) ms)" by (simp add: st')
      with mems [OF False] have "m \<in> set (c_members st)" by auto
      with I(6) key show ?thesis by simp
    qed
    show "c_id x = c_id y" if "x \<in> set (c_rows st')" "y \<in> set (c_rows st')" "active x" "active y" "c_slug x = c_slug y"
      for x y
      using that I(2) [of x y] uniq rin ids unfolding rows by (auto 4 3)
    show "replay_audit (channel_entries (c_id x) st') = channel_view x (c_members st')"
      if x: "x \<in> set (c_rows st')" "c_id x \<noteq> general_id" for x
    proof (cases "c_id x = i")
      case True
      with x rows ids rin have "x = f r" by auto
      moreover have "channel_entries i st' = channel_entries i st @ new"
        using about by (auto simp: channel_entries_def sql_all_def st' intro: filter_True)
      moreover have "replay_audit (channel_entries i st) = channel_view r (c_members st)"
        using I(9) [OF rin(1)] rin ng by simp
      ultimately show ?thesis using rep ids rin st' by (simp add: replay_audit_def)
    next
      case False
      then have "channel_entries (c_id x) st' = channel_entries (c_id x) st"
        using about by (auto simp: channel_entries_def sql_all_def st' filter_empty_conv)
      moreover have "channel_view x ms = channel_view x (c_members st)"
        using roles_in_other [OF mems [OF False]] by (simp add: channel_view_def)
      moreover have "x \<in> set (c_rows st)" using x False rows ids rin by auto
      ultimately show ?thesis using I(9) x by (simp add: st')
    qed
  qed
qed

end
