(* ===== verification/ChannelLife.thy ===== *)
theory ChannelLife
  imports ChannelAudit
begin

text \<open>
  Every call of the channels store, branch by branch (\<open>ch_create_eq\<close> and the lemmas like it), and
  the store as a system: each call keeps the invariant and only appends to the audit log.
\<close>

section \<open>The calls, branch by branch\<close>

lemmas ch_run = cbind_def run_in_transaction_def cmod_def

lemma validate_slug_eq:
  "validate_slug s = (if slug_grammar s then Inr () else Inl (ChannelsError CInvalidInput))"
  unfolding validate_slug_iff [symmetric] by (simp add: validate_slug_def)

text \<open>A slug lookup sees an active channel.\<close>

definition slug_seen :: "string \<Rightarrow> ch_store \<Rightarrow> bool" where
  "slug_seen s st \<longleftrightarrow> (case ch_get_by_slug s st of None \<Rightarrow> False | Some r \<Rightarrow> active r)"

definition created_store :: "string \<Rightarrow> string \<Rightarrow> string \<Rightarrow> string \<Rightarrow> int \<Rightarrow> ch_store \<Rightarrow> ch_store" where
  "created_store u slug description creator now st =
     st\<lparr>c_rows := c_rows st @ [new_channel u slug description creator now],
        c_members := sql_insert_ignore (\<lambda>m m'. mb_channel m = mb_channel m' \<and> mb_name m = mb_name m')
          (new_member u creator ChMember now) (c_members st),
        c_audit := c_audit st @ [audit_entry (Suc (c_seq st)) u creator ACreate now
           [(''slug'', JStr slug), (''description'', JStr description)]],
        c_seq := Suc (c_seq st)\<rparr>"

lemma ch_create_eq:
  "ch_create u slug description creator now st =
    (let d = (case description of None \<Rightarrow> [] | Some d \<Rightarrow> d)
     in if \<not> slug_grammar slug then (st, Inl (ChannelsError CInvalidInput))
        else if slug = general_slug then (st, Inl (ChannelsError CReserved))
        else if slug_seen slug st then (st, Inl (ChannelsError CSlugTaken))
        else if \<not> (id_free u st \<and> slug_free slug st) then (st, Inl ChSqlConstraint)
        else (created_store u slug d creator now st, Inr (new_channel u slug d creator now)))"
proof -
  have seen: "(case ch_get_by_slug slug st of None \<Rightarrow> False | Some existing \<Rightarrow> c_archived_at existing = None) =
      slug_seen slug st" by (simp add: slug_seen_def active_def cong: option.case_cong)
  show ?thesis
    by (simp add: ch_create_def Let_def validate_slug_eq seen ch_run ch_insert_stmt_eq
        ch_insert_member_stmt_def ch_audit_row_eq created_store_def new_member_def
        ch_get_def [where st = "ch_store.c_rows_update _ _"] ch_get_append ch_get_def)
qed

definition next_slug :: "channel_patch \<Rightarrow> channel_row \<Rightarrow> string" where
  "next_slug input r = (case cp_slug input of None \<Rightarrow> c_slug r | Some s \<Rightarrow> s)"

definition next_description :: "channel_patch \<Rightarrow> channel_row \<Rightarrow> string" where
  "next_description input r = (case cp_description input of None \<Rightarrow> c_description r | Some d \<Rightarrow> d)"

definition update_entries :: "string \<Rightarrow> channel_patch \<Rightarrow> string \<Rightarrow> int \<Rightarrow> channel_row \<Rightarrow> nat \<Rightarrow> channel_audit_row list" where
  "update_entries i input actor now r n =
     (let slug = next_slug input r; d = next_description input r;
          ren = (if c_slug r \<noteq> slug
                 then [audit_entry (Suc n) i actor ARename now
                        [(''from'', JStr (c_slug r)), (''to'', JStr slug)]] else []);
          des = (if c_description r \<noteq> d
                 then [audit_entry (Suc n + length ren) i actor ADescription now
                        [(''from'', JStr (c_description r)), (''to'', JStr d)]] else [])
      in ren @ des)"

definition update_audit ::
  "string \<Rightarrow> string \<Rightarrow> int \<Rightarrow> channel_row \<Rightarrow> string \<Rightarrow> string \<Rightarrow> (ch_store, ch_error, unit) call" where
  "update_audit i actor now r s d =
     cbind (cmod (if c_slug r \<noteq> s then ch_audit_row i actor ARename now
                    [(''from'', JStr (c_slug r)), (''to'', JStr s)] else id))
       (\<lambda>_. cmod (if c_description r \<noteq> d then ch_audit_row i actor ADescription now
                    [(''from'', JStr (c_description r)), (''to'', JStr d)] else id))"

lemma update_audit_eq:
  assumes "s = next_slug input r" "d = next_description input r"
  shows "update_audit i actor now r s d st =
    (st\<lparr>c_seq := c_seq st + length (update_entries i input actor now r (c_seq st)),
        c_audit := c_audit st @ update_entries i input actor now r (c_seq st)\<rparr>, Inr ())"
  unfolding assms [symmetric] update_audit_def update_entries_def Let_def
  by (simp add: cbind_def cmod_def ch_audit_row_eq)

text \<open>Another active channel holds the slug: seen by the lookup, or refused by the index.\<close>

definition slug_held :: "string \<Rightarrow> string \<Rightarrow> ch_store \<Rightarrow> bool" where
  "slug_held i s st \<longleftrightarrow> (\<exists>r' \<in> set (c_rows st). c_id r' \<noteq> i \<and> active r' \<and> c_slug r' = s)"

definition slug_collides :: "string \<Rightarrow> string \<Rightarrow> ch_store \<Rightarrow> bool" where
  "slug_collides i s st \<longleftrightarrow>
     (case ch_get_by_slug s st of None \<Rightarrow> False | Some r \<Rightarrow> c_id r \<noteq> i \<and> active r)"

lemma ch_update_eq:
  "ch_update i input actor now st =
    (if \<not> (case cp_slug input of None \<Rightarrow> True | Some s \<Rightarrow> slug_grammar s) then (st, Inl (ChannelsError CInvalidInput))
     else if i = general_id \<or> cp_slug input = Some general_slug then (st, Inl (ChannelsError CReserved))
     else (case ch_get i st of
        None \<Rightarrow> (st, Inl (ChannelsError CNotFound))
      | Some r \<Rightarrow>
          if \<not> active r then (st, Inl (ChannelsError CArchived))
          else (let s = next_slug input r; d = next_description input r;
                    f = (\<lambda>r. r\<lparr>c_slug := s, c_description := d\<rparr>);
                    new = update_entries i input actor now r (c_seq st)
                in if c_slug r = s \<and> c_description r = d then (st, Inr r)
                   else if slug_collides i s st then (st, Inl (ChannelsError CSlugTaken))
                   else if slug_held i s st then (st, Inl ChSqlConstraint)
                   else (st\<lparr>c_rows := sql_update (\<lambda>r. c_id r = i) f (c_rows st),
                            c_seq := c_seq st + length new, c_audit := c_audit st @ new\<rparr>, Inr (f r)))))"
proof (cases "ch_get i st")
  case None
  then show ?thesis by (auto simp: ch_update_def validate_slug_eq split: option.splits)
next
  case (Some r)
  have rin: "r \<in> set (c_rows st)" "c_id r = i" using Some by (auto simp: ch_get_def dest: sql_get_SomeD)
  show ?thesis
  proof (cases "(case cp_slug input of None \<Rightarrow> True | Some s \<Rightarrow> slug_grammar s) \<and>
      i \<noteq> general_id \<and> cp_slug input \<noteq> Some general_slug \<and> active r")
    case False
    with Some show ?thesis by (auto simp: ch_update_def validate_slug_eq active_def split: option.splits)
  next
    case True
    define s where "s = next_slug input r"
    define d where "d = next_description input r"
    have stmt: "ch_update_slug_stmt s d i st =
        (if slug_held i s st then (st, Inl ChSqlConstraint)
         else (st\<lparr>c_rows := sql_update (\<lambda>r. c_id r = i) (\<lambda>r. r\<lparr>c_slug := s, c_description := d\<rparr>) (c_rows st)\<rparr>, Inr ()))"
      using True rin by (auto simp: ch_update_slug_stmt_def slug_held_def)
    have col: "(case ch_get_by_slug s st of None \<Rightarrow> False | Some collide \<Rightarrow> c_id collide \<noteq> i \<and> c_archived_at collide = None)
        = slug_collides i s st" by (simp add: slug_collides_def active_def cong: option.case_cong)
    have get: "sql_get (\<lambda>r. c_id r = i) (sql_update (\<lambda>r. c_id r = i) (\<lambda>r. r\<lparr>c_slug := s, c_description := d\<rparr>) (c_rows st)) =
        Some (r\<lparr>c_slug := s, c_description := d\<rparr>)"
      using Some by (simp add: sql_get_update_key [of c_id] ch_get_def)
    have "ch_update i input actor now st =
       (if c_slug r = s \<and> c_description r = d then (st, Inr r)
        else if slug_collides i s st then (st, Inl (ChannelsError CSlugTaken))
        else cbind (run_in_transaction (cbind (ch_update_slug_stmt s d i)
             (\<lambda>_. update_audit i actor now r s d)))
          (\<lambda>_ s. (s, from_option ChRowVanished (ch_get i s))) st)"
      using True Some col
      by (cases "cp_slug input"; cases "cp_description input")
        (simp_all add: ch_update_def Let_def s_def d_def next_slug_def next_description_def validate_slug_eq
          active_def update_audit_def)
    then show ?thesis using True Some
      by (simp add: Let_def s_def [symmetric] d_def [symmetric] stmt cbind_def run_in_transaction_def
          update_audit_eq [OF s_def d_def] ch_get_def get)
  qed
qed

lemma ch_archive_eq:
  "ch_archive i actor now st =
    (if i = general_id then (st, Inl (ChannelsError CReserved))
     else (case ch_get i st of
        None \<Rightarrow> (st, Inl (ChannelsError CNotFound))
      | Some r \<Rightarrow>
          if \<not> active r then (st, Inr r)
          else (st\<lparr>c_rows := sql_update (\<lambda>r. c_id r = i) (\<lambda>r. r\<lparr>c_archived_at := Some now\<rparr>) (c_rows st),
                   c_seq := Suc (c_seq st),
                   c_audit := c_audit st @ [audit_entry (Suc (c_seq st)) i actor AArchive now [(''slug'', JStr (c_slug r))]]\<rparr>,
                Inr (r\<lparr>c_archived_at := Some now\<rparr>))))"
  by (auto simp: ch_archive_def active_def ch_run ch_archive_stmt_def ch_audit_row_eq ch_get_def
      sql_get_update_key [of c_id] split: option.splits)

definition added_members :: "string \<Rightarrow> string \<Rightarrow> ch_role \<Rightarrow> int \<Rightarrow> member_row list \<Rightarrow> member_row list" where
  "added_members i name role now ms =
     sql_delete (\<lambda>m. mb_channel m = i \<and> mb_name m = name) ms @ [new_member i name role now]"

lemma insert_after_delete:
  "sql_insert_ignore (\<lambda>m m'. mb_channel m = mb_channel m' \<and> mb_name m = mb_name m') (new_member i name role now)
     (sql_delete (\<lambda>m. mb_channel m = i \<and> mb_name m = name) ms) = added_members i name role now ms"
  by (auto simp: sql_insert_ignore_def added_members_def)

lemma insert_new_member:
  "ch_select_member i name st = None \<Longrightarrow>
   sql_insert_ignore (\<lambda>m m'. mb_channel m = mb_channel m' \<and> mb_name m = mb_name m') (new_member i name role now)
     (c_members st) = added_members i name role now (c_members st)"
  unfolding insert_after_delete [symmetric]
  by (auto simp: ch_select_member_def sql_get_None sql_delete_def intro!: arg_cong [where f = "sql_insert_ignore _ _"]
      filter_True [symmetric])

lemma ch_add_member_eq:
  "ch_add_member i name role actor now st =
    (let role = (case role of None \<Rightarrow> ChMember | Some r \<Rightarrow> r);
         actor = (case actor of None \<Rightarrow> name | Some a \<Rightarrow> a)
     in if i = general_id then (st, Inr ())
        else (case ch_get i st of
           None \<Rightarrow> (st, Inl (ChannelsError CNotFound))
         | Some r \<Rightarrow>
             if \<not> active r then (st, Inl (ChannelsError CArchived))
             else (let prior = ch_role_of i name st
                   in (st\<lparr>c_members := added_members i name role now (c_members st), c_seq := Suc (c_seq st),
                         c_audit := c_audit st @ [audit_entry (Suc (c_seq st)) i actor
                           (if prior = None then AMemberAdd else AMemberRole) now
                           [(''member'', JStr name), (''from'', json_of_role prior), (''to'', json_of_role (Some role))]]\<rparr>,
                       Inr ()))))"
proof (cases "ch_get i st")
  case (Some r)
  then have "i \<in> c_id ` set (c_rows st)" by (auto simp: ch_get_def dest: sql_get_SomeD)
  then show ?thesis using Some
    by (auto simp: ch_add_member_def Let_def active_def ch_run ch_delete_member_stmt_def ch_insert_member_stmt_def
        new_member_def [symmetric] ch_audit_row_eq insert_after_delete insert_new_member ch_role_of_def)
qed (auto simp: ch_add_member_def Let_def)

lemma ch_remove_member_eq:
  "ch_remove_member i name actor now st =
    (let actor = (case actor of None \<Rightarrow> name | Some a \<Rightarrow> a)
     in if i = general_id then (st, Inl (ChannelsError CReserved))
        else (case ch_get i st of
           None \<Rightarrow> (st, Inl (ChannelsError CNotFound))
         | Some r \<Rightarrow>
             (case ch_select_member i name st of
                None \<Rightarrow> (st, Inl (ChannelsError CNotMember))
              | Some m \<Rightarrow>
                  (st\<lparr>c_members := sql_delete (\<lambda>m. mb_channel m = i \<and> mb_name m = name) (c_members st),
                      c_seq := Suc (c_seq st),
                      c_audit := c_audit st @ [audit_entry (Suc (c_seq st)) i actor AMemberRemove now
                        [(''member'', JStr name), (''role'', json_of_role (Some (mb_role m)))]]\<rparr>, Inr ()))))"
  by (auto simp: ch_remove_member_def Let_def ch_run ch_delete_member_stmt_def ch_audit_row_eq split: option.splits)

section \<open>Calls as steps\<close>

inductive ch_step :: "ch_store \<Rightarrow> ch_store \<Rightarrow> bool" where
  step_open: "ch_ensure_general now st = (st', res) \<Longrightarrow> ch_step st st'"
| step_create: "ch_create u slug description creator now st = (st', cres) \<Longrightarrow> ch_step st st'"
| step_update: "ch_update i input actor now st = (st', cres) \<Longrightarrow> ch_step st st'"
| step_archive: "ch_archive i actor now st = (st', cres) \<Longrightarrow> ch_step st st'"
| step_add: "ch_add_member i name role act now st = (st', res) \<Longrightarrow> ch_step st st'"
| step_remove: "ch_remove_member i name act now st = (st', res) \<Longrightarrow> ch_step st st'"

lemma filter_other_channel [simp]:
  "j \<noteq> i \<Longrightarrow> filter (\<lambda>m. mb_channel m = j) (sql_delete (\<lambda>m. mb_channel m = i \<and> mb_name m = n) ms) =
     filter (\<lambda>m. mb_channel m = j) ms"
  by (auto simp: sql_delete_def intro: filter_cong)

lemma distinct_added_members:
  "distinct (List.map member_key ms) \<Longrightarrow> distinct (List.map member_key (added_members i name role now ms))"
  by (auto simp: added_members_def member_key_def)

lemma added_members_other [simp]:
  "j \<noteq> i \<Longrightarrow> filter (\<lambda>m. mb_channel m = j) (added_members i name role now ms) = filter (\<lambda>m. mb_channel m = j) ms"
  by (simp add: added_members_def)

lemma roles_in_added:
  "roles_in (added_members i name role now ms) i = (roles_in ms i)(name \<mapsto> role)"
  by (auto simp: added_members_def roles_in_add roles_in_delete fun_eq_iff split: option.splits)

lemma ch_commit_members:
  assumes "i \<noteq> general_id" "ms = added_members i name role now (c_members st) \<or>
      ms = sql_delete (\<lambda>m. mb_channel m = i \<and> mb_name m = name) (c_members st)"
  shows "ch_commit i (\<lambda>r. r) ms [audit_entry (Suc (c_seq st)) i actor k t p] st
    (st\<lparr>c_members := ms, c_seq := Suc (c_seq st), c_audit := c_audit st @ [audit_entry (Suc (c_seq st)) i actor k t p]\<rparr>)"
proof -
  have "sql_update P (\<lambda>r. r) rows = rows" for P and rows :: "channel_row list"
    by (simp add: sql_update_def)
  then show ?thesis using assms
    by (auto simp: ch_commit_def added_members_other distinct_added_members)
qed

lemma ch_commit_row:
  assumes "i \<noteq> general_id" "\<forall>r. c_id (f r) = c_id r" "\<forall>e \<in> set new. ca_channel e = i"
    and "List.map ca_id new = [Suc (c_seq st)..<Suc (c_seq st + length new)]"
  shows "ch_commit i f (c_members st) new st
    (st\<lparr>c_rows := sql_update (\<lambda>r. c_id r = i) f (c_rows st), c_seq := c_seq st + length new, c_audit := c_audit st @ new\<rparr>)"
  using assms by (simp add: ch_commit_def)

text \<open>A rewritten row: its identity stays, and an archived row is left as it is.\<close>

definition row_kept :: "channel_row \<Rightarrow> channel_row \<Rightarrow> bool" where
  "row_kept r r' \<longleftrightarrow>
     c_id r' = c_id r \<and> c_created_by r' = c_created_by r \<and> c_created_at r' = c_created_at r \<and>
     (\<not> active r \<longrightarrow> r' = r)"

lemma update_entries_ok:
  "\<forall>e \<in> set (update_entries i input actor now r n). ca_channel e = i"
  "List.map ca_id (update_entries i input actor now r n) =
     [Suc n..<Suc (n + length (update_entries i input actor now r n))]"
  by (auto simp: update_entries_def Let_def upt_rec)

lemma replay_update_entries:
  "replay_audit_from (update_entries i input actor now r n) (channel_view r ms) =
     channel_view (r\<lparr>c_slug := next_slug input r, c_description := next_description input r\<rparr>) ms"
  by (simp add: update_entries_def Let_def channel_view_def)

lemma ch_get_in: "ch_get i st = Some r \<Longrightarrow> r \<in> set (c_rows st) \<and> c_id r = i"
  by (auto simp: ch_get_def dest: sql_get_SomeD)

text \<open>\<open>ch_change\<close>: a commit that keeps the invariant, with all it needs to.\<close>

definition ch_change ::
  "string \<Rightarrow> (channel_row \<Rightarrow> channel_row) \<Rightarrow> member_row list \<Rightarrow> channel_audit_row list \<Rightarrow> channel_row \<Rightarrow>
   ch_store \<Rightarrow> ch_store \<Rightarrow> bool" where
  "ch_change i f ms new r st st' \<longleftrightarrow>
     ch_get i st = Some r \<and> ch_commit i f ms new st st' \<and> row_kept r (f r) \<and>
     c_slug (f r) \<noteq> general_slug \<and> slug_grammar (c_slug (f r)) \<and>
     (active (f r) \<longrightarrow> (\<forall>r' \<in> set (c_rows st). c_id r' \<noteq> i \<and> active r' \<longrightarrow> c_slug r' \<noteq> c_slug (f r))) \<and>
     replay_audit_from new (channel_view r (c_members st)) = channel_view (f r) ms \<and>
     (\<not> active r \<longrightarrow> set ms \<subseteq> set (c_members st))"

lemma ch_change_inv: "ch_change i f ms new r st st' \<Longrightarrow> ch_inv st \<Longrightarrow> ch_inv st'"
  unfolding ch_change_def by (blast intro: ch_inv_commit)

text \<open>Calls that leave the row alone and change the members of its channel.\<close>

lemma ch_change_members:
  assumes inv: "ch_inv st" and r: "ch_get i st = Some r" "i \<noteq> general_id"
    and ms: "ms = added_members i name role now (c_members st) \<and> active r \<or>
      ms = sql_delete (\<lambda>m. mb_channel m = i \<and> mb_name m = name) (c_members st)"
    and rep: "apply_audit k actor p (channel_view r (c_members st)) = channel_view r ms"
  shows "ch_change i (\<lambda>r. r) ms [audit_entry (Suc (c_seq st)) i actor k t p] r st
    (st\<lparr>c_members := ms, c_seq := Suc (c_seq st), c_audit := c_audit st @ [audit_entry (Suc (c_seq st)) i actor k t p]\<rparr>)"
    (is "ch_change _ _ _ ?new _ _ ?st'")
proof -
  note rin = ch_get_in [OF r(1)]
  have "ch_commit i (\<lambda>r. r) ms ?new st ?st'" using r(2) ms by (intro ch_commit_members) auto
  moreover have "\<forall>r' \<in> set (c_rows st). c_id r' \<noteq> i \<and> active r' \<longrightarrow> c_slug r' \<noteq> c_slug r" if "active r"
    using ch_invD(2) [OF inv _ _ _ that] rin by metis
  ultimately show ?thesis
    using ch_invD(4) [OF inv, of r] rin r rep ms by (auto simp: ch_change_def row_kept_def)
qed

lemma ch_add_member_change:
  assumes "ch_add_member i name role act now st = (st', res)" "ch_inv st"
  shows "st' = st \<or> (\<exists>f ms new r. ch_change i f ms new r st st')"
proof (cases "st' = st")
  case False
  define rl where "rl = (case role of None \<Rightarrow> ChMember | Some r \<Rightarrow> r)"
  from assms(1) False obtain r actor k p where r: "ch_get i st = Some r" "i \<noteq> general_id" "active r" and
    k: "k = AMemberAdd \<or> k = AMemberRole" and
    p: "p = [(''member'', JStr name), (''from'', json_of_role (ch_role_of i name st)), (''to'', json_of_role (Some rl))]" and
    st': "st' = st\<lparr>c_members := added_members i name rl now (c_members st), c_seq := Suc (c_seq st),
       c_audit := c_audit st @ [audit_entry (Suc (c_seq st)) i actor k now p]\<rparr>"
    by (simp add: ch_add_member_eq Let_def rl_def split: if_splits option.splits) blast+
  have "details_role p = rl" "details_str ''member'' p = name"
    by (cases rl; simp add: p details_role_def json_of_role_def)+
  then have "apply_audit k actor p (channel_view r (c_members st)) =
      channel_view r (added_members i name rl now (c_members st))"
    using k ch_get_in [OF r(1)] by (auto simp: channel_view_def roles_in_added)
  from ch_change_members [OF assms(2) r(1,2) disjI1 [OF conjI [OF refl r(3)]] this] show ?thesis
    unfolding st' by blast
qed simp

lemma ch_remove_member_change:
  assumes "ch_remove_member i name act now st = (st', res)" "ch_inv st"
  shows "st' = st \<or> (\<exists>f ms new r. ch_change i f ms new r st st')"
proof (cases "st' = st")
  case False
  define actor where "actor = (case act of None \<Rightarrow> name | Some a \<Rightarrow> a)"
  from assms(1) False have g: "i \<noteq> general_id" by (auto simp: ch_remove_member_eq Let_def)
  from assms(1) False g obtain r where r: "ch_get i st = Some r" "i \<noteq> general_id"
    by (cases "ch_get i st") (auto simp: ch_remove_member_eq Let_def)
  from assms(1) False r obtain m where m: "ch_select_member i name st = Some m"
    by (cases "ch_select_member i name st") (auto simp: ch_remove_member_eq Let_def)
  from assms(1) r m have
    st0: "st' = st\<lparr>c_members := sql_delete (\<lambda>m. mb_channel m = i \<and> mb_name m = name) (c_members st), c_seq := Suc (c_seq st),
       c_audit := c_audit st @ [audit_entry (Suc (c_seq st)) i actor AMemberRemove now
         [(''member'', JStr name), (''role'', json_of_role (Some (mb_role m)))]]\<rparr>"
    unfolding ch_remove_member_eq Let_def actor_def [symmetric] by auto
  define p where "p = [(''member'', JStr name), (''role'', json_of_role (Some (mb_role m)))]"
  have p: "details_str ''member'' p = name" by (simp add: p_def)
  have st': "st' = st\<lparr>c_members := sql_delete (\<lambda>m. mb_channel m = i \<and> mb_name m = name) (c_members st), c_seq := Suc (c_seq st),
       c_audit := c_audit st @ [audit_entry (Suc (c_seq st)) i actor AMemberRemove now p]\<rparr>"
    using st0 by (simp add: p_def)
  have "apply_audit AMemberRemove actor p (channel_view r (c_members st)) =
      channel_view r (sql_delete (\<lambda>m. mb_channel m = i \<and> mb_name m = name) (c_members st))"
    using ch_get_in [OF r(1)] p by (auto simp: channel_view_def roles_in_delete)
  from ch_change_members [OF assms(2) r disjI2 [OF refl] this] show ?thesis
    unfolding st' by blast
qed simp

lemma ch_archive_change:
  assumes "ch_archive i actor now st = (st', res)" "ch_inv st"
  shows "st' = st \<or> (\<exists>f ms new r. ch_change i f ms new r st st')"
proof (cases "st' = st")
  case False
  let ?f = "\<lambda>r. r\<lparr>c_archived_at := Some now\<rparr>"
  let ?new = "\<lambda>r. [audit_entry (Suc (c_seq st)) i actor AArchive now [(''slug'', JStr (c_slug r))]]"
  from assms(1) False obtain r where r: "ch_get i st = Some r" "i \<noteq> general_id" "active r" and
    st': "st' = st\<lparr>c_rows := sql_update (\<lambda>r. c_id r = i) ?f (c_rows st),
               c_seq := c_seq st + length (?new r), c_audit := c_audit st @ ?new r\<rparr>"
    by (auto simp: ch_archive_eq split: if_splits option.splits)
  have "ch_commit i ?f (c_members st) (?new r) st st'"
    unfolding st' using r by (intro ch_commit_row) auto
  then have "ch_change i ?f (c_members st) (?new r) r st st'"
    using r ch_invD(4) [OF assms(2), of r] ch_get_in [OF r(1)]
    by (simp add: ch_change_def row_kept_def active_def channel_view_def)
  then show ?thesis by blast
qed simp

lemma ch_update_change:
  assumes "ch_update i input actor now st = (st', res)" "ch_inv st"
  shows "st' = st \<or> (\<exists>f ms new r. ch_change i f ms new r st st')"
proof (cases "st' = st")
  case False
  let ?new = "\<lambda>r. update_entries i input actor now r (c_seq st)"
  let ?f = "\<lambda>r0 r. r\<lparr>c_slug := next_slug input r0, c_description := next_description input r0\<rparr>"
  from assms(1) False obtain r where r: "ch_get i st = Some r" "i \<noteq> general_id" "cp_slug input \<noteq> Some general_slug"
    "case cp_slug input of None \<Rightarrow> True | Some s \<Rightarrow> slug_grammar s" "\<not> slug_held i (next_slug input r) st"
    and a: "active r" and
    st': "st' = st\<lparr>c_rows := sql_update (\<lambda>r. c_id r = i) (?f r) (c_rows st),
             c_seq := c_seq st + length (?new r), c_audit := c_audit st @ ?new r\<rparr>"
    unfolding ch_update_eq Let_def by (simp split: if_splits option.splits)
  have slug: "next_slug input r \<noteq> general_slug" "slug_grammar (next_slug input r)"
    using r ch_invD(4) [OF assms(2), of r] ch_get_in [OF r(1)] by (auto simp: next_slug_def split: option.splits)
  have "ch_commit i (?f r) (c_members st) (?new r) st st'"
    unfolding st' using r update_entries_ok by (intro ch_commit_row) auto
  then have "ch_change i (?f r) (c_members st) (?new r) r st st'"
    using r a slug replay_update_entries [of i input actor now r]
    by (auto simp: ch_change_def row_kept_def slug_held_def)
  then show ?thesis by blast
qed simp

lemma ch_step_cases:
  assumes "ch_step st st'" and inv: "ch_inv st"
  obtains (same) "st' = st"
    | (create) u slug d creator now where "slug_grammar slug" "slug \<noteq> general_slug" "id_free u st" "slug_free slug st"
        "st' = created_store u slug d creator now st"
    | (commit) i f ms new r where "ch_change i f ms new r st st'"
  using assms(1)
proof cases
  case (step_open now res)
  from ch_invD(3) [OF inv] obtain g where "g \<in> set (c_rows st)" "c_id g = general_id" by blast
  then have "ch_get general_id st = Some g" using sql_get_unique [OF ch_invD(1) [OF inv]] by (simp add: ch_get_def)
  with step_open same show thesis by (simp add: ch_ensure_general_def)
next
  case (step_create u slug description creator now res)
  define d where "d = (case description of None \<Rightarrow> [] | Some d \<Rightarrow> d)"
  from step_create have "st' = st \<or> slug_grammar slug \<and> slug \<noteq> general_slug \<and> id_free u st \<and> slug_free slug st \<and>
      st' = created_store u slug d creator now st"
    unfolding ch_create_eq Let_def d_def [symmetric] by (simp split: if_splits)
  with same create show thesis by blast
next
  case (step_update i input actor now res)
  from ch_update_change [OF this inv] same commit show thesis by blast
next
  case (step_archive i actor now res)
  from ch_archive_change [OF this inv] same commit show thesis by blast
next
  case (step_add i name role act now res)
  from ch_add_member_change [OF this inv] same commit show thesis by blast
next
  case (step_remove i name act now res)
  from ch_remove_member_change [OF this inv] same commit show thesis by blast
qed

lemma ch_inv_created:
  assumes inv: "ch_inv st" and "slug_grammar slug" "slug \<noteq> general_slug" "id_free u st" "slug_free slug st"
  shows "ch_inv (created_store u slug d creator now st)"
proof -
  note I = ch_invD [OF inv]
  let ?st = "created_store u slug d creator now st"
  have nomem: "\<forall>m \<in> set (c_members st). mb_channel m \<noteq> u"
    using I(6) assms(4) by (fastforce simp: id_free_def)
  then have mems: "c_members ?st = c_members st @ [new_member u creator ChMember now]"
    by (auto simp: created_store_def sql_insert_ignore_def)
  have rows: "c_rows ?st = c_rows st @ [new_channel u slug d creator now]"
    and audit: "c_audit ?st = c_audit st @ [audit_entry (Suc (c_seq st)) u creator ACreate now
           [(''slug'', JStr slug), (''description'', JStr d)]]" and seq: "c_seq ?st = Suc (c_seq st)"
    by (simp_all add: created_store_def)
  have ug: "u \<noteq> general_id" using I(3) assms(4) by (auto simp: id_free_def)
  have noent: "channel_entries u st = []"
    using I(8) assms(4) by (fastforce simp: channel_entries_def sql_all_def filter_empty_conv id_free_def)
  show ?thesis
  proof (rule ch_invI)
    show "distinct (List.map c_id (c_rows ?st))" using I(1) assms(4) by (auto simp: rows id_free_def)
    show "c_id r = c_id r'" if "r \<in> set (c_rows ?st)" "r' \<in> set (c_rows ?st)" "active r" "active r'" "c_slug r = c_slug r'" for r r'
      using that I(2) [of r r'] assms(5) by (auto simp: rows slug_free_def)
    show "\<exists>g \<in> set (c_rows ?st). c_id g = general_id \<and> c_slug g = general_slug \<and> active g"
      using I(3) by (auto simp: rows)
    show "c_slug r \<noteq> general_slug \<and> slug_grammar (c_slug r)" if "r \<in> set (c_rows ?st)" "c_id r \<noteq> general_id" for r
      using that I(4) assms(2,3) by (auto simp: rows)
    show "distinct (List.map member_key (c_members ?st))"
      using I(5) nomem by (auto simp: mems member_key_def)
    show "mb_channel m \<noteq> general_id \<and> mb_channel m \<in> c_id ` set (c_rows ?st)" if "m \<in> set (c_members ?st)" for m
      using that I(6) ug by (auto simp: mems rows)
    show "List.map ca_id (c_audit ?st) = [1..<Suc (c_seq ?st)]" using I(7) by (simp add: audit seq)
    show "ca_channel e \<noteq> general_id \<and> ca_channel e \<in> c_id ` set (c_rows ?st)" if "e \<in> set (c_audit ?st)" for e
      using that I(8) ug by (auto simp: audit rows)
    show "replay_audit (channel_entries (c_id r) ?st) = channel_view r (c_members ?st)"
      if r: "r \<in> set (c_rows ?st)" "c_id r \<noteq> general_id" for r
    proof (cases "c_id r = u")
      case True
      with r assms(4) have "r = new_channel u slug d creator now" by (auto simp: rows id_free_def)
      moreover have "roles_in (c_members st) u = Map.empty"
        using nomem by (auto simp: roles_in_def fun_eq_iff sql_get_None)
      ultimately show ?thesis using noent
        by (auto simp: channel_entries_def sql_all_def audit mems channel_view_def roles_in_add replay_audit_def
            audit_entry_def replay_audit_from_def details_of_def)
    next
      case False
      then have "channel_entries (c_id r) ?st = channel_entries (c_id r) st"
        by (simp add: channel_entries_def sql_all_def audit)
      moreover have "roles_in (c_members ?st) (c_id r) = roles_in (c_members st) (c_id r)"
        by (rule roles_in_other) (use False in \<open>simp add: mems\<close>)
      ultimately show ?thesis using I(9) [of r] r False by (auto simp: rows channel_view_def)
    qed
  qed
qed

lemma ch_step_inv: "ch_step st st' \<Longrightarrow> ch_inv st \<Longrightarrow> ch_inv st'"
  by (erule (1) ch_step_cases) (simp, metis ch_inv_created, metis ch_change_inv)

interpretation ch_system: invariant_system ch_step ch_inv
  by unfold_locales (rule ch_step_inv)

lemma ch_step_appends: "ch_step st st' \<Longrightarrow> prefix (c_audit st) (c_audit st')"
  by (induction rule: ch_step.induct)
    (auto simp: ch_ensure_general_def ch_insert_stmt_eq ch_create_eq created_store_def ch_update_eq ch_archive_eq
      ch_add_member_eq ch_remove_member_eq Let_def split: if_splits option.splits)

interpretation ch_log: append_only_log ch_step c_audit
  by unfold_locales (rule ch_step_appends)

end
