(* ===== verification/ChannelTheorems.thy ===== *)
theory ChannelTheorems
  imports ChannelLife
begin

text \<open>The properties of the channels store, over every store its calls reach.\<close>

section \<open>Reachable stores\<close>

text \<open>An empty database just opened: the constructor has seeded \<open>general\<close>.\<close>

definition ch_fresh :: "int \<Rightarrow> ch_store" where
  "ch_fresh now = fst (ch_ensure_general now \<lparr>c_rows = [], c_members = [], c_audit = [], c_seq = 0\<rparr>)"

lemma ch_fresh_eq:
  "ch_fresh now = \<lparr>c_rows = [new_channel general_id general_slug [] ''__system__'' now],
     c_members = [], c_audit = [], c_seq = 0\<rparr>"
  by (simp add: ch_fresh_def ch_ensure_general_def ch_get_def sql_get_def ch_insert_stmt_eq id_free_def slug_free_def)

lemma ch_inv_fresh: "ch_inv (ch_fresh now)"
  by (rule ch_invI) (auto simp: ch_fresh_eq)

lemma ch_inv_reachable: "rtranclp ch_step (ch_fresh now) st \<Longrightarrow> ch_inv st"
  by (rule ch_system.run_preserved [OF _ ch_inv_fresh])

lemma ch_get_iff: "ch_inv st \<Longrightarrow> ch_get i st = Some r \<longleftrightarrow> r \<in> set (c_rows st) \<and> c_id r = i"
  unfolding ch_get_def by (rule sql_get_key_iff) (rule ch_invD)


lemma ch_select_member_iff:
  "ch_select_member i n st \<noteq> None \<longleftrightarrow> (\<exists>m \<in> set (c_members st). mb_channel m = i \<and> mb_name m = n)"
  by (auto simp: ch_select_member_def sql_get_None)

lemma ch_step_fst:
  "ch_step st (fst (ch_create u slug d creator now st))"
  "ch_step st (fst (ch_archive i actor now st))"
  "ch_step st (fst (ch_add_member i name role act now st))"
  "ch_step st (fst (ch_remove_member i name act now st))"
  by (metis prod.collapse ch_step.intros)+

text \<open>A concrete history: a channel is created, gains a member and is archived; its slug is reused.\<close>

definition demo_chan :: ch_store where
  "demo_chan = fst (ch_create ''u1'' ''ops'' (Some ''d'') ''ada'' 1 (ch_fresh 0))"

definition demo_chan_add :: ch_store where
  "demo_chan_add = fst (ch_add_member ''u1'' ''bob'' (Some ChAdmin) (Some ''ada'') 2 demo_chan)"

definition demo_chan_archived :: ch_store where
  "demo_chan_archived = fst (ch_archive ''u1'' ''ada'' 3 demo_chan_add)"

definition demo_chan_again :: ch_store where
  "demo_chan_again = fst (ch_create ''u2'' ''ops'' None ''eve'' 4 demo_chan_archived)"

lemma demo_chan_reachable:
  "rtranclp ch_step (ch_fresh 0) demo_chan_add"
  "rtranclp ch_step (ch_fresh 0) demo_chan_archived"
  "rtranclp ch_step (ch_fresh 0) demo_chan_again"
  "rtranclp ch_step demo_chan_archived demo_chan_again"
  using ch_step_fst unfolding demo_chan_again_def demo_chan_archived_def demo_chan_add_def demo_chan_def
  by (meson rtranclp.rtrancl_into_rtrancl rtranclp.rtrancl_refl)+

text \<open>
  C0. \<open>validateSlug\<close> accepts exactly the documented grammar: the backtracking pattern with its
  look-ahead matches the strings of 1 to 32 lower-case letters, digits and dashes that start and end
  with a letter or digit and have no two dashes in a row.
\<close>
theorem channel_slug_grammar:
  "is_ok (validate_slug s) \<longleftrightarrow> slug_grammar s"
  by (rule validate_slug_iff)



text \<open>
  C0. The ways to ask about membership agree: \<open>isMember\<close>, \<open>roleOf\<close>, \<open>recipientNames\<close>, \<open>listMembers\<close>
  and \<open>listForMember\<close> tell the same story in every reachable store. Everyone is in \<open>general\<close>, which
  stores no members and whose recipients are everybody; elsewhere the recipients are the members,
  each once, listed admins first and then by joining time; and a member's channels are the active
  ones they are in.
\<close>
theorem channel_membership_views:
  assumes "rtranclp ch_step (ch_fresh now) st"
  shows "(ch_is_member i n st \<longleftrightarrow> ch_role_of i n st \<noteq> None) \<and>
    (case ch_recipient_names i st of
       None \<Rightarrow> i = general_id \<and> ch_is_member i n st \<and> ch_list_members i st = []
     | Some ns \<Rightarrow> i \<noteq> general_id \<and> distinct ns \<and> (ch_is_member i n st \<longleftrightarrow> n \<in> set ns) \<and>
         ns = List.map mb_name (ch_list_members i st)) \<and>
    sorted (List.map (\<lambda>m. (role_rank (mb_role m), mb_joined_at m)) (ch_list_members i st)) \<and>
    (r \<in> set (ch_list_for_member n st) \<longleftrightarrow> r \<in> set (ch_list_all st) \<and> ch_is_member (c_id r) n st)"
proof -
  have "distinct (List.map mb_name (ch_select_members i st))"
  proof -
    have "distinct (List.map member_key (sql_all (\<lambda>m. mb_channel m = i) (c_members st)))"
      using ch_invD(5) [OF ch_inv_reachable [OF assms]] by (simp add: sql_all_def distinct_map_filter)
    then have "distinct (List.map mb_name (sql_all (\<lambda>m. mb_channel m = i) (c_members st)))"
      by (auto simp: distinct_map inj_on_def member_key_def)
    then show ?thesis by (simp add: ch_select_members_def order_asc_def distinct_map)
  qed
  moreover have "n \<in> set (List.map mb_name (ch_select_members i st)) \<longleftrightarrow> ch_select_member i n st \<noteq> None"
    unfolding ch_select_member_iff by (auto simp: ch_select_members_def)
  moreover have "r \<in> set (ch_list_for_member n st) \<longleftrightarrow> r \<in> set (ch_list_all st) \<and> ch_is_member (c_id r) n st"
    using ch_select_member_iff [of "c_id r" n st]
    by (auto simp: ch_list_for_member_def ch_list_all_def ch_is_member_def list_ex_iff)
  ultimately show ?thesis
    by (auto simp: ch_is_member_def ch_role_of_def ch_recipient_names_def ch_list_members_def ch_select_members_def
        sorted_order_asc)
qed

theorem channel_membership_views_witness:
  "ch_is_member ''u1'' ''bob'' demo_chan_add \<longleftrightarrow> ch_role_of ''u1'' ''bob'' demo_chan_add \<noteq> None"
  using channel_membership_views [OF demo_chan_reachable(1), of "''u1''" "''bob''"] by blast

text \<open>
  C0. In every reachable store \<open>general\<close> is there, active and under its own slug, no other channel has
  that slug, no member rows are stored for it, and no two active channels share a slug.
\<close>
theorem channel_slugs_and_general:
  assumes "rtranclp ch_step (ch_fresh now) st"
  shows "\<exists>g. ch_get general_id st = Some g \<and> c_slug g = general_slug \<and> active g \<and>
    (\<forall>r \<in> set (c_rows st). c_slug r = general_slug \<longrightarrow> r = g) \<and>
    (\<forall>m \<in> set (c_members st). mb_channel m \<noteq> general_id) \<and>
    (\<forall>r \<in> set (ch_list_all st). \<forall>r' \<in> set (ch_list_all st). c_slug r = c_slug r' \<longrightarrow> r = r')"
proof -
  have inv: "ch_inv st" by (rule ch_inv_reachable [OF assms])
  note I = ch_invD [OF inv]
  have same: "r = r'" if "r \<in> set (c_rows st)" "r' \<in> set (c_rows st)" "c_id r = c_id r'" for r r'
    using that I(1) by (metis distinct_map inj_on_eq_iff)
  from I(3) obtain g where g: "g \<in> set (c_rows st)" "c_id g = general_id" "c_slug g = general_slug" "active g"
    by blast
  have "\<forall>r \<in> set (c_rows st). c_slug r = general_slug \<longrightarrow> r = g"
    using I(4) same [OF _ g(1)] g(2) by metis
  moreover have "\<forall>r \<in> set (ch_list_all st). \<forall>r' \<in> set (ch_list_all st). c_slug r = c_slug r' \<longrightarrow> r = r'"
    using I(2) same by (auto simp: ch_list_all_def)
  moreover have "ch_get general_id st = Some g" using g by (simp add: ch_get_iff [OF inv])
  ultimately show ?thesis using g I(6) by blast
qed

theorem channel_slugs_and_general_witness:
  "ch_get general_id demo_chan_again \<noteq> None"
  using channel_slugs_and_general [OF demo_chan_reachable(3)] by auto

section \<open>Archived channels\<close>

definition archived_in :: "string \<Rightarrow> ch_store \<Rightarrow> bool" where
  "archived_in i st \<longleftrightarrow> ch_inv st \<and> (\<exists>r. ch_get i st = Some r \<and> \<not> active r)"

lemma archived_step:
  assumes "ch_step st st'" "archived_in i st"
  shows "archived_in i st' \<and> ch_get i st' = ch_get i st \<and>
    {m \<in> set (c_members st'). mb_channel m = i} \<subseteq> {m \<in> set (c_members st). mb_channel m = i}"
proof -
  from assms(2) obtain r where inv: "ch_inv st" and r: "ch_get i st = Some r" "\<not> active r"
    by (auto simp: archived_in_def)
  have inv': "ch_inv st'" by (rule ch_step_inv [OF assms(1) inv])
  from assms(1) inv show ?thesis
  proof (cases rule: ch_step_cases)
    case same
    with assms(2) show ?thesis by simp
  next
    case (create u slug d creator now)
    then have ne: "i \<noteq> u" using ch_get_in [OF r(1)] by (auto simp: id_free_def)
    have "ch_get i st' = ch_get i st"
      using ne ch_get_append [of "new_channel u slug d creator now" st i] create(3)
      by (simp add: create(5) created_store_def ch_get_def)
    moreover have "{m \<in> set (c_members st'). mb_channel m = i} \<subseteq> {m \<in> set (c_members st). mb_channel m = i}"
      using ne by (auto simp: create(5) created_store_def sql_insert_ignore_def split: if_splits)
    ultimately show ?thesis using inv' r by (auto simp: archived_in_def)
  next
    case (commit j f ms new r0)
    show ?thesis
    proof (cases "j = i")
      case True
      with commit r have "f r = r" "set ms \<subseteq> set (c_members st)" "ch_get i st' = Some (f r)" "c_members st' = ms"
        by (auto simp: ch_change_def row_kept_def ch_commit_get) (auto simp: ch_commit_def)
      with r inv' show ?thesis by (auto simp: archived_in_def)
    next
      case False
      have "filter (\<lambda>m. mb_channel m = i) (c_members st') = filter (\<lambda>m. mb_channel m = i) (c_members st)"
        using commit False by (auto simp: ch_change_def ch_commit_def)
      then have "{m \<in> set (c_members st'). mb_channel m = i} = {m \<in> set (c_members st). mb_channel m = i}"
        by (metis set_filter)
      moreover have "ch_get i st' = ch_get i st" using commit False by (auto simp: ch_change_def ch_commit_get)
      ultimately show ?thesis using r inv' by (auto simp: archived_in_def)
    qed
  qed
qed

interpretation ch_frozen: frozen_once ch_step "archived_in i" "ch_get i" for i
  by unfold_locales (use archived_step in blast)+

text \<open>
  Archiving is final: after any further calls an archived channel's row is the same, its slug and
  description included, and nobody joins it or changes role (members can only leave).
\<close>
theorem channel_archived_frozen:
  assumes "rtranclp ch_step (ch_fresh now) st" and "ch_get i st = Some r" and "c_archived_at r \<noteq> None"
    and "rtranclp ch_step st st'"
  shows "ch_get i st' = Some r \<and>
    {m \<in> set (c_members st'). mb_channel m = i} \<subseteq> {m \<in> set (c_members st). mb_channel m = i}"
proof -
  have a: "archived_in i st"
    using assms(2,3) ch_inv_reachable [OF assms(1)] by (auto simp: archived_in_def active_def)
  have "{m \<in> set (c_members st'). mb_channel m = i} \<subseteq> {m \<in> set (c_members st). mb_channel m = i}"
    using assms(4)
  proof (induction rule: rtranclp_induct)
    case (step y z)
    have "archived_in i y" using ch_frozen.run_frozen [OF step.hyps(1) a] by simp
    from archived_step [OF step.hyps(2) this] step.IH show ?case by blast
  qed simp
  with ch_frozen.run_frozen [OF assms(4) a] assms(2) show ?thesis by simp
qed

theorem channel_archived_frozen_witness:
  "map_option c_archived_at (ch_get ''u1'' demo_chan_again) = Some (Some 3)"
proof -
  have "map_option c_archived_at (ch_get ''u1'' demo_chan_archived) = Some (Some 3)" by code_simp
  then obtain r where r: "ch_get ''u1'' demo_chan_archived = Some r" "c_archived_at r = Some 3" by auto
  have "c_archived_at r \<noteq> None" using r(2) by simp
  from channel_archived_frozen [OF demo_chan_reachable(2) r(1) this demo_chan_reachable(4)] r(2)
  show ?thesis by simp
qed

section \<open>Single calls\<close>

text \<open>
  A call that throws leaves the three tables as they were, and the audit log only ever grows.
\<close>
theorem channel_failure_atomic:
  "(case ch_create u slug d creator now st of (st', Inl e) \<Rightarrow> st' = st | (st', _) \<Rightarrow> prefix (c_audit st) (c_audit st')) \<and>
   (case ch_update i input actor now st of (st', Inl e) \<Rightarrow> st' = st | (st', _) \<Rightarrow> prefix (c_audit st) (c_audit st')) \<and>
   (case ch_archive i actor now st of (st', Inl e) \<Rightarrow> st' = st | (st', _) \<Rightarrow> prefix (c_audit st) (c_audit st')) \<and>
   (case ch_add_member i name role act now st of (st', Inl e) \<Rightarrow> st' = st | (st', _) \<Rightarrow> prefix (c_audit st) (c_audit st')) \<and>
   (case ch_remove_member i name act now st of (st', Inl e) \<Rightarrow> st' = st | (st', _) \<Rightarrow> prefix (c_audit st) (c_audit st'))"
  by (intro conjI)
    (simp_all add: ch_create_eq created_store_def ch_update_eq ch_archive_eq ch_add_member_eq ch_remove_member_eq
      Let_def split: option.split)

text \<open>
  C0. A slug an active channel holds cannot be taken again: \<open>create\<close> fails and changes nothing. But
  which error the caller gets depends on the history: \<open>slug_taken\<close> only when the first row with that
  slug is the active one. When an archived channel had the slug first, \<open>getBySlug\<close> finds the archived
  channel, the check passes, and the caller gets the database's constraint error.
\<close>
theorem channel_slug_reuse:
  assumes "r \<in> set (c_rows st)" and "active r" and "c_slug r = s" and "slug_grammar s" and "s \<noteq> general_slug"
  shows "\<exists>first. ch_get_by_slug s st = Some first \<and>
    ch_create u s d creator now st =
      (st, Inl (if active first then ChannelsError CSlugTaken else ChSqlConstraint))"
proof -
  have "ch_get_by_slug s st \<noteq> None" using assms(1,3) by (auto simp: ch_get_by_slug_def sql_get_None)
  then obtain first where f: "ch_get_by_slug s st = Some first" by auto
  have "\<not> slug_free s st" using assms(1-3) by (auto simp: slug_free_def)
  with f assms(4,5) show ?thesis by (simp add: ch_create_eq slug_seen_def)
qed

theorem channel_slug_reuse_witness:
  "snd (ch_create ''u3'' ''ops'' None ''zoe'' 5 demo_chan_again) = Inl ChSqlConstraint \<and>
   map_option c_id (ch_get_by_slug ''ops'' demo_chan_again) = Some ''u1''"
proof -
  have "list_ex (\<lambda>r. active r \<and> c_slug r = ''ops'') (c_rows demo_chan_again)" by code_simp
  then obtain r where r: "r \<in> set (c_rows demo_chan_again)" "active r" "c_slug r = ''ops''"
    by (auto simp: list_ex_iff)
  have "is_ok (validate_slug ''ops'')" by code_simp
  then have g: "slug_grammar ''ops''" by (simp add: validate_slug_iff)
  have "map_option (\<lambda>r. (c_id r, active r)) (ch_get_by_slug ''ops'' demo_chan_again) = Some (''u1'', False)" by code_simp
  with channel_slug_reuse [OF r g, of "''u3''" None "''zoe''" 5] show ?thesis
    by (auto simp: general_slug_def)
qed

end
