(* ===== verification/DeliveryLedger.thy ===== *)
theory DeliveryLedger
  imports Wire
begin

text \<open>
  The message disposition ledger, \<open>packages/core/src/message-delivery.ts\<close>: which message each
  member has yet to dispose of, and which runner holds the lease on it. The file has two
  implementations of one interface, a \<open>Map\<close> and a SQLite table; both are here, operation by
  operation. The \<open>message_json\<close> column is modelled by the message it encodes.
\<close>

section \<open>Data\<close>

definition delivery_ttl :: int where
  "delivery_ttl = 24 * 60 * 60000"

datatype delivery_state = DPending | DAccepted | DActed | DHandled | DRefused | DUnreported

record pending_delivery =
  pd_message :: message
  pd_recipient :: string
  pd_attempts :: nat
  pd_first_sent :: "int option"
  pd_last_sent :: "int option"
  pd_expires :: int

text \<open>An expired delivery also names the sender, \<open>message.from\<close>.\<close>

type_synonym expired_delivery = "pending_delivery \<times> string option"

record memory_row =
  mr_message :: message
  mr_recipient :: string
  mr_state :: delivery_state
  mr_owner :: "string option"
  mr_released :: "string list"
  mr_attempts :: nat
  mr_first_sent :: "int option"
  mr_last_sent :: "int option"
  mr_disposition_at :: "int option"
  mr_reason :: "disposition_reason option"
  mr_expires :: int

type_synonym mem_ledger = "(string \<times> memory_row) list"

text \<open>The state a settling disposition leaves a row in.\<close>

fun settled_state :: "disposition \<Rightarrow> delivery_state" where
  "settled_state Acted = DActed"
| "settled_state Handled = DHandled"
| "settled_state Refused = DRefused"
| "settled_state Accepted = DAccepted"
| "settled_state Deferred = DPending"

definition expired_reason :: disposition_reason where
  "expired_reason = (RExpired, ''message acknowledgement expired after 24 hours'')"

section \<open>The in-memory ledger\<close>

text \<open>The key of the \<open>Map\<close>: message id, U+0000, recipient.\<close>

definition mem_key :: "string \<Rightarrow> string \<Rightarrow> string" where
  "mem_key message_id recipient = message_id @ CHR 0x00 # recipient"

text \<open>Mutating the row object under a key; nothing happens when there is none.\<close>

definition map_row :: "string \<Rightarrow> (memory_row \<Rightarrow> memory_row) \<Rightarrow> mem_ledger \<Rightarrow> mem_ledger" where
  "map_row key f rows = List.map (\<lambda>(k, r). if k = key then (k, f r) else (k, r)) rows"

definition mem_pending_of :: "memory_row \<Rightarrow> pending_delivery" where
  "mem_pending_of r =
     \<lparr>pd_message = mr_message r, pd_recipient = mr_recipient r, pd_attempts = mr_attempts r,
      pd_first_sent = mr_first_sent r, pd_last_sent = mr_last_sent r, pd_expires = mr_expires r\<rparr>"

definition mem_track :: "message \<Rightarrow> string \<Rightarrow> int \<Rightarrow> mem_ledger \<Rightarrow> mem_ledger" where
  "mem_track message recipient now rows =
     (let key = mem_key (m_id message) recipient
      in if map_of rows key \<noteq> None then rows
         else rows @ [(key,
           \<lparr>mr_message = message, mr_recipient = recipient, mr_state = DPending, mr_owner = None,
            mr_released = [], mr_attempts = 0, mr_first_sent = None, mr_last_sent = None,
            mr_disposition_at = None, mr_reason = None, mr_expires = now + delivery_ttl\<rparr>)])"

definition mem_note_sent :: "string \<Rightarrow> string \<Rightarrow> int \<Rightarrow> mem_ledger \<Rightarrow> mem_ledger" where
  "mem_note_sent message_id recipient now rows =
     (let key = mem_key message_id recipient
      in case map_of rows key of
           None \<Rightarrow> rows
         | Some row \<Rightarrow>
             if mr_state row \<noteq> DPending then rows
             else map_row key (\<lambda>row. row\<lparr>mr_attempts := mr_attempts row + 1,
                    mr_first_sent := (case mr_first_sent row of None \<Rightarrow> Some now | Some t \<Rightarrow> Some t),
                    mr_last_sent := Some now\<rparr>) rows)"

definition mem_settle ::
  "string \<Rightarrow> disposition_frame \<Rightarrow> string \<Rightarrow> bool \<Rightarrow> mem_ledger \<Rightarrow> mem_ledger \<times> pending_delivery option" where
  "mem_settle recipient frame owner require_acceptance rows =
     (let key = mem_key (df_message_id frame) recipient
      in case map_of rows key of
           None \<Rightarrow> (rows, None)
         | Some row \<Rightarrow>
             if df_disposition frame = Accepted then
               (if mr_state row \<noteq> DPending then (rows, None)
                else (let row' = row\<lparr>mr_state := DAccepted, mr_owner := Some owner, mr_reason := None\<rparr>
                      in (map_row key (\<lambda>_. row') rows, Some (mem_pending_of row'))))
             else if df_disposition frame = Deferred then
               (if mr_state row = DAccepted \<and> mr_owner row \<noteq> Some owner then (rows, None)
                else if mr_state row \<noteq> DPending \<and> mr_state row \<noteq> DAccepted then (rows, None)
                else (let row' = row\<lparr>mr_released := (if mr_state row = DAccepted then set_add owner (mr_released row)
                                                    else mr_released row),
                                     mr_state := DPending, mr_owner := None, mr_reason := df_reason frame\<rparr>
                      in (map_row key (\<lambda>_. row') rows, Some (mem_pending_of row'))))
             else if (if mr_state row = DAccepted then mr_owner row \<noteq> Some owner
                      else mr_state row \<noteq> DPending \<or> require_acceptance \<or> owner \<in> set (mr_released row))
             then (rows, None)
             else (let row' = row\<lparr>mr_state := settled_state (df_disposition frame), mr_owner := None,
                                  mr_disposition_at := Some (df_at frame), mr_reason := df_reason frame\<rparr>
                   in (map_row key (\<lambda>_. row') rows, Some (mem_pending_of row'))))"

definition mem_holds :: "string \<Rightarrow> string \<Rightarrow> memory_row \<Rightarrow> bool" where
  "mem_holds recipient owner row \<longleftrightarrow>
     mr_recipient row = recipient \<and> mr_state row = DAccepted \<and> mr_owner row = Some owner"

definition mem_release_owner :: "string \<Rightarrow> string \<Rightarrow> mem_ledger \<Rightarrow> mem_ledger \<times> nat" where
  "mem_release_owner recipient owner rows =
     (List.map (\<lambda>(k, row). if mem_holds recipient owner row
        then (k, row\<lparr>mr_state := DPending, mr_owner := None, mr_released := set_add owner (mr_released row)\<rparr>)
        else (k, row)) rows,
      length (filter (\<lambda>(k, row). mem_holds recipient owner row) rows))"

definition mem_pending :: "string \<Rightarrow> int \<Rightarrow> mem_ledger \<Rightarrow> pending_delivery list" where
  "mem_pending recipient now rows =
     List.map mem_pending_of
       (sort_key (\<lambda>row. m_ts (mr_message row))
         (filter (\<lambda>row. mr_recipient row = recipient \<and> mr_state row = DPending \<and> mr_expires row > now)
           (List.map snd rows)))"

definition mem_expires_now :: "int \<Rightarrow> memory_row \<Rightarrow> bool" where
  "mem_expires_now now row \<longleftrightarrow> (mr_state row = DPending \<or> mr_state row = DAccepted) \<and> mr_expires row \<le> now"

definition mem_expire_row :: "int \<Rightarrow> memory_row \<Rightarrow> memory_row" where
  "mem_expire_row now row =
     row\<lparr>mr_state := DRefused, mr_disposition_at := Some now, mr_reason := Some expired_reason\<rparr>"

definition mem_expire :: "int \<Rightarrow> mem_ledger \<Rightarrow> mem_ledger \<times> expired_delivery list" where
  "mem_expire now rows =
     (let expired = filter (\<lambda>(k, row). mem_expires_now now row) rows;
          rows' = List.map (\<lambda>(k, row). if mem_expires_now now row then (k, mem_expire_row now row) else (k, row)) rows
      in (filter (\<lambda>(k, row). \<not> (mr_state row \<noteq> DPending \<and> mr_expires row \<le> now)) rows',
          List.map (\<lambda>(k, row). (mem_pending_of (mem_expire_row now row), m_from (mr_message row))) expired))"

definition mem_mark_unreported :: "string \<Rightarrow> string \<Rightarrow> int \<Rightarrow> mem_ledger \<Rightarrow> mem_ledger" where
  "mem_mark_unreported message_id recipient now rows =
     (let key = mem_key message_id recipient
      in case map_of rows key of
           None \<Rightarrow> rows
         | Some row \<Rightarrow>
             if mr_state row \<noteq> DPending then rows
             else map_row key (\<lambda>row. row\<lparr>mr_state := DUnreported, mr_disposition_at := Some now\<rparr>) rows)"

section \<open>The SQLite ledger\<close>

record delivery_row =
  dr_message_id :: string
  dr_recipient :: string
  dr_message :: message
  dr_state :: delivery_state
  dr_attempts :: nat
  dr_first_sent :: "int option"
  dr_last_sent :: "int option"
  dr_expires :: int
  dr_disposition_at :: "int option"
  dr_reason :: "disposition_reason option"
  dr_owner :: "string option"

text \<open>The table, and the map of owners who gave a lease up, which lives in the process.\<close>

record sql_ledger =
  sl_rows :: "delivery_row list"
  sl_released :: "(string \<times> string list) list"

definition row_to_pending :: "delivery_row \<Rightarrow> pending_delivery" where
  "row_to_pending r =
     \<lparr>pd_message = dr_message r, pd_recipient = dr_recipient r, pd_attempts = dr_attempts r,
      pd_first_sent = dr_first_sent r, pd_last_sent = dr_last_sent r, pd_expires = dr_expires r\<rparr>"

text \<open>Running an \<open>UPDATE\<close>: the new state and \<open>changes\<close>.\<close>

definition sl_run ::
  "(delivery_row \<Rightarrow> bool) \<Rightarrow> (delivery_row \<Rightarrow> delivery_row) \<Rightarrow> sql_ledger \<Rightarrow> sql_ledger \<times> nat" where
  "sl_run P f s = (s\<lparr>sl_rows := sql_update P f (sl_rows s)\<rparr>, sql_changes P (sl_rows s))"

definition at_key :: "string \<Rightarrow> string \<Rightarrow> delivery_row \<Rightarrow> bool" where
  "at_key message_id recipient r \<longleftrightarrow> dr_message_id r = message_id \<and> dr_recipient r = recipient"

text \<open>The constructor: leases of the dead process are released, and nobody is remembered.\<close>

definition sl_open :: "delivery_row list \<Rightarrow> sql_ledger" where
  "sl_open rows =
     \<lparr>sl_rows = sql_update (\<lambda>r. dr_state r = DAccepted) (\<lambda>r. r\<lparr>dr_state := DPending, dr_owner := None\<rparr>) rows,
      sl_released = []\<rparr>"

definition release_key :: "string \<Rightarrow> string \<Rightarrow> string" where
  "release_key recipient message_id = recipient @ CHR 0x00 # message_id"

definition released_owners :: "string \<Rightarrow> sql_ledger \<Rightarrow> string list" where
  "released_owners key s = (case map_of (sl_released s) key of None \<Rightarrow> [] | Some owners \<Rightarrow> owners)"

definition note_released :: "string \<Rightarrow> string \<Rightarrow> string \<Rightarrow> sql_ledger \<Rightarrow> sql_ledger" where
  "note_released recipient message_id owner s =
     (let key = release_key recipient message_id
      in s\<lparr>sl_released := AList.update key (set_add owner (released_owners key s)) (sl_released s)\<rparr>)"

definition was_released :: "string \<Rightarrow> string \<Rightarrow> string \<Rightarrow> sql_ledger \<Rightarrow> bool" where
  "was_released recipient message_id owner s =
     (owner \<in> set (released_owners (release_key recipient message_id) s))"

definition sl_track :: "message \<Rightarrow> string \<Rightarrow> int \<Rightarrow> sql_ledger \<Rightarrow> sql_ledger" where
  "sl_track message recipient now s =
     s\<lparr>sl_rows := sql_insert_ignore
          (\<lambda>r r'. dr_message_id r = dr_message_id r' \<and> dr_recipient r = dr_recipient r')
          \<lparr>dr_message_id = m_id message, dr_recipient = recipient, dr_message = message,
           dr_state = DPending, dr_attempts = 0, dr_first_sent = None, dr_last_sent = None,
           dr_expires = now + delivery_ttl, dr_disposition_at = None, dr_reason = None,
           dr_owner = None\<rparr> (sl_rows s)\<rparr>"

definition sl_note_sent :: "string \<Rightarrow> string \<Rightarrow> int \<Rightarrow> sql_ledger \<Rightarrow> sql_ledger" where
  "sl_note_sent message_id recipient now s =
     fst (sl_run (\<lambda>r. at_key message_id recipient r \<and> dr_state r = DPending)
       (\<lambda>r. r\<lparr>dr_attempts := dr_attempts r + 1,
              dr_first_sent := (case dr_first_sent r of None \<Rightarrow> Some now | Some t \<Rightarrow> Some t),
              dr_last_sent := Some now\<rparr>) s)"

definition accept_stmt :: "string \<Rightarrow> string \<Rightarrow> string \<Rightarrow> sql_ledger \<Rightarrow> sql_ledger \<times> nat" where
  "accept_stmt owner message_id recipient =
     sl_run (\<lambda>r. at_key message_id recipient r \<and> dr_state r = DPending)
       (\<lambda>r. r\<lparr>dr_state := DAccepted, dr_owner := Some owner, dr_reason := None\<rparr>)"

definition defer_stmt ::
  "disposition_reason option \<Rightarrow> string \<Rightarrow> string \<Rightarrow> sql_ledger \<Rightarrow> sql_ledger \<times> nat" where
  "defer_stmt reason message_id recipient =
     sl_run (\<lambda>r. at_key message_id recipient r \<and> dr_state r = DPending) (\<lambda>r. r\<lparr>dr_reason := reason\<rparr>)"

definition defer_accepted_stmt ::
  "disposition_reason option \<Rightarrow> string \<Rightarrow> string \<Rightarrow> string \<Rightarrow> sql_ledger \<Rightarrow> sql_ledger \<times> nat" where
  "defer_accepted_stmt reason message_id recipient owner =
     sl_run (\<lambda>r. at_key message_id recipient r \<and> dr_state r = DAccepted \<and> dr_owner r = Some owner)
       (\<lambda>r. r\<lparr>dr_state := DPending, dr_owner := None, dr_reason := reason\<rparr>)"

definition settle_stmt ::
  "delivery_state \<Rightarrow> int \<Rightarrow> disposition_reason option \<Rightarrow> string \<Rightarrow> string \<Rightarrow> sql_ledger \<Rightarrow> sql_ledger \<times> nat" where
  "settle_stmt state at reason message_id recipient =
     sl_run (\<lambda>r. at_key message_id recipient r \<and> dr_state r = DPending)
       (\<lambda>r. r\<lparr>dr_state := state, dr_disposition_at := Some at, dr_reason := reason\<rparr>)"

definition terminal_accepted_stmt ::
  "delivery_state \<Rightarrow> int \<Rightarrow> disposition_reason option \<Rightarrow> string \<Rightarrow> string \<Rightarrow> string \<Rightarrow>
   sql_ledger \<Rightarrow> sql_ledger \<times> nat" where
  "terminal_accepted_stmt state at reason message_id recipient owner =
     sl_run (\<lambda>r. at_key message_id recipient r \<and> dr_state r = DAccepted \<and> dr_owner r = Some owner)
       (\<lambda>r. r\<lparr>dr_state := state, dr_disposition_at := Some at, dr_reason := reason, dr_owner := None\<rparr>)"

definition pending_by_id :: "string \<Rightarrow> string \<Rightarrow> sql_ledger \<Rightarrow> delivery_row option" where
  "pending_by_id recipient message_id s = sql_get (at_key message_id recipient) (sl_rows s)"

definition sl_settle ::
  "string \<Rightarrow> disposition_frame \<Rightarrow> string \<Rightarrow> bool \<Rightarrow> sql_ledger \<Rightarrow> sql_ledger \<times> pending_delivery option" where
  "sl_settle recipient frame owner require_acceptance s =
     (let mid = df_message_id frame in
      case pending_by_id recipient mid s of
        None \<Rightarrow> (s, None)
      | Some selected \<Rightarrow>
          (let row = row_to_pending selected;
               reason = df_reason frame;
               finish = (\<lambda>(s', changes :: nat). (s', if changes > 0 then Some row else None))
           in if df_disposition frame = Accepted then finish (accept_stmt owner mid recipient s)
              else if df_disposition frame = Deferred then
                (if dr_state selected = DAccepted \<and> dr_owner selected \<noteq> Some owner then (s, None)
                 else if dr_state selected = DAccepted
                 then (case defer_accepted_stmt reason mid recipient owner s of (s', changes) \<Rightarrow>
                         finish (note_released recipient mid owner s', changes))
                 else finish (defer_stmt reason mid recipient s))
              else if dr_state selected = DAccepted
              then finish (terminal_accepted_stmt (settled_state (df_disposition frame)) (df_at frame) reason
                             mid recipient owner s)
              else if require_acceptance \<or> was_released recipient mid owner s then (s, None)
              else finish (settle_stmt (settled_state (df_disposition frame)) (df_at frame) reason
                             mid recipient s)))"

definition holds_lease :: "string \<Rightarrow> string \<Rightarrow> delivery_row \<Rightarrow> bool" where
  "holds_lease recipient owner r \<longleftrightarrow>
     dr_recipient r = recipient \<and> dr_state r = DAccepted \<and> dr_owner r = Some owner"

definition sl_release_owner :: "string \<Rightarrow> string \<Rightarrow> sql_ledger \<Rightarrow> sql_ledger \<times> nat" where
  "sl_release_owner recipient owner s =
     (let rows = sql_all (holds_lease recipient owner) (sl_rows s);
          s' = fold (\<lambda>r. note_released recipient (m_id (dr_message r)) owner) rows s
      in sl_run (holds_lease recipient owner) (\<lambda>r. r\<lparr>dr_state := DPending, dr_owner := None\<rparr>) s')"

definition sl_pending :: "string \<Rightarrow> int \<Rightarrow> sql_ledger \<Rightarrow> pending_delivery list" where
  "sl_pending recipient now s =
     List.map row_to_pending
       (order_asc (\<lambda>r. m_ts (dr_message r))
         (sql_all (\<lambda>r. dr_recipient r = recipient \<and> dr_state r = DPending \<and> dr_expires r > now) (sl_rows s)))"

definition sl_expires_now :: "int \<Rightarrow> delivery_row \<Rightarrow> bool" where
  "sl_expires_now now r \<longleftrightarrow> dr_state r \<in> {DPending, DAccepted} \<and> dr_expires r \<le> now"

definition purge_terminal_stmt :: "int \<Rightarrow> sql_ledger \<Rightarrow> sql_ledger" where
  "purge_terminal_stmt now s =
     s\<lparr>sl_rows := sql_delete
          (\<lambda>r. dr_state r \<in> {DActed, DHandled, DRefused, DUnreported} \<and> dr_expires r \<le> now) (sl_rows s)\<rparr>"

definition sl_expire :: "int \<Rightarrow> sql_ledger \<Rightarrow> sql_ledger \<times> expired_delivery list" where
  "sl_expire now s =
     (let rows = List.map row_to_pending (sql_all (sl_expires_now now) (sl_rows s))
      in if length rows = 0 then (purge_terminal_stmt now s, [])
         else (purge_terminal_stmt now
                 (fst (sl_run (sl_expires_now now)
                   (\<lambda>r. r\<lparr>dr_state := DRefused, dr_disposition_at := Some now, dr_reason := Some expired_reason\<rparr>) s)),
               List.map (\<lambda>row. (row, m_from (pd_message row))) rows))"

definition sl_mark_unreported :: "string \<Rightarrow> string \<Rightarrow> int \<Rightarrow> sql_ledger \<Rightarrow> sql_ledger" where
  "sl_mark_unreported message_id recipient now s =
     fst (sl_run (\<lambda>r. at_key message_id recipient r \<and> dr_state r = DPending)
       (\<lambda>r. r\<lparr>dr_state := DUnreported, dr_disposition_at := Some now\<rparr>) s)"

section \<open>Calls as data\<close>

text \<open>One call of the interface and its answer, so that histories of both ledgers can be compared.\<close>

datatype ledger_op =
    Track message string int
  | NoteSent string string int
  | Settle string disposition_frame string bool
  | ReleaseOwner string string
  | QueryPending string int
  | Expire int
  | MarkUnreported string string int

datatype ledger_answer =
    NoAnswer
  | Settled "pending_delivery option"
  | Count nat
  | Rows "pending_delivery list"
  | Expired "expired_delivery list"

fun mem_exec :: "ledger_op \<Rightarrow> mem_ledger \<Rightarrow> mem_ledger \<times> ledger_answer" where
  "mem_exec (Track m r now) rows = (mem_track m r now rows, NoAnswer)"
| "mem_exec (NoteSent i r now) rows = (mem_note_sent i r now rows, NoAnswer)"
| "mem_exec (Settle r f ow req) rows = (case mem_settle r f ow req rows of (rows', a) \<Rightarrow> (rows', Settled a))"
| "mem_exec (ReleaseOwner r ow) rows = (case mem_release_owner r ow rows of (rows', n) \<Rightarrow> (rows', Count n))"
| "mem_exec (QueryPending r now) rows = (rows, Rows (mem_pending r now rows))"
| "mem_exec (Expire now) rows = (case mem_expire now rows of (rows', es) \<Rightarrow> (rows', Expired es))"
| "mem_exec (MarkUnreported i r now) rows = (mem_mark_unreported i r now rows, NoAnswer)"

fun sl_exec :: "ledger_op \<Rightarrow> sql_ledger \<Rightarrow> sql_ledger \<times> ledger_answer" where
  "sl_exec (Track m r now) s = (sl_track m r now s, NoAnswer)"
| "sl_exec (NoteSent i r now) s = (sl_note_sent i r now s, NoAnswer)"
| "sl_exec (Settle r f ow req) s = (case sl_settle r f ow req s of (s', a) \<Rightarrow> (s', Settled a))"
| "sl_exec (ReleaseOwner r ow) s = (case sl_release_owner r ow s of (s', n) \<Rightarrow> (s', Count n))"
| "sl_exec (QueryPending r now) s = (s, Rows (sl_pending r now s))"
| "sl_exec (Expire now) s = (case sl_expire now s of (s', es) \<Rightarrow> (s', Expired es))"
| "sl_exec (MarkUnreported i r now) s = (sl_mark_unreported i r now s, NoAnswer)"

fun run_ops :: "('op \<Rightarrow> 's \<Rightarrow> 's \<times> 'a) \<Rightarrow> 'op list \<Rightarrow> 's \<Rightarrow> 's \<times> 'a list" where
  "run_ops exec [] s = (s, [])"
| "run_ops exec (x # xs) s =
     (case exec x s of (s1, a) \<Rightarrow> (case run_ops exec xs s1 of (s2, as) \<Rightarrow> (s2, a # as)))"

end
