(* ===== verification/DeliveryContract.thy ===== *)
theory DeliveryContract
  imports DeliveryLedger
begin

text \<open>
  What a disposition ledger promises, as a locale over the calls: the abstract cell of one delivery
  (its state, lease owner and expiry) moves by \<open>cell_next\<close>, and a settlement is answered exactly
  when \<open>settle_ok\<close> allows it. The client's facts about leases and settlements are proved once here;
  both implementations are shown to keep the contract.
\<close>

section \<open>The abstract cell\<close>

type_synonym cell = "delivery_state \<times> string option \<times> int"

definition nul_free :: "string \<Rightarrow> bool" where
  "nul_free s \<longleftrightarrow> CHR 0x00 \<notin> set s"

fun terminal :: "delivery_state \<Rightarrow> bool" where
  "terminal DPending = False"
| "terminal DAccepted = False"
| "terminal _ = True"

definition settling :: "disposition \<Rightarrow> bool" where
  "settling d \<longleftrightarrow> d \<noteq> Accepted \<and> d \<noteq> Deferred"

definition settle_ok ::
  "disposition \<Rightarrow> string \<Rightarrow> bool \<Rightarrow> string list \<Rightarrow> delivery_state \<Rightarrow> string option \<Rightarrow> bool" where
  "settle_ok d owner req gone st holder \<longleftrightarrow>
     (if d = Accepted then st = DPending
      else if d = Deferred then st = DPending \<or> st = DAccepted \<and> holder = Some owner
      else st = DAccepted \<and> holder = Some owner \<or> st = DPending \<and> \<not> req \<and> owner \<notin> set gone)"

definition settle_to :: "disposition \<Rightarrow> string \<Rightarrow> int \<Rightarrow> cell" where
  "settle_to d owner e = (settled_state d, (if d = Accepted then Some owner else None), e)"

fun cell_next :: "ledger_op \<Rightarrow> string list \<Rightarrow> string \<Rightarrow> string \<Rightarrow> cell option \<Rightarrow> cell option" where
  "cell_next (Track m r now) gone mid rec c =
     (if m_id m = mid \<and> r = rec \<and> c = None then Some (DPending, None, now + delivery_ttl) else c)"
| "cell_next (NoteSent i r now) gone mid rec c = c"
| "cell_next (Settle r f owner req) gone mid rec c =
     (case c of
        None \<Rightarrow> None
      | Some (st, holder, e) \<Rightarrow>
          if df_message_id f = mid \<and> r = rec \<and> settle_ok (df_disposition f) owner req gone st holder
          then Some (settle_to (df_disposition f) owner e) else c)"
| "cell_next (ReleaseOwner r owner) gone mid rec c =
     (case c of
        None \<Rightarrow> None
      | Some (st, holder, e) \<Rightarrow>
          if r = rec \<and> st = DAccepted \<and> holder = Some owner then Some (DPending, None, e) else c)"
| "cell_next (QueryPending r now) gone mid rec c = c"
| "cell_next (Expire now) gone mid rec c =
     (case c of None \<Rightarrow> None | Some (st, holder, e) \<Rightarrow> if e \<le> now then None else c)"
| "cell_next (MarkUnreported i r now) gone mid rec c =
     (case c of
        None \<Rightarrow> None
      | Some (st, holder, e) \<Rightarrow>
          if i = mid \<and> r = rec \<and> st = DPending then Some (DUnreported, holder, e) else c)"

fun op_ok :: "ledger_op \<Rightarrow> bool" where
  "op_ok (Track m r now) = nul_free r"
| "op_ok (NoteSent i r now) = nul_free r"
| "op_ok (Settle r f owner req) = nul_free r"
| "op_ok (ReleaseOwner r owner) = nul_free r"
| "op_ok (QueryPending r now) = nul_free r"
| "op_ok (Expire now) = True"
| "op_ok (MarkUnreported i r now) = nul_free r"

text \<open>A successful settlement of one delivery by a disposition that ends it.\<close>

fun is_settlement :: "string \<Rightarrow> string \<Rightarrow> ledger_op \<times> ledger_answer \<Rightarrow> bool" where
  "is_settlement mid rec (Settle r f owner req, Settled (Some row)) =
     (df_message_id f = mid \<and> r = rec \<and> settling (df_disposition f))"
| "is_settlement mid rec _ = False"

fun tracks :: "string \<Rightarrow> string \<Rightarrow> ledger_op \<Rightarrow> bool" where
  "tracks mid rec (Track m r now) = (m_id m = mid \<and> r = rec)"
| "tracks mid rec _ = False"

section \<open>The contract\<close>

locale delivery_ledger =
  fixes exec :: "ledger_op \<Rightarrow> 's \<Rightarrow> 's \<times> ledger_answer"
    and inv :: "'s \<Rightarrow> bool"
    and cell :: "'s \<Rightarrow> string \<Rightarrow> string \<Rightarrow> cell option"
    and gone :: "'s \<Rightarrow> string \<Rightarrow> string \<Rightarrow> string list"
  assumes exec_inv: "inv s \<Longrightarrow> op_ok x \<Longrightarrow> inv (fst (exec x s))"
    and exec_cell: "inv s \<Longrightarrow> op_ok x \<Longrightarrow> nul_free rec \<Longrightarrow>
      cell (fst (exec x s)) mid rec = cell_next x (gone s mid rec) mid rec (cell s mid rec)"
    and settle_answer: "inv s \<Longrightarrow> nul_free r \<Longrightarrow>
      \<exists>a. snd (exec (Settle r f owner req) s) = Settled a \<and>
        (a \<noteq> None \<longleftrightarrow>
          (case cell s (df_message_id f) r of
             None \<Rightarrow> False
           | Some (st, holder, e) \<Rightarrow> settle_ok (df_disposition f) owner req (gone s (df_message_id f) r) st holder))"
begin

lemma run_inv: "inv s \<Longrightarrow> list_all op_ok xs \<Longrightarrow> inv (fst (run_ops exec xs s))"
proof (induction xs arbitrary: s)
  case (Cons x xs)
  then have "inv (fst (exec x s))" using exec_inv by simp
  with Cons show ?case by (auto simp: case_prod_beta)
qed simp

text \<open>A settled delivery stays settled the way it was, until its row is purged.\<close>

lemma terminal_step:
  assumes "inv s" "op_ok x" "nul_free rec" "cell s mid rec = Some (st, holder, e)" "terminal st"
  shows "cell (fst (exec x s)) mid rec \<in> {None, Some (st, holder, e)}"
  using assms exec_cell [OF assms(1,2,3), of mid]
  by (cases x) (auto simp: settle_ok_def split: if_splits)

lemma terminal_run:
  assumes "inv s" "list_all op_ok xs" "nul_free rec" "list_all (\<lambda>x. \<not> tracks mid rec x) xs"
    and "cell s mid rec \<in> {None, Some (st, holder, e)}" "terminal st"
  shows "cell (fst (run_ops exec xs s)) mid rec \<in> {None, Some (st, holder, e)}"
  using assms
proof (induction xs arbitrary: s)
  case (Cons x xs)
  have "cell (fst (exec x s)) mid rec \<in> {None, Some (st, holder, e)}"
  proof (cases "cell s mid rec")
    case None
    with Cons.prems show ?thesis using exec_cell [of s x rec mid] by (cases x) auto
  next
    case (Some c)
    with Cons.prems show ?thesis using terminal_step [of s x rec mid st holder e] by auto
  qed
  with Cons.IH [of "fst (exec x s)"] Cons.prems exec_inv [of s x] show ?case by (simp add: case_prod_beta)
qed simp

text \<open>Only the holder can move a lease, except by the passage of time.\<close>

lemma lease_step:
  assumes "inv s" "op_ok x" "nul_free rec" "cell s mid rec = Some (DAccepted, Some owner, e)"
    and "cell (fst (exec x s)) mid rec \<noteq> Some (DAccepted, Some owner, e)"
  shows "(\<exists>f req. x = Settle rec f owner req \<and> df_message_id f = mid) \<or> x = ReleaseOwner rec owner \<or>
    (\<exists>now \<ge> e. x = Expire now)"
  using assms(4,5) unfolding exec_cell [OF assms(1,2,3), of mid]
  by (cases x) (auto simp: settle_ok_def split: if_splits)

lemma settlement_step:
  assumes "inv s" "op_ok x" "nul_free rec" "is_settlement mid rec (x, snd (exec x s))"
  shows "\<exists>st e. cell (fst (exec x s)) mid rec = Some (st, None, e) \<and> terminal st \<and>
    (\<exists>st' h e'. cell s mid rec = Some (st', h, e') \<and> \<not> terminal st')"
proof -
  from assms(4) obtain f owner req where x: "x = Settle rec f owner req" "df_message_id f = mid"
    "settling (df_disposition f)"
    by (cases "(mid, rec, x, snd (exec x s))" rule: is_settlement.cases) auto
  from assms(4) settle_answer [OF assms(1,3), of f owner req] x obtain st h e where
    c: "cell s mid rec = Some (st, h, e)" "settle_ok (df_disposition f) owner req (gone s mid rec) st h"
    by (auto split: option.splits)
  then have "\<not> terminal st" using x(3) by (auto simp: settle_ok_def settling_def split: if_splits)
  moreover have "terminal (settled_state (df_disposition f))" "df_disposition f \<noteq> Accepted"
    using x(3) by (cases "df_disposition f"; simp add: settling_def)+
  ultimately show ?thesis using exec_cell [OF assms(1,2,3), of mid] x c
    by (simp add: settle_to_def)
qed

text \<open>How many settlements are still possible: none once settled or gone, one before.\<close>

lemma settlements_bounded:
  assumes "inv s" "list_all op_ok xs" "nul_free rec" "list_all (\<lambda>x. \<not> tracks mid rec x) xs"
  shows "length (filter (is_settlement mid rec) (zip xs (snd (run_ops exec xs s)))) \<le>
    (case cell s mid rec of None \<Rightarrow> 0 | Some (st, h, e) \<Rightarrow> if terminal st then 0 else 1)"
  using assms
proof (induction xs arbitrary: s)
  case (Cons x xs)
  obtain s1 a where e: "exec x s = (s1, a)" by force
  have inv1: "inv s1" using exec_inv [of s x] Cons.prems e by simp
  have c1: "cell s1 mid rec = cell_next x (gone s mid rec) mid rec (cell s mid rec)"
    using exec_cell [of s x rec mid] Cons.prems e by simp
  have IH: "length (filter (is_settlement mid rec) (zip xs (snd (run_ops exec xs s1)))) \<le>
      (case cell s1 mid rec of None \<Rightarrow> 0 | Some (st, h, e) \<Rightarrow> if terminal st then 0 else 1)"
    using Cons.IH [OF inv1] Cons.prems by simp
  have out: "snd (run_ops exec (x # xs) s) = a # snd (run_ops exec xs s1)"
    by (simp add: e split: prod.splits)
  show ?case
  proof (cases "is_settlement mid rec (x, a)")
    case True
    from settlement_step [of s x rec mid] Cons.prems True e obtain st t st' h e' where
      "cell s1 mid rec = Some (st, None, t)" "terminal st" "cell s mid rec = Some (st', h, e')" "\<not> terminal st'"
      by auto
    with IH True show ?thesis unfolding out by simp
  next
    case False
    have "(case cell s1 mid rec of None \<Rightarrow> 0 | Some (st, h, e) \<Rightarrow> if terminal st then 0 else (1::nat)) \<le>
        (case cell s mid rec of None \<Rightarrow> 0 | Some (st, h, e) \<Rightarrow> if terminal st then 0 else 1)"
      using c1 Cons.prems(4) terminal_step [of s x rec mid] Cons.prems e
      by (cases x) (auto simp: settle_ok_def settle_to_def split: option.splits if_splits)
    with IH False show ?thesis unfolding out by simp
  qed
qed simp

text \<open>From the moment a delivery is tracked it is settled at most once, whoever tries.\<close>

lemma settled_at_most_once:
  assumes "inv s" "list_all op_ok xs" "nul_free rec" "list_all (\<lambda>x. \<not> tracks mid rec x) xs"
  shows "length (filter (is_settlement mid rec) (zip xs (snd (run_ops exec xs s)))) \<le> 1"
  using settlements_bounded [OF assms] by (auto split: option.splits if_splits)

end

end
