(* ===== verification/DeliveryMemory.thy ===== *)
theory DeliveryMemory
  imports DeliveryContract
begin

text \<open>
  The in-memory ledger keeps the contract of \<open>delivery_ledger\<close>. Recipients are names without U+0000,
  so that the joined keys of both ledgers are injective.
\<close>

section \<open>Keys\<close>

lemma mem_key_inj:
  assumes "nul_free r" "nul_free r'"
  shows "mem_key i r = mem_key i' r' \<longleftrightarrow> i = i' \<and> r = r'"
proof
  assume eq: "mem_key i r = mem_key i' r'"
  have tw: "takeWhile (\<lambda>c. c \<noteq> CHR 0x00) (rev (mem_key i r)) = rev r" if "nul_free r" for i r
    using that by (auto simp: mem_key_def nul_free_def takeWhile_tail)
  from tw [OF assms(1), of i] tw [OF assms(2), of i'] eq have "r = r'" by simp
  with eq show "i = i' \<and> r = r'" by (simp add: mem_key_def)
qed simp

lemma release_key_inj:
  assumes "nul_free r" "nul_free r'"
  shows "release_key r i = release_key r' i' \<longleftrightarrow> i = i' \<and> r = r'"
proof
  assume eq: "release_key r i = release_key r' i'"
  have tw: "takeWhile (\<lambda>c. c \<noteq> CHR 0x00) (release_key r i) = r" if "nul_free r" for i r
    using that by (auto simp: release_key_def nul_free_def takeWhile_tail)
  from tw [OF assms(1), of i] tw [OF assms(2), of i'] eq have "r = r'" by simp
  with eq show "i = i' \<and> r = r'" by (simp add: release_key_def)
qed simp

section \<open>The in-memory ledger keeps the contract\<close>

definition row_key :: "memory_row \<Rightarrow> string" where
  "row_key r = mem_key (m_id (mr_message r)) (mr_recipient r)"

definition mem_inv :: "mem_ledger \<Rightarrow> bool" where
  "mem_inv m \<longleftrightarrow>
     distinct (List.map fst m) \<and>
     (\<forall>k r. (k, r) \<in> set m \<longrightarrow>
        k = row_key r \<and> nul_free (mr_recipient r) \<and> (mr_state r = DPending \<longrightarrow> mr_owner r = None))"

definition mem_cell :: "mem_ledger \<Rightarrow> string \<Rightarrow> string \<Rightarrow> cell option" where
  "mem_cell m mid rec = map_option (\<lambda>r. (mr_state r, mr_owner r, mr_expires r)) (map_of m (mem_key mid rec))"

definition mem_gone :: "mem_ledger \<Rightarrow> string \<Rightarrow> string \<Rightarrow> string list" where
  "mem_gone m mid rec = (case map_of m (mem_key mid rec) of None \<Rightarrow> [] | Some r \<Rightarrow> mr_released r)"

lemma mem_invD:
  assumes "mem_inv m" "(k, r) \<in> set m"
  shows "k = row_key r" "nul_free (mr_recipient r)" "mr_state r = DPending \<Longrightarrow> mr_owner r = None"
  using assms unfolding mem_inv_def by blast+

lemma map_of_map_snd: "map_of (List.map (\<lambda>(k, r). (k, f k r)) m) key = map_option (f key) (map_of m key)"
  by (induction m) auto

lemma map_row_eq: "map_row key f m = List.map (\<lambda>(k, r). (k, if k = key then f r else r)) m"
  by (auto simp: map_row_def)

lemma map_of_map_row: "map_of (map_row key f m) k = (if k = key then map_option f (map_of m k) else map_of m k)"
  unfolding map_row_eq by (simp add: map_of_map_snd option.map_ident)

lemma map_fst_map_row [simp]: "List.map fst (map_row key f m) = List.map fst m"
  by (auto simp: map_row_def)

lemma mem_inv_map_row:
  assumes "mem_inv m" "map_of m key = Some r"
    and "row_key (f r) = row_key r" "mr_recipient (f r) = mr_recipient r"
    and "mr_state (f r) = DPending \<longrightarrow> mr_owner (f r) = None"
  shows "mem_inv (map_row key f m)"
proof -
  have only: "x = r" if "(key, x) \<in> set m" for x
  proof -
    have "map_of m key = Some x" using assms(1) that by (intro map_of_is_SomeI) (simp_all add: mem_inv_def)
    with assms(2) show ?thesis by simp
  qed
  note r = mem_invD [OF assms(1) map_of_SomeD [OF assms(2)]]
  have "k = row_key x \<and> nul_free (mr_recipient x) \<and> (mr_state x = DPending \<longrightarrow> mr_owner x = None)"
    if kx: "(k, x) \<in> set (map_row key f m)" for k x
  proof -
    from kx obtain y where y: "(k, y) \<in> set m" "x = (if k = key then f y else y)"
      by (auto simp: map_row_eq)
    show ?thesis
    proof (cases "k = key")
      case True
      with y only have "x = f r" by auto
      with True r assms(3-5) show ?thesis by simp
    next
      case False
      with y mem_invD [OF assms(1), of k y] show ?thesis by simp
    qed
  qed
  then show ?thesis using assms(1) unfolding mem_inv_def map_fst_map_row by blast
qed

lemma mem_inv_lookup:
  "mem_inv m \<Longrightarrow> map_of m key = Some r \<Longrightarrow> key = row_key r \<and> nul_free (mr_recipient r) \<and>
     (mr_state r = DPending \<longrightarrow> mr_owner r = None)"
  using mem_invD [OF _ map_of_SomeD] by blast

lemma mem_lookup_recipient:
  assumes "mem_inv m" "map_of m (mem_key mid rec) = Some r" "nul_free rec"
  shows "mr_recipient r = rec \<and> m_id (mr_message r) = mid"
  using mem_inv_lookup [OF assms(1,2)] assms(3) by (auto simp: row_key_def mem_key_inj)

text \<open>\<open>releaseOwner\<close> and \<open>expire\<close> touch every row that qualifies.\<close>

lemma mem_inv_map:
  assumes "mem_inv m" "\<And>r. row_key (f r) = row_key r" "\<And>r. mr_recipient (f r) = mr_recipient r"
    and "\<And>r. (mr_state r = DPending \<longrightarrow> mr_owner r = None) \<Longrightarrow> mr_state (f r) = DPending \<longrightarrow> mr_owner (f r) = None"
  shows "mem_inv (List.map (\<lambda>(k, r). (k, f r)) m)"
  using assms by (fastforce simp: mem_inv_def comp_def split_def)

lemma mem_inv_filter: "mem_inv m \<Longrightarrow> mem_inv (filter P m)"
  by (auto simp: mem_inv_def distinct_map_filter)

lemma map_of_filter_keys:
  "distinct (List.map fst m) \<Longrightarrow>
   map_of (filter P m) k = (case map_of m k of None \<Rightarrow> None | Some r \<Rightarrow> if P (k, r) then Some r else None)"
  by (induction m) (auto simp: map_of_eq_None_iff split: option.splits)

definition released_row :: "string \<Rightarrow> memory_row \<Rightarrow> memory_row" where
  "released_row owner r = r\<lparr>mr_state := DPending, mr_owner := None, mr_released := set_add owner (mr_released r)\<rparr>"

lemma mem_release_owner_eq:
  "fst (mem_release_owner rec owner m) =
     List.map (\<lambda>(k, r). (k, if mem_holds rec owner r then released_row owner r else r)) m"
  by (auto simp: mem_release_owner_def released_row_def)

lemma mem_expire_eq:
  "fst (mem_expire now m) =
     filter (\<lambda>(k, r). \<not> (mr_state r \<noteq> DPending \<and> mr_expires r \<le> now))
       (List.map (\<lambda>(k, r). (k, if mem_expires_now now r then mem_expire_row now r else r)) m)"
  by (auto simp: mem_expire_def Let_def intro!: arg_cong [where f = "filter _"])

lemma mem_settle_cases:
  assumes "mem_inv m" "nul_free rec"
  shows "(case map_of m (mem_key (df_message_id f) rec) of
     None \<Rightarrow> mem_settle rec f owner req m = (m, None)
   | Some r \<Rightarrow>
       if settle_ok (df_disposition f) owner req (mr_released r) (mr_state r) (mr_owner r)
       then \<exists>r'. mem_settle rec f owner req m =
               (map_row (mem_key (df_message_id f) rec) (\<lambda>_. r') m, Some (mem_pending_of r)) \<and>
              (mr_state r', mr_owner r', mr_expires r') = settle_to (df_disposition f) owner (mr_expires r) \<and>
              mr_message r' = mr_message r \<and> mr_recipient r' = mr_recipient r
       else mem_settle rec f owner req m = (m, None))"
  by (cases "df_disposition f"; cases "map_of m (mem_key (df_message_id f) rec)")
    (auto simp: mem_settle_def settle_ok_def settle_to_def Let_def mem_pending_of_def)

lemma fst_mem_exec [simp]:
  "fst (mem_exec (Settle r f ow req) m) = fst (mem_settle r f ow req m)"
  "fst (mem_exec (ReleaseOwner r ow) m) = fst (mem_release_owner r ow m)"
  "fst (mem_exec (Expire now) m) = fst (mem_expire now m)"
  "snd (mem_exec (Settle r f ow req) m) = Settled (snd (mem_settle r f ow req m))"
  by (simp_all split: prod.split)

declare mem_exec.simps(3,4,6) [simp del]

lemma mem_exec_inv: "mem_inv m \<Longrightarrow> op_ok x \<Longrightarrow> mem_inv (fst (mem_exec x m))"
proof (induction x m rule: mem_exec.induct)
  case (1 msg r now rows)
  then show ?case
    by (auto simp: mem_track_def Let_def mem_inv_def row_key_def map_of_eq_None_iff image_iff)
next
  case (2 i r now rows)
  then show ?case
    by (auto simp: mem_note_sent_def Let_def row_key_def dest: mem_inv_lookup split: option.splits intro!: mem_inv_map_row)
next
  case (3 r f ow req rows)
  show ?case
  proof (cases "map_of rows (mem_key (df_message_id f) r)")
    case None
    with 3 mem_settle_cases [of rows r f ow req] show ?thesis by simp
  next
    case (Some row)
    from 3 mem_settle_cases [of rows r f ow req] Some
    consider "fst (mem_settle r f ow req rows) = rows"
      | r' where "fst (mem_settle r f ow req rows) = map_row (mem_key (df_message_id f) r) (\<lambda>_. r') rows"
        "(mr_state r', mr_owner r', mr_expires r') = settle_to (df_disposition f) ow (mr_expires row)"
        "mr_message r' = mr_message row" "mr_recipient r' = mr_recipient row"
      by (auto split: if_splits)
    then show ?thesis
    proof cases
      case (2 r')
      have "mem_inv (map_row (mem_key (df_message_id f) r) (\<lambda>_. r') rows)"
        by (rule mem_inv_map_row [OF 3(1) Some])
          (use 2 in \<open>cases "df_disposition f"; simp add: settle_to_def row_key_def\<close>)+
      with 2 show ?thesis by simp
    qed (use 3 in simp)
  qed
next
  case (4 r ow rows)
  have "mem_inv (List.map (\<lambda>(k, x). (k, if mem_holds r ow x then released_row ow x else x)) rows)"
    by (rule mem_inv_map [OF 4(1)]) (auto simp: released_row_def row_key_def)
  then show ?case by (simp add: mem_release_owner_eq)
next
  case (6 now rows)
  have "mem_inv (List.map (\<lambda>(k, r). (k, if mem_expires_now now r then mem_expire_row now r else r)) rows)"
    by (rule mem_inv_map [OF 6(1)]) (auto simp: mem_expire_row_def row_key_def)
  then have "mem_inv (fst (mem_expire now rows))" unfolding mem_expire_eq by (rule mem_inv_filter)
  then show ?case by simp
next
  case (7 i r now rows)
  then show ?case
    by (auto simp: mem_mark_unreported_def Let_def row_key_def split: option.splits intro!: mem_inv_map_row)
qed simp

lemma mem_exec_cell:
  assumes "mem_inv m" "op_ok x" "nul_free rec"
  shows "mem_cell (fst (mem_exec x m)) mid rec = cell_next x (mem_gone m mid rec) mid rec (mem_cell m mid rec)"
proof (cases x)
  case (Track msg r now)
  with assms show ?thesis
    by (auto simp: mem_track_def Let_def mem_cell_def mem_key_inj map_of_append map_add_def split: option.splits)
next
  case (NoteSent i r now)
  with assms show ?thesis
    by (auto simp: mem_note_sent_def Let_def mem_cell_def map_of_map_row split: option.splits)
next
  case (Settle r f ow req)
  with assms have nf: "nul_free r" by simp
  show ?thesis
  proof (cases "map_of m (mem_key (df_message_id f) r)")
    case None
    with mem_settle_cases [OF assms(1) nf, of f ow req] Settle assms show ?thesis
      by (auto simp: mem_cell_def mem_key_inj split: option.splits)
  next
    case (Some row)
    with mem_settle_cases [OF assms(1) nf, of f ow req] Settle assms show ?thesis
      by (auto simp: mem_cell_def mem_gone_def mem_key_inj map_of_map_row split: option.splits if_splits)
  qed
next
  case (ReleaseOwner r ow)
  have "mr_recipient y = rec" if "map_of m (mem_key mid rec) = Some y" for y
    using mem_lookup_recipient [OF assms(1) that assms(3)] by simp
  with ReleaseOwner show ?thesis
    by (auto simp: mem_release_owner_eq mem_cell_def map_of_map_snd mem_holds_def released_row_def
        split: option.splits)
next
  case (QueryPending r now)
  then show ?thesis by simp
next
  case (Expire now)
  have d: "distinct (List.map fst (List.map (\<lambda>(k, r). (k, if mem_expires_now now r then mem_expire_row now r else r)) m))"
    using assms(1) by (simp add: mem_inv_def comp_def split_def)
  show ?thesis unfolding Expire fst_mem_exec mem_expire_eq mem_cell_def map_of_filter_keys [OF d] map_of_map_snd
    by (auto simp: mem_expires_now_def mem_expire_row_def split: option.splits)
next
  case (MarkUnreported i r now)
  with assms show ?thesis
    by (auto simp: mem_mark_unreported_def Let_def mem_cell_def mem_key_inj map_of_map_row split: option.splits)
qed

lemma mem_settle_answer:
  assumes "mem_inv m" "nul_free r"
  shows "\<exists>a. snd (mem_exec (Settle r f owner req) m) = Settled a \<and>
    (a \<noteq> None \<longleftrightarrow> (case mem_cell m (df_message_id f) r of None \<Rightarrow> False
       | Some (st, holder, e) \<Rightarrow> settle_ok (df_disposition f) owner req (mem_gone m (df_message_id f) r) st holder))"
  using mem_settle_cases [OF assms, of f owner req]
  by (cases "map_of m (mem_key (df_message_id f) r)")
    (auto simp: mem_cell_def mem_gone_def split: if_splits)

interpretation mem: delivery_ledger mem_exec mem_inv mem_cell mem_gone
  by unfold_locales (rule mem_exec_inv mem_exec_cell mem_settle_answer; assumption)+

end
