(* ===== verification/DeliverySqlite.thy ===== *)
theory DeliverySqlite
  imports DeliveryMemory
begin

text \<open>
  The SQLite ledger keeps the contract of \<open>delivery_ledger\<close>, and to a client the two ledgers are the
  same: a history of calls gets the same answers from both (\<open>ledgers_agree\<close>). The proof is a
  simulation; \<open>led_rel\<close> relates the \<open>Map\<close> to the table and the map of released owners.
\<close>

section \<open>The SQLite ledger keeps the contract\<close>

definition dr_key :: "delivery_row \<Rightarrow> string \<times> string" where
  "dr_key r = (dr_message_id r, dr_recipient r)"

definition sl_inv :: "sql_ledger \<Rightarrow> bool" where
  "sl_inv s \<longleftrightarrow> distinct (List.map dr_key (sl_rows s)) \<and>
     (\<forall>r \<in> set (sl_rows s). dr_state r = DPending \<longrightarrow> dr_owner r = None)"

definition sl_cell :: "sql_ledger \<Rightarrow> string \<Rightarrow> string \<Rightarrow> cell option" where
  "sl_cell s mid rec = map_option (\<lambda>r. (dr_state r, dr_owner r, dr_expires r)) (pending_by_id rec mid s)"

definition sl_gone :: "sql_ledger \<Rightarrow> string \<Rightarrow> string \<Rightarrow> string list" where
  "sl_gone s mid rec = released_owners (release_key rec mid) s"

lemma at_key_iff: "at_key mid rec r \<longleftrightarrow> dr_key r = (mid, rec)"
  by (simp add: at_key_def dr_key_def)

lemma pending_by_id_key: "pending_by_id rec mid s = sql_get (\<lambda>r. dr_key r = (mid, rec)) (sl_rows s)"
  by (simp add: pending_by_id_def at_key_iff [abs_def])

lemma pending_by_id_iff:
  "sl_inv s \<Longrightarrow> pending_by_id rec mid s = Some r \<longleftrightarrow> r \<in> set (sl_rows s) \<and> dr_key r = (mid, rec)"
  unfolding pending_by_id_key by (rule sql_get_key_iff) (simp add: sl_inv_def)

lemma sql_get_update_when:
  assumes "\<And>r. k (f r) = k r"
  shows "sql_get (\<lambda>r. k r = x) (sql_update P f t) = map_option (\<lambda>r. if P r then f r else r) (sql_get (\<lambda>r. k r = x) t)"
  using assms by (induction t) (auto simp: sql_get_def sql_update_def)

lemma sl_run_simps [simp]:
  "sl_rows (fst (sl_run P f s)) = sql_update P f (sl_rows s)"
  "sl_released (fst (sl_run P f s)) = sl_released s"
  "snd (sl_run P f s) = sql_changes P (sl_rows s)"
  by (simp_all add: sl_run_def)

lemma pending_after_run:
  assumes "\<And>r. dr_key (f r) = dr_key r"
  shows "pending_by_id rec mid (fst (sl_run P f s)) = map_option (\<lambda>r. if P r then f r else r) (pending_by_id rec mid s)"
  by (simp add: pending_by_id_key sql_get_update_when assms)

lemma sl_inv_run:
  assumes "sl_inv s" "\<And>r. dr_key (f r) = dr_key r"
    and "\<And>r. P r \<Longrightarrow> (dr_state r = DPending \<longrightarrow> dr_owner r = None) \<Longrightarrow> dr_state (f r) = DPending \<longrightarrow> dr_owner (f r) = None"
  shows "sl_inv (fst (sl_run P f s))"
  using assms by (auto simp: sl_inv_def set_sql_update)

lemma changes_at_key:
  assumes "sl_inv s" "pending_by_id rec mid s = Some r"
  shows "0 < sql_changes (\<lambda>x. at_key mid rec x \<and> Q x) (sl_rows s) \<longleftrightarrow> Q r"
proof -
  have "x = r" if "x \<in> set (sl_rows s)" "dr_key x = (mid, rec)" for x
    using that assms pending_by_id_iff [OF assms(1), of rec mid x] by simp
  moreover have "r \<in> set (sl_rows s)" "dr_key r = (mid, rec)"
    using assms pending_by_id_iff [OF assms(1), of rec mid r] by simp_all
  ultimately show ?thesis unfolding sql_changes_pos at_key_iff by blast
qed

lemma note_released_rows [simp]:
  "sl_rows (note_released rec mid owner s) = sl_rows s"
  "sl_rows (fold (\<lambda>r. note_released rec (g r) owner) rows s) = sl_rows s"
proof -
  show h: "sl_rows (note_released rec mid owner s) = sl_rows s" for mid s by (simp add: note_released_def Let_def)
  show "sl_rows (fold (\<lambda>r. note_released rec (g r) owner) rows s) = sl_rows s"
    by (induction rows arbitrary: s) (simp_all add: h)
qed

lemma pending_note_released [simp]:
  "pending_by_id rec' mid' (note_released rec mid owner s) = pending_by_id rec' mid' s"
  "sl_inv (note_released rec mid owner s) = sl_inv s"
  by (simp_all add: pending_by_id_key sl_inv_def)

lemmas sl_stmts = accept_stmt_def defer_stmt_def defer_accepted_stmt_def settle_stmt_def terminal_accepted_stmt_def

text \<open>What a settlement does to the table, and when it is answered.\<close>

lemma sl_settle_cases:
  assumes "sl_inv s"
  shows "(case pending_by_id rec (df_message_id f) s of
     None \<Rightarrow> sl_settle rec f owner req s = (s, None)
   | Some r \<Rightarrow>
       if settle_ok (df_disposition f) owner req (sl_gone s (df_message_id f) rec) (dr_state r) (dr_owner r)
       then \<exists>g Q. Q r \<and> (\<forall>x. dr_key (g x) = dr_key x) \<and>
              (dr_state (g r), dr_owner (g r), dr_expires (g r)) = settle_to (df_disposition f) owner (dr_expires r) \<and>
              sl_rows (fst (sl_settle rec f owner req s)) =
                sql_update (\<lambda>x. at_key (df_message_id f) rec x \<and> Q x) g (sl_rows s) \<and>
              snd (sl_settle rec f owner req s) = Some (row_to_pending r)
       else sl_rows (fst (sl_settle rec f owner req s)) = sl_rows s \<and> snd (sl_settle rec f owner req s) = None)"
proof (cases "pending_by_id rec (df_message_id f) s")
  case None
  then show ?thesis by (simp add: sl_settle_def)
next
  case (Some r)
  have own: "dr_state r = DPending \<Longrightarrow> dr_owner r = None"
    using Some assms pending_by_id_iff [OF assms] by (auto simp: sl_inv_def)
  note ch = changes_at_key [OF assms Some]
  have same: "sql_update (\<lambda>x. at_key (df_message_id f) rec x \<and> Q x) g (sl_rows s) = sl_rows s" if "\<not> Q r" for Q g
    using ch [of Q] that by (intro sql_update_none) (auto simp: sql_changes_pos)
  let ?ok = "settle_ok (df_disposition f) owner req (sl_gone s (df_message_id f) rec) (dr_state r) (dr_owner r)"
  consider (accept) "df_disposition f = Accepted" | (dfr) "df_disposition f = Deferred"
    | (settle) "df_disposition f \<noteq> Accepted" "df_disposition f \<noteq> Deferred" by blast
  then show ?thesis
  proof cases
    case accept
    then have "sl_settle rec f owner req s =
        (fst (accept_stmt owner (df_message_id f) rec s), if dr_state r = DPending then Some (row_to_pending r) else None)"
      using Some ch [of "\<lambda>x. dr_state x = DPending"] by (simp add: sl_settle_def Let_def sl_stmts case_prod_beta)
    then show ?thesis using Some accept same [of "\<lambda>x. dr_state x = DPending"]
      by (auto simp: settle_ok_def settle_to_def sl_stmts dr_key_def
          intro!: exI [of _ "\<lambda>x. x\<lparr>dr_state := DAccepted, dr_owner := Some owner, dr_reason := None\<rparr>"]
            exI [of _ "\<lambda>x. dr_state x = DPending"])
  next
    case dfr
    show ?thesis
    proof (cases "dr_state r = DAccepted")
      case True
      have "sl_settle rec f owner req s = (if dr_owner r \<noteq> Some owner then (s, None) else
          (note_released rec (df_message_id f) owner (fst (defer_accepted_stmt (df_reason f) (df_message_id f) rec owner s)),
           Some (row_to_pending r)))"
        using Some True dfr ch [of "\<lambda>x. dr_state x = DAccepted \<and> dr_owner x = Some owner"]
        by (simp add: sl_settle_def Let_def sl_stmts case_prod_beta)
      then show ?thesis using Some dfr True
        by (auto simp: settle_ok_def settle_to_def sl_stmts dr_key_def
          intro!: exI [of _ "\<lambda>x. x\<lparr>dr_state := DPending, dr_owner := None, dr_reason := df_reason f\<rparr>"]
            exI [of _ "\<lambda>x. dr_state x = DAccepted \<and> dr_owner x = Some owner"])
    next
      case False
      have "sl_settle rec f owner req s = (fst (defer_stmt (df_reason f) (df_message_id f) rec s),
          if dr_state r = DPending then Some (row_to_pending r) else None)"
        using Some False dfr ch [of "\<lambda>x. dr_state x = DPending"]
        by (simp add: sl_settle_def Let_def sl_stmts case_prod_beta)
      then show ?thesis using Some dfr False own same [of "\<lambda>x. dr_state x = DPending"]
        by (auto simp: settle_ok_def settle_to_def sl_stmts dr_key_def
          intro!: exI [of _ "\<lambda>x. x\<lparr>dr_reason := df_reason f\<rparr>"] exI [of _ "\<lambda>x. dr_state x = DPending"])
    qed
  next
    case settle
    let ?st = "settled_state (df_disposition f)"
    show ?thesis
    proof (cases "dr_state r = DAccepted")
      case True
      have "sl_settle rec f owner req s =
          (fst (terminal_accepted_stmt ?st (df_at f) (df_reason f) (df_message_id f) rec owner s),
           if dr_owner r = Some owner then Some (row_to_pending r) else None)"
        using Some True settle ch [of "\<lambda>x. dr_state x = DAccepted \<and> dr_owner x = Some owner"]
        by (simp add: sl_settle_def Let_def sl_stmts case_prod_beta)
      then show ?thesis using Some settle True same [of "\<lambda>x. dr_state x = DAccepted \<and> dr_owner x = Some owner"]
        by (auto simp: settle_ok_def settle_to_def sl_stmts dr_key_def
          intro!: exI [of _ "\<lambda>x. x\<lparr>dr_state := ?st, dr_disposition_at := Some (df_at f), dr_reason := df_reason f, dr_owner := None\<rparr>"]
            exI [of _ "\<lambda>x. dr_state x = DAccepted \<and> dr_owner x = Some owner"])
    next
      case False
      have "sl_settle rec f owner req s = (if req \<or> owner \<in> set (sl_gone s (df_message_id f) rec) then (s, None) else
          (fst (settle_stmt ?st (df_at f) (df_reason f) (df_message_id f) rec s),
           if dr_state r = DPending then Some (row_to_pending r) else None))"
        using Some False settle ch [of "\<lambda>x. dr_state x = DPending"]
        by (simp add: sl_settle_def Let_def sl_stmts case_prod_beta was_released_def sl_gone_def)
      then show ?thesis using Some settle False own same [of "\<lambda>x. dr_state x = DPending"]
        by (auto simp: settle_ok_def settle_to_def sl_stmts dr_key_def
          intro!: exI [of _ "\<lambda>x. x\<lparr>dr_state := ?st, dr_disposition_at := Some (df_at f), dr_reason := df_reason f\<rparr>"]
            exI [of _ "\<lambda>x. dr_state x = DPending"])
    qed
  qed
qed

lemma fst_sl_exec [simp]:
  "fst (sl_exec (Settle r f ow req) s) = fst (sl_settle r f ow req s)"
  "fst (sl_exec (ReleaseOwner r ow) s) = fst (sl_release_owner r ow s)"
  "fst (sl_exec (Expire now) s) = fst (sl_expire now s)"
  "snd (sl_exec (Settle r f ow req) s) = Settled (snd (sl_settle r f ow req s))"
  by (simp_all split: prod.split)

declare sl_exec.simps(3,4,6) [simp del]

lemma sl_expire_rows:
  "sl_rows (fst (sl_expire now s)) = filter (\<lambda>r. \<not> dr_expires r \<le> now) (sl_rows s)"
proof -
  let ?f = "\<lambda>r. r\<lparr>dr_state := DRefused, dr_disposition_at := Some now, dr_reason := Some expired_reason\<rparr>"
  let ?P = "\<lambda>r. dr_state r \<in> {DActed, DHandled, DRefused, DUnreported} \<and> dr_expires r \<le> now"
  have cover: "?P r \<or> sl_expires_now now r \<longleftrightarrow> dr_expires r \<le> now" for r
    by (cases "dr_state r") (auto simp: sl_expires_now_def)
  have live: "\<not> ?P r" if "sl_expires_now now r" for r using that by (auto simp: sl_expires_now_def)
  have "sql_delete ?P (sql_update (sl_expires_now now) ?f rows) = filter (\<lambda>r. \<not> dr_expires r \<le> now) rows" for rows
  proof (induction rows)
    case (Cons r rows)
    then show ?case using cover [of r]
      by (cases "sl_expires_now now r") (auto simp: sql_delete_def sql_update_def sl_expires_now_def)
  qed (simp add: sql_delete_def sql_update_def)
  moreover have "sql_delete ?P rows = filter (\<lambda>r. \<not> dr_expires r \<le> now) rows"
    if "sql_all (sl_expires_now now) rows = []" for rows
    using that cover by (auto simp: sql_delete_def sql_all_def filter_empty_conv intro: filter_cong)
  ultimately show ?thesis
    by (auto simp: sl_expire_def Let_def purge_terminal_stmt_def)
qed

lemma sl_exec_inv: "sl_inv s \<Longrightarrow> sl_inv (fst (sl_exec x s))"
proof (induction x s rule: sl_exec.induct)
  case (1 m r now s)
  then show ?case by (auto simp: sl_track_def sql_insert_ignore_def sl_inv_def dr_key_def)
next
  case (2 i r now s)
  then show ?case by (auto simp: sl_note_sent_def dr_key_def intro!: sl_inv_run)
next
  case (3 r f ow req s)
  show ?case
  proof (cases "pending_by_id r (df_message_id f) s")
    case None
    with 3 sl_settle_cases [OF 3, of r f ow req] show ?thesis by simp
  next
    case (Some row)
    note mine = pending_by_id_iff [OF 3, of r "df_message_id f"]
    from sl_settle_cases [OF 3, of r f ow req] Some
    consider "sl_rows (fst (sl_settle r f ow req s)) = sl_rows s"
      | g Q where "\<forall>x. dr_key (g x) = dr_key x" "(dr_state (g row), dr_owner (g row), dr_expires (g row)) =
             settle_to (df_disposition f) ow (dr_expires row)"
          "sl_rows (fst (sl_settle r f ow req s)) = sql_update (\<lambda>x. at_key (df_message_id f) r x \<and> Q x) g (sl_rows s)"
      by (auto split: if_splits)
    then show ?thesis
    proof cases
      case (2 g Q)
      have "x = row" if "x \<in> set (sl_rows s)" "at_key (df_message_id f) r x" for x
        using that Some mine [of x] by (simp add: at_key_iff)
      moreover have "dr_state (g row) = DPending \<longrightarrow> dr_owner (g row) = None"
        using 2(2) by (cases "df_disposition f") (auto simp: settle_to_def)
      ultimately show ?thesis using 3 2(1,3) by (auto simp: sl_inv_def set_sql_update)
    qed (use 3 in \<open>simp add: sl_inv_def\<close>)
  qed
next
  case (4 r ow s)
  have "sl_inv (fold (\<lambda>x. note_released r (m_id (dr_message x)) ow) rows s)" for rows
    using 4 by (simp add: sl_inv_def)
  then show ?case by (auto simp: sl_release_owner_def Let_def dr_key_def intro!: sl_inv_run)
next
  case (6 now s)
  then show ?case by (auto simp: sl_inv_def sl_expire_rows distinct_map_filter)
next
  case (7 i r now s)
  then show ?case by (auto simp: sl_mark_unreported_def dr_key_def intro!: sl_inv_run)
qed simp

lemma sl_exec_cell:
  assumes "sl_inv s"
  shows "sl_cell (fst (sl_exec x s)) mid rec = cell_next x (sl_gone s mid rec) mid rec (sl_cell s mid rec)"
proof (cases x)
  case (Track m r now)
  let ?new = "\<lparr>dr_message_id = m_id m, dr_recipient = r, dr_message = m,
           dr_state = DPending, dr_attempts = 0, dr_first_sent = None, dr_last_sent = None,
           dr_expires = now + delivery_ttl, dr_disposition_at = None, dr_reason = None, dr_owner = None\<rparr>"
  have ex: "(\<exists>r' \<in> set (sl_rows s). m_id m = dr_message_id r' \<and> r = dr_recipient r') \<longleftrightarrow> pending_by_id r (m_id m) s \<noteq> None"
    using sql_get_None [of "at_key (m_id m) r" "sl_rows s"] unfolding pending_by_id_def at_key_def by metis
  have one: "sql_get (\<lambda>r. dr_key r = (mid, rec)) [?new] = (if m_id m = mid \<and> r = rec then Some ?new else None)"
    by (simp add: sql_get_def dr_key_def)
  show ?thesis
  proof (cases "pending_by_id r (m_id m) s = None")
    case True
    with ex have "sl_rows (sl_track m r now s) = sl_rows s @ [?new]"
      by (simp add: sl_track_def sql_insert_ignore_def)
    then show ?thesis using True one unfolding Track
      by (auto simp: sl_cell_def pending_by_id_key sql_get_append split: option.splits)
  next
    case False
    with ex have "sl_rows (sl_track m r now s) = sl_rows s"
      by (simp add: sl_track_def sql_insert_ignore_def)
    then show ?thesis using False unfolding Track
      by (auto simp: sl_cell_def pending_by_id_key)
  qed
next
  case (NoteSent i r now)
  then show ?thesis
    by (cases "pending_by_id rec mid s") (auto simp: sl_note_sent_def sl_cell_def pending_after_run dr_key_def)
next
  case (Settle r f ow req)
  show ?thesis
  proof (cases "pending_by_id r (df_message_id f) s")
    case None
    with sl_settle_cases [OF assms, of r f ow req] Settle show ?thesis
      by (auto simp: sl_cell_def split: option.splits)
  next
    case (Some row)
    from sl_settle_cases [OF assms, of r f ow req] Some
    consider (no) "sl_rows (fst (sl_settle r f ow req s)) = sl_rows s"
        "\<not> settle_ok (df_disposition f) ow req (sl_gone s (df_message_id f) r) (dr_state row) (dr_owner row)"
      | (yes) g Q where "settle_ok (df_disposition f) ow req (sl_gone s (df_message_id f) r) (dr_state row) (dr_owner row)"
          "Q row" "\<forall>x. dr_key (g x) = dr_key x" "(dr_state (g row), dr_owner (g row), dr_expires (g row)) =
             settle_to (df_disposition f) ow (dr_expires row)"
          "sl_rows (fst (sl_settle r f ow req s)) = sql_update (\<lambda>x. at_key (df_message_id f) r x \<and> Q x) g (sl_rows s)"
      by (auto split: if_splits)
    then show ?thesis
    proof cases
      case no
      with Settle Some show ?thesis by (auto simp: sl_cell_def pending_by_id_key split: option.splits)
    next
      case yes
      have get: "pending_by_id rec mid (fst (sl_settle r f ow req s)) =
          map_option (\<lambda>x. if at_key (df_message_id f) r x \<and> Q x then g x else x) (pending_by_id rec mid s)"
        using yes(3) by (simp add: pending_by_id_key yes(5) sql_get_update_when)
      have key: "dr_key x = (mid, rec)" if "pending_by_id rec mid s = Some x" for x
        using that pending_by_id_iff [OF assms] by simp
      show ?thesis
      proof (cases "df_message_id f = mid \<and> r = rec")
        case True
        with Some yes(1,2,4) get key [of row] show ?thesis
          by (simp add: Settle sl_cell_def at_key_iff)
      next
        case False
        with key show ?thesis
          by (auto simp: Settle sl_cell_def get at_key_iff split: option.splits)
      qed
    qed
  qed
next
  case (ReleaseOwner r ow)
  have rec: "dr_recipient x = rec" if "pending_by_id rec mid s = Some x" for x
    using that pending_by_id_iff [OF assms] by (simp add: dr_key_def)
  have "pending_by_id rec mid (fst (sl_release_owner r ow s)) =
      map_option (\<lambda>x. if holds_lease r ow x then x\<lparr>dr_state := DPending, dr_owner := None\<rparr> else x) (pending_by_id rec mid s)"
    unfolding sl_release_owner_def Let_def
    by (subst pending_after_run) (simp_all add: dr_key_def pending_by_id_key)
  then show ?thesis using rec unfolding ReleaseOwner
    by (auto simp: sl_cell_def holds_lease_def split: option.splits)
next
  case (QueryPending r now)
  then show ?thesis by simp
next
  case (Expire now)
  have "pending_by_id rec mid (fst (sl_expire now s)) =
      (case pending_by_id rec mid s of None \<Rightarrow> None | Some x \<Rightarrow> if dr_expires x \<le> now then None else Some x)"
    unfolding pending_by_id_key sl_expire_rows
    by (subst sql_get_filter_key) (use assms in \<open>auto simp: sl_inv_def split: option.splits\<close>)
  then show ?thesis by (auto simp: Expire sl_cell_def split: option.splits)
next
  case (MarkUnreported i r now)
  have key: "dr_key x = (mid, rec)" if "pending_by_id rec mid s = Some x" for x
    using that pending_by_id_iff [OF assms] by simp
  then show ?thesis unfolding MarkUnreported
    by (auto simp: sl_mark_unreported_def sl_cell_def pending_after_run dr_key_def at_key_def split: option.splits)
qed

lemma sl_settle_answer:
  assumes "sl_inv s"
  shows "\<exists>a. snd (sl_exec (Settle r f owner req) s) = Settled a \<and>
    (a \<noteq> None \<longleftrightarrow> (case sl_cell s (df_message_id f) r of None \<Rightarrow> False
       | Some (st, holder, e) \<Rightarrow> settle_ok (df_disposition f) owner req (sl_gone s (df_message_id f) r) st holder))"
  using sl_settle_cases [OF assms, of r f owner req]
  by (cases "pending_by_id r (df_message_id f) s") (auto simp: sl_cell_def split: if_splits)

interpretation sl: delivery_ledger sl_exec sl_inv sl_cell sl_gone
  by unfold_locales (rule sl_exec_inv sl_exec_cell sl_settle_answer; assumption)+

end
