(* ===== verification/DeliverySimulation.thy ===== *)
theory DeliverySimulation
  imports DeliverySqlite
begin

text \<open>
  To a client the two ledgers are the same: a history of calls gets the same answers from both. The
  proof is a simulation; \<open>led_rel\<close> relates the \<open>Map\<close> to the table and the map of released owners.
\<close>

section \<open>The simulation\<close>

definition to_row :: "memory_row \<Rightarrow> delivery_row" where
  "to_row r =
     \<lparr>dr_message_id = m_id (mr_message r), dr_recipient = mr_recipient r, dr_message = mr_message r,
      dr_state = mr_state r, dr_attempts = mr_attempts r, dr_first_sent = mr_first_sent r,
      dr_last_sent = mr_last_sent r, dr_expires = mr_expires r, dr_disposition_at = mr_disposition_at r,
      dr_reason = mr_reason r, dr_owner = mr_owner r\<rparr>"

lemma to_row_sel [simp]:
  "dr_message_id (to_row r) = m_id (mr_message r)" "dr_recipient (to_row r) = mr_recipient r"
  "dr_message (to_row r) = mr_message r" "dr_state (to_row r) = mr_state r"
  "dr_expires (to_row r) = mr_expires r" "dr_owner (to_row r) = mr_owner r"
  "row_to_pending (to_row r) = mem_pending_of r"
  by (simp_all add: to_row_def row_to_pending_def mem_pending_of_def)

text \<open>\<open>T\<close>: the deliveries tracked so far.\<close>

definition led_rel :: "(string \<times> string) set \<Rightarrow> mem_ledger \<Rightarrow> sql_ledger \<Rightarrow> bool" where
  "led_rel T m s \<longleftrightarrow>
     mem_inv m \<and> sl_rows s = List.map (\<lambda>(k, r). to_row r) m \<and>
     (\<forall>k r. (k, r) \<in> set m \<longrightarrow>
        mr_released r = released_owners (release_key (mr_recipient r) (m_id (mr_message r))) s \<and>
        (m_id (mr_message r), mr_recipient r) \<in> T) \<and>
     (\<forall>mid rec. nul_free rec \<and> released_owners (release_key rec mid) s \<noteq> [] \<longrightarrow> (mid, rec) \<in> T)"

lemma led_relD:
  assumes "led_rel T m s"
  shows "mem_inv m" "sl_rows s = List.map (\<lambda>(k, r). to_row r) m"
    and "\<And>k r. (k, r) \<in> set m \<Longrightarrow> mr_released r = released_owners (release_key (mr_recipient r) (m_id (mr_message r))) s"
    and "\<And>k r. (k, r) \<in> set m \<Longrightarrow> (m_id (mr_message r), mr_recipient r) \<in> T"
    and "\<And>mid rec. nul_free rec \<Longrightarrow> released_owners (release_key rec mid) s \<noteq> [] \<Longrightarrow> (mid, rec) \<in> T"
  using assms unfolding led_rel_def by blast+

lemma at_key_to_row:
  assumes "mem_inv m" "(k, r) \<in> set m" "nul_free rec"
  shows "at_key mid rec (to_row r) \<longleftrightarrow> k = mem_key mid rec"
  using mem_invD [OF assms(1,2)] assms(3) by (auto simp: at_key_def row_key_def mem_key_inj)

lemma led_rel_lookup:
  assumes "led_rel T m s" "nul_free rec"
  shows "pending_by_id rec mid s = map_option to_row (map_of m (mem_key mid rec))"
proof -
  have "sql_get (at_key mid rec) (List.map (\<lambda>(k, r). to_row r) m) = map_option to_row (map_of m (mem_key mid rec))"
    if "\<forall>(k, r) \<in> set m. at_key mid rec (to_row r) \<longleftrightarrow> k = mem_key mid rec" for m
    using that by (induction m) (auto simp: sql_get_def)
  moreover have "\<forall>(k, r) \<in> set m. at_key mid rec (to_row r) \<longleftrightarrow> k = mem_key mid rec"
    using at_key_to_row [OF led_relD(1) [OF assms(1)] _ assms(2)] by blast
  ultimately show ?thesis using led_relD(2) [OF assms(1)] by (simp add: pending_by_id_def)
qed

lemma led_rel_update:
  assumes R: "led_rel T m s" and "nul_free rec" and r: "map_of m (mem_key mid rec) = Some r"
    and Q: "Q (to_row r)" and f: "f (to_row r) = to_row r'"
  shows "sql_update (\<lambda>x. at_key mid rec x \<and> Q x) f (sl_rows s) =
    List.map (\<lambda>(k, r). to_row r) (map_row (mem_key mid rec) (\<lambda>_. r') m)"
proof -
  have inv: "mem_inv m" by (rule led_relD [OF R])
  have "x = r" if "(mem_key mid rec, x) \<in> set m" for x
    using that r inv by (metis map_of_is_SomeI mem_inv_def option.inject)
  then show ?thesis unfolding led_relD(2) [OF R] sql_update_def map_row_eq
    using at_key_to_row [OF inv _ assms(2), of _ _ mid] Q f by auto
qed

lemma led_rel_no_update:
  assumes R: "led_rel T m s" and "nul_free rec" and r: "map_of m (mem_key mid rec) = Some r" and Q: "\<not> Q (to_row r)"
  shows "sql_update (\<lambda>x. at_key mid rec x \<and> Q x) f (sl_rows s) = sl_rows s"
proof (rule sql_update_none, intro ballI notI)
  have inv: "mem_inv m" by (rule led_relD [OF R])
  fix x assume "x \<in> set (sl_rows s)" "at_key mid rec x \<and> Q x"
  then obtain k y where y: "(k, y) \<in> set m" "x = to_row y" "at_key mid rec x" "Q x"
    unfolding led_relD(2) [OF R] by auto
  then have "k = mem_key mid rec" using at_key_to_row [OF inv y(1) assms(2), of mid] by simp
  with y(1) r inv have "y = r" by (metis map_of_is_SomeI mem_inv_def option.inject)
  with y Q show False by simp
qed

lemma led_rel_none:
  assumes R: "led_rel T m s" and "nul_free rec" and "map_of m (mem_key mid rec) = None"
  shows "sql_update (\<lambda>x. at_key mid rec x \<and> Q x) f (sl_rows s) = sl_rows s"
  using led_rel_lookup [OF R assms(2), of mid] assms(3)
  by (intro sql_update_none) (auto simp: pending_by_id_def sql_get_None)

text \<open>Restoring the relation after one row was rewritten.\<close>

lemma led_rel_rewrite:
  assumes R: "led_rel T m s" and nf: "nul_free rec" and r: "map_of m (mem_key mid rec) = Some r"
    and inv: "mem_inv (map_row (mem_key mid rec) (\<lambda>_. r') m)"
    and same: "mr_message r' = mr_message r" "mr_recipient r' = mr_recipient r"
    and rows: "sl_rows s' = List.map (\<lambda>(k, r). to_row r) (map_row (mem_key mid rec) (\<lambda>_. r') m)"
    and rel: "\<And>i q. nul_free q \<Longrightarrow> released_owners (release_key q i) s' =
        (if i = mid \<and> q = rec then mr_released r' else released_owners (release_key q i) s)"
  shows "led_rel T (map_row (mem_key mid rec) (\<lambda>_. r') m) s'"
  unfolding led_rel_def
proof (intro conjI allI impI)
  note D = led_relD [OF R]
  have rr: "mr_recipient r = rec" "m_id (mr_message r) = mid"
    using mem_lookup_recipient [OF D(1) r nf] by simp_all
  have inT: "(mid, rec) \<in> T" using D(4) [OF map_of_SomeD [OF r]] rr by simp
  have split: "(k = mem_key mid rec \<and> x = r') \<or> ((k, x) \<in> set m \<and> k \<noteq> mem_key mid rec)"
    if "(k, x) \<in> set (map_row (mem_key mid rec) (\<lambda>_. r') m)" for k x
    using that by (auto simp: map_row_eq split: if_splits)
  fix k x assume kx: "(k, x) \<in> set (map_row (mem_key mid rec) (\<lambda>_. r') m)"
  from split [OF kx] consider "k = mem_key mid rec" "x = r'" | "(k, x) \<in> set m" "k \<noteq> mem_key mid rec" by blast
  then have "mr_released x = released_owners (release_key (mr_recipient x) (m_id (mr_message x))) s' \<and>
      (m_id (mr_message x), mr_recipient x) \<in> T"
  proof cases
    case 1
    then show ?thesis using rel [of rec mid] nf same rr inT by simp
  next
    case 2
    note ix = mem_invD [OF D(1) 2(1)]
    have "\<not> (m_id (mr_message x) = mid \<and> mr_recipient x = rec)" using ix(1) 2(2) by (auto simp: row_key_def)
    with rel [OF ix(2), of "m_id (mr_message x)"] D(3,4) [OF 2(1)] show ?thesis by simp
  qed
  then show "mr_released x = released_owners (release_key (mr_recipient x) (m_id (mr_message x))) s'"
    and "(m_id (mr_message x), mr_recipient x) \<in> T" by simp_all
next
  note D = led_relD [OF R]
  fix i q assume "nul_free q \<and> released_owners (release_key q i) s' \<noteq> []"
  then show "(i, q) \<in> T" using rel [of q i] D(5) [of q i] D(4) [OF map_of_SomeD [OF r]]
      mem_lookup_recipient [OF D(1) r nf] by (auto split: if_splits)
qed (use inv rows in simp_all)

lemma released_note:
  assumes "nul_free rec" "nul_free q"
  shows "released_owners (release_key q i) (note_released rec mid owner s) =
    (if i = mid \<and> q = rec then set_add owner (released_owners (release_key rec mid) s)
     else released_owners (release_key q i) s)"
  using release_key_inj [OF assms(2,1), of i mid]
  by (auto simp: note_released_def Let_def released_owners_def update_conv')

lemma set_add_twice [simp]: "set_add x (set_add x s) = set_add x s"
  by (simp add: set_add_def)

lemma released_note_fold:
  assumes "nul_free rec" "nul_free q"
  shows "released_owners (release_key q i) (fold (\<lambda>r. note_released rec (g r) owner) rows s) =
    (if q = rec \<and> i \<in> g ` set rows then set_add owner (released_owners (release_key rec i) s)
     else released_owners (release_key q i) s)"
  by (induction rows arbitrary: s) (auto simp: released_note [OF assms(1)] assms)

lemma sort_key_map: "sort_key f (List.map g xs) = List.map g (sort_key (\<lambda>x. f (g x)) xs)"
proof -
  have "insort_key f (g x) (List.map g xs) = List.map g (insort_key (\<lambda>x. f (g x)) x xs)" for x xs
    by (induction xs) auto
  then show ?thesis by (induction xs) simp_all
qed

lemma mem_expire_rows: "fst (mem_expire now m) = filter (\<lambda>(k, r). \<not> mr_expires r \<le> now) m"
  unfolding mem_expire_eq
  by (induction m) (auto simp: mem_expires_now_def mem_expire_row_def split: if_splits)

section \<open>One call\<close>

fun tracked :: "ledger_op \<Rightarrow> (string \<times> string) set" where
  "tracked (Track m r now) = {(m_id m, r)}"
| "tracked _ = {}"

text \<open>A rewrite of one row by an \<open>UPDATE\<close> that leaves the released owners alone.\<close>

lemma led_rel_run:
  assumes R: "led_rel T m s" and nf: "nul_free rec" and r: "map_of m (mem_key mid rec) = Some r"
    and Q: "Q (to_row r)" and f: "f (to_row r) = to_row r'"
    and inv: "mem_inv (map_row (mem_key mid rec) (\<lambda>_. r') m)"
    and same: "mr_message r' = mr_message r" "mr_recipient r' = mr_recipient r" "mr_released r' = mr_released r"
  shows "led_rel T (map_row (mem_key mid rec) (\<lambda>_. r') m) (fst (sl_run (\<lambda>x. at_key mid rec x \<and> Q x) f s))"
proof (rule led_rel_rewrite [OF R nf r inv same(1,2)])
  show "sl_rows (fst (sl_run (\<lambda>x. at_key mid rec x \<and> Q x) f s)) =
      List.map (\<lambda>(k, r). to_row r) (map_row (mem_key mid rec) (\<lambda>_. r') m)"
    using led_rel_update [where Q = Q and f = f, OF R nf r Q f] by simp
  fix i q assume "nul_free q"
  show "released_owners (release_key q i) (fst (sl_run (\<lambda>x. at_key mid rec x \<and> Q x) f s)) =
      (if i = mid \<and> q = rec then mr_released r' else released_owners (release_key q i) s)"
    using led_relD(3) [OF R map_of_SomeD [OF r]] mem_lookup_recipient [OF led_relD(1) [OF R] r nf] same(3)
    by (simp add: released_owners_def)
qed

lemma led_rel_skip:
  assumes "led_rel T m s" "sql_update P f (sl_rows s) = sl_rows s"
  shows "led_rel T m (fst (sl_run P f s))"
  using assms by (auto simp: sl_run_def)

lemma map_row_const:
  assumes "mem_inv m" "map_of m key = Some r"
  shows "map_row key f m = map_row key (\<lambda>_. f r) m"
proof -
  have "x = r" if "(key, x) \<in> set m" for x
    using that assms by (metis map_of_is_SomeI mem_inv_def option.inject)
  then show ?thesis by (auto simp: map_row_def)
qed

lemma led_rel_sl_inv:
  assumes "led_rel T m s"
  shows "sl_inv s"
proof -
  note D = led_relD [OF assms]
  have "List.map dr_key (sl_rows s) = List.map (\<lambda>(k, r). (m_id (mr_message r), mr_recipient r)) m"
    by (simp add: D(2) dr_key_def split_def)
  moreover have "distinct (List.map (\<lambda>(k, r). (m_id (mr_message r), mr_recipient r)) m)"
  proof (rule distinct_map [THEN iffD2], intro conjI inj_onI)
    show "distinct m" using D(1) by (auto simp: mem_inv_def distinct_map)
    fix x y assume xy: "x \<in> set m" "y \<in> set m" "(case x of (k, r) \<Rightarrow> (m_id (mr_message r), mr_recipient r)) =
        (case y of (k, r) \<Rightarrow> (m_id (mr_message r), mr_recipient r))"
    obtain k r k' r' where e: "x = (k, r)" "y = (k', r')" by force
    with xy mem_invD(1) [OF D(1), of k r] mem_invD(1) [OF D(1), of k' r'] have "k = k'" by (simp add: row_key_def)
    with xy(1,2) e D(1) show "x = y" by (metis mem_inv_def map_of_is_SomeI option.inject)
  qed
  ultimately have "distinct (List.map dr_key (sl_rows s))" by metis
  with mem_invD(3) [OF D(1)] D(2) show ?thesis by (auto simp: sl_inv_def)
qed

lemma sim_track:
  assumes R: "led_rel T m s" and nf: "nul_free rec" and new: "(m_id msg, rec) \<notin> T"
  shows "led_rel (insert (m_id msg, rec) T) (mem_track msg rec now m) (sl_track msg rec now s)"
proof -
  note D = led_relD [OF R]
  have no: "map_of m (mem_key (m_id msg) rec) = None"
  proof (rule ccontr)
    assume "map_of m (mem_key (m_id msg) rec) \<noteq> None"
    then obtain r where r: "map_of m (mem_key (m_id msg) rec) = Some r" by auto
    from D(4) [OF map_of_SomeD [OF r]] mem_lookup_recipient [OF D(1) r nf] new show False by simp
  qed
  with led_rel_lookup [OF R nf, of "m_id msg"] have "sl_rows (sl_track msg rec now s) = sl_rows s @ [to_row
     \<lparr>mr_message = msg, mr_recipient = rec, mr_state = DPending, mr_owner = None,
            mr_released = [], mr_attempts = 0, mr_first_sent = None, mr_last_sent = None,
            mr_disposition_at = None, mr_reason = None, mr_expires = now + delivery_ttl\<rparr>]"
    by (auto simp: sl_track_def sql_insert_ignore_def to_row_def pending_by_id_def sql_get_None at_key_def)
  moreover have "released_owners (release_key rec (m_id msg)) s = []" using D(5) [OF nf] new by blast
  moreover have "released_owners k (sl_track msg rec now s) = released_owners k s" for k
    by (simp add: sl_track_def released_owners_def)
  moreover have "mem_inv (mem_track msg rec now m)" using mem_exec_inv [OF D(1), of "Track msg rec now"] nf by simp
  ultimately show ?thesis using D no unfolding led_rel_def by (auto simp: mem_track_def Let_def)
qed

lemma sim_note_sent:
  assumes R: "led_rel T m s" and nf: "nul_free rec"
  shows "led_rel T (mem_note_sent mid rec now m) (sl_note_sent mid rec now s)"
proof (cases "map_of m (mem_key mid rec)")
  case None
  then have "mem_note_sent mid rec now m = m" by (simp add: mem_note_sent_def)
  then show ?thesis unfolding sl_note_sent_def
    by (simp only:) (rule led_rel_skip [OF R led_rel_none [where Q = "\<lambda>x. dr_state x = DPending", OF R nf None]])
next
  case (Some r)
  show ?thesis
  proof (cases "mr_state r = DPending")
    case True
    let ?r' = "r\<lparr>mr_attempts := mr_attempts r + 1,
      mr_first_sent := (case mr_first_sent r of None \<Rightarrow> Some now | Some t \<Rightarrow> Some t), mr_last_sent := Some now\<rparr>"
    let ?f = "\<lambda>x. x\<lparr>dr_attempts := dr_attempts x + 1,
      dr_first_sent := (case dr_first_sent x of None \<Rightarrow> Some now | Some t \<Rightarrow> Some t), dr_last_sent := Some now\<rparr>"
    have m': "mem_note_sent mid rec now m = map_row (mem_key mid rec) (\<lambda>_. ?r') m"
    proof -
      have "mem_note_sent mid rec now m = map_row (mem_key mid rec) (\<lambda>r. r\<lparr>mr_attempts := mr_attempts r + 1,
      mr_first_sent := (case mr_first_sent r of None \<Rightarrow> Some now | Some t \<Rightarrow> Some t), mr_last_sent := Some now\<rparr>) m"
        using Some True by (simp add: mem_note_sent_def)
      also have "\<dots> = map_row (mem_key mid rec) (\<lambda>_. ?r') m"
        by (rule map_row_const [OF led_relD(1) [OF R] Some])
      finally show ?thesis .
    qed
    have inv: "mem_inv (map_row (mem_key mid rec) (\<lambda>_. ?r') m)"
      using mem_exec_inv [OF led_relD(1) [OF R], of "NoteSent mid rec now"] nf m' by simp
    have "led_rel T (map_row (mem_key mid rec) (\<lambda>_. ?r') m)
        (fst (sl_run (\<lambda>x. at_key mid rec x \<and> dr_state x = DPending) ?f s))"
      by (rule led_rel_run [where Q = "\<lambda>x. dr_state x = DPending" and f = ?f, OF R nf Some _ _ inv])
        (simp_all add: True to_row_def)
    then show ?thesis unfolding m' by (simp add: sl_note_sent_def)
  next
    case False
    with Some have "mem_note_sent mid rec now m = m" by (simp add: mem_note_sent_def)
    moreover have "\<not> dr_state (to_row r) = DPending" using False by simp
    ultimately show ?thesis unfolding sl_note_sent_def
      by (simp only:) (rule led_rel_skip [OF R led_rel_no_update [where Q = "\<lambda>x. dr_state x = DPending", OF R nf Some]])
  qed
qed

lemma sim_mark_unreported:
  assumes R: "led_rel T m s" and nf: "nul_free rec"
  shows "led_rel T (mem_mark_unreported mid rec now m) (sl_mark_unreported mid rec now s)"
proof (cases "map_of m (mem_key mid rec)")
  case None
  then have "mem_mark_unreported mid rec now m = m" by (simp add: mem_mark_unreported_def)
  then show ?thesis unfolding sl_mark_unreported_def
    by (simp only:) (rule led_rel_skip [OF R led_rel_none [where Q = "\<lambda>x. dr_state x = DPending", OF R nf None]])
next
  case (Some r)
  show ?thesis
  proof (cases "mr_state r = DPending")
    case True
    let ?r' = "r\<lparr>mr_state := DUnreported, mr_disposition_at := Some now\<rparr>"
    let ?f = "\<lambda>x. x\<lparr>dr_state := DUnreported, dr_disposition_at := Some now\<rparr>"
    have m': "mem_mark_unreported mid rec now m = map_row (mem_key mid rec) (\<lambda>_. ?r') m"
    proof -
      have "mem_mark_unreported mid rec now m = map_row (mem_key mid rec) (\<lambda>r. r\<lparr>mr_state := DUnreported, mr_disposition_at := Some now\<rparr>) m"
        using Some True by (simp add: mem_mark_unreported_def)
      also have "\<dots> = map_row (mem_key mid rec) (\<lambda>_. ?r') m"
        by (rule map_row_const [OF led_relD(1) [OF R] Some])
      finally show ?thesis .
    qed
    have inv: "mem_inv (map_row (mem_key mid rec) (\<lambda>_. ?r') m)"
      using mem_exec_inv [OF led_relD(1) [OF R], of "MarkUnreported mid rec now"] nf m' by simp
    have "led_rel T (map_row (mem_key mid rec) (\<lambda>_. ?r') m)
        (fst (sl_run (\<lambda>x. at_key mid rec x \<and> dr_state x = DPending) ?f s))"
      by (rule led_rel_run [where Q = "\<lambda>x. dr_state x = DPending" and f = ?f, OF R nf Some _ _ inv])
        (simp_all add: True to_row_def)
    then show ?thesis unfolding m' by (simp add: sl_mark_unreported_def)
  next
    case False
    with Some have "mem_mark_unreported mid rec now m = m" by (simp add: mem_mark_unreported_def)
    moreover have "\<not> dr_state (to_row r) = DPending" using False by simp
    ultimately show ?thesis unfolding sl_mark_unreported_def
      by (simp only:) (rule led_rel_skip [OF R led_rel_no_update [where Q = "\<lambda>x. dr_state x = DPending", OF R nf Some]])
  qed
qed

end
