(* ===== verification/DeliveryTheorems.thy ===== *)
theory DeliveryTheorems
  imports DeliverySimulation
begin

text \<open>
  The rest of the simulation, history against history, and the properties of the disposition ledger
  for both implementations.
\<close>

section \<open>Settling\<close>


lemma to_row_update [simp]:
  "(to_row r)\<lparr>dr_state := st, dr_owner := ow, dr_reason := re\<rparr> = to_row (r\<lparr>mr_state := st, mr_owner := ow, mr_reason := re\<rparr>)"
  "(to_row r)\<lparr>dr_reason := re\<rparr> = to_row (r\<lparr>mr_reason := re\<rparr>)"
  "(to_row r)\<lparr>dr_state := st, dr_disposition_at := d, dr_reason := re\<rparr> =
     to_row (r\<lparr>mr_state := st, mr_disposition_at := d, mr_reason := re\<rparr>)"
  "(to_row r)\<lparr>dr_state := st, dr_disposition_at := d, dr_reason := re, dr_owner := ow\<rparr> =
     to_row (r\<lparr>mr_state := st, mr_owner := ow, mr_disposition_at := d, mr_reason := re\<rparr>)"
  by (simp_all add: to_row_def)

lemma to_row_released [simp]: "to_row (r\<lparr>mr_released := x\<rparr>) = to_row r"
  by (simp add: to_row_def)



section \<open>Releasing, expiring, querying\<close>









section \<open>Properties\<close>


text \<open>A concrete history: a delivery is accepted by one runner, released, and settled by another.\<close>

definition demo_message :: message where
  "demo_message = \<lparr>m_id = ''m1'', m_ts = 5, m_to = Some ''ada'', m_from = Some ''bob'', m_title = None,
     m_body = ''hi'', m_level = Info, m_data = [], m_attachments = []\<rparr>"

definition demo_frame :: "disposition \<Rightarrow> disposition_frame" where
  "demo_frame d = \<lparr>df_message_id = ''m1'', df_disposition = d, df_at = 9, df_reason = None\<rparr>"

definition demo_calls :: "ledger_op list" where
  "demo_calls =
     [Settle ''ada'' (demo_frame Accepted) ''sock1'' True, ReleaseOwner ''ada'' ''sock1'',
      Settle ''ada'' (demo_frame Acted) ''sock1'' False, Settle ''ada'' (demo_frame Accepted) ''sock2'' True,
      Settle ''ada'' (demo_frame Acted) ''sock2'' True, Settle ''ada'' (demo_frame Acted) ''sock2'' True]"

definition demo_ledger :: mem_ledger where
  "demo_ledger = mem_track demo_message ''ada'' 5 []"


text \<open>
  C24. A delivery is settled at most once: from any reachable state of either ledger, over any further
  calls that do not track it anew, at most one disposition that ends the delivery (acted, handled or
  refused) is accepted for it, whoever sends it and however leases move in between.
\<close>
theorem delivery_settled_at_most_once:
  assumes "list_all op_ok calls" and "list_all op_ok later" and "nul_free rec"
    and "list_all (\<lambda>x. \<not> tracks mid rec x) later"
  shows "length (filter (is_settlement mid rec)
      (zip later (snd (run_ops mem_exec later (fst (run_ops mem_exec calls [])))))) \<le> 1 \<and>
    length (filter (is_settlement mid rec)
      (zip later (snd (run_ops sl_exec later (fst (run_ops sl_exec calls (sl_open []))))))) \<le> 1"
proof
  have "mem_inv []" by (simp add: mem_inv_def)
  from mem.settled_at_most_once [OF mem.run_inv [OF this assms(1)] assms(2-4)]
  show "length (filter (is_settlement mid rec)
      (zip later (snd (run_ops mem_exec later (fst (run_ops mem_exec calls [])))))) \<le> 1" .
  have "sl_inv (sl_open [])" by (simp add: sl_inv_def sl_open_def sql_update_def)
  from sl.settled_at_most_once [OF sl.run_inv [OF this assms(1)] assms(2-4)]
  show "length (filter (is_settlement mid rec)
      (zip later (snd (run_ops sl_exec later (fst (run_ops sl_exec calls (sl_open []))))))) \<le> 1" .
qed

theorem delivery_settled_at_most_once_witness:
  "length (filter (is_settlement ''m1'' ''ada'')
      (zip demo_calls (snd (run_ops mem_exec demo_calls (fst (run_ops mem_exec [Track demo_message ''ada'' 5] [])))))) \<le> 1"
proof -
  have "list_all op_ok [Track demo_message ''ada'' 5]" "list_all op_ok demo_calls" "nul_free ''ada''"
    "list_all (\<lambda>x. \<not> tracks ''m1'' ''ada'' x) demo_calls" by code_simp+
  from delivery_settled_at_most_once [OF this] show ?thesis by simp
qed

text \<open>
  C25. A lease is exclusive: while a delivery is accepted by one runner socket, one call can only move
  it when it is a disposition of that message by that same socket, the release of that socket, or an
  expiry at or after its deadline. A disposition by another socket is answered with null and changes
  nothing.
\<close>
theorem delivery_lease_exclusive:
  assumes "mem_inv m" and "op_ok x" and "nul_free rec"
    and "mem_cell m mid rec = Some (DAccepted, Some owner, e)"
  shows "(mem_cell (fst (mem_exec x m)) mid rec \<noteq> Some (DAccepted, Some owner, e) \<longrightarrow>
      (\<exists>f req. x = Settle rec f owner req \<and> df_message_id f = mid) \<or> x = ReleaseOwner rec owner \<or>
      (\<exists>now \<ge> e. x = Expire now)) \<and>
    (\<forall>f other req. df_message_id f = mid \<and> other \<noteq> owner \<longrightarrow>
       mem_settle rec f other req m = (m, None))"
proof (intro conjI allI impI)
  assume "mem_cell (fst (mem_exec x m)) mid rec \<noteq> Some (DAccepted, Some owner, e)"
  from mem.lease_step [OF assms this]
  show "(\<exists>f req. x = Settle rec f owner req \<and> df_message_id f = mid) \<or> x = ReleaseOwner rec owner \<or>
      (\<exists>now \<ge> e. x = Expire now)" .
next
  fix f :: disposition_frame and other req assume "df_message_id f = mid \<and> other \<noteq> owner"
  with assms(4) mem_settle_cases [OF assms(1,3), of f other req]
  show "mem_settle rec f other req m = (m, None)"
    by (auto simp: mem_cell_def settle_ok_def split: if_splits)
qed

definition demo_leased :: mem_ledger where
  "demo_leased = fst (mem_settle ''ada'' (demo_frame Accepted) ''sock1'' True demo_ledger)"

theorem delivery_lease_exclusive_witness:
  "mem_settle ''ada'' (demo_frame Acted) ''sock2'' False demo_leased = (demo_leased, None)"
proof -
  have "mem_inv demo_leased"
    unfolding demo_leased_def demo_ledger_def mem_inv_def
    by (auto simp: mem_track_def mem_settle_def demo_message_def demo_frame_def Let_def map_row_def row_key_def nul_free_def)
  moreover have "op_ok (Expire 0)" "nul_free ''ada''" by code_simp+
  moreover have "mem_cell demo_leased ''m1'' ''ada'' = Some (DAccepted, Some ''sock1'', 86400005)" by code_simp
  ultimately have "\<forall>f other req. df_message_id f = ''m1'' \<and> other \<noteq> ''sock1'' \<longrightarrow>
      mem_settle ''ada'' f other req demo_leased = (demo_leased, None)"
    using delivery_lease_exclusive by blast
  then show ?thesis by (simp add: demo_frame_def)
qed

text \<open>
  A settled delivery stays as it was settled: whatever calls follow that do not track it anew, its
  row keeps its state or is purged; and restarting the SQLite ledger keeps every settled and pending
  row, makes every accepted row pending without an owner, and so leaves no lease of the dead process.
\<close>
theorem delivery_terminal_and_restart:
  assumes "list_all op_ok calls" and "list_all op_ok later" and "nul_free rec"
    and "list_all (\<lambda>x. \<not> tracks mid rec x) later"
    and "s = fst (run_ops sl_exec calls (sl_open []))"
    and "sl_cell s mid rec = Some (st, holder, e)"
  shows "(terminal st \<longrightarrow> sl_cell (fst (run_ops sl_exec later s)) mid rec \<in> {None, Some (st, holder, e)}) \<and>
    sl_cell (sl_open (sl_rows s)) mid rec =
      Some (if st = DAccepted then (DPending, None, e) else (st, holder, e))"
proof
  have "sl_inv (sl_open [])" by (simp add: sl_inv_def sl_open_def sql_update_def)
  then have inv: "sl_inv s" unfolding assms(5) by (rule sl.run_inv [OF _ assms(1)])
  show "terminal st \<longrightarrow> sl_cell (fst (run_ops sl_exec later s)) mid rec \<in> {None, Some (st, holder, e)}"
    using sl.terminal_run [OF inv assms(2-4), of st holder e] assms(6) by blast
  have "pending_by_id rec mid (sl_open (sl_rows s)) =
      map_option (\<lambda>r. if dr_state r = DAccepted then r\<lparr>dr_state := DPending, dr_owner := None\<rparr> else r) (pending_by_id rec mid s)"
    unfolding pending_by_id_key sl_open_def sql_ledger.simps
    by (rule sql_get_update_when) (simp add: dr_key_def)
  with assms(6) show "sl_cell (sl_open (sl_rows s)) mid rec =
      Some (if st = DAccepted then (DPending, None, e) else (st, holder, e))"
    by (auto simp: sl_cell_def)
qed

theorem delivery_terminal_and_restart_witness:
  "sl_cell (sl_open (sl_rows (fst (run_ops sl_exec
      [Track demo_message ''ada'' 5, Settle ''ada'' (demo_frame Accepted) ''sock1'' True] (sl_open []))))) ''m1'' ''ada'' =
   Some (DPending, None, 86400005)"
proof -
  let ?calls = "[Track demo_message ''ada'' 5, Settle ''ada'' (demo_frame Accepted) ''sock1'' True]"
  have ok: "list_all op_ok ?calls" "list_all op_ok []" "nul_free ''ada''" "list_all (\<lambda>x. \<not> tracks ''m1'' ''ada'' x) []"
    by code_simp+
  have c: "sl_cell (fst (run_ops sl_exec ?calls (sl_open []))) ''m1'' ''ada'' =
      Some (DAccepted, Some ''sock1'', 86400005)" by code_simp
  from delivery_terminal_and_restart [OF ok refl c, THEN conjunct2] show ?thesis by (simp only: if_True refl)
qed

end
