(* ===== verification/EventLog.thy ===== *)
theory EventLog
  imports Wire Complex_Main
begin

text \<open>
  The event log, \<open>packages/core/src/event-log.ts\<close> and \<open>sqlite-event-log.ts\<close>: the append-only record
  of every message with the audience it was fanned out to, and the reads on it. The in-memory log
  evaluates \<open>feedVisibleTo\<close>; the SQLite log evaluates the same rule as a \<open>WHERE\<close> clause over columns
  that may be NULL, in three-valued logic. The \<open>data\<close> and \<open>recipients\<close> columns, always written by
  \<open>JSON.stringify\<close>, are modelled by the values they encode.
\<close>

section \<open>The rule\<close>

definition channel_thread_prefix :: string where "channel_thread_prefix = ''chan:''"
definition secret_thread_prefix :: string where "secret_thread_prefix = ''secret:''"
definition objective_thread_prefix :: string where "objective_thread_prefix = ''obj:''"
definition tool_thread_prefix :: string where "tool_thread_prefix = ''tool:''"
definition variable_thread_prefix :: string where "variable_thread_prefix = ''variable:''"
definition notification_thread_prefix :: string where "notification_thread_prefix = ''hook:''"
definition general_channel_id :: string where "general_channel_id = ''general''"

lemmas thread_prefixes = channel_thread_prefix_def secret_thread_prefix_def objective_thread_prefix_def
  tool_thread_prefix_def variable_thread_prefix_def notification_thread_prefix_def

definition channel_thread_tag :: "string \<Rightarrow> string" where
  "channel_thread_tag channel = channel_thread_prefix @ channel"

definition scoped_unthreaded_kinds :: "string list" where
  "scoped_unthreaded_kinds = [''instructions'', ''context_control'']"

text \<open>\<open>data.thread\<close> and \<open>data.kind\<close> are read from an untyped object: absent, or any JSON value.\<close>

definition is_scoped_thread_tag :: "json option \<Rightarrow> bool" where
  "is_scoped_thread_tag tag =
     (case tag of
        Some (JStr t) \<Rightarrow>
          t \<noteq> [] \<and>
          (starts_with t secret_thread_prefix \<or> starts_with t objective_thread_prefix \<or>
           starts_with t tool_thread_prefix \<or> starts_with t variable_thread_prefix \<or>
           starts_with t notification_thread_prefix \<or>
           starts_with t channel_thread_prefix \<and> t \<noteq> channel_thread_tag general_channel_id)
      | _ \<Rightarrow> False)"

definition is_legacy_scoped_event :: "data \<Rightarrow> bool" where
  "is_legacy_scoped_event d =
     (if is_scoped_thread_tag (map_of d ''thread'') then True
      else (case map_of d ''kind'' of Some (JStr k) \<Rightarrow> k \<in> set scoped_unthreaded_kinds | _ \<Rightarrow> False))"

definition is_secret_thread :: "data \<Rightarrow> bool" where
  "is_secret_thread d =
     (case map_of d ''thread'' of Some (JStr t) \<Rightarrow> starts_with t secret_thread_prefix | _ \<Rightarrow> False)"

definition feed_visible_to :: "message \<Rightarrow> string list option \<Rightarrow> string \<Rightarrow> bool" where
  "feed_visible_to ev recipients viewer =
     (if is_secret_thread (m_data ev) then False
      else if m_to ev \<noteq> None \<and> m_from ev \<noteq> Some viewer \<and> m_to ev \<noteq> Some viewer then False
      else if m_from ev = Some viewer then True
      else (case recipients of
              Some rs \<Rightarrow> viewer \<in> set rs
            | None \<Rightarrow> if m_to ev \<noteq> None then m_to ev = Some viewer
                      else \<not> is_legacy_scoped_event (m_data ev)))"

definition matches_channel :: "message \<Rightarrow> string \<Rightarrow> bool" where
  "matches_channel ev channel =
     (case map_of (m_data ev) ''thread'' of
        Some (JStr t) \<Rightarrow>
          if t \<noteq> [] then t = channel_thread_tag channel
          else channel = general_channel_id \<and> m_to ev = None
      | _ \<Rightarrow> channel = general_channel_id \<and> m_to ev = None)"

definition matches_viewer :: "message \<Rightarrow> string list option \<Rightarrow> string \<Rightarrow> string option \<Rightarrow> bool" where
  "matches_viewer ev recipients viewer with_other =
     (case with_other of
        Some other \<Rightarrow>
          m_to ev \<noteq> None \<and>
          (m_from ev = Some viewer \<and> m_to ev = Some other \<or> m_from ev = Some other \<and> m_to ev = Some viewer)
      | None \<Rightarrow> feed_visible_to ev recipients viewer)"

section \<open>Limits\<close>

text \<open>A caller's \<open>limit\<close>: undefined, a number that is not finite, or a finite number.\<close>

datatype js_limit = NoLimit | NonFinite | Finite rat

definition default_query_limit :: int where "default_query_limit = 100"
definition max_query_limit :: int where "max_query_limit = 1000"

definition clamp_query_limit :: "js_limit \<Rightarrow> int" where
  "clamp_query_limit raw =
     (case raw of
        NoLimit \<Rightarrow> default_query_limit
      | NonFinite \<Rightarrow> default_query_limit
      | Finite r \<Rightarrow> if r \<le> 0 then default_query_limit else min \<lfloor>r\<rfloor> max_query_limit)"

record query_options =
  q_viewer :: string
  q_with :: "string option"
  q_channel :: "string option"
  q_limit :: js_limit
  q_before :: "int option"

record tail_options =
  t_since :: "int option"
  t_limit :: "int option"

section \<open>Pull-request links\<close>

text \<open>
  \<open>/https:\/\/github\.com\/[A-Za-z0-9_.-]+\/[A-Za-z0-9_.-]+\/pull\/[0-9]+(?:\b|\/)/\<close>: the classes before
  a slash do not contain it, so each run is maximal; after fewer than all the digits neither
  alternative matches, so the digits are maximal too.
\<close>

definition word_char :: "char \<Rightarrow> bool" where
  "word_char c \<longleftrightarrow> is_alnum c \<or> c = CHR ''_''"

definition pr_here :: "string \<Rightarrow> bool" where
  "pr_here s =
     (starts_with s ''https://github.com/'' \<and>
      (let owner = takeWhile name_char (drop 19 s); r1 = dropWhile name_char (drop 19 s)
       in owner \<noteq> [] \<and> starts_with r1 ''/'' \<and>
          (let repo = takeWhile name_char (drop 1 r1); r2 = dropWhile name_char (drop 1 r1)
           in repo \<noteq> [] \<and> starts_with r2 ''/pull/'' \<and>
              (let digits = takeWhile is_digit (drop 6 r2); r3 = dropWhile is_digit (drop 6 r2)
               in digits \<noteq> [] \<and> (case r3 of [] \<Rightarrow> True | c # _ \<Rightarrow> \<not> word_char c \<or> c = CHR ''/'')))))"

fun contains_canonical_pull_request_url :: "string \<Rightarrow> bool" where
  "contains_canonical_pull_request_url [] = False"
| "contains_canonical_pull_request_url (c # cs) =
     (pr_here (c # cs) \<or> contains_canonical_pull_request_url cs)"

section \<open>The in-memory log\<close>

record stored_event =
  se_message :: message
  se_recipients :: "string list option"

type_synonym mem_log = "stored_event list"

definition mem_append :: "message \<Rightarrow> string list option \<Rightarrow> mem_log \<Rightarrow> mem_log" where
  "mem_append message recipients events = events @ [\<lparr>se_message = message, se_recipients = recipients\<rparr>]"

text \<open>\<open>xs.slice(-n)\<close>.\<close>

definition slice_last :: "int \<Rightarrow> 'a list \<Rightarrow> 'a list" where
  "slice_last n xs =
     (if n > 0 then drop (length xs - nat n) xs else drop (nat (- n)) xs)"

definition mem_tail :: "tail_options \<Rightarrow> mem_log \<Rightarrow> message list" where
  "mem_tail opts events =
     (let since = (case t_since opts of None \<Rightarrow> 0 | Some s \<Rightarrow> s);
          limit = (case t_limit opts of None \<Rightarrow> default_query_limit | Some l \<Rightarrow> l)
      in slice_last limit (filter (\<lambda>e. m_ts e \<ge> since) (List.map se_message events)))"

definition entry_matches :: "query_options \<Rightarrow> stored_event \<Rightarrow> bool" where
  "entry_matches opts entry =
     (let ev = se_message entry in
      \<not> (case q_before opts of None \<Rightarrow> False | Some b \<Rightarrow> m_ts ev \<ge> b) \<and>
      (case q_channel opts of
         Some ch \<Rightarrow> matches_channel ev ch
       | None \<Rightarrow> matches_viewer ev (se_recipients entry) (q_viewer opts) (q_with opts)))"

text \<open>The newest-first walk: push what matches, stop when \<open>matches.length >= limit\<close>.\<close>

fun query_walk :: "query_options \<Rightarrow> int \<Rightarrow> message list \<Rightarrow> stored_event list \<Rightarrow> message list" where
  "query_walk opts limit matches [] = matches"
| "query_walk opts limit matches (entry # older) =
     (if \<not> entry_matches opts entry then query_walk opts limit matches older
      else (let matches' = matches @ [se_message entry]
            in if int (length matches') \<ge> limit then matches'
               else query_walk opts limit matches' older))"

definition mem_query :: "query_options \<Rightarrow> mem_log \<Rightarrow> message list" where
  "mem_query opts events = query_walk opts (clamp_query_limit (q_limit opts)) [] (rev events)"

definition is_discussion :: "string \<Rightarrow> message \<Rightarrow> bool" where
  "is_discussion objective m \<longleftrightarrow>
     map_of (m_data m) ''kind'' = Some (JStr ''objective_discuss'') \<and>
     map_of (m_data m) ''thread'' = Some (JStr (''obj:'' @ objective))"

definition max_opt :: "int option \<Rightarrow> int \<Rightarrow> int" where
  "max_opt acc t = (case acc of None \<Rightarrow> t | Some a \<Rightarrow> max a t)"

definition mem_latest_signals :: "string \<Rightarrow> mem_log \<Rightarrow> int option \<times> int option" where
  "mem_latest_signals objective events =
     fold (\<lambda>e (post, link).
         if \<not> is_discussion objective (se_message e) then (post, link)
         else (Some (max_opt post (m_ts (se_message e))),
               if contains_canonical_pull_request_url (m_body (se_message e))
               then Some (max_opt link (m_ts (se_message e))) else link))
       events (None, None)"

section \<open>The SQLite log\<close>

record event_row =
  ev_id :: string
  ev_ts :: int
  ev_to :: "string option"
  ev_from :: "string option"
  ev_title :: "string option"
  ev_body :: string
  ev_level :: string
  ev_data :: data
  ev_attachments :: "json_text option"
  ev_recipients :: "string list option"

fun level_text :: "log_level \<Rightarrow> string" where
  "level_text Debug = ''debug''"
| "level_text Info = ''info''"
| "level_text Notice = ''notice''"
| "level_text Warning = ''warning''"
| "level_text ErrorLevel = ''error''"
| "level_text Critical = ''critical''"

definition valid_levels :: "log_level list" where
  "valid_levels = [Debug, Info, Notice, Warning, ErrorLevel, Critical]"

definition level_of_text :: "string \<Rightarrow> log_level" where
  "level_of_text s = (case List.find (\<lambda>l. level_text l = s) valid_levels of None \<Rightarrow> Info | Some l \<Rightarrow> l)"

definition ev_parse_attachments :: "json_text option \<Rightarrow> attachment list" where
  "ev_parse_attachments raw =
     (case raw of
        None \<Rightarrow> []
      | Some t \<Rightarrow> (case json_parse t of Some (JArr vs) \<Rightarrow> vs | _ \<Rightarrow> []))"

definition row_to_message :: "event_row \<Rightarrow> message" where
  "row_to_message r =
     \<lparr>m_id = ev_id r, m_ts = ev_ts r, m_to = ev_to r, m_from = ev_from r, m_title = ev_title r,
      m_body = ev_body r, m_level = level_of_text (ev_level r), m_data = ev_data r,
      m_attachments = ev_parse_attachments (ev_attachments r)\<rparr>"

definition message_row :: "message \<Rightarrow> string list option \<Rightarrow> event_row" where
  "message_row m recipients =
     \<lparr>ev_id = m_id m, ev_ts = m_ts m, ev_to = m_to m, ev_from = m_from m, ev_title = m_title m,
      ev_body = m_body m, ev_level = level_text (m_level m), ev_data = m_data m,
      ev_attachments = (if length (m_attachments m) > 0
                        then Some (json_stringify (JArr (m_attachments m))) else None),
      ev_recipients = recipients\<rparr>"

text \<open>\<open>append\<close>: the primary key is the message id. \<open>None\<close> is the constraint error.\<close>

definition sqlog_append :: "message \<Rightarrow> string list option \<Rightarrow> event_row list \<Rightarrow> event_row list option" where
  "sqlog_append m recipients rows = sql_insert (\<lambda>r r'. ev_id r = ev_id r') (message_row m recipients) rows"

text \<open>
  \<open>json_extract(data, '$.key')\<close>: NULL when the key is absent or JSON null, text for a string, an
  integer for a number or a boolean, and JSON text for an array or object. \<open>LIKE 'p%'\<close> ignores the
  case of ASCII letters; no number's or array's text starts with one of the prefixes asked for.
\<close>

datatype sql_value = SText string | SInt int | SJson json

definition json_extract :: "string \<Rightarrow> data \<Rightarrow> sql_value option" where
  "json_extract k d =
     (case map_of d k of
        None \<Rightarrow> None
      | Some JNull \<Rightarrow> None
      | Some (JBool b) \<Rightarrow> Some (SInt (if b then 1 else 0))
      | Some (JNum n) \<Rightarrow> Some (SInt n)
      | Some (JStr s) \<Rightarrow> Some (SText s)
      | Some j \<Rightarrow> Some (SJson j))"

fun like_prefix_value :: "string \<Rightarrow> sql_value \<Rightarrow> bool" where
  "like_prefix_value p (SText s) = starts_with (js_lower s) p"
| "like_prefix_value p _ = False"

definition like_prefix :: "sql_value option \<Rightarrow> string \<Rightarrow> bool3" where
  "like_prefix v p = map_option (like_prefix_value p) v"

text \<open>The \<open>WHERE\<close> clause of \<open>queryFeedStmt\<close>, conjunct by conjunct.\<close>

definition feed_where :: "int \<Rightarrow> string \<Rightarrow> event_row \<Rightarrow> bool3" where
  "feed_where before viewer r =
     (let thread = json_extract ''thread'' (ev_data r); kind = json_extract ''kind'' (ev_data r);
          not_like = (\<lambda>p. not3 (like_prefix thread p))
      in and3 (Some (ev_ts r < before))
        (and3 (or3 (is_null (ev_to r)) (or3 (eq3 (ev_from r) (Some viewer)) (eq3 (ev_to r) (Some viewer))))
        (and3 (or3 (is_null thread) (not_like secret_thread_prefix))
          (or3 (eq3 (ev_from r) (Some viewer))
            (if ev_recipients r \<noteq> None
             then Some (list_ex (\<lambda>v. v = viewer) (case ev_recipients r of None \<Rightarrow> [] | Some rs \<Rightarrow> rs))
             else if ev_to r \<noteq> None then eq3 (ev_to r) (Some viewer)
             else and3
               (or3 (is_null kind)
                    (not3 (or3 (eq3 kind (Some (SText ''instructions''))) (eq3 kind (Some (SText ''context_control''))))))
               (or3 (is_null thread)
                 (or3 (eq3 thread (Some (SText ''chan:general'')))
                   (and3 (not_like channel_thread_prefix)
                   (and3 (not_like objective_thread_prefix)
                   (and3 (not_like tool_thread_prefix)
                   (and3 (not_like variable_thread_prefix)
                         (not_like notification_thread_prefix))))))))))))"

definition dm_where :: "int \<Rightarrow> string \<Rightarrow> string \<Rightarrow> event_row \<Rightarrow> bool3" where
  "dm_where before viewer other r =
     and3 (Some (ev_ts r < before))
       (and3 (not3 (is_null (ev_to r)))
         (or3 (and3 (eq3 (ev_from r) (Some viewer)) (eq3 (ev_to r) (Some other)))
              (and3 (eq3 (ev_from r) (Some other)) (eq3 (ev_to r) (Some viewer)))))"

definition channel_where :: "int \<Rightarrow> string \<Rightarrow> event_row \<Rightarrow> bool3" where
  "channel_where before tag r =
     and3 (Some (ev_ts r < before)) (eq3 (json_extract ''thread'' (ev_data r)) (Some (SText tag)))"

definition general_where :: "int \<Rightarrow> string \<Rightarrow> event_row \<Rightarrow> bool3" where
  "general_where before tag r =
     and3 (Some (ev_ts r < before))
       (or3 (eq3 (json_extract ''thread'' (ev_data r)) (Some (SText tag)))
            (and3 (is_null (ev_to r)) (is_null (json_extract ''thread'' (ev_data r)))))"

definition max_safe_integer :: int where "max_safe_integer = 2 ^ 53 - 1"

text \<open>\<open>LIMIT ?\<close>: a negative bound is no bound.\<close>

definition sql_limit :: "int \<Rightarrow> 'a list \<Rightarrow> 'a list" where
  "sql_limit n xs = (if n < 0 then xs else take (nat n) xs)"

definition sqlog_query :: "query_options \<Rightarrow> event_row list \<Rightarrow> message list" where
  "sqlog_query opts rows =
     (let limit = clamp_query_limit (q_limit opts);
          before = (case q_before opts of None \<Rightarrow> max_safe_integer | Some b \<Rightarrow> b);
          run = (\<lambda>wh. sql_limit limit (order_desc ev_ts (sql_all (\<lambda>r. holds (wh r)) rows)));
          found = (case q_channel opts of
             Some ch \<Rightarrow>
               (if ch = general_channel_id then run (general_where before (channel_thread_tag ch))
                else run (channel_where before (channel_thread_tag ch)))
           | None \<Rightarrow>
               (case q_with opts of
                  None \<Rightarrow> run (feed_where before (q_viewer opts))
                | Some other \<Rightarrow>
                    if other = [] then run (feed_where before (q_viewer opts))
                    else run (dm_where before (q_viewer opts) other)))
      in List.map row_to_message found)"

definition sqlog_tail :: "tail_options \<Rightarrow> event_row list \<Rightarrow> message list" where
  "sqlog_tail opts rows =
     (let since = (case t_since opts of None \<Rightarrow> 0 | Some s \<Rightarrow> s);
          limit = (case t_limit opts of None \<Rightarrow> default_query_limit | Some l \<Rightarrow> l)
      in List.map row_to_message
           (rev (sql_limit limit (order_desc ev_ts (sql_all (\<lambda>r. ev_ts r \<ge> since) rows)))))"

definition discussion_where :: "string \<Rightarrow> event_row \<Rightarrow> bool3" where
  "discussion_where objective r =
     and3 (eq3 (json_extract ''thread'' (ev_data r)) (Some (SText (''obj:'' @ objective))))
          (eq3 (json_extract ''kind'' (ev_data r)) (Some (SText ''objective_discuss'')))"

definition sqlog_latest_signals :: "string \<Rightarrow> event_row list \<Rightarrow> int option \<times> int option" where
  "sqlog_latest_signals objective rows =
     (let messages = List.map row_to_message
            (order_desc ev_ts (sql_all (\<lambda>r. holds (discussion_where objective r)) rows))
      in ((case messages of [] \<Rightarrow> None | m # _ \<Rightarrow> Some (m_ts m)),
          map_option m_ts (List.find (\<lambda>m. contains_canonical_pull_request_url (m_body m)) messages)))"

section \<open>The rule in SQL\<close>

lemma holds_not_like [simp]:
  "holds (not3 (like_prefix v p)) \<longleftrightarrow> (\<exists>x. v = Some x \<and> \<not> like_prefix_value p x)"
  by (cases v) (auto simp: holds_def like_prefix_def not3_def)

lemma holds_not_in [simp]:
  "holds (not3 (or3 (eq3 (Some k) (Some a)) (eq3 (Some k) (Some b)))) \<longleftrightarrow> k \<noteq> a \<and> k \<noteq> b"
  "holds (not3 (or3 (eq3 None (Some a)) (eq3 None (Some b)))) \<longleftrightarrow> False"
  by (cases "k = a"; cases "k = b"; simp add: holds_def not3_def eq3_def)
    (simp add: holds_def not3_def eq3_def)

lemma row_to_message_row [simp]: "row_to_message (message_row m rs) = m"
proof -
  have "level_of_text (level_text l) = l" for l
    by (cases l) (simp_all add: level_of_text_def valid_levels_def)
  moreover have "ev_parse_attachments (if length as > 0 then Some (json_stringify (JArr as)) else None) = as" for as
    by (auto simp: ev_parse_attachments_def)
  ultimately show ?thesis by (simp add: row_to_message_def message_row_def)
qed

end
