(* ===== verification/EventLogAgree.thy ===== *)
theory EventLogAgree
  imports EventLog
begin

text \<open>
  The two event logs answer alike. The feed's \<open>WHERE\<close> clause never shows a row \<open>feedVisibleTo\<close>
  hides, and is the same rule on messages whose thread tag is written in lower case; the contract of
  the log (\<open>event_log\<close>) says what every read returns in terms of the entries appended so far, and both
  logs keep it.
\<close>

section \<open>The rule in SQL\<close>

definition scope_prefixes :: "string list" where
  "scope_prefixes =
     [secret_thread_prefix, channel_thread_prefix, objective_thread_prefix, tool_thread_prefix,
      variable_thread_prefix, notification_thread_prefix]"

text \<open>A tag that starts with a scope prefix up to case starts with it as written.\<close>

definition tag_cased :: "data \<Rightarrow> bool" where
  "tag_cased d =
     (case map_of d ''thread'' of
        Some (JStr t) \<Rightarrow> list_all (\<lambda>p. starts_with (js_lower t) p \<longrightarrow> starts_with t p) scope_prefixes
      | _ \<Rightarrow> True)"

lemma starts_with_lower: "starts_with t p \<Longrightarrow> js_lower p = p \<Longrightarrow> starts_with (js_lower t) p"
  by (auto simp: starts_with_iff js_lower_def)

lemma lower_prefixes:
  "js_lower secret_thread_prefix = secret_thread_prefix" "js_lower channel_thread_prefix = channel_thread_prefix"
  "js_lower objective_thread_prefix = objective_thread_prefix" "js_lower tool_thread_prefix = tool_thread_prefix"
  "js_lower variable_thread_prefix = variable_thread_prefix"
  "js_lower notification_thread_prefix = notification_thread_prefix"
  by code_simp+

lemmas prefix_lower = starts_with_lower [OF _ lower_prefixes(1)] starts_with_lower [OF _ lower_prefixes(2)]
  starts_with_lower [OF _ lower_prefixes(3)] starts_with_lower [OF _ lower_prefixes(4)]
  starts_with_lower [OF _ lower_prefixes(5)] starts_with_lower [OF _ lower_prefixes(6)]

lemma general_tag: "channel_thread_tag general_channel_id = ''chan:general''"
  by (simp add: channel_thread_tag_def channel_thread_prefix_def general_channel_id_def)

text \<open>What the three audience conjuncts say, with NULLs and JSON values spelled out.\<close>

definition sql_secret :: "data \<Rightarrow> bool" where
  "sql_secret d = (case map_of d ''thread'' of Some (JStr t) \<Rightarrow> starts_with (js_lower t) secret_thread_prefix | _ \<Rightarrow> False)"

definition sql_scoped :: "data \<Rightarrow> bool" where
  "sql_scoped d =
     ((case map_of d ''kind'' of Some (JStr k) \<Rightarrow> k \<in> set scoped_unthreaded_kinds | _ \<Rightarrow> False) \<or>
      (case map_of d ''thread'' of
         Some (JStr t) \<Rightarrow> t \<noteq> ''chan:general'' \<and>
           list_ex (\<lambda>p. starts_with (js_lower t) p)
             [channel_thread_prefix, objective_thread_prefix, tool_thread_prefix, variable_thread_prefix,
              notification_thread_prefix]
       | _ \<Rightarrow> False))"

definition json_string :: "json option \<Rightarrow> string option" where
  "json_string j = (case j of Some (JStr s) \<Rightarrow> Some s | _ \<Rightarrow> None)"

lemma json_string_eq: "(case j of Some (JStr s) \<Rightarrow> P s | _ \<Rightarrow> Q) = (case json_string j of Some s \<Rightarrow> P s | None \<Rightarrow> Q)"
  by (simp add: json_string_def split: option.split json.split)

lemma thread_not_like:
  "holds (or3 (is_null (json_extract k d)) (not3 (like_prefix (json_extract k d) p))) \<longleftrightarrow>
     (case json_string (map_of d k) of Some t \<Rightarrow> \<not> starts_with (js_lower t) p | None \<Rightarrow> True)"
proof (cases "map_of d k")
  case (Some j)
  then show ?thesis by (cases j) (simp_all add: json_extract_def json_string_def)
qed (simp add: json_extract_def json_string_def)

lemma kind_not_in:
  "holds (or3 (is_null (json_extract k d)) (not3 (or3
      (eq3 (json_extract k d) (Some (SText a))) (eq3 (json_extract k d) (Some (SText b)))))) \<longleftrightarrow>
    (case json_string (map_of d k) of Some t \<Rightarrow> t \<noteq> a \<and> t \<noteq> b | None \<Rightarrow> True)"
proof (cases "map_of d k")
  case (Some j)
  then show ?thesis by (cases j) (simp_all add: json_extract_def json_string_def)
qed (simp add: json_extract_def json_string_def)

lemma thread_free:
  "holds (or3 (is_null (json_extract k d)) (or3 (eq3 (json_extract k d) (Some (SText g)))
      (and3 (not3 (like_prefix (json_extract k d) p1)) (and3 (not3 (like_prefix (json_extract k d) p2))
      (and3 (not3 (like_prefix (json_extract k d) p3)) (and3 (not3 (like_prefix (json_extract k d) p4))
         (not3 (like_prefix (json_extract k d) p5)))))))) \<longleftrightarrow>
    (case json_string (map_of d k) of
       Some t \<Rightarrow> t = g \<or> \<not> list_ex (\<lambda>p. starts_with (js_lower t) p) [p1, p2, p3, p4, p5] | None \<Rightarrow> True)"
proof (cases "map_of d k")
  case (Some j)
  then show ?thesis by (cases j) (simp_all add: json_extract_def json_string_def)
qed (simp add: json_extract_def json_string_def)

lemma feed_where_iff:
  "holds (feed_where before viewer r) \<longleftrightarrow>
     ev_ts r < before \<and> (ev_to r = None \<or> ev_from r = Some viewer \<or> ev_to r = Some viewer) \<and>
     \<not> sql_secret (ev_data r) \<and>
     (ev_from r = Some viewer \<or>
      (case ev_recipients r of
         Some rs \<Rightarrow> viewer \<in> set rs
       | None \<Rightarrow> if ev_to r \<noteq> None then ev_to r = Some viewer else \<not> sql_scoped (ev_data r)))"
proof -
  have sec: "sql_secret d = (\<not> (case json_string (map_of d ''thread'') of
        Some t \<Rightarrow> \<not> starts_with (js_lower t) secret_thread_prefix | None \<Rightarrow> True))" for d
    by (simp add: sql_secret_def json_string_eq split: option.split)
  have sco: "sql_scoped d = (\<not> ((case json_string (map_of d ''kind'') of
          Some t \<Rightarrow> t \<noteq> ''instructions'' \<and> t \<noteq> ''context_control'' | None \<Rightarrow> True) \<and>
        (case json_string (map_of d ''thread'') of
          Some t \<Rightarrow> t = ''chan:general'' \<or> \<not> list_ex (\<lambda>p. starts_with (js_lower t) p)
             [channel_thread_prefix, objective_thread_prefix, tool_thread_prefix, variable_thread_prefix,
              notification_thread_prefix] | None \<Rightarrow> True)))" for d
    unfolding sql_scoped_def json_string_eq scoped_unthreaded_kinds_def
    by (simp split: option.split) blast
  have eq: "holds (eq3 x (Some v)) \<longleftrightarrow> x = Some v" for x :: "string option" and v
    by auto
  show ?thesis
    unfolding feed_where_def Let_def holds_and3 holds_or3 [of "eq3 _ _"] holds_or3 [of "is_null (ev_to _)"]
      thread_not_like if_distrib [of holds] kind_not_in thread_free sec sco eq holds_is_null
    by (cases "ev_recipients r"; cases "ev_to r"; simp add: list_ex_iff)
qed

lemma sql_secret_covers: "is_secret_thread d \<Longrightarrow> sql_secret d"
  by (auto simp: is_secret_thread_def sql_secret_def prefix_lower split: option.splits json.splits)

lemma sql_secret_iff: "tag_cased d \<Longrightarrow> sql_secret d \<longleftrightarrow> is_secret_thread d"
  using sql_secret_covers [of d]
  by (auto simp: is_secret_thread_def sql_secret_def tag_cased_def scope_prefixes_def split: option.splits json.splits)

lemma general_starts:
  "\<not> starts_with ''chan:general'' secret_thread_prefix" "\<not> starts_with ''chan:general'' objective_thread_prefix"
  "\<not> starts_with ''chan:general'' tool_thread_prefix" "\<not> starts_with ''chan:general'' variable_thread_prefix"
  "\<not> starts_with ''chan:general'' notification_thread_prefix"
  by code_simp+

lemma scoped_tag_iff:
  "is_scoped_thread_tag j \<longleftrightarrow>
     (case json_string j of
        Some t \<Rightarrow> t \<noteq> ''chan:general'' \<and> list_ex (starts_with t) scope_prefixes
      | None \<Rightarrow> False)"
proof -
  have ne: "t \<noteq> []" if "list_ex (starts_with t) scope_prefixes" for t
    using that by (auto simp: scope_prefixes_def starts_with_def thread_prefixes)
  have "list_ex (starts_with t) scope_prefixes \<longleftrightarrow> starts_with t secret_thread_prefix \<or> starts_with t channel_thread_prefix \<or>
      starts_with t objective_thread_prefix \<or> starts_with t tool_thread_prefix \<or> starts_with t variable_thread_prefix \<or>
      starts_with t notification_thread_prefix" for t
    by (simp add: scope_prefixes_def)
  then show ?thesis
    unfolding is_scoped_thread_tag_def json_string_eq general_tag
    using ne by (auto simp: general_starts split: option.split)
qed

lemma legacy_iff:
  "is_legacy_scoped_event d \<longleftrightarrow>
     (case json_string (map_of d ''kind'') of Some k \<Rightarrow> k \<in> set scoped_unthreaded_kinds | None \<Rightarrow> False) \<or>
     (case json_string (map_of d ''thread'') of
        Some t \<Rightarrow> t \<noteq> ''chan:general'' \<and> list_ex (starts_with t) scope_prefixes | None \<Rightarrow> False)"
  unfolding is_legacy_scoped_event_def scoped_tag_iff json_string_eq by auto

lemma sql_scoped_covers: "\<lbrakk>is_legacy_scoped_event d; \<not> sql_secret d\<rbrakk> \<Longrightarrow> sql_scoped d"
  unfolding legacy_iff sql_scoped_def sql_secret_def json_string_eq
  by (auto simp: scope_prefixes_def prefix_lower split: option.splits)

lemma sql_scoped_iff: "\<lbrakk>tag_cased d; \<not> sql_secret d\<rbrakk> \<Longrightarrow> sql_scoped d \<longleftrightarrow> is_legacy_scoped_event d"
  using sql_scoped_covers [of d]
  unfolding legacy_iff sql_scoped_def sql_secret_def tag_cased_def json_string_eq
  by (auto simp: scope_prefixes_def split: option.splits)

lemma feed_where_sound:
  assumes "holds (feed_where before viewer r)"
  shows "ev_ts r < before \<and> feed_visible_to (row_to_message r) (ev_recipients r) viewer"
proof -
  note h = assms [unfolded feed_where_iff]
  have s: "\<not> sql_secret (ev_data r)" "\<not> is_secret_thread (ev_data r)" using h sql_secret_covers by blast+
  have l: "\<not> is_legacy_scoped_event (ev_data r)" if "\<not> sql_scoped (ev_data r)"
    using sql_scoped_covers s that by blast
  show ?thesis
    using h s l by (cases "ev_recipients r"; cases "ev_to r") (auto simp: feed_visible_to_def row_to_message_def)
qed

lemma feed_where_exact:
  assumes "tag_cased (ev_data r)"
  shows "holds (feed_where before viewer r) \<longleftrightarrow>
    ev_ts r < before \<and> feed_visible_to (row_to_message r) (ev_recipients r) viewer"
proof
  assume "ev_ts r < before \<and> feed_visible_to (row_to_message r) (ev_recipients r) viewer"
  moreover note s = sql_secret_iff [OF assms]
  moreover have "\<not> is_secret_thread (ev_data r) \<Longrightarrow> sql_scoped (ev_data r) \<longleftrightarrow> is_legacy_scoped_event (ev_data r)"
    using sql_scoped_iff [OF assms] s by blast
  ultimately show "holds (feed_where before viewer r)"
    unfolding feed_where_iff
    by (cases "ev_recipients r"; cases "ev_to r")
      (auto simp: feed_visible_to_def row_to_message_def split: if_splits)
qed (rule feed_where_sound)

end
