(* ===== verification/EventLogContract.thy ===== *)
theory EventLogContract
  imports EventLogAgree "HOL-Library.Multiset"
begin

text \<open>
  The contract \<open>EventLog\<close> of the broker: what \<open>query\<close>, \<open>tail\<close> and \<open>latestSignals\<close> return, in terms of
  the entries appended so far, oldest first. The in-memory log keeps it unconditionally. The SQLite
  log keeps it while the rows are \<open>log_plain\<close>: timestamps strictly increase and are below the largest
  safe integer, thread tags are absent, null or non-empty strings, and scope prefixes are in lower case.
\<close>

section \<open>The contract\<close>

definition query_spec :: "query_options \<Rightarrow> stored_event list \<Rightarrow> message list" where
  "query_spec opts es =
     take (nat (clamp_query_limit (q_limit opts))) (List.map se_message (filter (entry_matches opts) (rev es)))"

definition tail_spec :: "tail_options \<Rightarrow> stored_event list \<Rightarrow> message list" where
  "tail_spec opts es =
     (let found = filter (\<lambda>m. m_ts m \<ge> (case t_since opts of None \<Rightarrow> 0 | Some s \<Rightarrow> s)) (List.map se_message es);
          limit = (case t_limit opts of None \<Rightarrow> default_query_limit | Some l \<Rightarrow> l)
      in drop (length found - nat limit) found)"

definition last_ts :: "message list \<Rightarrow> int option" where
  "last_ts ms = (if ms = [] then None else Some (m_ts (last ms)))"

definition signals_spec :: "string \<Rightarrow> stored_event list \<Rightarrow> int option \<times> int option" where
  "signals_spec objective es =
     (let said = filter (is_discussion objective) (List.map se_message es)
      in (last_ts said, last_ts (filter (\<lambda>m. contains_canonical_pull_request_url (m_body m)) said)))"

definition ts_ordered :: "stored_event list \<Rightarrow> bool" where
  "ts_ordered es = sorted_wrt (<) (List.map (\<lambda>e. m_ts (se_message e)) es)"

text \<open>A query the two logs answer alike: the bound is at least one and \<open>with\<close> is not the empty string.\<close>

definition query_plain :: "query_options \<Rightarrow> bool" where
  "query_plain opts \<longleftrightarrow> clamp_query_limit (q_limit opts) \<ge> 1 \<and> q_with opts \<noteq> Some []"

locale event_log =
  fixes append :: "message \<Rightarrow> string list option \<Rightarrow> 'l \<Rightarrow> 'l option"
    and query :: "query_options \<Rightarrow> 'l \<Rightarrow> message list"
    and tail :: "tail_options \<Rightarrow> 'l \<Rightarrow> message list"
    and signals :: "string \<Rightarrow> 'l \<Rightarrow> int option \<times> int option"
    and entries :: "'l \<Rightarrow> stored_event list"
    and ready :: "'l \<Rightarrow> bool"
  assumes append: "append m rs l = Some l' \<Longrightarrow> entries l' = entries l @ [\<lparr>se_message = m, se_recipients = rs\<rparr>]"
    and query: "\<lbrakk>ready l; query_plain opts\<rbrakk> \<Longrightarrow> query opts l = query_spec opts (entries l)"
    and tail: "\<lbrakk>ready l; case t_limit topts of None \<Rightarrow> True | Some n \<Rightarrow> n > 0\<rbrakk> \<Longrightarrow> tail topts l = tail_spec topts (entries l)"
    and signals: "\<lbrakk>ready l; ts_ordered (entries l)\<rbrakk> \<Longrightarrow> signals obj l = signals_spec obj (entries l)"
begin

lemma query_bounded:
  "\<lbrakk>ready l; query_plain opts\<rbrakk> \<Longrightarrow> int (length (query opts l)) \<le> clamp_query_limit (q_limit opts)"
  by (auto simp: query query_spec_def query_plain_def)

lemma query_matches:
  assumes "ready l" "query_plain opts" "m \<in> set (query opts l)"
  shows "\<exists>e \<in> set (entries l). se_message e = m \<and> entry_matches opts e"
proof -
  have "m \<in> set (List.map se_message (filter (entry_matches opts) (rev (entries l))))"
    using assms by (auto simp: query query_spec_def simp del: set_map dest: in_set_takeD)
  then show ?thesis by auto
qed

text \<open>A message appended to the log heads every read it matches, and changes no other.\<close>

lemma query_append:
  assumes "append m rs l = Some l'" "ready l" "ready l'" "query_plain opts"
  shows "query opts l' =
    (if entry_matches opts \<lparr>se_message = m, se_recipients = rs\<rparr>
     then take (nat (clamp_query_limit (q_limit opts))) (m # query opts l) else query opts l)"
proof -
  have "1 \<le> clamp_query_limit (q_limit opts)" using assms(4) by (simp add: query_plain_def)
  then obtain k where k: "nat (clamp_query_limit (q_limit opts)) = Suc k" by (metis Suc_le_D nat_mono nat_1 One_nat_def)
  show ?thesis
    using assms(2-4) k append [OF assms(1)] by (simp add: query query_spec_def min_def)
qed

end

section \<open>The in-memory log\<close>

lemma query_walk_spec:
  assumes "int (length ms) < limit"
  shows "query_walk opts limit ms es =
    ms @ take (nat limit - length ms) (List.map se_message (filter (entry_matches opts) es))"
  using assms
proof (induction opts limit ms es rule: query_walk.induct)
  case (2 opts limit ms e es)
  show ?case
  proof (cases "entry_matches opts e")
    case True
    have "nat limit - length ms = Suc (nat limit - Suc (length ms))" using 2(3) by linarith
    with True 2 show ?thesis
      by (cases "limit \<le> 1 + int (length ms)") (simp_all add: Let_def)
  next
    case False
    with 2 show ?thesis by simp
  qed
qed simp

lemma slice_last_pos: "n > 0 \<Longrightarrow> slice_last n xs = drop (length xs - nat n) xs"
  by (simp add: slice_last_def)

lemma mem_signals_fold:
  assumes "sorted_wrt (<) (List.map (\<lambda>e. m_ts (se_message e)) es)"
  shows "mem_latest_signals objective es = signals_spec objective es"
  using assms
proof (induction es rule: rev_induct)
  case Nil
  then show ?case by (simp add: mem_latest_signals_def signals_spec_def last_ts_def)
next
  case (snoc e es)
  have le: "max_opt (last_ts (filter P (List.map se_message es))) (m_ts (se_message e)) = m_ts (se_message e)" for P
  proof (cases "filter P (List.map se_message es) = []")
    case False
    then have "last (filter P (List.map se_message es)) \<in> set (List.map se_message es)"
      by (meson filter_is_subset last_in_set subsetD)
    then show ?thesis using snoc.prems False by (auto simp: last_ts_def max_opt_def sorted_wrt_append)
  qed (simp add: last_ts_def max_opt_def)
  have ih: "mem_latest_signals objective es = signals_spec objective es"
    using snoc by (simp add: sorted_wrt_append)
  show ?case
    using ih le [of "is_discussion objective"]
      le [of "\<lambda>m. contains_canonical_pull_request_url (m_body m) \<and> is_discussion objective m"]
    by (simp add: mem_latest_signals_def signals_spec_def Let_def) (simp add: last_ts_def conj_commute)
qed

definition mem_append_total :: "message \<Rightarrow> string list option \<Rightarrow> mem_log \<Rightarrow> mem_log option" where
  "mem_append_total m rs l = Some (mem_append m rs l)"

interpretation memlog: event_log mem_append_total mem_query mem_tail mem_latest_signals id "\<lambda>_. True"
proof unfold_locales
  show "mem_append_total m rs l = Some l' \<Longrightarrow> id l' = id l @ [\<lparr>se_message = m, se_recipients = rs\<rparr>]" for m rs l l'
    by (auto simp: mem_append_total_def mem_append_def)
  show "query_plain opts \<Longrightarrow> mem_query opts l = query_spec opts (id l)" for opts l
    by (simp add: query_plain_def mem_query_def query_walk_spec query_spec_def)
  show "case t_limit opts of None \<Rightarrow> True | Some n \<Rightarrow> n > 0 \<Longrightarrow> mem_tail opts l = tail_spec opts (id l)" for opts l
    by (simp add: mem_tail_def tail_spec_def slice_last_pos Let_def default_query_limit_def split: option.splits)
  show "ts_ordered (id l) \<Longrightarrow> mem_latest_signals obj l = signals_spec obj (id l)" for obj l
    by (simp add: mem_signals_fold ts_ordered_def)
qed

section \<open>The SQLite log\<close>

definition thread_plain :: "data \<Rightarrow> bool" where
  "thread_plain d =
     (case map_of d ''thread'' of None \<Rightarrow> True | Some JNull \<Rightarrow> True | Some (JStr t) \<Rightarrow> t \<noteq> [] | _ \<Rightarrow> False)"

definition row_entry :: "event_row \<Rightarrow> stored_event" where
  "row_entry r = \<lparr>se_message = row_to_message r, se_recipients = ev_recipients r\<rparr>"

definition row_plain :: "event_row \<Rightarrow> bool" where
  "row_plain r \<longleftrightarrow> ev_ts r < max_safe_integer \<and> tag_cased (ev_data r) \<and> thread_plain (ev_data r)"

definition log_plain :: "event_row list \<Rightarrow> bool" where
  "log_plain rows \<longleftrightarrow> sorted_wrt (<) (List.map ev_ts rows) \<and> (\<forall>r \<in> set rows. row_plain r)"

lemma order_desc_strict:
  fixes k :: "'r \<Rightarrow> 'k :: linorder"
  assumes "sorted_wrt (<) (List.map k t)"
  shows "order_desc k t = rev t"
proof -
  have d: "distinct (List.map k t)" and s: "sorted (List.map k t)"
    using assms strict_sorted_iff by blast+
  have one: "filter (\<lambda>x. k a = k x) t = [a]" if "a \<in> set t" for a
    using d that
  proof (induction t)
    case (Cons b t)
    then have "filter (\<lambda>x. k b = k x) t = []" by (auto simp: filter_empty_conv image_iff)
    with Cons show ?case by (auto simp: image_iff)
  qed simp
  have "sort_key k (rev t) = t"
    by (rule properties_for_sort_key) (simp_all add: s one rev_filter [symmetric])
  then show ?thesis by (simp add: order_desc_def)
qed

lemma row_ts [simp]: "m_ts (row_to_message r) = ev_ts r"
  by (simp add: row_to_message_def)

lemma sorted_filter_strict: "sorted_wrt R (List.map k t) \<Longrightarrow> sorted_wrt R (List.map k (filter P t))"
  by (induction t) auto

lemma order_filtered: "log_plain rows \<Longrightarrow> order_desc ev_ts (sql_all P rows) = rev (filter P rows)"
  by (simp add: log_plain_def sql_all_def order_desc_strict sorted_filter_strict)

lemma discussion_where_iff: "holds (discussion_where objective r) \<longleftrightarrow> is_discussion objective (row_to_message r)"
proof -
  have "json_extract k d = Some (SText s) \<longleftrightarrow> map_of d k = Some (JStr s)" for k d s
    by (simp add: json_extract_def split: option.split json.split)
  then show ?thesis
    by (auto simp: discussion_where_def is_discussion_def row_to_message_def)
qed

lemma eq3_Some: "holds (eq3 x (Some v)) \<longleftrightarrow> x = Some v"
  by auto

lemma dm_where_iff:
  "other \<noteq> [] \<Longrightarrow> holds (dm_where before viewer other r) \<longleftrightarrow>
     ev_ts r < before \<and> matches_viewer (row_to_message r) rs viewer (Some other)"
  by (auto simp: dm_where_def matches_viewer_def row_to_message_def)

lemma thread_text_iff:
  "holds (eq3 (json_extract ''thread'' d) (Some (SText s))) \<longleftrightarrow> map_of d ''thread'' = Some (JStr s)"
  unfolding eq3_Some by (simp add: json_extract_def split: option.split json.split)

lemma tag_not_empty: "channel_thread_tag c \<noteq> []"
  by (simp add: channel_thread_tag_def channel_thread_prefix_def)

lemma channel_where_iff:
  assumes "ch \<noteq> general_channel_id"
  shows "holds (channel_where before (channel_thread_tag ch) r) \<longleftrightarrow>
     ev_ts r < before \<and> matches_channel (row_to_message r) ch"
  unfolding channel_where_def holds_and3 thread_text_iff matches_channel_def
  using assms tag_not_empty by (auto simp: row_to_message_def split: option.splits json.splits)

lemma general_where_iff:
  assumes "thread_plain (ev_data r)"
  shows "holds (general_where before (channel_thread_tag general_channel_id) r) \<longleftrightarrow>
     ev_ts r < before \<and> matches_channel (row_to_message r) general_channel_id"
proof -
  have "json_extract ''thread'' (ev_data r) = None \<longleftrightarrow> map_of (ev_data r) ''thread'' \<in> {None, Some JNull}"
    by (simp add: json_extract_def split: option.split json.split)
  then show ?thesis
    unfolding general_where_def holds_and3 holds_or3 thread_text_iff holds_is_null matches_channel_def
    using assms tag_not_empty [of general_channel_id]
    by (auto simp: row_to_message_def thread_plain_def split: option.splits json.splits)
qed

lemma sqlog_query_spec:
  assumes "log_plain rows" "query_plain opts"
  shows "sqlog_query opts rows = query_spec opts (List.map row_entry rows)"
proof -
  define before where "before = (case q_before opts of None \<Rightarrow> max_safe_integer | Some b \<Rightarrow> b)"
  define wh where "wh = (case q_channel opts of
      Some ch \<Rightarrow> if ch = general_channel_id then general_where before (channel_thread_tag ch)
                else channel_where before (channel_thread_tag ch)
    | None \<Rightarrow> (case q_with opts of None \<Rightarrow> feed_where before (q_viewer opts)
               | Some other \<Rightarrow> dm_where before (q_viewer opts) other))"
  have "holds (wh r) \<longleftrightarrow> entry_matches opts (row_entry r)" if "r \<in> set rows" for r
  proof -
    have p: "row_plain r" using assms(1) that by (simp add: log_plain_def)
    have b: "ev_ts r < before \<longleftrightarrow> \<not> (case q_before opts of None \<Rightarrow> False | Some b \<Rightarrow> ev_ts r \<ge> b)"
      using p by (simp add: before_def row_plain_def not_le split: option.split)
    have "holds (wh r) \<longleftrightarrow> ev_ts r < before \<and> (case q_channel opts of
         Some ch \<Rightarrow> matches_channel (row_to_message r) ch
       | None \<Rightarrow> matches_viewer (row_to_message r) (ev_recipients r) (q_viewer opts) (q_with opts))"
    proof (cases "q_channel opts")
      case (Some ch)
      then show ?thesis using p
        by (cases "ch = general_channel_id") (simp_all add: wh_def general_where_iff channel_where_iff row_plain_def)
    next
      case None
      show ?thesis
      proof (cases "q_with opts")
        case None
        with \<open>q_channel opts = None\<close> p show ?thesis
          by (simp add: wh_def feed_where_exact row_plain_def matches_viewer_def)
      next
        case (Some other)
        with assms(2) have "other \<noteq> []" by (simp add: query_plain_def)
        with Some None show ?thesis by (simp add: wh_def dm_where_iff [where rs = "ev_recipients r"])
      qed
    qed
    then show ?thesis by (simp add: entry_matches_def row_entry_def b Let_def split: option.split)
  qed
  then have f: "filter (\<lambda>r. holds (wh r)) rows = filter (\<lambda>r. entry_matches opts (row_entry r)) rows"
    by (rule filter_cong [OF refl])
  have run: "sqlog_query opts rows = List.map row_to_message
      (sql_limit (clamp_query_limit (q_limit opts)) (order_desc ev_ts (sql_all (\<lambda>r. holds (wh r)) rows)))"
    using assms(2) by (auto simp: sqlog_query_def Let_def wh_def before_def query_plain_def split: option.splits)
  show ?thesis
    unfolding run order_filtered [OF assms(1)] f
    using assms(2)
    by (simp add: query_spec_def query_plain_def sql_limit_def take_map rev_map filter_map rev_filter comp_def row_entry_def)
qed

lemma sqlog_tail_spec:
  assumes "log_plain rows" "case t_limit opts of None \<Rightarrow> True | Some n \<Rightarrow> n > 0"
  shows "sqlog_tail opts rows = tail_spec opts (List.map row_entry rows)"
proof -
  have "0 < (case t_limit opts of None \<Rightarrow> default_query_limit | Some l \<Rightarrow> l)"
    using assms(2) by (simp add: default_query_limit_def split: option.splits)
  moreover have "rev (take n (rev xs)) = drop (length xs - n) xs" for n and xs :: "event_row list"
    by (simp add: take_rev)
  ultimately show ?thesis
    unfolding sqlog_tail_def Let_def order_filtered [OF assms(1)]
    by (simp add: tail_spec_def Let_def sql_limit_def filter_map comp_def row_entry_def drop_map)
qed

lemma find_rev_last: "List.find P (rev xs) = (if filter P xs = [] then None else Some (last (filter P xs)))"
  by (induction xs rule: rev_induct) auto

lemma sqlog_signals_spec:
  assumes "log_plain rows"
  shows "sqlog_latest_signals objective rows = signals_spec objective (List.map row_entry rows)"
proof -
  have ms: "List.map row_to_message (order_desc ev_ts (sql_all (\<lambda>r. holds (discussion_where objective r)) rows)) =
     rev (filter (is_discussion objective) (List.map se_message (List.map row_entry rows)))"
    unfolding order_filtered [OF assms] discussion_where_iff
    by (simp add: rev_map filter_map comp_def row_entry_def)
  show ?thesis
    unfolding sqlog_latest_signals_def ms signals_spec_def Let_def find_rev_last
    by (cases "filter (is_discussion objective) (List.map se_message (List.map row_entry rows))" rule: rev_cases)
      (auto simp: last_ts_def)
qed

interpretation sqlog: event_log sqlog_append sqlog_query sqlog_tail sqlog_latest_signals "List.map row_entry" log_plain
proof unfold_locales
  show "sqlog_append m rs l = Some l' \<Longrightarrow>
      List.map row_entry l' = List.map row_entry l @ [\<lparr>se_message = m, se_recipients = rs\<rparr>]" for m rs l l'
    by (auto simp: sqlog_append_def sql_insert_Some row_entry_def) (simp add: message_row_def)
qed (simp_all add: sqlog_query_spec sqlog_tail_spec sqlog_signals_spec)

end
