(* ===== verification/EventLogTheorems.thy ===== *)
theory EventLogTheorems
  imports EventLogContract
begin

text \<open>The properties of the event logs, each with a concrete instance of its hypotheses.\<close>

section \<open>Histories\<close>

type_synonym history = "(message \<times> string list option) list"

definition mem_history :: "history \<Rightarrow> mem_log" where
  "mem_history h = fold (\<lambda>(m, rs) l. mem_append m rs l) h []"




lemma message_row_sel [simp]:
  "ev_id (message_row m rs) = m_id m" "ev_ts (message_row m rs) = m_ts m"
  "ev_data (message_row m rs) = m_data m" "ev_recipients (message_row m rs) = rs"
  by (simp_all add: message_row_def)



section \<open>Properties\<close>


definition demo_msg :: "string \<Rightarrow> int \<Rightarrow> string option \<Rightarrow> string \<Rightarrow> data \<Rightarrow> message" where
  "demo_msg i ts target body d =
     \<lparr>m_id = i, m_ts = ts, m_to = target, m_from = Some ''ada'', m_title = None, m_body = body, m_level = Info,
      m_data = d, m_attachments = []\<rparr>"

definition demo_history :: history where
  "demo_history =
     [(demo_msg ''m1'' 1 None ''hello'' [], None),
      (demo_msg ''m2'' 2 None ''plan'' [(''thread'', JStr ''chan:c1'')], Some [''ada'', ''bob'']),
      (demo_msg ''m3'' 3 (Some ''bob'') ''psst'' [], None),
      (demo_msg ''m4'' 4 None ''rotated'' [(''thread'', JStr ''secret:s1'')], Some [''bob''])]"

definition demo_query :: "string \<Rightarrow> query_options" where
  "demo_query viewer = \<lparr>q_viewer = viewer, q_with = None, q_channel = None, q_limit = NoLimit, q_before = None\<rparr>"


text \<open>
  C26. No read of a viewer's feed leaks: whatever is in the log, every message either log returns from a
  feed query was visible to that viewer by the audience it was stored with. It is never a secret event,
  and a message addressed to someone is returned only to its two ends.
\<close>
theorem event_feed_never_leaks:
  assumes "q_channel opts = None" and "q_with opts = None"
    and "(\<exists>rows. m \<in> set (sqlog_query opts rows) \<and> es = List.map row_entry rows) \<or> m \<in> set (mem_query opts es)"
  shows "\<exists>e \<in> set es. se_message e = m \<and> feed_visible_to m (se_recipients e) (q_viewer opts) \<and>
    \<not> is_secret_thread (m_data m) \<and> (m_to m \<noteq> None \<longrightarrow> Some (q_viewer opts) \<in> {m_from m, m_to m})"
proof -
  have vis: "\<exists>e \<in> set es. se_message e = m \<and> feed_visible_to m (se_recipients e) (q_viewer opts)"
    using assms(3)
  proof
    assume "\<exists>rows. m \<in> set (sqlog_query opts rows) \<and> es = List.map row_entry rows"
    then obtain rows where r: "m \<in> set (sqlog_query opts rows)" "es = List.map row_entry rows" by blast
    have "set (sql_limit n xs) \<subseteq> set xs" for n and xs :: "event_row list"
      by (auto simp: sql_limit_def dest: in_set_takeD)
    with r(1) assms(1,2) obtain x b where x: "x \<in> set rows" "m = row_to_message x"
      "holds (feed_where b (q_viewer opts) x)"
      by (fastforce simp: sqlog_query_def Let_def)
    with r(2) show ?thesis using feed_where_sound [OF x(3)] by (force simp: row_entry_def)
  next
    assume m: "m \<in> set (mem_query opts es)"
    have walk: "m \<in> set (query_walk opts n acc xs) \<Longrightarrow>
        m \<in> set acc \<or> (\<exists>e \<in> set xs. se_message e = m \<and> entry_matches opts e)" for n acc xs
      by (induction opts n acc xs rule: query_walk.induct) (auto simp: Let_def split: if_splits)
    from walk [OF m [unfolded mem_query_def]] assms(1,2) show ?thesis
      by (auto simp: entry_matches_def matches_viewer_def Let_def)
  qed
  then show ?thesis by (auto simp: feed_visible_to_def split: if_splits)
qed

theorem event_feed_never_leaks_witness:
  "demo_msg ''m4'' 4 None ''rotated'' [(''thread'', JStr ''secret:s1'')]
     \<notin> set (mem_query (demo_query ''bob'') (mem_history demo_history)) \<and>
   feed_visible_to (demo_msg ''m3'' 3 (Some ''bob'') ''psst'' []) None ''bob''"
proof
  have s: "is_secret_thread (m_data (demo_msg ''m4'' 4 None ''rotated'' [(''thread'', JStr ''secret:s1'')]))" by code_simp
  show "demo_msg ''m4'' 4 None ''rotated'' [(''thread'', JStr ''secret:s1'')]
     \<notin> set (mem_query (demo_query ''bob'') (mem_history demo_history))"
    using event_feed_never_leaks [of "demo_query ''bob''", OF _ _ disjI2] s by (auto simp: demo_query_def)
qed code_simp

text \<open>
  Appending a message changes exactly the reads it belongs to: a query it matches gets it first,
  then what it returned before, cut to the bound; every other query returns what it did. This holds of
  the in-memory log always, and of the SQLite log while its rows are plain.
\<close>
theorem event_append_heads_matching_reads:
  assumes "query_plain opts"
  shows "(\<forall>es. mem_query opts (mem_append m rs es) =
      (if entry_matches opts \<lparr>se_message = m, se_recipients = rs\<rparr>
       then take (nat (clamp_query_limit (q_limit opts))) (m # mem_query opts es) else mem_query opts es)) \<and>
    (\<forall>rows rows'. sqlog_append m rs rows = Some rows' \<and> log_plain rows \<and> log_plain rows' \<longrightarrow>
      sqlog_query opts rows' =
      (if entry_matches opts \<lparr>se_message = m, se_recipients = rs\<rparr>
       then take (nat (clamp_query_limit (q_limit opts))) (m # sqlog_query opts rows) else sqlog_query opts rows))"
  using memlog.query_append [OF mem_append_total_def _ _ assms] sqlog.query_append [OF _ _ _ assms] by simp

theorem event_append_heads_matching_reads_witness:
  "mem_query (demo_query ''bob'') (mem_append (demo_msg ''m5'' 5 None ''late'' []) None (mem_history demo_history)) =
     demo_msg ''m5'' 5 None ''late'' [] # mem_query (demo_query ''bob'') (mem_history demo_history)"
proof -
  have p: "query_plain (demo_query ''bob'')"
    "entry_matches (demo_query ''bob'') \<lparr>se_message = demo_msg ''m5'' 5 None ''late'' [], se_recipients = None\<rparr>" by code_simp+
  have l: "nat (clamp_query_limit (q_limit (demo_query ''bob''))) = Suc 99"
    "length (mem_query (demo_query ''bob'') (mem_history demo_history)) = 3" by code_simp+
  from event_append_heads_matching_reads [OF p(1), THEN conjunct1] p(2) l show ?thesis by simp
qed

text \<open>
  The query bound is between 0 and 1000, and it is 0 exactly for a fraction strictly between 0 and 1:
  for every other limit it is at least one, and no query of either log returns more messages than it.
\<close>
theorem event_query_bound:
  "0 \<le> clamp_query_limit raw \<and> clamp_query_limit raw \<le> 1000 \<and>
   (clamp_query_limit raw = 0 \<longleftrightarrow> (\<exists>r. raw = Finite r \<and> 0 < r \<and> r < 1)) \<and>
   int (length (sqlog_query (opts\<lparr>q_limit := raw\<rparr>) rows)) \<le> clamp_query_limit raw \<and>
   int (length (mem_query (opts\<lparr>q_limit := raw\<rparr>) es)) \<le> max 1 (clamp_query_limit raw)"
proof -
  have rng: "0 \<le> clamp_query_limit raw \<and> clamp_query_limit raw \<le> 1000"
    by (auto simp: clamp_query_limit_def default_query_limit_def max_query_limit_def split: js_limit.split)
  have zero: "clamp_query_limit raw = 0 \<longleftrightarrow> (\<exists>r. raw = Finite r \<and> 0 < r \<and> r < 1)"
    by (auto simp: clamp_query_limit_def default_query_limit_def max_query_limit_def min_def
        floor_eq_iff not_le split: js_limit.split)
  have sql: "int (length (sqlog_query (opts\<lparr>q_limit := raw\<rparr>) rows)) \<le> clamp_query_limit raw"
    using rng by (auto simp: sqlog_query_def Let_def sql_limit_def split: option.splits)
  have walk: "int (length (query_walk p n acc xs)) \<le> max 1 n"
    if "int (length acc) < max 1 n" for p n acc xs
    using that by (induction p n acc xs rule: query_walk.induct) (auto simp: Let_def)
  have "int (length (mem_query (opts\<lparr>q_limit := raw\<rparr>) es)) \<le> max 1 (clamp_query_limit raw)"
    using walk [of "[]" "clamp_query_limit raw"] rng by (simp add: mem_query_def)
  with rng zero sql show ?thesis by blast
qed

text \<open>
  C0. Two bounds the logs read differently. With a limit of one half the SQLite log returns nothing and
  the in-memory log still returns the newest match; with \<open>tail\<close> of limit 0 the SQLite log returns
  nothing and the in-memory log returns everything since \<open>since\<close>.
\<close>
theorem event_log_small_limits:
  assumes "q_limit opts = Finite (1/2)" and "t_limit topts = Some 0"
  shows "sqlog_query opts rows = [] \<and>
    mem_query opts es = take 1 (List.map se_message (filter (entry_matches opts) (rev es))) \<and>
    sqlog_tail topts rows = [] \<and>
    mem_tail topts es = filter (\<lambda>m. m_ts m \<ge> (case t_since topts of None \<Rightarrow> 0 | Some s \<Rightarrow> s)) (List.map se_message es)"
proof (intro conjI)
  have "\<lfloor>1 / 2 :: rat\<rfloor> = 0" by (simp add: floor_eq_iff)
  then have c: "clamp_query_limit (q_limit opts) = 0" using assms(1) by (simp add: clamp_query_limit_def max_query_limit_def)
  have w: "query_walk opts 0 [] xs = take 1 (List.map se_message (filter (entry_matches opts) xs))" for xs
    by (induction xs) (auto simp: Let_def)
  show "sqlog_query opts rows = []" using c by (simp add: sqlog_query_def sql_limit_def Let_def split: option.split)
  show "mem_query opts es = take 1 (List.map se_message (filter (entry_matches opts) (rev es)))"
    by (simp only: mem_query_def c w)
  show "sqlog_tail topts rows = []" using assms(2) by (simp add: sqlog_tail_def sql_limit_def Let_def)
  show "mem_tail topts es = filter (\<lambda>m. m_ts m \<ge> (case t_since topts of None \<Rightarrow> 0 | Some s \<Rightarrow> s)) (List.map se_message es)"
    using assms(2) by (simp add: mem_tail_def slice_last_def Let_def)
qed

theorem event_log_small_limits_witness:
  "mem_tail \<lparr>t_since = None, t_limit = Some 0\<rparr> (mem_history demo_history) = List.map fst demo_history \<and>
   sqlog_query ((demo_query ''bob'')\<lparr>q_limit := Finite (1/2)\<rparr>) [] = []"
proof -
  have "filter (\<lambda>m. 0 \<le> m_ts m) (List.map se_message (mem_history demo_history)) = List.map fst demo_history"
    by code_simp
  then show ?thesis
    using event_log_small_limits [of "(demo_query ''bob'')\<lparr>q_limit := Finite (1/2)\<rparr>" "\<lparr>t_since = None, t_limit = Some 0\<rparr>"]
    by simp
qed

end
