(* ===== verification/EnvNamespace.thy ===== *)
theory EnvNamespace
  imports Channels
begin

text \<open>
  The runner environment namespace, \<open>packages/core/src/env-namespace.ts\<close>: the two halves, secrets and
  variables, that write into one environment map, the statements both stores run on their half, and the
  collision checks that span both. The halves have the same columns; \<open>enabled\<close> and \<open>all_members\<close>,
  checked to be 0 or 1, are booleans.
\<close>

section \<open>Schema\<close>

datatype env_kind = SecretKind | VariableKind

record env_row =
  e_id :: string
  e_slug :: string
  e_env :: string
  e_description :: string
  e_enabled :: bool
  e_all :: bool
  e_created_by :: string
  e_created_at :: int
  e_updated_at :: int

record env_binding =
  eb_row :: string
  eb_member :: string
  eb_created_at :: int

record env_value =
  ev_row :: string
  ev_value :: string     \<comment> \<open>\<open>value_enc\<close> for a secret, \<open>value\<close> for a variable\<close>
  ev_created_at :: int
  ev_updated_at :: int

record env_half =
  h_rows :: "env_row list"
  h_bindings :: "env_binding list"
  h_values :: "env_value list"

record env_db =
  secret_half :: env_half
  variable_half :: env_half

definition empty_half :: env_half where
  "empty_half = \<lparr>h_rows = [], h_bindings = [], h_values = []\<rparr>"

definition env_namespace_schema :: env_db where
  "env_namespace_schema = \<lparr>secret_half = empty_half, variable_half = empty_half\<rparr>"

fun half :: "env_kind \<Rightarrow> env_db \<Rightarrow> env_half" where
  "half SecretKind db = secret_half db"
| "half VariableKind db = variable_half db"

fun upd_half :: "env_kind \<Rightarrow> (env_half \<Rightarrow> env_half) \<Rightarrow> env_db \<Rightarrow> env_db" where
  "upd_half SecretKind f db = db\<lparr>secret_half := f (secret_half db)\<rparr>"
| "upd_half VariableKind f db = db\<lparr>variable_half := f (variable_half db)\<rparr>"

text \<open>The primary key and the unique slug index of a half.\<close>

definition env_clash :: "env_row \<Rightarrow> env_row \<Rightarrow> bool" where
  "env_clash r r' \<longleftrightarrow> e_id r = e_id r' \<or> e_slug r = e_slug r'"

section \<open>Errors\<close>

datatype env_code = EnvNotFound | EnvInvalidInput | EnvSlugTaken | EnvTaken | EnvNoKek

datatype env_error = SecretsError env_code | EncryptedFieldError | EnvSqlConstraint | EnvRowVanished

section \<open>Collisions\<close>

record env_rival =
  rv_kind :: env_kind
  rv_slug :: string

definition reaches_member :: "env_half \<Rightarrow> string \<Rightarrow> env_row \<Rightarrow> bool" where
  "reaches_member h name r \<longleftrightarrow>
     e_all r \<or> list_ex (\<lambda>b. eb_row b = e_id r \<and> eb_member b = name) (h_bindings h)"

definition reaches_anyone :: "env_half \<Rightarrow> env_row \<Rightarrow> bool" where
  "reaches_anyone h r \<longleftrightarrow> e_all r \<or> list_ex (\<lambda>b. eb_row b = e_id r) (h_bindings h)"

definition rival_in :: "env_kind \<Rightarrow> (env_half \<Rightarrow> env_row \<Rightarrow> bool) \<Rightarrow> string \<Rightarrow> env_kind \<Rightarrow> string \<Rightarrow> env_db \<Rightarrow> env_rival list" where
  "rival_in k reach env_name exclude_kind exclude_id db =
     List.map (\<lambda>r. \<lparr>rv_kind = k, rv_slug = e_slug r\<rparr>)
       (sql_all (\<lambda>r. e_env r = env_name \<and> \<not> (exclude_kind = k \<and> e_id r = exclude_id) \<and> reach (half k db) r)
          (h_rows (half k db)))"

definition first_row :: "'a list \<Rightarrow> 'a option" where
  "first_row xs = (case xs of [] \<Rightarrow> None | x # _ \<Rightarrow> Some x)"

definition find_env_rival_for_member :: "env_db \<Rightarrow> string \<Rightarrow> env_kind \<Rightarrow> string \<Rightarrow> string \<Rightarrow> env_rival option" where
  "find_env_rival_for_member db env_name exclude_kind exclude_id member_name =
     first_row
       (rival_in SecretKind (\<lambda>h. reaches_member h member_name) env_name exclude_kind exclude_id db @
        rival_in VariableKind (\<lambda>h. reaches_member h member_name) env_name exclude_kind exclude_id db)"

definition find_env_rival_anyone :: "env_db \<Rightarrow> string \<Rightarrow> env_kind \<Rightarrow> string \<Rightarrow> env_rival option" where
  "find_env_rival_anyone db env_name exclude_kind exclude_id =
     first_row
       (rival_in SecretKind reaches_anyone env_name exclude_kind exclude_id db @
        rival_in VariableKind reaches_anyone env_name exclude_kind exclude_id db)"

section \<open>Validation\<close>

definition env_name_pattern :: "string \<Rightarrow> bool" where
  "env_name_pattern s =
     (case s of [] \<Rightarrow> False | c # cs \<Rightarrow> is_upper c \<and> list_all (\<lambda>c. is_upper c \<or> is_digit c \<or> c = CHR ''_'') cs)"

definition validate_env_name :: "string \<Rightarrow> (env_error, unit) res" where
  "validate_env_name env_name =
     (if length env_name = 0 then Inl (SecretsError EnvInvalidInput)
      else if length env_name > 128 then Inl (SecretsError EnvInvalidInput)
      else if \<not> env_name_pattern env_name then Inl (SecretsError EnvInvalidInput)
      else if is_reserved_env_name env_name then Inl (SecretsError EnvInvalidInput)
      else Inr ())"

text \<open>\<open>validateSourceSlug\<close> of \<open>tool-sources/store.ts\<close>, whose error the secrets store rethrows as its own.\<close>

definition validate_source_slug :: "string \<Rightarrow> (env_error, unit) res" where
  "validate_source_slug slug =
     (if length slug = 0 then Inl (SecretsError EnvInvalidInput)
      else if length slug > 32 then Inl (SecretsError EnvInvalidInput)
      else if \<not> slug_pattern slug then Inl (SecretsError EnvInvalidInput)
      else Inr ())"

definition validate_variable_slug :: "string \<Rightarrow> (env_error, unit) res" where
  "validate_variable_slug slug =
     (if length slug = 0 then Inl (SecretsError EnvInvalidInput)
      else if length slug > 64 then Inl (SecretsError EnvInvalidInput)
      else if \<not> (case slug of [] \<Rightarrow> False | c # cs \<Rightarrow> slug_char c \<and> list_all (\<lambda>c. slug_char c \<or> c = CHR ''-'') cs)
      then Inl (SecretsError EnvInvalidInput)
      else Inr ())"

section \<open>The statements of a store on its half\<close>

definition env_get :: "env_kind \<Rightarrow> string \<Rightarrow> env_db \<Rightarrow> env_row option" where
  "env_get k i db = sql_get (\<lambda>r. e_id r = i) (h_rows (half k db))"

definition env_get_by_slug :: "env_kind \<Rightarrow> string \<Rightarrow> env_db \<Rightarrow> env_row option" where
  "env_get_by_slug k slug db = sql_get (\<lambda>r. e_slug r = slug) (h_rows (half k db))"

definition env_list :: "env_kind \<Rightarrow> env_db \<Rightarrow> env_row list" where
  "env_list k db = order_asc e_created_at (h_rows (half k db))"

definition env_list_for_member :: "env_kind \<Rightarrow> string \<Rightarrow> env_db \<Rightarrow> env_row list" where
  "env_list_for_member k name db =
     order_asc e_created_at (sql_all (\<lambda>r. e_enabled r \<and> reaches_member (half k db) name r) (h_rows (half k db)))"

definition env_list_bindings :: "env_kind \<Rightarrow> string \<Rightarrow> env_db \<Rightarrow> string list" where
  "env_list_bindings k i db =
     List.map eb_member (order_asc eb_created_at (sql_all (\<lambda>b. eb_row b = i) (h_bindings (half k db))))"

definition env_is_bound :: "env_kind \<Rightarrow> string \<Rightarrow> string \<Rightarrow> env_db \<Rightarrow> bool" where
  "env_is_bound k i name db \<longleftrightarrow> sql_get (\<lambda>b. eb_row b = i \<and> eb_member b = name) (h_bindings (half k db)) \<noteq> None"

definition env_stored :: "env_kind \<Rightarrow> string \<Rightarrow> env_db \<Rightarrow> string option" where
  "env_stored k i db = map_option ev_value (sql_get (\<lambda>v. ev_row v = i) (h_values (half k db)))"

definition env_insert :: "env_row \<Rightarrow> env_half \<Rightarrow> env_half option" where
  "env_insert r h = map_option (\<lambda>rows. h\<lparr>h_rows := rows\<rparr>) (sql_insert env_clash r (h_rows h))"

definition env_update_row :: "string \<Rightarrow> (env_row \<Rightarrow> env_row) \<Rightarrow> env_half \<Rightarrow> env_half" where
  "env_update_row i f h = h\<lparr>h_rows := sql_update (\<lambda>r. e_id r = i) f (h_rows h)\<rparr>"

definition env_insert_binding :: "string \<Rightarrow> string \<Rightarrow> int \<Rightarrow> env_half \<Rightarrow> env_half" where
  "env_insert_binding i name now h =
     h\<lparr>h_bindings := sql_insert_ignore (\<lambda>b b'. eb_row b = eb_row b' \<and> eb_member b = eb_member b')
         \<lparr>eb_row = i, eb_member = name, eb_created_at = now\<rparr> (h_bindings h)\<rparr>"

definition env_delete_binding :: "string \<Rightarrow> string \<Rightarrow> env_half \<Rightarrow> env_half" where
  "env_delete_binding i name h = h\<lparr>h_bindings := sql_delete (\<lambda>b. eb_row b = i \<and> eb_member b = name) (h_bindings h)\<rparr>"

definition env_delete_bindings :: "string \<Rightarrow> env_half \<Rightarrow> env_half" where
  "env_delete_bindings i h = h\<lparr>h_bindings := sql_delete (\<lambda>b. eb_row b = i) (h_bindings h)\<rparr>"

definition env_delete_row :: "string \<Rightarrow> env_half \<Rightarrow> env_half" where
  "env_delete_row i h = h\<lparr>h_rows := sql_delete (\<lambda>r. e_id r = i) (h_rows h)\<rparr>"

definition env_delete_value :: "string \<Rightarrow> env_half \<Rightarrow> env_half" where
  "env_delete_value i h = h\<lparr>h_values := sql_delete (\<lambda>v. ev_row v = i) (h_values h)\<rparr>"

text \<open>\<open>INSERT ... ON CONFLICT DO UPDATE\<close>: an existing row keeps its \<open>created_at\<close>.\<close>

definition env_upsert_value :: "string \<Rightarrow> string \<Rightarrow> int \<Rightarrow> env_half \<Rightarrow> env_half" where
  "env_upsert_value i v now h =
     h\<lparr>h_values :=
        (if sql_get (\<lambda>x. ev_row x = i) (h_values h) \<noteq> None
         then sql_update (\<lambda>x. ev_row x = i) (\<lambda>x. x\<lparr>ev_value := v, ev_updated_at := now\<rparr>) (h_values h)
         else h_values h @ [\<lparr>ev_row = i, ev_value = v, ev_created_at = now, ev_updated_at = now\<rparr>])\<rparr>"

end
