(* ===== verification/EnvStores.thy ===== *)
theory EnvStores
  imports EnvNamespace
begin

text \<open>
  The two stores, \<open>packages/core/src/secrets.ts\<close> and \<open>variables.ts\<close>, operation by operation, and the
  runner's \<open>GET /secrets/resolve\<close>, which merges what they resolve. The field cipher is a parameter:
  encryption returns \<open>None\<close> for null, decryption may throw or return null. The clock and the random
  parts of new ids are arguments.
\<close>

section \<open>Inputs\<close>

record env_create =
  ec_slug :: string
  ec_env :: string
  ec_description :: "string option"
  ec_all :: "bool option"
  ec_enabled :: "bool option"
  ec_creator :: string

record env_patch =
  ep_env :: "string option"
  ep_description :: "string option"
  ep_all :: "bool option"
  ep_enabled :: "bool option"

record field_cipher =
  encrypt :: "string \<Rightarrow> string option"
  decrypt :: "string \<Rightarrow> (env_error, string option) res"

type_synonym 'a env_call = "(env_db, env_error, 'a) call"

definition orelse :: "'a option \<Rightarrow> 'a \<Rightarrow> 'a" where
  "orelse x d = (case x of None \<Rightarrow> d | Some v \<Rightarrow> v)"

section \<open>Creation\<close>

definition new_env_row :: "env_create \<Rightarrow> string \<Rightarrow> int \<Rightarrow> env_row" where
  "new_env_row input i now =
     \<lparr>e_id = i, e_slug = ec_slug input, e_env = ec_env input, e_description = orelse (ec_description input) [],
      e_enabled = (ec_enabled input \<noteq> Some False), e_all = (ec_all input = Some True),
      e_created_by = ec_creator input, e_created_at = now, e_updated_at = now\<rparr>"

definition secrets_create :: "env_create \<Rightarrow> string \<Rightarrow> int \<Rightarrow> env_row env_call" where
  "secrets_create input uuid now db =
     (case validate_source_slug (ec_slug input) of
        Inl _ \<Rightarrow> (db, Inl (SecretsError EnvInvalidInput))
      | Inr _ \<Rightarrow>
     (case validate_env_name (ec_env input) of
        Inl e \<Rightarrow> (db, Inl e)
      | Inr _ \<Rightarrow>
        if env_get_by_slug SecretKind (ec_slug input) db \<noteq> None then (db, Inl (SecretsError EnvSlugTaken))
        else if ec_all input = Some True \<and> find_env_rival_anyone db (ec_env input) SecretKind [] \<noteq> None
        then (db, Inl (SecretsError EnvTaken))
        else
          (case env_insert (new_env_row input uuid now) (secret_half db) of
             None \<Rightarrow> (db, Inl EnvSqlConstraint)
           | Some h \<Rightarrow>
               (let db' = db\<lparr>secret_half := h\<rparr>
                in case env_get SecretKind uuid db' of
                     None \<Rightarrow> (db', Inl EnvRowVanished)
                   | Some created \<Rightarrow> (db', Inr created)))))"

text \<open>\<open>var_<now in base 36>_<random>\<close>; \<open>rnd\<close> is the slice of \<open>Math.random().toString(36)\<close>.\<close>

definition variable_id :: "int \<Rightarrow> string \<Rightarrow> string" where
  "variable_id now rnd = ''var_'' @ radix_string 36 (nat now) @ ''_'' @ rnd"

definition variables_create :: "env_create \<Rightarrow> string \<Rightarrow> int \<Rightarrow> env_row env_call" where
  "variables_create input rnd now db =
     (case validate_variable_slug (ec_slug input) of
        Inl e \<Rightarrow> (db, Inl e)
      | Inr _ \<Rightarrow>
     (case validate_env_name (ec_env input) of
        Inl e \<Rightarrow> (db, Inl e)
      | Inr _ \<Rightarrow>
        if env_get_by_slug VariableKind (ec_slug input) db \<noteq> None then (db, Inl (SecretsError EnvSlugTaken))
        else
          (let all_members = orelse (ec_all input) False;
               i = variable_id now rnd
           in if all_members \<and> find_env_rival_anyone db (ec_env input) VariableKind i \<noteq> None
              then (db, Inl (SecretsError EnvTaken))
              else
                (case env_insert (new_env_row input i now) (variable_half db) of
                   None \<Rightarrow> (db, Inl EnvSqlConstraint)
                 | Some h \<Rightarrow>
                     (let db' = db\<lparr>variable_half := h\<rparr>
                      in case env_get VariableKind i db' of
                           None \<Rightarrow> (db', Inl EnvRowVanished)
                         | Some created \<Rightarrow> (db', Inr created))))))"

section \<open>Update, delete, bindings\<close>

text \<open>
  The bodies of \<open>update\<close>, \<open>delete\<close>, \<open>bind\<close>, \<open>unbind\<close> and \<open>deleteValue\<close> are the same in the two stores up
  to the half they act on and the kind they exclude from the collision check.
\<close>

text \<open>The check is made against the audience the row will have after the patch.\<close>

definition env_update_check :: "env_kind \<Rightarrow> string \<Rightarrow> env_row \<Rightarrow> string \<Rightarrow> bool \<Rightarrow> env_db \<Rightarrow> (env_error, unit) res" where
  "env_update_check k i existing env_name will_apply_to_all db =
     (if env_name \<noteq> e_env existing \<or> will_apply_to_all \<and> \<not> e_all existing
      then andThen (if env_name \<noteq> e_env existing then validate_env_name env_name else Inr ()) (\<lambda>_.
        if will_apply_to_all
        then guard (find_env_rival_anyone db env_name k i = None) (SecretsError EnvTaken)
        else guard (\<not> list_ex (\<lambda>name. find_env_rival_for_member db env_name k i name \<noteq> None)
                       (env_list_bindings k i db)) (SecretsError EnvTaken))
      else Inr ())"

definition env_update :: "env_kind \<Rightarrow> string \<Rightarrow> env_patch \<Rightarrow> int \<Rightarrow> env_row env_call" where
  "env_update k i patch now db =
     (case env_get k i db of
        None \<Rightarrow> (db, Inl (SecretsError EnvNotFound))
      | Some existing \<Rightarrow>
         (let env_name = orelse (ep_env patch) (e_env existing);
              will_apply_to_all = orelse (ep_all patch) (e_all existing)
          in case env_update_check k i existing env_name will_apply_to_all db of
               Inl e \<Rightarrow> (db, Inl e)
             | Inr _ \<Rightarrow>
                 (let db' = upd_half k (env_update_row i (\<lambda>r. r\<lparr>e_env := env_name,
                        e_description := orelse (ep_description patch) (e_description existing),
                        e_enabled := orelse (ep_enabled patch) (e_enabled existing),
                        e_all := will_apply_to_all, e_updated_at := now\<rparr>)) db
                  in (case env_get k i db' of None \<Rightarrow> (db', Inl EnvRowVanished) | Some r \<Rightarrow> (db', Inr r)))))"

definition env_delete :: "env_kind \<Rightarrow> string \<Rightarrow> unit env_call" where
  "env_delete k i db =
     (case env_get k i db of
        None \<Rightarrow> (db, Inl (SecretsError EnvNotFound))
      | Some _ \<Rightarrow>
          run_in_transaction
            (\<lambda>db. (upd_half k (\<lambda>h. env_delete_row i (env_delete_value i (env_delete_bindings i h))) db, Inr ())) db)"

definition env_bind :: "env_kind \<Rightarrow> string \<Rightarrow> string \<Rightarrow> int \<Rightarrow> unit env_call" where
  "env_bind k i name now db =
     (case env_get k i db of
        None \<Rightarrow> (db, Inl (SecretsError EnvNotFound))
      | Some row \<Rightarrow>
          if find_env_rival_for_member db (e_env row) k i name \<noteq> None then (db, Inl (SecretsError EnvTaken))
          else (upd_half k (env_insert_binding i name now) db, Inr ()))"

definition env_unbind :: "env_kind \<Rightarrow> string \<Rightarrow> string \<Rightarrow> unit env_call" where
  "env_unbind k i name db = (upd_half k (env_delete_binding i name) db, Inr ())"

definition env_drop_value :: "env_kind \<Rightarrow> string \<Rightarrow> unit env_call" where
  "env_drop_value k i db = (upd_half k (env_delete_value i) db, Inr ())"

definition secrets_update :: "string \<Rightarrow> env_patch \<Rightarrow> int \<Rightarrow> env_row env_call" where
  "secrets_update = env_update SecretKind"
definition variables_update :: "string \<Rightarrow> env_patch \<Rightarrow> int \<Rightarrow> env_row env_call" where
  "variables_update = env_update VariableKind"
definition secrets_delete :: "string \<Rightarrow> unit env_call" where "secrets_delete = env_delete SecretKind"
definition variables_delete :: "string \<Rightarrow> unit env_call" where "variables_delete = env_delete VariableKind"
definition secrets_bind :: "string \<Rightarrow> string \<Rightarrow> int \<Rightarrow> unit env_call" where "secrets_bind = env_bind SecretKind"
definition variables_bind :: "string \<Rightarrow> string \<Rightarrow> int \<Rightarrow> unit env_call" where "variables_bind = env_bind VariableKind"
definition secrets_unbind :: "string \<Rightarrow> string \<Rightarrow> unit env_call" where "secrets_unbind = env_unbind SecretKind"
definition variables_unbind :: "string \<Rightarrow> string \<Rightarrow> unit env_call" where "variables_unbind = env_unbind VariableKind"
definition secrets_delete_value :: "string \<Rightarrow> unit env_call" where "secrets_delete_value = env_drop_value SecretKind"
definition variables_delete_value :: "string \<Rightarrow> unit env_call" where "variables_delete_value = env_drop_value VariableKind"

section \<open>Values\<close>

definition value_max :: nat where "value_max = 32768"

definition secrets_set_value :: "field_cipher option \<Rightarrow> string \<Rightarrow> string \<Rightarrow> int \<Rightarrow> unit env_call" where
  "secrets_set_value cipher i v now db =
     (if env_get SecretKind i db = None then (db, Inl (SecretsError EnvNotFound))
      else if length v = 0 then (db, Inl (SecretsError EnvInvalidInput))
      else if length v > value_max then (db, Inl (SecretsError EnvInvalidInput))
      else
        (case cipher of
           None \<Rightarrow> (db, Inl (SecretsError EnvNoKek))
         | Some c \<Rightarrow>
             (case encrypt c v of
                None \<Rightarrow> (db, Inl (SecretsError EnvInvalidInput))
              | Some encrypted \<Rightarrow> (upd_half SecretKind (env_upsert_value i encrypted now) db, Inr ()))))"

definition variables_set_value :: "string \<Rightarrow> string \<Rightarrow> int \<Rightarrow> unit env_call" where
  "variables_set_value i v now db =
     (if env_get VariableKind i db = None then (db, Inl (SecretsError EnvNotFound))
      else if length v = 0 then (db, Inl (SecretsError EnvInvalidInput))
      else if length v > value_max then (db, Inl (SecretsError EnvInvalidInput))
      else (upd_half VariableKind (env_upsert_value i v now) db, Inr ()))"

section \<open>Resolution\<close>

text \<open>An environment delta is an object: \<open>env[name] = value\<close> sets the last value written.\<close>

type_synonym env_delta = "(string \<times> string) list"

fun secrets_resolve_rows ::
  "field_cipher option \<Rightarrow> env_db \<Rightarrow> env_row list \<Rightarrow> env_delta \<Rightarrow> (env_error, env_delta) res" where
  "secrets_resolve_rows cipher db [] env = Inr env"
| "secrets_resolve_rows cipher db (s # rest) env =
     (case env_stored SecretKind (e_id s) db of
        None \<Rightarrow> secrets_resolve_rows cipher db rest env
      | Some enc \<Rightarrow>
          (case cipher of
             None \<Rightarrow> Inl (SecretsError EnvNoKek)
           | Some c \<Rightarrow>
               (case decrypt c enc of
                  Inl e \<Rightarrow> Inl e
                | Inr None \<Rightarrow> secrets_resolve_rows cipher db rest env
                | Inr (Some v) \<Rightarrow> secrets_resolve_rows cipher db rest (AList.update (e_env s) v env))))"

definition secrets_resolve_for :: "field_cipher option \<Rightarrow> string \<Rightarrow> env_db \<Rightarrow> (env_error, env_delta) res" where
  "secrets_resolve_for cipher name db = secrets_resolve_rows cipher db (env_list_for_member SecretKind name db) []"

definition variables_resolve_for :: "string \<Rightarrow> env_db \<Rightarrow> env_delta" where
  "variables_resolve_for name db =
     fold (\<lambda>r env. case env_stored VariableKind (e_id r) db of
                     None \<Rightarrow> env | Some v \<Rightarrow> AList.update (e_env r) v env)
       (env_list_for_member VariableKind name db) []"

text \<open>\<open>GET /secrets/resolve\<close> for the calling member: the merged delta and the names that are secret.\<close>

definition secrets_resolve_endpoint ::
  "field_cipher option \<Rightarrow> string \<Rightarrow> env_db \<Rightarrow> (env_error, env_delta \<times> string list) res" where
  "secrets_resolve_endpoint cipher name db =
     andThen (secrets_resolve_for cipher name db) (\<lambda>secret_env.
       (let variable_env = variables_resolve_for name db;
            collisions = filter (\<lambda>n. n \<in> fst ` set secret_env) (List.map fst variable_env)
        in if length collisions > 0 then Inl (SecretsError EnvTaken)
           else Inr (fold (\<lambda>(n, v). AList.update n v) variable_env secret_env, List.map fst secret_env)))"

definition all_decrypted_values :: "field_cipher option \<Rightarrow> env_db \<Rightarrow> string list" where
  "all_decrypted_values cipher db =
     (case cipher of
        None \<Rightarrow> []
      | Some c \<Rightarrow>
          List.map_filter (\<lambda>s. case env_stored SecretKind (e_id s) db of
               None \<Rightarrow> None
             | Some enc \<Rightarrow> (case decrypt c enc of Inl _ \<Rightarrow> None | Inr v \<Rightarrow> v))
            (env_list SecretKind db))"

end
