(* ===== verification/EnvMigrate.thy ===== *)
theory EnvMigrate
  imports EnvStores
begin

text \<open>
  \<open>migrateIdentityToVariables\<close> of \<open>packages/core/src/variables.ts\<close>: at boot, secrets whose environment
  name is a git identity move to the variables half, in one transaction.
\<close>

definition identity_env_names :: "string list" where
  "identity_env_names = [''GIT_AUTHOR_NAME'', ''GIT_AUTHOR_EMAIL'', ''GIT_COMMITTER_NAME'', ''GIT_COMMITTER_EMAIL'']"

datatype skip_reason = NoStoredValue | NoActiveKey | DecryptedToNothing | ValueUnreadable

record migration_result =
  mr_migrated :: "string list"
  mr_skipped :: "(string \<times> skip_reason) list"
  mr_noop :: bool

record pending_move =
  pm_secret :: env_row
  pm_value :: string
  pm_bindings :: "string list"

text \<open>The value of a candidate, or why it cannot be moved.\<close>

definition read_identity :: "field_cipher option \<Rightarrow> string option \<Rightarrow> (skip_reason, string) res" where
  "read_identity cipher stored =
     (case stored of
        None \<Rightarrow> Inl NoStoredValue
      | Some enc \<Rightarrow>
          (case cipher of
             None \<Rightarrow> Inl NoActiveKey
           | Some c \<Rightarrow>
               (case decrypt c enc of
                  Inl _ \<Rightarrow> Inl ValueUnreadable
                | Inr None \<Rightarrow> Inl DecryptedToNothing
                | Inr (Some v) \<Rightarrow> Inr v)))"

fun collect_moves ::
  "field_cipher option \<Rightarrow> env_db \<Rightarrow> env_row list \<Rightarrow> pending_move list \<times> (string \<times> skip_reason) list" where
  "collect_moves cipher db [] = ([], [])"
| "collect_moves cipher db (s # rest) =
     (let (pending, skipped) = collect_moves cipher db rest
      in if env_get_by_slug VariableKind (e_slug s) db \<noteq> None then (pending, skipped)
         else (case read_identity cipher (env_stored SecretKind (e_id s) db) of
                 Inl reason \<Rightarrow> (pending, (e_slug s, reason) # skipped)
               | Inr v \<Rightarrow>
                   (\<lparr>pm_secret = s, pm_value = v, pm_bindings = env_list_bindings SecretKind (e_id s) db\<rparr> # pending,
                    skipped)))"

text \<open>One round of the transaction; \<open>None\<close> is a constraint error, which rolls the batch back.\<close>

definition moved_row :: "string \<Rightarrow> int \<Rightarrow> env_row \<Rightarrow> env_row" where
  "moved_row i now s = s\<lparr>e_id := i, e_created_at := now, e_updated_at := now\<rparr>"

definition env_insert_value :: "string \<Rightarrow> string \<Rightarrow> int \<Rightarrow> env_half \<Rightarrow> env_half option" where
  "env_insert_value i v now h =
     map_option (\<lambda>vs. h\<lparr>h_values := vs\<rparr>)
       (sql_insert (\<lambda>x x'. ev_row x = ev_row x')
          \<lparr>ev_row = i, ev_value = v, ev_created_at = now, ev_updated_at = now\<rparr> (h_values h))"

definition move_one :: "string \<Rightarrow> int \<Rightarrow> pending_move \<Rightarrow> env_db \<Rightarrow> env_db option" where
  "move_one i now p db =
     (case env_insert (moved_row i now (pm_secret p)) (variable_half db) of
        None \<Rightarrow> None
      | Some h1 \<Rightarrow>
          (case env_insert_value i (pm_value p) now h1 of
             None \<Rightarrow> None
           | Some h2 \<Rightarrow>
               (let h3 = fold (\<lambda>name. env_insert_binding i name now) (pm_bindings p) h2;
                    sid = e_id (pm_secret p)
                in Some (db\<lparr>variable_half := h3,
                       secret_half := env_delete_row sid (env_delete_value sid
                         (env_delete_bindings sid (secret_half db)))\<rparr>))))"

fun move_all :: "string list \<Rightarrow> int \<Rightarrow> pending_move list \<Rightarrow> env_db \<Rightarrow> env_db \<times> (env_error, string list) res" where
  "move_all rnds now [] db = (db, Inr [])"
| "move_all rnds now (p # ps) db =
     (case move_one (variable_id now (hd rnds)) now p db of
        None \<Rightarrow> (db, Inl EnvSqlConstraint)
      | Some db' \<Rightarrow>
          (case move_all (tl rnds) now ps db' of
             (db'', Inl e) \<Rightarrow> (db'', Inl e)
           | (db'', Inr slugs) \<Rightarrow> (db'', Inr (e_slug (pm_secret p) # slugs))))"

text \<open>\<open>rnds\<close> are the random parts drawn for the new ids, one per moved row.\<close>

definition migrate_identity_to_variables ::
  "field_cipher option \<Rightarrow> string list \<Rightarrow> int \<Rightarrow> env_db \<Rightarrow> env_db \<times> migration_result" where
  "migrate_identity_to_variables cipher rnds now db =
     (let candidates = filter (\<lambda>s. e_env s \<in> set identity_env_names) (env_list SecretKind db)
      in if length candidates = 0 then (db, \<lparr>mr_migrated = [], mr_skipped = [], mr_noop = True\<rparr>)
         else
           (let (pending, skipped) = collect_moves cipher db candidates
            in if length pending = 0
               then (db, \<lparr>mr_migrated = [], mr_skipped = skipped, mr_noop = (length skipped = 0)\<rparr>)
               else
                 (case run_in_transaction (move_all rnds now pending) db of
                    (db', Inl _) \<Rightarrow> (db', \<lparr>mr_migrated = [], mr_skipped = skipped, mr_noop = False\<rparr>)
                  | (db', Inr slugs) \<Rightarrow> (db', \<lparr>mr_migrated = slugs, mr_skipped = skipped, mr_noop = False\<rparr>))))"

end
