(* ===== verification/EnvInvariant.thy ===== *)
theory EnvInvariant
  imports EnvMigrate
begin

text \<open>
  What every call of the two stores keeps: ids and slugs are unique within a half, bindings and values
  belong to existing rows, every environment name is valid, and no member is reached by two rows with
  one environment name, in whichever halves they live.
\<close>

section \<open>The invariant\<close>

definition reach :: "env_db \<Rightarrow> env_kind \<Rightarrow> env_row \<Rightarrow> string \<Rightarrow> bool" where
  "reach db k r name = reaches_member (half k db) name r"

definition rows_of :: "env_kind \<Rightarrow> env_db \<Rightarrow> env_row set" where
  "rows_of k db = set (h_rows (half k db))"

definition one_value :: "env_db \<Rightarrow> bool" where
  "one_value db \<longleftrightarrow>
     (\<forall>k k' r r' name. r \<in> rows_of k db \<and> r' \<in> rows_of k' db \<and> reach db k r name \<and> reach db k' r' name \<and>
        e_env r = e_env r' \<longrightarrow> k = k' \<and> e_id r = e_id r')"

definition half_ok :: "env_half \<Rightarrow> bool" where
  "half_ok h \<longleftrightarrow>
     distinct (List.map e_id (h_rows h)) \<and> distinct (List.map e_slug (h_rows h)) \<and>
     distinct (List.map (\<lambda>b. (eb_row b, eb_member b)) (h_bindings h)) \<and> distinct (List.map ev_row (h_values h)) \<and>
     (\<forall>r \<in> set (h_rows h). e_id r \<noteq> [] \<and> validate_env_name (e_env r) = Inr ()) \<and>
     (\<forall>b \<in> set (h_bindings h). eb_row b \<in> e_id ` set (h_rows h)) \<and>
     (\<forall>v \<in> set (h_values h). ev_row v \<in> e_id ` set (h_rows h))"

definition env_inv :: "env_db \<Rightarrow> bool" where
  "env_inv db \<longleftrightarrow> half_ok (secret_half db) \<and> half_ok (variable_half db) \<and> one_value db"

lemma half_upd [simp]: "half k (upd_half k' f db) = (if k = k' then f (half k db) else half k db)"
  by (cases k; cases k') simp_all

lemma env_inv_halves: "env_inv db \<longleftrightarrow> (\<forall>k. half_ok (half k db)) \<and> one_value db"
  unfolding env_inv_def by (metis (full_types) env_kind.exhaust half.simps)

section \<open>What the collision checks say\<close>

lemma all_kinds: "(\<forall>k. P k) \<longleftrightarrow> P SecretKind \<and> P VariableKind"
  by (metis (full_types) env_kind.exhaust)

lemma first_row_None [simp]: "first_row xs = None \<longleftrightarrow> xs = []"
  by (cases xs) (simp_all add: first_row_def)

lemma rival_in_Nil:
  "rival_in k p env ek eid db = [] \<longleftrightarrow>
    (\<forall>r \<in> rows_of k db. e_env r = env \<and> (k, e_id r) \<noteq> (ek, eid) \<longrightarrow> \<not> p (half k db) r)"
  unfolding rival_in_def rows_of_def map_is_Nil_conv sql_all_def filter_empty_conv by blast

lemma no_rival_for_member:
  "find_env_rival_for_member db env ek eid name = None \<longleftrightarrow>
    (\<forall>k. \<forall>r \<in> rows_of k db. e_env r = env \<and> (k, e_id r) \<noteq> (ek, eid) \<longrightarrow> \<not> reach db k r name)"
  unfolding find_env_rival_for_member_def first_row_None append_is_Nil_conv rival_in_Nil reach_def all_kinds ..

lemma reaches_anyone_iff: "reaches_anyone h r \<longleftrightarrow> (\<exists>name. reaches_member h name r)"
  by (auto simp: reaches_anyone_def reaches_member_def list_ex_iff)

lemma no_rival_anyone:
  "find_env_rival_anyone db env ek eid = None \<longleftrightarrow>
    (\<forall>k. \<forall>r \<in> rows_of k db. e_env r = env \<and> (k, e_id r) \<noteq> (ek, eid) \<longrightarrow> (\<forall>name. \<not> reach db k r name))"
  unfolding find_env_rival_anyone_def first_row_None append_is_Nil_conv rival_in_Nil reach_def reaches_anyone_iff
    all_kinds not_ex ..

text \<open>A change confined to one row keeps the invariant when that row has no rival where it reaches.\<close>

lemma one_value_change:
  assumes "one_value db"
    and others: "\<And>k' r'. \<lbrakk>r' \<in> rows_of k' db'; (k', e_id r') \<noteq> (k, i)\<rbrakk> \<Longrightarrow>
        r' \<in> rows_of k' db \<and> (\<forall>name. reach db' k' r' name \<longrightarrow> reach db k' r' name)"
    and clear: "\<And>k' r r' name. \<lbrakk>r \<in> rows_of k db'; e_id r = i; reach db' k r name; r' \<in> rows_of k' db';
        (k', e_id r') \<noteq> (k, i); e_env r' = e_env r\<rbrakk> \<Longrightarrow> \<not> reach db' k' r' name"
  shows "one_value db'"
  unfolding one_value_def
proof (intro allI impI)
  fix k1 k2 r1 r2 name
  assume a: "r1 \<in> rows_of k1 db' \<and> r2 \<in> rows_of k2 db' \<and> reach db' k1 r1 name \<and> reach db' k2 r2 name \<and> e_env r1 = e_env r2"
  consider "(k1, e_id r1) = (k, i)" "(k2, e_id r2) = (k, i)" | "(k1, e_id r1) = (k, i)" "(k2, e_id r2) \<noteq> (k, i)"
    | "(k1, e_id r1) \<noteq> (k, i)" "(k2, e_id r2) = (k, i)" | "(k1, e_id r1) \<noteq> (k, i)" "(k2, e_id r2) \<noteq> (k, i)" by blast
  then show "k1 = k2 \<and> e_id r1 = e_id r2"
  proof cases
    case 2
    then show ?thesis using clear [of r1 name r2 k2] a by auto
  next
    case 3
    then show ?thesis using clear [of r2 name r1 k1] a by auto
  next
    case 4
    then show ?thesis using others [of r1 k1] others [of r2 k2] a assms(1) unfolding one_value_def by blast
  qed auto
qed

text \<open>Shrinking: every row and everyone it reaches were there before.\<close>

lemma one_value_shrink:
  assumes "one_value db"
    and "\<And>k r name. \<lbrakk>r \<in> rows_of k db'; reach db' k r name\<rbrakk> \<Longrightarrow> r \<in> rows_of k db \<and> reach db k r name"
  shows "one_value db'"
  using assms unfolding one_value_def by meson

section \<open>Single operations\<close>

lemma env_inv_update_half:
  assumes "env_inv db" "half_ok (f (half k db))" "one_value (upd_half k f db)"
  shows "env_inv (upd_half k f db)"
  using assms by (simp add: env_inv_halves)

lemma half_ok_shrink:
  assumes "half_ok h"
    and "h_rows h' = h_rows h" "\<exists>P. h_bindings h' = filter P (h_bindings h)" "\<exists>P. h_values h' = filter P (h_values h)"
  shows "half_ok h'"
  using assms by (auto simp: half_ok_def intro: distinct_map_filter)

lemma env_inv_shrink:
  assumes inv: "env_inv db"
    and rows: "h_rows (f (half k db)) = h_rows (half k db)"
    and bindings: "h_bindings (f (half k db)) = filter P (h_bindings (half k db))"
    and vals: "h_values (f (half k db)) = filter Q (h_values (half k db))"
  shows "env_inv (upd_half k f db)"
proof (rule env_inv_update_half [OF inv])
  show "half_ok (f (half k db))"
    using inv rows bindings vals half_ok_shrink [of "half k db" "f (half k db)"] by (auto simp: env_inv_halves)
  have "one_value db" using inv by (simp add: env_inv_halves)
  then show "one_value (upd_half k f db)"
    by (rule one_value_shrink)
      (auto simp: rows_of_def reach_def reaches_member_def list_ex_iff rows bindings split: if_splits)
qed

lemma env_inv_unbind: "env_inv db \<Longrightarrow> env_inv (fst (env_unbind k i name db))"
  unfolding env_unbind_def fst_conv
  by (rule env_inv_shrink [where P = "\<lambda>b. \<not> (eb_row b = i \<and> eb_member b = name)" and Q = "\<lambda>_. True"])
    (simp_all add: env_delete_binding_def sql_delete_def)

lemma env_inv_drop_value: "env_inv db \<Longrightarrow> env_inv (fst (env_drop_value k i db))"
  unfolding env_drop_value_def fst_conv
  by (rule env_inv_shrink [where P = "\<lambda>_. True" and Q = "\<lambda>v. ev_row v \<noteq> i"])
    (simp_all add: env_delete_value_def sql_delete_def)

lemma half_ok_upsert:
  assumes "half_ok h" "i \<in> e_id ` set (h_rows h)"
  shows "half_ok (env_upsert_value i v now h)"
  using assms unfolding half_ok_def env_upsert_value_def
  by (auto simp: set_sql_update sql_get_None)

lemma env_inv_upsert:
  assumes "env_inv db" "env_get k i db \<noteq> None"
  shows "env_inv (upd_half k (env_upsert_value i v now) db)"
proof (rule env_inv_update_half [OF assms(1)])
  have "i \<in> e_id ` set (h_rows (half k db))"
    using assms(2) by (auto simp: env_get_def dest: sql_get_SomeD)
  then show "half_ok (env_upsert_value i v now (half k db))"
    using assms(1) by (simp add: env_inv_halves half_ok_upsert)
  show "one_value (upd_half k (env_upsert_value i v now) db)"
    using assms(1) unfolding env_inv_halves
    by (auto simp: env_upsert_value_def rows_of_def reach_def reaches_member_def split: if_splits elim!: one_value_shrink)
qed

lemma env_inv_delete: "env_inv db \<Longrightarrow> env_inv (fst (env_delete k i db))"
proof (cases "env_get k i db")
  case (Some r)
  assume inv: "env_inv db"
  let ?f = "\<lambda>h. env_delete_row i (env_delete_value i (env_delete_bindings i h))"
  have "env_inv (upd_half k ?f db)"
  proof (rule env_inv_update_half [OF inv])
    have "half_ok (half k db)" using inv by (simp add: env_inv_halves)
    then show "half_ok (?f (half k db))"
      by (auto simp: half_ok_def env_delete_row_def env_delete_value_def env_delete_bindings_def)
    show "one_value (upd_half k ?f db)"
      using inv unfolding env_inv_halves
      by (auto simp: rows_of_def reach_def reaches_member_def list_ex_iff env_delete_row_def env_delete_value_def
          env_delete_bindings_def split: if_splits elim!: one_value_shrink)
  qed
  with Some show ?thesis by (simp add: env_delete_def run_in_transaction_def)
qed (simp add: env_delete_def)

end
