(* ===== verification/EnvLife.thy ===== *)
theory EnvLife
  imports EnvInvariant
begin

text \<open>
  The calls that can widen what a member is reached by: creation, update and binding, each kept safe by
  its collision check; then the runs of both stores together, the boot migration included.
\<close>

section \<open>Creation\<close>

lemma one_valueD:
  "\<lbrakk>one_value db; r \<in> rows_of k db; r' \<in> rows_of k' db; reach db k r name; reach db k' r' name; e_env r = e_env r'\<rbrakk> \<Longrightarrow>
   (k, e_id r) = (k', e_id r')"
  unfolding one_value_def by blast

lemma env_insert_Some:
  "env_insert r h = Some h' \<longleftrightarrow>
     h' = h\<lparr>h_rows := h_rows h @ [r]\<rparr> \<and> (\<forall>r' \<in> set (h_rows h). e_id r \<noteq> e_id r' \<and> e_slug r \<noteq> e_slug r')"
  by (auto simp: env_insert_def sql_insert_Some env_clash_def)

lemma env_get_iff: "half_ok (half k db) \<Longrightarrow> env_get k i db = Some r \<longleftrightarrow> r \<in> rows_of k db \<and> e_id r = i"
  by (simp add: env_get_def half_ok_def sql_get_key_iff rows_of_def)

lemma half_ok_insert:
  assumes "half_ok h" "env_insert r h = Some h'" "e_id r \<noteq> []" "validate_env_name (e_env r) = Inr ()"
  shows "half_ok h'"
  using assms by (fastforce simp: half_ok_def env_insert_Some)

lemma unbound_new:
  assumes "half_ok h" "\<forall>r' \<in> set (h_rows h). e_id r \<noteq> e_id r'"
  shows "reaches_member h name r \<longleftrightarrow> e_all r"
  using assms by (fastforce simp: half_ok_def reaches_member_def list_ex_iff)

lemma env_inv_insert:
  assumes inv: "env_inv db" and ins: "env_insert r (half k db) = Some h"
    and ok: "e_id r \<noteq> []" "validate_env_name (e_env r) = Inr ()"
    and clear: "\<And>k' r' name. \<lbrakk>e_all r; r' \<in> rows_of k' db; e_env r' = e_env r\<rbrakk> \<Longrightarrow> \<not> reach db k' r' name"
  shows "env_inv (upd_half k (\<lambda>_. h) db)"
proof (rule env_inv_update_half [OF inv])
  have hk: "half_ok (half k db)" and one: "one_value db" using inv by (simp_all add: env_inv_halves)
  show "half_ok h" by (rule half_ok_insert [OF hk ins ok])
  from ins have h: "h = (half k db)\<lparr>h_rows := h_rows (half k db) @ [r]\<rparr>"
    and new: "\<forall>r' \<in> set (h_rows (half k db)). e_id r \<noteq> e_id r'" by (auto simp: env_insert_Some)
  have same: "reach (upd_half k (\<lambda>_. h) db) k' r' name = reach db k' r' name" for k' r' name
    by (simp add: reach_def h reaches_member_def)
  have rows: "rows_of k' (upd_half k (\<lambda>_. h) db) = (if k' = k then insert r (rows_of k db) else rows_of k' db)" for k'
    by (auto simp: rows_of_def h)
  show "one_value (upd_half k (\<lambda>_. h) db)"
  proof (rule one_value_change [OF one, of _ k "e_id r"])
    fix k' r' assume "r' \<in> rows_of k' (upd_half k (\<lambda>_. h) db)" "(k', e_id r') \<noteq> (k, e_id r)"
    then show "r' \<in> rows_of k' db \<and> (\<forall>name. reach (upd_half k (\<lambda>_. h) db) k' r' name \<longrightarrow> reach db k' r' name)"
      by (auto simp: rows same split: if_splits)
  next
    fix k' x r' name
    assume a: "x \<in> rows_of k (upd_half k (\<lambda>_. h) db)" "e_id x = e_id r" "reach (upd_half k (\<lambda>_. h) db) k x name"
      "r' \<in> rows_of k' (upd_half k (\<lambda>_. h) db)" "(k', e_id r') \<noteq> (k, e_id r)" "e_env r' = e_env x"
    have "x = r \<or> x \<in> set (h_rows (half k db))" using a(1) unfolding rows by (simp add: rows_of_def)
    then have x: "x = r" using a(2) new by auto
    with a(3) have "e_all r" using unbound_new [OF hk new] by (simp add: same) (simp add: reach_def)
    moreover have "r' \<in> rows_of k' db" using a(4,5) by (auto simp: rows split: if_splits)
    ultimately show "\<not> reach (upd_half k (\<lambda>_. h) db) k' r' name" using clear a(6) x by (simp add: same)
  qed
qed

lemma new_env_row_sel [simp]:
  "e_id (new_env_row input i now) = i" "e_env (new_env_row input i now) = ec_env input"
  "e_slug (new_env_row input i now) = ec_slug input" "e_all (new_env_row input i now) = (ec_all input = Some True)"
  by (simp_all add: new_env_row_def)

lemma ids_nonempty: "env_inv db \<Longrightarrow> r \<in> rows_of k db \<Longrightarrow> e_id r \<noteq> []"
  by (auto simp: env_inv_halves half_ok_def rows_of_def)

lemma env_inv_secrets_create:
  assumes inv: "env_inv db" and "uuid \<noteq> []"
  shows "env_inv (fst (secrets_create input uuid now db))"
proof (cases "fst (secrets_create input uuid now db) = db")
  case False
  then obtain h where h: "env_insert (new_env_row input uuid now) (half SecretKind db) = Some h"
    "validate_env_name (ec_env input) = Inr ()" "fst (secrets_create input uuid now db) = upd_half SecretKind (\<lambda>_. h) db"
    and r: "ec_all input = Some True \<longrightarrow> find_env_rival_anyone db (ec_env input) SecretKind [] = None"
    by (auto simp: secrets_create_def Let_def split: sum.splits if_splits option.splits)
  have "env_inv (upd_half SecretKind (\<lambda>_. h) db)"
  proof (rule env_inv_insert [OF inv h(1)])
    fix k' r' name assume "e_all (new_env_row input uuid now)" "r' \<in> rows_of k' db" "e_env r' = e_env (new_env_row input uuid now)"
    then show "\<not> reach db k' r' name"
      using r ids_nonempty [OF inv] unfolding no_rival_anyone by fastforce
  qed (use assms h in simp_all)
  with h(3) show ?thesis by simp
qed (use inv in simp)

lemma variable_id_nonempty [simp]: "variable_id now rnd \<noteq> []"
  by (simp add: variable_id_def)

lemma env_inv_variables_create:
  assumes inv: "env_inv db"
  shows "env_inv (fst (variables_create input rnd now db))"
proof (cases "fst (variables_create input rnd now db) = db")
  case False
  then obtain h where h: "env_insert (new_env_row input (variable_id now rnd) now) (half VariableKind db) = Some h"
    "validate_env_name (ec_env input) = Inr ()"
    "fst (variables_create input rnd now db) = upd_half VariableKind (\<lambda>_. h) db"
    and r: "orelse (ec_all input) False \<longrightarrow>
      find_env_rival_anyone db (ec_env input) VariableKind (variable_id now rnd) = None"
    by (auto simp: variables_create_def Let_def split: sum.splits if_splits option.splits)
  have "env_inv (upd_half VariableKind (\<lambda>_. h) db)"
  proof (rule env_inv_insert [OF inv h(1)])
    fix k' r' name
    assume a: "e_all (new_env_row input (variable_id now rnd) now)" "r' \<in> rows_of k' db"
      "e_env r' = e_env (new_env_row input (variable_id now rnd) now)"
    have "(k', e_id r') \<noteq> (VariableKind, variable_id now rnd)"
      using h(1) a(2) by (metis env_insert_Some new_env_row_sel(1) prod.inject rows_of_def)
    moreover have "orelse (ec_all input) False" using a(1) by (simp add: orelse_def)
    ultimately show "\<not> reach db k' r' name"
      using r a unfolding no_rival_anyone by simp
  qed (use h in simp_all)
  with h(3) show ?thesis by simp
qed (use inv in simp)

section \<open>Binding and update\<close>

lemma env_inv_bind:
  assumes inv: "env_inv db"
  shows "env_inv (fst (env_bind k i name now db))"
proof (cases "fst (env_bind k i name now db) = db")
  case False
  then obtain row where row: "env_get k i db = Some row" "find_env_rival_for_member db (e_env row) k i name = None"
    "fst (env_bind k i name now db) = upd_half k (env_insert_binding i name now) db"
    by (auto simp: env_bind_def split: option.splits if_splits)
  have hk: "half_ok (half k db)" and one: "one_value db" using inv by (simp_all add: env_inv_halves)
  let ?db = "upd_half k (env_insert_binding i name now) db"
  have r: "row \<in> rows_of k db" "e_id row = i" using row(1) by (simp_all add: env_get_iff [OF hk])
  have uniq: "x = row" if "x \<in> rows_of k db" "e_id x = i" for x
    using that row(1) env_get_iff [OF hk, of i x] by simp
  have rows: "rows_of k' ?db = rows_of k' db" for k' by (simp add: rows_of_def env_insert_binding_def)
  have reach: "reach ?db k' x n \<longleftrightarrow> reach db k' x n \<or> k' = k \<and> e_id x = i \<and> n = name" for k' x n
    by (auto simp: reach_def reaches_member_def list_ex_iff env_insert_binding_def sql_insert_ignore_def)
  have "env_inv ?db"
  proof (rule env_inv_update_half [OF inv])
    show "half_ok (env_insert_binding i name now (half k db))"
      using hk r by (auto simp: half_ok_def env_insert_binding_def sql_insert_ignore_def rows_of_def)
    show "one_value ?db"
    proof (rule one_value_change [OF one, of _ k i])
      fix k' r' assume "r' \<in> rows_of k' ?db" "(k', e_id r') \<noteq> (k, i)"
      then show "r' \<in> rows_of k' db \<and> (\<forall>n. reach ?db k' r' n \<longrightarrow> reach db k' r' n)"
        by (auto simp: rows reach)
    next
      fix k' x r' n
      assume a: "x \<in> rows_of k ?db" "e_id x = i" "reach ?db k x n" "r' \<in> rows_of k' ?db" "(k', e_id r') \<noteq> (k, i)" "e_env r' = e_env x"
      have x: "x = row" using uniq a(1,2) by (simp add: rows)
      show "\<not> reach ?db k' r' n"
      proof (cases "n = name")
        case True
        then show ?thesis using row(2) a x unfolding no_rival_for_member by (auto simp: rows reach)
      next
        case False
        then have "reach db k row n" using a(3) x by (simp add: reach)
        then show ?thesis
          using one_valueD [OF one r(1) _ _ _, of r' k' n] a x r False by (auto simp: rows reach)
      qed
    qed
  qed
  with row(3) show ?thesis by simp
qed (use inv in simp)

lemma list_bindings_iff: "name \<in> set (env_list_bindings k i db) \<longleftrightarrow> (\<exists>b \<in> set (h_bindings (half k db)). eb_row b = i \<and> eb_member b = name)"
  by (auto simp: env_list_bindings_def)

lemma env_update_check_ok:
  "env_update_check k i e en al db = Inr () \<longleftrightarrow>
     (en \<noteq> e_env e \<or> al \<and> \<not> e_all e \<longrightarrow>
       (en \<noteq> e_env e \<longrightarrow> validate_env_name en = Inr ()) \<and>
       (al \<longrightarrow> find_env_rival_anyone db en k i = None) \<and>
       (\<not> al \<longrightarrow> (\<forall>name \<in> set (env_list_bindings k i db). find_env_rival_for_member db en k i name = None)))"
  by (simp add: env_update_check_def andThen_Inr guard_Inr list_ex_iff)

lemma env_update_cases:
  assumes "fst (env_update k i patch now db) \<noteq> db"
  obtains e f en al where "env_get k i db = Some e" "fst (env_update k i patch now db) = upd_half k (env_update_row i f) db"
    "env_update_check k i e en al db = Inr ()"
    "\<forall>x. e_id (f x) = e_id x \<and> e_slug (f x) = e_slug x \<and> e_env (f x) = en \<and> e_all (f x) = al"
proof -
  obtain e where e: "env_get k i db = Some e"
    using assms by (auto simp: env_update_def split: option.splits)
  define en where "en = orelse (ep_env patch) (e_env e)"
  define al where "al = orelse (ep_all patch) (e_all e)"
  define f :: "env_row \<Rightarrow> env_row" where "f = (\<lambda>r. r\<lparr>e_env := en,
      e_description := orelse (ep_description patch) (e_description e),
      e_enabled := orelse (ep_enabled patch) (e_enabled e), e_all := al, e_updated_at := now\<rparr>)"
  have eq: "fst (env_update k i patch now db) =
      (case env_update_check k i e en al db of Inl _ \<Rightarrow> db | Inr _ \<Rightarrow> upd_half k (env_update_row i f) db)"
    by (simp add: env_update_def e Let_def en_def [symmetric] al_def [symmetric] f_def [symmetric] split: sum.split option.split)
  then have "env_update_check k i e en al db = Inr ()" using assms by (simp split: sum.splits)
  with eq e show ?thesis by (intro that [of e f en al]) (simp_all add: f_def)
qed

lemma env_inv_update:
  assumes inv: "env_inv db"
  shows "env_inv (fst (env_update k i patch now db))"
proof (cases "fst (env_update k i patch now db) = db")
  case False
  obtain e f en al where e: "env_get k i db = Some e"
    and fst: "fst (env_update k i patch now db) = upd_half k (env_update_row i f) db"
    and chk: "env_update_check k i e en al db = Inr ()"
    and f: "\<forall>x. e_id (f x) = e_id x \<and> e_slug (f x) = e_slug x \<and> e_env (f x) = en \<and> e_all (f x) = al"
    by (rule env_update_cases [OF False])
  note chk = chk [unfolded env_update_check_ok]
  have fid [simp]: "e_id (f x) = e_id x" "e_slug (f x) = e_slug x" "e_env (f x) = en" "e_all (f x) = al" for x
    using f by simp_all
  let ?db = "upd_half k (env_update_row i f) db"
  have hk: "half_ok (half k db)" and one: "one_value db" using inv by (simp_all add: env_inv_halves)
  have r: "e \<in> rows_of k db" "e_id e = i" using e by (simp_all add: env_get_iff [OF hk])
  have uniq: "x = e" if "x \<in> rows_of k db" "e_id x = i" for x
    using that e env_get_iff [OF hk, of i x] by simp
  have rows: "x \<in> rows_of k' ?db \<longleftrightarrow> (if k' = k \<and> e_id x = i then x = f e else x \<in> rows_of k' db)" for k' x
  proof (cases "k' = k")
    case True
    have "rows_of k ?db = (\<lambda>r. if e_id r = i then f r else r) ` rows_of k db"
      by (simp add: rows_of_def env_update_row_def set_sql_update)
    moreover have "x \<in> (\<lambda>r. if e_id r = i then f r else r) ` rows_of k db \<longleftrightarrow>
        (if e_id x = i then x = f e else x \<in> rows_of k db)" (is "?L \<longleftrightarrow> ?R")
    proof
      assume ?L
      then obtain y where y: "y \<in> rows_of k db" "x = (if e_id y = i then f y else y)" by blast
      then show ?R using uniq [OF y(1)] by (cases "e_id y = i") simp_all
    next
      assume x: ?R
      show ?L
      proof (cases "e_id x = i")
        case True
        then show ?L using x r by (intro image_eqI [of _ _ e]) simp_all
      next
        case False
        then show ?L using x by (intro image_eqI [of _ _ x]) simp_all
      qed
    qed
    ultimately show ?thesis using True by simp
  qed (simp add: rows_of_def)
  have reach: "reach ?db k' x n \<longleftrightarrow> reach db k' x n" for k' x n
    by (simp add: reach_def reaches_member_def env_update_row_def)
  have valid: "validate_env_name en = Inr ()"
  proof (cases "en = e_env e")
    case True
    have "validate_env_name (e_env e) = Inr ()" using hk r(1) unfolding half_ok_def rows_of_def by blast
    with True show ?thesis by simp
  next
    case False
    with chk show ?thesis by blast
  qed
  have clear: "\<not> reach db k' r' n"
    if "reach db k (f e) n" "r' \<in> rows_of k' db" "(k', e_id r') \<noteq> (k, i)" "e_env r' = en" for k' r' n
  proof (cases "en \<noteq> e_env e \<or> al \<and> \<not> e_all e")
    case True
    show ?thesis
    proof (cases al)
      case al: True
      have "find_env_rival_anyone db en k i = None" using chk True al by simp
      from this [unfolded no_rival_anyone, rule_format, OF that(2)] that(3,4) show ?thesis by simp
    next
      case al: False
      from that(1) have n: "n \<in> set (env_list_bindings k i db)"
        unfolding list_bindings_iff reach_def reaches_member_def list_ex_iff fid r(2) using al by simp
      have "find_env_rival_for_member db en k i n = None" using chk True al n by simp
      from this [unfolded no_rival_for_member, rule_format, OF that(2)] that(3,4) show ?thesis by simp
    qed
  next
    case False
    then have "reach db k e n" using that(1) by (auto simp: reach_def reaches_member_def)
    then show ?thesis using one_valueD [OF one r(1) that(2), of n] that(3,4) False r(2) by auto
  qed
  have "env_inv ?db"
  proof (rule env_inv_update_half [OF inv])
    have "\<forall>x \<in> set (h_rows (env_update_row i f (half k db))). e_id x \<noteq> [] \<and> validate_env_name (e_env x) = Inr ()"
      using hk valid by (auto simp: half_ok_def env_update_row_def set_sql_update)
    moreover have "e_id ` set (h_rows (env_update_row i f (half k db))) = e_id ` set (h_rows (half k db))"
      unfolding image_set by (simp add: env_update_row_def del: set_map)
    ultimately show "half_ok (env_update_row i f (half k db))"
      using hk unfolding half_ok_def by (simp add: env_update_row_def)
    show "one_value ?db"
    proof (rule one_value_change [OF one, of _ k i])
      fix k' r' assume "r' \<in> rows_of k' ?db" "(k', e_id r') \<noteq> (k, i)"
      then show "r' \<in> rows_of k' db \<and> (\<forall>n. reach ?db k' r' n \<longrightarrow> reach db k' r' n)"
        by (auto simp: rows reach)
    next
      fix k' x r' n
      assume "x \<in> rows_of k ?db" "e_id x = i" "reach ?db k x n" "r' \<in> rows_of k' ?db" "(k', e_id r') \<noteq> (k, i)" "e_env r' = e_env x"
      then show "\<not> reach ?db k' r' n" using clear [of n r' k'] by (auto simp: rows reach)
    qed
  qed
  with fst show ?thesis by simp
qed (use inv in simp)

end
