(* ===== verification/EnvMove.thy ===== *)
theory EnvMove
  imports EnvLife "HOL-Library.Multiset"
begin

text \<open>
  The boot migration keeps the invariant and what every member resolves: each round replaces a secret by a
  variable with the same name, audience and clear value.
\<close>

section \<open>What a member resolves\<close>

text \<open>The clear value a stored text stands for in a half, under the active cipher.\<close>

definition clear_value :: "field_cipher option \<Rightarrow> env_kind \<Rightarrow> string \<Rightarrow> string option" where
  "clear_value cipher k stored =
     (case k of
        VariableKind \<Rightarrow> Some stored
      | SecretKind \<Rightarrow> (case cipher of None \<Rightarrow> None | Some c \<Rightarrow>
           (case decrypt c stored of Inl _ \<Rightarrow> None | Inr v \<Rightarrow> v)))"

text \<open>A row delivers its value to a member: it is enabled, reaches the member and has a value.\<close>

definition delivers :: "field_cipher option \<Rightarrow> env_db \<Rightarrow> env_kind \<Rightarrow> env_row \<Rightarrow> string \<Rightarrow> string \<Rightarrow> bool" where
  "delivers cipher db k r name v \<longleftrightarrow>
     r \<in> rows_of k db \<and> e_enabled r \<and> reach db k r name \<and>
     (\<exists>stored. env_stored k (e_id r) db = Some stored \<and> clear_value cipher k stored = Some v)"

definition resolves :: "field_cipher option \<Rightarrow> env_db \<Rightarrow> string \<Rightarrow> string \<Rightarrow> string \<Rightarrow> bool" where
  "resolves cipher db name n v \<longleftrightarrow> (\<exists>k r. delivers cipher db k r name v \<and> e_env r = n)"

lemma read_identity_Inr:
  "read_identity cipher stored = Inr v \<longleftrightarrow> (\<exists>enc. stored = Some enc \<and> clear_value cipher SecretKind enc = Some v)"
  by (auto simp: read_identity_def clear_value_def split: option.splits sum.splits)

section \<open>One round\<close>

definition bound_to :: "env_db \<Rightarrow> env_kind \<Rightarrow> string \<Rightarrow> string set" where
  "bound_to db k i = {name. \<exists>b \<in> set (h_bindings (half k db)). eb_row b = i \<and> eb_member b = name}"

lemma reach_iff: "reach db k r name \<longleftrightarrow> e_all r \<or> name \<in> bound_to db k (e_id r)"
  by (auto simp: reach_def reaches_member_def bound_to_def list_ex_iff)

definition move_ok :: "field_cipher option \<Rightarrow> env_db \<Rightarrow> pending_move \<Rightarrow> bool" where
  "move_ok cipher db p \<longleftrightarrow>
     pm_secret p \<in> rows_of SecretKind db \<and> set (pm_bindings p) = bound_to db SecretKind (e_id (pm_secret p)) \<and>
     read_identity cipher (env_stored SecretKind (e_id (pm_secret p)) db) = Inr (pm_value p)"

lemma fold_bindings:
  fixes i :: string and now :: int and ns :: "string list" and h :: env_half
  defines "h' \<equiv> fold (\<lambda>name. env_insert_binding i name now) ns h"
  shows "h_rows h' = h_rows h" "h_values h' = h_values h"
    and "(\<lambda>b. (eb_row b, eb_member b)) ` set (h_bindings h') = (\<lambda>b. (eb_row b, eb_member b)) ` set (h_bindings h) \<union> Pair i ` set ns"
    and "distinct (List.map (\<lambda>b. (eb_row b, eb_member b)) (h_bindings h)) \<Longrightarrow>
      distinct (List.map (\<lambda>b. (eb_row b, eb_member b)) (h_bindings h'))"
proof -
  have "h_rows (fold (\<lambda>name. env_insert_binding i name now) ns h) = h_rows h \<and>
    h_values (fold (\<lambda>name. env_insert_binding i name now) ns h) = h_values h \<and>
    (\<lambda>b. (eb_row b, eb_member b)) ` set (h_bindings (fold (\<lambda>name. env_insert_binding i name now) ns h)) =
      (\<lambda>b. (eb_row b, eb_member b)) ` set (h_bindings h) \<union> Pair i ` set ns \<and>
    (distinct (List.map (\<lambda>b. (eb_row b, eb_member b)) (h_bindings h)) \<longrightarrow>
      distinct (List.map (\<lambda>b. (eb_row b, eb_member b)) (h_bindings (fold (\<lambda>name. env_insert_binding i name now) ns h))))"
  proof (induction ns arbitrary: h)
    case (Cons n ns)
    have "h_rows (env_insert_binding i n now h) = h_rows h" "h_values (env_insert_binding i n now h) = h_values h"
      "(\<lambda>b. (eb_row b, eb_member b)) ` set (h_bindings (env_insert_binding i n now h)) =
        insert (i, n) ((\<lambda>b. (eb_row b, eb_member b)) ` set (h_bindings h))"
      "distinct (List.map (\<lambda>b. (eb_row b, eb_member b)) (h_bindings h)) \<Longrightarrow>
        distinct (List.map (\<lambda>b. (eb_row b, eb_member b)) (h_bindings (env_insert_binding i n now h)))"
      by (auto simp: env_insert_binding_def sql_insert_ignore_def)
    with Cons [of "env_insert_binding i n now h"] show ?case by simp
  qed simp
  then show "h_rows h' = h_rows h" "h_values h' = h_values h"
    "(\<lambda>b. (eb_row b, eb_member b)) ` set (h_bindings h') = (\<lambda>b. (eb_row b, eb_member b)) ` set (h_bindings h) \<union> Pair i ` set ns"
    "distinct (List.map (\<lambda>b. (eb_row b, eb_member b)) (h_bindings h)) \<Longrightarrow>
      distinct (List.map (\<lambda>b. (eb_row b, eb_member b)) (h_bindings h'))"
    by (simp_all add: h'_def)
qed

lemma bound_to_pairs: "name \<in> bound_to db k i \<longleftrightarrow> (i, name) \<in> (\<lambda>b. (eb_row b, eb_member b)) ` set (h_bindings (half k db))"
  by (auto simp: bound_to_def image_iff)

text \<open>What a round does, in terms of rows, audiences and stored values.\<close>

lemma move_one_facts:
  assumes m: "move_one i now p db = Some db'"
  defines "s \<equiv> pm_secret p" and "n \<equiv> moved_row i now (pm_secret p)"
  shows "rows_of SecretKind db' = {r \<in> rows_of SecretKind db. e_id r \<noteq> e_id s}"
    and "rows_of VariableKind db' = insert n (rows_of VariableKind db)"
    and "\<forall>r \<in> rows_of VariableKind db. e_id r \<noteq> i \<and> e_slug r \<noteq> e_slug s"
    and "bound_to db' SecretKind j = (if j = e_id s then {} else bound_to db SecretKind j)"
    and "bound_to db' VariableKind j = bound_to db VariableKind j \<union> (if j = i then set (pm_bindings p) else {})"
    and "env_stored SecretKind j db' = (if j = e_id s then None else env_stored SecretKind j db)"
    and "env_stored VariableKind j db' = (if j = i then Some (pm_value p) else env_stored VariableKind j db)"
    and "env_inv db \<Longrightarrow> validate_env_name (e_env s) = Inr () \<Longrightarrow> i \<noteq> [] \<Longrightarrow> half_ok (half k db')"
proof -
  obtain h1 h2 where h1: "env_insert n (variable_half db) = Some h1" and h2: "env_insert_value i (pm_value p) now h1 = Some h2"
    and db': "db' = db\<lparr>variable_half := fold (\<lambda>name. env_insert_binding i name now) (pm_bindings p) h2,
       secret_half := env_delete_row (e_id s) (env_delete_value (e_id s) (env_delete_bindings (e_id s) (secret_half db)))\<rparr>"
    using m by (auto simp: move_one_def n_def s_def Let_def split: option.splits)
  have n: "e_id n = i" "e_slug n = e_slug s" "e_env n = e_env s" by (simp_all add: n_def s_def moved_row_def)
  have r1: "h_rows h2 = h_rows (variable_half db) @ [n]" "h_bindings h2 = h_bindings (variable_half db)"
    "h_values h2 = h_values (variable_half db) @ [\<lparr>ev_row = i, ev_value = pm_value p, ev_created_at = now, ev_updated_at = now\<rparr>]"
    and novalue: "\<forall>x \<in> set (h_values (variable_half db)). ev_row x \<noteq> i"
    using h1 h2 by (auto simp: env_insert_Some env_insert_value_def sql_insert_Some)
  note fb = fold_bindings [where i = i and now = now and ns = "pm_bindings p" and h = h2, unfolded r1]
  let ?sec = "env_delete_row (e_id s) (env_delete_value (e_id s) (env_delete_bindings (e_id s) (secret_half db)))"
  let ?var = "fold (\<lambda>name. env_insert_binding i name now) (pm_bindings p) h2"
  have halves: "secret_half db' = ?sec" "variable_half db' = ?var" by (simp_all add: db')
  have sec: "h_rows ?sec = sql_delete (\<lambda>r. e_id r = e_id s) (h_rows (secret_half db))"
    "h_bindings ?sec = sql_delete (\<lambda>b. eb_row b = e_id s) (h_bindings (secret_half db))"
    "h_values ?sec = sql_delete (\<lambda>v. ev_row v = e_id s) (h_values (secret_half db))"
    by (simp_all add: env_delete_row_def env_delete_value_def env_delete_bindings_def)
  show "rows_of SecretKind db' = {r \<in> rows_of SecretKind db. e_id r \<noteq> e_id s}"
    by (simp add: rows_of_def halves sec)
  show "rows_of VariableKind db' = insert n (rows_of VariableKind db)"
    by (simp add: rows_of_def halves fb)
  show "\<forall>r \<in> rows_of VariableKind db. e_id r \<noteq> i \<and> e_slug r \<noteq> e_slug s"
    using h1 n by (auto simp: env_insert_Some rows_of_def)
  show "bound_to db' SecretKind j = (if j = e_id s then {} else bound_to db SecretKind j)"
    by (auto simp: bound_to_def halves sec)
  show "bound_to db' VariableKind j = bound_to db VariableKind j \<union> (if j = i then set (pm_bindings p) else {})"
    by (auto simp: bound_to_pairs [of _ db'] bound_to_pairs [of _ db] halves fb)
  show "env_stored SecretKind j db' = (if j = e_id s then None else env_stored SecretKind j db)"
    by (simp add: env_stored_def halves sec sql_get_delete_key)
  show "env_stored VariableKind j db' = (if j = i then Some (pm_value p) else env_stored VariableKind j db)"
  proof -
    have "sql_get (\<lambda>v. ev_row v = i) (h_values (variable_half db)) = None"
      using novalue by (simp add: sql_get_None)
    then show ?thesis
      by (simp add: env_stored_def halves fb sql_get_append split: option.split) (simp add: sql_get_def)
  qed
  assume inv: "env_inv db" and ok: "validate_env_name (e_env s) = Inr ()" "i \<noteq> []"
  show "half_ok (half k db')"
  proof (cases k)
    case SecretKind
    have "half_ok (secret_half db)" using inv by (simp add: env_inv_def)
    then have "half_ok ?sec" unfolding half_ok_def sec by auto
    with SecretKind show ?thesis by (simp add: halves)
  next
    case VariableKind
    have hv: "half_ok (variable_half db)" using inv by (simp add: env_inv_def)
    have ids: "e_id ` set (h_rows ?var) = insert i (e_id ` set (h_rows (variable_half db)))" by (simp add: fb n)
    have "eb_row b \<in> e_id ` set (h_rows ?var)" if "b \<in> set (h_bindings ?var)" for b
    proof -
      have "(eb_row b, eb_member b) \<in> (\<lambda>b. (eb_row b, eb_member b)) ` set (h_bindings ?var)" using that by (rule imageI)
      then show ?thesis unfolding fb(3) ids using hv by (auto simp: half_ok_def)
    qed
    moreover have "distinct (List.map (\<lambda>b. (eb_row b, eb_member b)) (h_bindings ?var))"
      using hv by (intro fb(4)) (simp add: half_ok_def)
    moreover have "distinct (List.map e_id (h_rows ?var))" "distinct (List.map e_slug (h_rows ?var))"
      using hv h1 by (auto simp: fb half_ok_def env_insert_Some)
    moreover have "distinct (List.map ev_row (h_values ?var))"
      using hv novalue by (auto simp: fb half_ok_def)
    moreover have "\<forall>r \<in> set (h_rows ?var). e_id r \<noteq> [] \<and> validate_env_name (e_env r) = Inr ()"
      using hv ok n by (auto simp: fb half_ok_def)
    moreover have "\<forall>v \<in> set (h_values ?var). ev_row v \<in> e_id ` set (h_rows ?var)"
      using hv unfolding ids by (auto simp: fb half_ok_def)
    ultimately show ?thesis unfolding VariableKind half.simps halves half_ok_def by blast
  qed
qed

lemma row_unique: "\<lbrakk>half_ok (half k db); r \<in> rows_of k db; r' \<in> rows_of k db; e_id r = e_id r'\<rbrakk> \<Longrightarrow> r = r'"
  by (auto simp: half_ok_def rows_of_def distinct_map inj_on_def)

lemma unbound_absent:
  assumes "half_ok (half k db)" "\<forall>r \<in> rows_of k db. e_id r \<noteq> i"
  shows "bound_to db k i = {}"
  using assms by (fastforce simp: half_ok_def bound_to_def rows_of_def)

lemma move_one_keeps:
  assumes inv: "env_inv db" and ok: "move_ok cipher db p" and m: "move_one i now p db = Some db'" and "i \<noteq> []"
  shows "env_inv db'" and "resolves cipher db' name x v \<longleftrightarrow> resolves cipher db name x v"
proof -
  define s where "s = pm_secret p"
  define n where "n = moved_row i now s"
  note f = move_one_facts [OF m, folded s_def, folded n_def]
  have hk: "half_ok (half k db)" for k using inv by (simp add: env_inv_halves)
  have one: "one_value db" using inv by (simp add: env_inv_halves)
  have s: "s \<in> rows_of SecretKind db" "set (pm_bindings p) = bound_to db SecretKind (e_id s)"
    "read_identity cipher (env_stored SecretKind (e_id s) db) = Inr (pm_value p)"
    using ok by (simp_all add: move_ok_def s_def)
  have n: "e_id n = i" "e_env n = e_env s" "e_all n = e_all s" "e_enabled n = e_enabled s"
    by (simp_all add: n_def moved_row_def)
  have nobody: "bound_to db VariableKind i = {}" using unbound_absent [OF hk] f(3) by blast
  have reach_n: "reach db' VariableKind n name \<longleftrightarrow> reach db SecretKind s name" for name
    by (simp add: reach_iff n f(5) nobody s(2))
  have reach_s: "reach db' SecretKind r name \<longleftrightarrow> reach db SecretKind r name" if "e_id r \<noteq> e_id s" for r name
    using that by (simp add: reach_iff f(4))
  have reach_v: "reach db' VariableKind r name \<longleftrightarrow> reach db VariableKind r name" if "e_id r \<noteq> i" for r name
    using that by (simp add: reach_iff f(5))
  have others: "r' \<in> rows_of k' db \<and> (\<forall>name. reach db' k' r' name \<longrightarrow> reach db k' r' name)"
    if "r' \<in> rows_of k' db'" "(k', e_id r') \<noteq> (VariableKind, i)" for k' r'
  proof (cases k')
    case SecretKind
    with that show ?thesis unfolding SecretKind f(1) by (simp add: reach_s)
  next
    case VariableKind
    then have "r' \<in> rows_of VariableKind db" "e_id r' \<noteq> i" using that n(1) unfolding VariableKind f(2) by auto
    with VariableKind show ?thesis using reach_v [of r'] by simp
  qed
  have valid: "validate_env_name (e_env s) = Inr ()"
    using hk [of SecretKind] s(1) unfolding half_ok_def rows_of_def by blast
  have "one_value db'"
  proof (rule one_value_change [OF one, of _ VariableKind i])
    fix k' r' assume "r' \<in> rows_of k' db'" "(k', e_id r') \<noteq> (VariableKind, i)"
    then show "r' \<in> rows_of k' db \<and> (\<forall>name. reach db' k' r' name \<longrightarrow> reach db k' r' name)" by (rule others)
  next
    fix k' r r' name
    assume a: "r \<in> rows_of VariableKind db'" "e_id r = i" "reach db' VariableKind r name" "r' \<in> rows_of k' db'"
      "(k', e_id r') \<noteq> (VariableKind, i)" "e_env r' = e_env r"
    have r: "r = n" using a(1,2) f(3) unfolding f(2) by blast
    then have r1: "reach db SecretKind s name" using a(3) reach_n by simp
    note o' = others [OF a(4,5)]
    show "\<not> reach db' k' r' name"
    proof
      assume "reach db' k' r' name"
      with o' have "(SecretKind, e_id s) = (k', e_id r')"
        using one_valueD [OF one s(1) _ r1, of r' k'] a(6) r n(2) by simp
      then show False using a(4) f(1) by auto
    qed
  qed
  then show "env_inv db'" using f(8) inv valid \<open>i \<noteq> []\<close> unfolding env_inv_halves by blast
  have del_n: "delivers cipher db' VariableKind n name v \<longleftrightarrow> delivers cipher db SecretKind s name v"
  proof -
    have "env_stored VariableKind i db' = Some (pm_value p)" by (simp add: f(7))
    moreover obtain enc where "env_stored SecretKind (e_id s) db = Some enc" "clear_value cipher SecretKind enc = Some (pm_value p)"
      using s(3) unfolding read_identity_Inr by blast
    ultimately show ?thesis
      using s(1) unfolding delivers_def f(2) n reach_n by (simp add: clear_value_def [of _ VariableKind])
  qed
  have del_s: "delivers cipher db' SecretKind r name v \<longleftrightarrow> delivers cipher db SecretKind r name v \<and> e_id r \<noteq> e_id s" for r
  proof (cases "e_id r = e_id s")
    case False
    then show ?thesis unfolding delivers_def f(1) f(6) reach_s [OF False] by simp
  qed (simp add: delivers_def f(1))
  have del_v: "delivers cipher db' VariableKind r name v \<longleftrightarrow> delivers cipher db VariableKind r name v \<or>
      r = n \<and> delivers cipher db' VariableKind n name v" for r
  proof (cases "e_id r = i")
    case True
    then have "r \<notin> rows_of VariableKind db" using f(3) by blast
    then show ?thesis unfolding delivers_def f(2) by blast
  next
    case False
    then have "r \<noteq> n" using n(1) by blast
    then show ?thesis using False unfolding delivers_def f(2) f(7) reach_v [OF False] by simp
  qed
  have uniq: "r = s" if "delivers cipher db SecretKind r name v" "e_id r = e_id s" for r
    using row_unique [OF hk _ s(1) that(2)] that(1) unfolding delivers_def by blast
  show "resolves cipher db' name x v \<longleftrightarrow> resolves cipher db name x v"
  proof
    assume "resolves cipher db' name x v"
    then obtain k r where d: "delivers cipher db' k r name v" "e_env r = x" unfolding resolves_def by blast
    show "resolves cipher db name x v"
    proof (cases k)
      case SecretKind
      with d(1) have "delivers cipher db SecretKind r name v" using del_s [of r] by blast
      with d(2) show ?thesis unfolding resolves_def by blast
    next
      case VariableKind
      with d(1) consider "delivers cipher db VariableKind r name v" | "r = n" "delivers cipher db SecretKind s name v"
        using del_v [of r] unfolding del_n by blast
      then show ?thesis
      proof cases
        case 2
        then have "e_env s = x" using d(2) n(2) by simp
        with 2 show ?thesis unfolding resolves_def by blast
      qed (use d(2) in \<open>unfold resolves_def, blast\<close>)
    qed
  next
    assume "resolves cipher db name x v"
    then obtain k r where d: "delivers cipher db k r name v" "e_env r = x" unfolding resolves_def by blast
    show "resolves cipher db' name x v"
    proof (cases "k = SecretKind \<and> e_id r = e_id s")
      case True
      then have "r = s" using uniq d(1) by blast
      then have "delivers cipher db' VariableKind n name v" "e_env n = x"
        using d True unfolding del_n n(2) by simp_all
      then show ?thesis unfolding resolves_def by blast
    next
      case False
      have "delivers cipher db' k r name v"
      proof (cases k)
        case SecretKind
        with False d(1) show ?thesis using del_s [of r] by blast
      next
        case VariableKind
        with d(1) show ?thesis using del_v [of r] by blast
      qed
      with d(2) show ?thesis unfolding resolves_def by blast
    qed
  qed
qed

text \<open>A round for one secret leaves the other pending moves as they were read.\<close>

lemma move_ok_other:
  assumes "move_one i now p db = Some db'" "move_ok cipher db q" "e_id (pm_secret q) \<noteq> e_id (pm_secret p)"
  shows "move_ok cipher db' q"
  using assms move_one_facts(1,4,6) [OF assms(1)] by (simp add: move_ok_def)

section \<open>The batch\<close>

lemma move_all_keeps:
  assumes "env_inv db" "\<forall>p \<in> set ps. move_ok cipher db p" "distinct (List.map (\<lambda>p. e_id (pm_secret p)) ps)"
    and "move_all rnds now ps db = (db', Inr slugs)"
  shows "env_inv db' \<and> (\<forall>name x v. resolves cipher db' name x v \<longleftrightarrow> resolves cipher db name x v) \<and>
    slugs = List.map (\<lambda>p. e_slug (pm_secret p)) ps \<and>
    rows_of SecretKind db' = {r \<in> rows_of SecretKind db. e_id r \<notin> (\<lambda>p. e_id (pm_secret p)) ` set ps}"
  using assms
proof (induction rnds now ps db arbitrary: slugs rule: move_all.induct)
  case (2 rnds now p ps db)
  obtain d1 slugs1 where d1: "move_one (variable_id now (hd rnds)) now p db = Some d1"
    "move_all (tl rnds) now ps d1 = (db', Inr slugs1)" "slugs = e_slug (pm_secret p) # slugs1"
    using 2(5) by (auto split: option.splits prod.splits sum.splits)
  have p: "move_ok cipher db p" using 2(3) by simp
  note k = move_one_keeps [OF 2(2) p d1(1) variable_id_nonempty]
  have "\<forall>q \<in> set ps. move_ok cipher d1 q"
    using 2(3,4) move_ok_other [OF d1(1)] by (auto simp: image_iff)
  from 2(1) [OF d1(1) k(1) this _ d1(2)] 2(4)
  have ih: "env_inv db' \<and> (\<forall>name x v. resolves cipher db' name x v \<longleftrightarrow> resolves cipher d1 name x v) \<and>
    slugs1 = List.map (\<lambda>p. e_slug (pm_secret p)) ps \<and>
    rows_of SecretKind db' = {r \<in> rows_of SecretKind d1. e_id r \<notin> (\<lambda>p. e_id (pm_secret p)) ` set ps}" by simp
  then show ?case using k(2) move_one_facts(1) [OF d1(1)] d1(3) by auto
qed simp

lemma bound_to_list: "set (env_list_bindings k i db) = bound_to db k i"
  by (auto simp: list_bindings_iff bound_to_def)

lemma collect_moves_ok:
  assumes "set cs \<subseteq> rows_of SecretKind db"
  shows "\<forall>p \<in> set (fst (collect_moves cipher db cs)). move_ok cipher db p"
    and "List.map pm_secret (fst (collect_moves cipher db cs)) =
      filter (\<lambda>s. env_get_by_slug VariableKind (e_slug s) db = None \<and>
        is_ok (read_identity cipher (env_stored SecretKind (e_id s) db))) cs"
  using assms
  by (induction cs)
    (auto simp: Let_def case_prod_beta move_ok_def bound_to_list is_ok_def split: sum.splits)

text \<open>The rows that move: identity rows whose value can be read and whose slug no variable has.\<close>

definition movable :: "field_cipher option \<Rightarrow> env_db \<Rightarrow> env_row list" where
  "movable cipher db =
     filter (\<lambda>s. env_get_by_slug VariableKind (e_slug s) db = None \<and>
       is_ok (read_identity cipher (env_stored SecretKind (e_id s) db)))
     (filter (\<lambda>s. e_env s \<in> set identity_env_names) (env_list SecretKind db))"

lemma migrate_cases:
  fixes cipher db
  defines "cs \<equiv> filter (\<lambda>s. e_env s \<in> set identity_env_names) (env_list SecretKind db)"
  defines "ps \<equiv> fst (collect_moves cipher db cs)"
  assumes m: "migrate_identity_to_variables cipher rnds now db = (db', res)"
  obtains "db' = db" "mr_migrated res = []"
  | "move_all rnds now ps db = (db', Inr (mr_migrated res))"
proof (cases "length cs = 0 \<or> length ps = 0")
  case True
  then have "db' = db" "mr_migrated res = []"
    using m unfolding migrate_identity_to_variables_def cs_def [symmetric] Let_def case_prod_beta ps_def [symmetric]
    by (auto split: if_splits)
  then show ?thesis by (rule that(1))
next
  case False
  then have eq: "(db', res) = (case run_in_transaction (move_all rnds now ps) db of
       (d, Inl _) \<Rightarrow> (d, \<lparr>mr_migrated = [], mr_skipped = snd (collect_moves cipher db cs), mr_noop = False\<rparr>)
     | (d, Inr slugs) \<Rightarrow> (d, \<lparr>mr_migrated = slugs, mr_skipped = snd (collect_moves cipher db cs), mr_noop = False\<rparr>))"
    unfolding m [symmetric] migrate_identity_to_variables_def cs_def [symmetric] Let_def
    by (simp add: case_prod_unfold ps_def)
  show ?thesis
  proof (cases "snd (run_in_transaction (move_all rnds now ps) db)")
    case (Inl e)
    then have "fst (run_in_transaction (move_all rnds now ps) db) = db" by (rule run_in_transaction_rollback)
    with Inl eq show ?thesis by (intro that(1)) (simp_all add: case_prod_unfold)
  next
    case (Inr slugs)
    then have "run_in_transaction (move_all rnds now ps) db = (fst (run_in_transaction (move_all rnds now ps) db), Inr slugs)"
      by (metis prod.collapse)
    then have "move_all rnds now ps db = (fst (run_in_transaction (move_all rnds now ps) db), Inr slugs)"
      unfolding run_in_transaction_commit .
    with Inr eq show ?thesis by (intro that(2)) (simp add: case_prod_unfold)
  qed
qed

lemma movable_rows: "set (movable cipher db) \<subseteq> rows_of SecretKind db"
  by (auto simp: movable_def env_list_def rows_of_def)

lemma distinct_movable:
  assumes "half_ok (half SecretKind db)"
  shows "distinct (List.map e_id (movable cipher db))"
proof -
  have "mset (List.map e_id (env_list SecretKind db)) = mset (List.map e_id (h_rows (half SecretKind db)))"
    by (simp add: env_list_def order_asc_def)
  from mset_eq_imp_distinct_iff [OF this] have "distinct (List.map e_id (env_list SecretKind db))"
    using assms unfolding half_ok_def by blast
  then show ?thesis unfolding movable_def by (intro distinct_map_filter)
qed

lemma migrate_keeps:
  assumes inv: "env_inv db" and m: "migrate_identity_to_variables cipher rnds now db = (db', res)"
  shows "env_inv db' \<and> (\<forall>name x v. resolves cipher db' name x v \<longleftrightarrow> resolves cipher db name x v) \<and>
    (db' = db \<and> mr_migrated res = [] \<or>
      mr_migrated res = List.map e_slug (movable cipher db) \<and>
      rows_of SecretKind db' = {r \<in> rows_of SecretKind db. r \<notin> set (movable cipher db)})"
proof (rule migrate_cases [OF m])
  define cs where "cs = filter (\<lambda>s. e_env s \<in> set identity_env_names) (env_list SecretKind db)"
  define ps where "ps = fst (collect_moves cipher db cs)"
  have hk: "half_ok (half SecretKind db)" using inv unfolding env_inv_halves by blast
  have sub: "set cs \<subseteq> rows_of SecretKind db" by (auto simp: cs_def env_list_def rows_of_def)
  note c = collect_moves_ok [OF sub, of cipher, folded ps_def]
  have mv: "List.map pm_secret ps = movable cipher db" unfolding c(2) movable_def cs_def ..
  assume "move_all rnds now (fst (collect_moves cipher db (filter (\<lambda>s. e_env s \<in> set identity_env_names)
    (env_list SecretKind db)))) db = (db', Inr (mr_migrated res))"
  then have ma: "move_all rnds now ps db = (db', Inr (mr_migrated res))" unfolding ps_def cs_def .
  have ids: "List.map (\<lambda>p. e_id (pm_secret p)) ps = List.map e_id (movable cipher db)"
    "List.map (\<lambda>p. e_slug (pm_secret p)) ps = List.map e_slug (movable cipher db)"
    unfolding mv [symmetric] by simp_all
  have d: "distinct (List.map (\<lambda>p. e_id (pm_secret p)) ps)" unfolding ids by (rule distinct_movable [OF hk])
  note k = move_all_keeps [OF inv c(1) d ma, unfolded ids]
  have "(\<lambda>p. e_id (pm_secret p)) ` set ps = e_id ` set (movable cipher db)"
    using arg_cong [OF ids(1), of set] by simp
  moreover have "e_id r \<in> e_id ` set (movable cipher db) \<longleftrightarrow> r \<in> set (movable cipher db)"
    if r: "r \<in> rows_of SecretKind db" for r
  proof
    assume "e_id r \<in> e_id ` set (movable cipher db)"
    then obtain y where y: "y \<in> set (movable cipher db)" "e_id r = e_id y" by blast
    then have "r = y" using movable_rows row_unique [OF hk r] by blast
    with y show "r \<in> set (movable cipher db)" by simp
  qed (rule imageI)
  ultimately show ?thesis using k by auto
qed (use inv in simp)

end
