(* ===== verification/EnvTheorems.thy ===== *)
theory EnvTheorems
  imports EnvMove
begin

text \<open>
  Runs of the two stores and the boot migration, what the runner's environment delta is after any run,
  and the properties, each with a concrete instance of its hypotheses.
\<close>

section \<open>Runs\<close>

text \<open>\<open>crypto.randomUUID()\<close> is not the empty string.\<close>

inductive env_step :: "field_cipher option \<Rightarrow> env_db \<Rightarrow> env_db \<Rightarrow> bool" for cipher where
  step_secret: "uuid \<noteq> [] \<Longrightarrow> env_step cipher db (fst (secrets_create input uuid now db))"
| step_variable: "env_step cipher db (fst (variables_create input rnd now db))"
| step_secret_update: "env_step cipher db (fst (secrets_update i patch now db))"
| step_variable_update: "env_step cipher db (fst (variables_update i patch now db))"
| step_secret_delete: "env_step cipher db (fst (secrets_delete i db))"
| step_variable_delete: "env_step cipher db (fst (variables_delete i db))"
| step_secret_bind: "env_step cipher db (fst (secrets_bind i name now db))"
| step_variable_bind: "env_step cipher db (fst (variables_bind i name now db))"
| step_secret_unbind: "env_step cipher db (fst (secrets_unbind i name db))"
| step_variable_unbind: "env_step cipher db (fst (variables_unbind i name db))"
| step_secret_value: "env_step cipher db (fst (secrets_set_value cipher i v now db))"
| step_variable_value: "env_step cipher db (fst (variables_set_value i v now db))"
| step_secret_drop: "env_step cipher db (fst (secrets_delete_value i db))"
| step_variable_drop: "env_step cipher db (fst (variables_delete_value i db))"
| step_migrate: "env_step cipher db (fst (migrate_identity_to_variables cipher rnds now db))"

lemmas store_defs = secrets_update_def variables_update_def secrets_delete_def variables_delete_def
  secrets_bind_def variables_bind_def secrets_unbind_def variables_unbind_def
  secrets_delete_value_def variables_delete_value_def

lemma set_value_cases:
  "fst (secrets_set_value cipher i v now db) = db \<or>
    (\<exists>c enc. cipher = Some c \<and> encrypt c v = Some enc \<and> env_get SecretKind i db \<noteq> None \<and>
       fst (secrets_set_value cipher i v now db) = upd_half SecretKind (env_upsert_value i enc now) db)"
  "fst (variables_set_value i v now db) = db \<or>
    (env_get VariableKind i db \<noteq> None \<and>
       fst (variables_set_value i v now db) = upd_half VariableKind (env_upsert_value i v now) db)"
  unfolding secrets_set_value_def variables_set_value_def by (auto split: option.splits)

lemma env_step_inv: "env_step cipher db db' \<Longrightarrow> env_inv db \<Longrightarrow> env_inv db'"
proof (induction rule: env_step.induct)
  case (step_secret_value db i v now)
  then show ?case using set_value_cases(1) [of cipher i v now db] env_inv_upsert [of db SecretKind i _ now] by auto
next
  case (step_variable_value db i v now)
  then show ?case using set_value_cases(2) [of i v now db] env_inv_upsert [of db VariableKind i v now] by auto
next
  case (step_migrate db rnds now)
  then show ?case
    using migrate_keeps [of db cipher rnds now "fst (migrate_identity_to_variables cipher rnds now db)"] by (metis prod.collapse)
qed (simp_all add: store_defs env_inv_secrets_create env_inv_variables_create env_inv_update env_inv_delete env_inv_bind
    env_inv_unbind env_inv_drop_value)

interpretation env_system: invariant_system "env_step cipher" env_inv for cipher
  by unfold_locales (rule env_step_inv)

lemma env_inv_schema: "env_inv env_namespace_schema"
  by (simp add: env_inv_def env_namespace_schema_def empty_half_def half_ok_def one_value_def rows_of_def all_kinds)

section \<open>Stored secret values are sealed\<close>

definition sealed :: "field_cipher \<Rightarrow> env_db \<Rightarrow> bool" where
  "sealed c db \<longleftrightarrow> (\<forall>v \<in> set (h_values (secret_half db)). \<exists>clear. encrypt c clear = Some (ev_value v))"

definition secret_values :: "env_db \<Rightarrow> string set" where
  "secret_values db = ev_value ` set (h_values (secret_half db))"

lemma sealed_iff: "sealed c db \<longleftrightarrow> secret_values db \<subseteq> {enc. \<exists>clear. encrypt c clear = Some enc}"
  by (auto simp: sealed_def secret_values_def)

lemma secret_values_upsert:
  "secret_values (upd_half SecretKind (env_upsert_value i enc now) db) \<subseteq> insert enc (secret_values db)"
  by (auto simp: secret_values_def env_upsert_value_def set_sql_update)

lemma secret_values_variable [simp]: "secret_values (db\<lparr>variable_half := h\<rparr>) = secret_values db"
  by (simp add: secret_values_def)

lemma secret_values_update: "secret_values (fst (env_update k i patch now db)) = secret_values db"
proof (cases "fst (env_update k i patch now db) = db")
  case False
  then show ?thesis
    by (rule env_update_cases) (cases k, simp_all add: secret_values_def env_update_row_def)
qed simp

lemma secret_values_delete: "secret_values (fst (env_delete k i db)) \<subseteq> secret_values db"
  by (cases k) (auto simp: env_delete_def run_in_transaction_def secret_values_def env_delete_row_def
      env_delete_value_def env_delete_bindings_def split: option.splits)

lemma secret_values_bind: "secret_values (fst (env_bind k i name now db)) = secret_values db"
  by (cases k) (auto simp: env_bind_def secret_values_def env_insert_binding_def split: option.splits)

lemma secret_values_unbind: "secret_values (fst (env_unbind k i name db)) = secret_values db"
  by (cases k) (auto simp: env_unbind_def secret_values_def env_delete_binding_def)

lemma secret_values_drop: "secret_values (fst (env_drop_value k i db)) \<subseteq> secret_values db"
  by (cases k) (auto simp: env_drop_value_def secret_values_def env_delete_value_def)

lemma secret_values_create: "secret_values (fst (secrets_create input uuid now db)) = secret_values db"
  by (auto simp: secrets_create_def secret_values_def Let_def env_insert_Some split: sum.splits option.splits)

lemma secret_values_create_variable: "secret_values (fst (variables_create input rnd now db)) = secret_values db"
  by (auto simp: variables_create_def secret_values_def Let_def split: sum.splits option.splits)

lemma secret_values_move_one: "move_one i now p db = Some db' \<Longrightarrow> secret_values db' \<subseteq> secret_values db"
  by (auto simp: move_one_def secret_values_def Let_def env_delete_row_def env_delete_value_def env_delete_bindings_def
      split: option.splits)

lemma secret_values_move_all: "move_all rnds now ps db = (db', r) \<Longrightarrow> secret_values db' \<subseteq> secret_values db"
  by (induction rnds now ps db arbitrary: r rule: move_all.induct)
    (auto split: option.splits prod.splits sum.splits dest!: secret_values_move_one)

lemma secret_values_migrate: "secret_values (fst (migrate_identity_to_variables cipher rnds now db)) \<subseteq> secret_values db"
proof (cases "migrate_identity_to_variables cipher rnds now db")
  case (Pair db' res)
  then show ?thesis by (rule migrate_cases) (auto dest: secret_values_move_all simp: Pair)
qed

lemma env_step_secret_values:
  "env_step cipher db db' \<Longrightarrow>
   secret_values db' \<subseteq> secret_values db \<union> {enc. \<exists>c clear. cipher = Some c \<and> encrypt c clear = Some enc}"
proof (induction rule: env_step.induct)
  case (step_secret_value db i v now)
  then show ?case using set_value_cases(1) [of cipher i v now db] secret_values_upsert [of i _ now db] by fastforce
next
  case (step_variable_value db i v now)
  then show ?case using set_value_cases(2) [of i v now db] by auto
next
  case (step_migrate db rnds now)
  then show ?case using secret_values_migrate by blast
qed (auto simp: store_defs secret_values_update secret_values_bind secret_values_unbind secret_values_create
      secret_values_create_variable dest: subsetD [OF secret_values_delete] subsetD [OF secret_values_drop])

interpretation env_sealed: invariant_system "env_step (Some c)" "sealed c" for c
proof unfold_locales
  show "env_step (Some c) s t \<Longrightarrow> sealed c s \<Longrightarrow> sealed c t" for s t
    using env_step_secret_values [of "Some c" s t] unfolding sealed_iff by auto
qed

section \<open>The delta of a member\<close>

definition row_value :: "field_cipher option \<Rightarrow> env_db \<Rightarrow> env_kind \<Rightarrow> env_row \<Rightarrow> string option" where
  "row_value cipher db k r = Option.bind (env_stored k (e_id r) db) (clear_value cipher k)"

lemma delivers_row_value:
  "delivers cipher db k r name v \<longleftrightarrow> r \<in> set (env_list_for_member k name db) \<and> row_value cipher db k r = Some v"
  by (auto simp: delivers_def env_list_for_member_def rows_of_def reach_def row_value_def bind_eq_Some_conv)

lemma secrets_resolve_step:
  assumes "secrets_resolve_rows cipher db (s # rest) env = Inr out"
  shows "secrets_resolve_rows cipher db rest
     (case row_value cipher db SecretKind s of None \<Rightarrow> env | Some v \<Rightarrow> AList.update (e_env s) v env) = Inr out"
  using assms by (auto simp: row_value_def clear_value_def split: option.splits sum.splits)

lemma secrets_resolve_rows_spec:
  assumes "secrets_resolve_rows cipher db rs env = Inr out" "distinct (List.map e_env rs)"
  shows "map_of out n = Some v \<longleftrightarrow>
    (\<exists>r \<in> set rs. e_env r = n \<and> row_value cipher db SecretKind r = Some v) \<or>
    \<not> (\<exists>r \<in> set rs. e_env r = n \<and> row_value cipher db SecretKind r \<noteq> None) \<and> map_of env n = Some v"
  using assms
proof (induction rs arbitrary: env)
  case (Cons s rs)
  have later: "e_env r = e_env s \<Longrightarrow> r \<notin> set rs" for r
    using Cons.prems(2) by (metis distinct.simps(2) image_eqI list.map(2) set_map)
  from Cons.IH [OF secrets_resolve_step [OF Cons.prems(1)]] Cons.prems(2)
  show ?case using later by (cases "row_value cipher db SecretKind s") (auto simp: update_conv)
qed simp

lemma variables_resolve_rows_spec:
  assumes "distinct (List.map e_env rs)"
  shows "map_of (fold (\<lambda>r env. case env_stored VariableKind (e_id r) db of
       None \<Rightarrow> env | Some v \<Rightarrow> AList.update (e_env r) v env) rs env) n = Some v \<longleftrightarrow>
    (\<exists>r \<in> set rs. e_env r = n \<and> row_value cipher db VariableKind r = Some v) \<or>
    \<not> (\<exists>r \<in> set rs. e_env r = n \<and> row_value cipher db VariableKind r \<noteq> None) \<and> map_of env n = Some v"
  using assms
proof (induction rs arbitrary: env)
  case (Cons s rs)
  have later: "e_env r = e_env s \<Longrightarrow> r \<notin> set rs" for r
    using Cons.prems by (metis distinct.simps(2) image_eqI list.map(2) set_map)
  have "row_value cipher db VariableKind s = env_stored VariableKind (e_id s) db"
    by (cases "env_stored VariableKind (e_id s) db") (simp_all add: row_value_def clear_value_def)
  with Cons later show ?case by (cases "env_stored VariableKind (e_id s) db") (auto simp: update_conv)
qed simp

lemma list_for_member_distinct:
  assumes "env_inv db"
  shows "distinct (List.map e_env (env_list_for_member k name db))"
proof -
  have hk: "half_ok (half k db)" and one: "one_value db" using assms unfolding env_inv_halves by blast+
  let ?rs = "env_list_for_member k name db"
  have rs: "r \<in> rows_of k db \<and> reach db k r name" if "r \<in> set ?rs" for r
    using that by (auto simp: env_list_for_member_def rows_of_def reach_def)
  have "mset ?rs = mset (filter (\<lambda>r. e_enabled r \<and> reaches_member (half k db) name r) (h_rows (half k db)))"
    by (simp add: env_list_for_member_def order_asc_def sql_all_def)
  then have "distinct ?rs"
    using hk mset_eq_imp_distinct_iff distinct_filter distinct_map unfolding half_ok_def by blast
  moreover have "inj_on e_env (set ?rs)"
  proof (rule inj_onI)
    fix r r' assume a: "r \<in> set ?rs" "r' \<in> set ?rs" "e_env r = e_env r'"
    then have "(k, e_id r) = (k, e_id r')" using rs one_valueD [OF one] by blast
    then show "r = r'" using row_unique [OF hk] rs a by blast
  qed
  ultimately show ?thesis by (simp add: distinct_map)
qed

lemma secrets_resolve_spec:
  assumes "env_inv db" "secrets_resolve_for cipher name db = Inr env"
  shows "map_of env n = Some v \<longleftrightarrow> (\<exists>r. delivers cipher db SecretKind r name v \<and> e_env r = n)"
  using secrets_resolve_rows_spec [OF assms(2) [unfolded secrets_resolve_for_def] list_for_member_distinct [OF assms(1)], of n v]
  unfolding delivers_row_value by auto

lemma variables_resolve_spec:
  assumes "env_inv db"
  shows "map_of (variables_resolve_for name db) n = Some v \<longleftrightarrow> (\<exists>r. delivers cipher db VariableKind r name v \<and> e_env r = n)"
  using variables_resolve_rows_spec [OF list_for_member_distinct [OF assms], where env = "[]" and cipher = cipher]
  unfolding delivers_row_value variables_resolve_for_def by auto

lemma variables_resolve_keys: "distinct (List.map fst (variables_resolve_for name db))"
proof -
  have "distinct (List.map fst env) \<Longrightarrow> distinct (List.map fst (fold (\<lambda>r env. case env_stored VariableKind (e_id r) db of
       None \<Rightarrow> env | Some v \<Rightarrow> AList.update (e_env r) v env) rs env))" for rs env
    by (induction rs arbitrary: env) (auto split: option.splits simp: distinct_update)
  from this [of "[]"] show ?thesis unfolding variables_resolve_for_def by simp
qed

lemma map_of_merge:
  "distinct (List.map fst ve) \<Longrightarrow> map_of (fold (\<lambda>(n, v). AList.update n v) ve se) = map_of se ++ map_of ve"
proof (induction ve arbitrary: se)
  case (Cons p ve)
  have "map_of ve (fst p) = None" using Cons.prems by (simp add: map_of_eq_None_iff)
  with Cons show ?case by (cases p) (auto simp: update_conv' map_add_def fun_eq_iff split: option.splits)
qed simp

lemma resolve_endpoint_spec:
  assumes inv: "env_inv db"
  shows "(\<forall>e. secrets_resolve_for cipher name db = Inl e \<longrightarrow> secrets_resolve_endpoint cipher name db = Inl e) \<and>
    (\<forall>se. secrets_resolve_for cipher name db = Inr se \<longrightarrow>
      (\<exists>env. secrets_resolve_endpoint cipher name db = Inr (env, List.map fst se) \<and>
        (\<forall>n v. map_of env n = Some v \<longleftrightarrow> resolves cipher db name n v)))"
proof (intro conjI allI impI)
  fix se assume se: "secrets_resolve_for cipher name db = Inr se"
  let ?ve = "variables_resolve_for name db"
  have one: "one_value db" using inv unfolding env_inv_halves by blast
  have disj: "\<not> (map_of se n = Some v \<and> map_of ?ve n = Some v')" for n v v'
  proof
    assume "map_of se n = Some v \<and> map_of ?ve n = Some v'"
    then obtain r r' where r: "delivers cipher db SecretKind r name v" "e_env r = n"
      "delivers cipher db VariableKind r' name v'" "e_env r' = n"
      unfolding secrets_resolve_spec [OF inv se] variables_resolve_spec [OF inv, of name n v' cipher] by blast
    then have "(SecretKind, e_id r) = (VariableKind, e_id r')"
      using one_valueD [OF one, of r SecretKind r' VariableKind name] unfolding delivers_def by simp
    then show False by simp
  qed
  have none: "filter (\<lambda>n. n \<in> fst ` set se) (List.map fst ?ve) = []"
  proof -
    have "n \<notin> fst ` set se" if "n \<in> fst ` set ?ve" for n
    proof
      assume "n \<in> fst ` set se"
      then obtain v v' where "map_of se n = Some v" "map_of ?ve n = Some v'"
        using \<open>n \<in> fst ` set ?ve\<close> by (metis dom_map_of_conv_image_fst domD)
      then show False using disj by blast
    qed
    then show ?thesis by (auto simp: filter_empty_conv)
  qed
  let ?env = "fold (\<lambda>(n, v). AList.update n v) ?ve se"
  have "secrets_resolve_endpoint cipher name db = Inr (?env, List.map fst se)"
    by (simp add: secrets_resolve_endpoint_def se none)
  moreover have "map_of ?env n = Some v \<longleftrightarrow> resolves cipher db name n v" for n v
  proof -
    have "map_of ?env n = Some v \<longleftrightarrow> map_of se n = Some v \<or> map_of ?ve n = Some v"
      unfolding map_of_merge [OF variables_resolve_keys] map_add_def
      using disj [of n] by (cases "map_of ?ve n"; cases "map_of se n") auto
    also have "\<dots> \<longleftrightarrow> resolves cipher db name n v"
      unfolding secrets_resolve_spec [OF inv se] variables_resolve_spec [OF inv, of name n v cipher] resolves_def
      using all_kinds [of "\<lambda>k. \<forall>r. \<not> (delivers cipher db k r name v \<and> e_env r = n)"] by blast
    finally show ?thesis .
  qed
  ultimately show "\<exists>env. secrets_resolve_endpoint cipher name db = Inr (env, List.map fst se) \<and>
      (\<forall>n v. map_of env n = Some v \<longleftrightarrow> resolves cipher db name n v)" by blast
qed (simp add: secrets_resolve_endpoint_def)

section \<open>Properties\<close>

text \<open>
  C3. One environment, one value: after any run of the two stores and the boot migration from the empty
  schema, no member is reached by two rows with one environment name, whether both are secrets, both are
  variables or one of each; and no row of either store has a reserved or malformed name.
\<close>
theorem env_one_row_per_name:
  assumes "rtranclp (env_step cipher) env_namespace_schema db"
    and "r \<in> rows_of k db" and "r' \<in> rows_of k' db" and "e_env r = e_env r'"
    and "reach db k r name" and "reach db k' r' name"
  shows "k = k' \<and> r = r' \<and> env_name_pattern (e_env r) \<and> \<not> is_reserved_env_name (e_env r)"
proof -
  from env_system.run_preserved [OF assms(1) env_inv_schema] have inv: "env_inv db" .
  then have hk: "half_ok (half k db)" and one: "one_value db" unfolding env_inv_halves by blast+
  from one_valueD [OF one assms(2,3,5,6,4)] have "k = k'" "e_id r = e_id r'" by simp_all
  moreover from this have "r = r'" using row_unique [OF hk] assms(2,3) by blast
  moreover have "validate_env_name (e_env r) = Inr ()" using hk assms(2) unfolding half_ok_def rows_of_def by blast
  ultimately show ?thesis by (auto simp: validate_env_name_def split: if_splits)
qed

definition demo_create :: "string \<Rightarrow> string \<Rightarrow> bool option \<Rightarrow> env_create" where
  "demo_create slug env all_members =
     \<lparr>ec_slug = slug, ec_env = env, ec_description = None, ec_all = all_members, ec_enabled = None, ec_creator = ''ada''\<rparr>"

definition demo_cipher :: field_cipher where
  "demo_cipher = \<lparr>encrypt = (\<lambda>s. Some (''enc-v1:'' @ s)), decrypt = (\<lambda>s. Inr (Some (drop 7 s)))\<rparr>"

definition demo_env1 :: env_db where
  "demo_env1 = fst (secrets_create (demo_create ''ada-token'' ''GITHUB_TOKEN'' None) ''s1'' 1 env_namespace_schema)"
definition demo_env2 :: env_db where "demo_env2 = fst (secrets_bind ''s1'' ''ada'' 2 demo_env1)"
definition demo_env3 :: env_db where
  "demo_env3 = fst (secrets_create (demo_create ''git-name'' ''GIT_AUTHOR_NAME'' (Some True)) ''s2'' 3 demo_env2)"
definition demo_env4 :: env_db where
  "demo_env4 = fst (secrets_set_value (Some demo_cipher) ''s2'' ''Ada'' 4 demo_env3)"

lemma demo_env_run: "rtranclp (env_step (Some demo_cipher)) env_namespace_schema demo_env4"
proof -
  have "env_step (Some demo_cipher) env_namespace_schema demo_env1" unfolding demo_env1_def by (rule step_secret) simp
  moreover have "env_step (Some demo_cipher) demo_env1 demo_env2" unfolding demo_env2_def by (rule step_secret_bind)
  moreover have "env_step (Some demo_cipher) demo_env2 demo_env3" unfolding demo_env3_def by (rule step_secret) simp
  moreover have "env_step (Some demo_cipher) demo_env3 demo_env4" unfolding demo_env4_def by (rule step_secret_value)
  ultimately show ?thesis by (meson converse_rtranclp_into_rtranclp rtranclp.rtrancl_refl)
qed

definition demo_secret :: env_row where
  "demo_secret = \<lparr>e_id = ''s2'', e_slug = ''git-name'', e_env = ''GIT_AUTHOR_NAME'', e_description = [], e_enabled = True,
     e_all = True, e_created_by = ''ada'', e_created_at = 3, e_updated_at = 3\<rparr>"

lemma demo_env4_secret: "secret_half demo_env4 =
    \<lparr>h_rows = [\<lparr>e_id = ''s1'', e_slug = ''ada-token'', e_env = ''GITHUB_TOKEN'', e_description = [], e_enabled = True,
       e_all = False, e_created_by = ''ada'', e_created_at = 1, e_updated_at = 1\<rparr>, demo_secret],
     h_bindings = [\<lparr>eb_row = ''s1'', eb_member = ''ada'', eb_created_at = 2\<rparr>],
     h_values = [\<lparr>ev_row = ''s2'', ev_value = ''enc-v1:Ada'', ev_created_at = 4, ev_updated_at = 4\<rparr>]\<rparr>"
  by code_simp

lemma demo_env4_delivers: "delivers (Some demo_cipher) demo_env4 SecretKind demo_secret ''bob'' ''Ada''"
  by (simp add: delivers_def rows_of_def demo_env4_secret reach_def reaches_member_def demo_secret_def env_stored_def
      sql_get_def clear_value_def demo_cipher_def)

lemma demo_env4_resolves: "resolves (Some demo_cipher) demo_env4 ''bob'' ''GIT_AUTHOR_NAME'' ''Ada''"
  unfolding resolves_def using demo_env4_delivers by (force simp: demo_secret_def)

theorem env_one_row_per_name_witness:
  "reach demo_env4 SecretKind demo_secret ''bob'' \<and> env_name_pattern (e_env demo_secret) \<and>
   \<not> is_reserved_env_name (e_env demo_secret)"
proof -
  have r: "demo_secret \<in> rows_of SecretKind demo_env4" "reach demo_env4 SecretKind demo_secret ''bob''"
    using demo_env4_delivers unfolding delivers_def by blast+
  from env_one_row_per_name [OF demo_env_run r(1) r(1) refl r(2,2)] r(2) show ?thesis by blast
qed

text \<open>
  C0. What the runner gets: after any run, \<open>GET /secrets/resolve\<close> never refuses for a collision between
  the stores. When the secrets resolve, the delta maps each environment name to the value of the one
  enabled row that reaches the member under it, and to nothing else; when they do not, it fails the same way.
\<close>
theorem env_delta_exact:
  assumes "rtranclp (env_step cipher) env_namespace_schema db"
  shows "(\<forall>e. secrets_resolve_for cipher name db = Inl e \<longrightarrow> secrets_resolve_endpoint cipher name db = Inl e) \<and>
    (\<forall>se. secrets_resolve_for cipher name db = Inr se \<longrightarrow>
      (\<exists>env. secrets_resolve_endpoint cipher name db = Inr (env, List.map fst se) \<and>
        (\<forall>n v. map_of env n = Some v \<longleftrightarrow> resolves cipher db name n v)))"
  by (rule resolve_endpoint_spec [OF env_system.run_preserved [OF assms env_inv_schema]])

theorem env_delta_exact_witness:
  "\<exists>env names. secrets_resolve_endpoint (Some demo_cipher) ''bob'' demo_env4 = Inr (env, names) \<and>
     map_of env ''GIT_AUTHOR_NAME'' = Some ''Ada''"
proof -
  have se: "secrets_resolve_for (Some demo_cipher) ''bob'' demo_env4 = Inr [(''GIT_AUTHOR_NAME'', ''Ada'')]" by code_simp
  with env_delta_exact [OF demo_env_run, of "''bob''"] se demo_env4_resolves show ?thesis by blast
qed

text \<open>
  C0. Secret values are sealed at rest: with an active key every stored secret value, after any run, is
  an output of its cipher; without one no run stores any. Setting a value without a key fails with
  \<open>no_kek\<close> and leaves the database as it was.
\<close>
theorem secrets_sealed_at_rest:
  assumes "rtranclp (env_step cipher) env_namespace_schema db"
  shows "secret_values db \<subseteq> {enc. \<exists>c clear. cipher = Some c \<and> encrypt c clear = Some enc} \<and>
    (env_get SecretKind i db \<noteq> None \<and> 0 < length v \<and> length v \<le> 32768 \<longrightarrow>
       secrets_set_value None i v now db = (db, Inl (SecretsError EnvNoKek)))"
proof
  have "rtranclp (env_step cipher) env_namespace_schema db \<Longrightarrow>
      secret_values db \<subseteq> {enc. \<exists>c clear. cipher = Some c \<and> encrypt c clear = Some enc}"
  proof (induction rule: rtranclp_induct)
    case base
    then show ?case by (simp add: secret_values_def env_namespace_schema_def empty_half_def)
  next
    case (step y z)
    then show ?case using env_step_secret_values [OF step(2)] by blast
  qed
  then show "secret_values db \<subseteq> {enc. \<exists>c clear. cipher = Some c \<and> encrypt c clear = Some enc}" using assms .
  show "env_get SecretKind i db \<noteq> None \<and> 0 < length v \<and> length v \<le> 32768 \<longrightarrow>
       secrets_set_value None i v now db = (db, Inl (SecretsError EnvNoKek))"
    by (auto simp: secrets_set_value_def value_max_def)
qed

theorem secrets_sealed_at_rest_witness:
  "secret_values demo_env4 = {''enc-v1:Ada''} \<and>
   secrets_set_value None ''s2'' ''Eve'' 9 demo_env4 = (demo_env4, Inl (SecretsError EnvNoKek)) \<and>
   (\<exists>clear. encrypt demo_cipher clear = Some ''enc-v1:Ada'')"
proof -
  have g: "env_get SecretKind ''s2'' demo_env4 \<noteq> None \<and> 0 < length ''Eve'' \<and> length ''Eve'' \<le> 32768" by code_simp
  have "secret_values demo_env4 = {''enc-v1:Ada''}" by (simp add: secret_values_def demo_env4_secret)
  with secrets_sealed_at_rest [OF demo_env_run, of "''s2''" "''Eve''" 9] g show ?thesis by blast
qed

text \<open>
  C20. The boot migration loses nothing: every member resolves, name for name, the values it resolved
  before, and the invariant holds. It is all or nothing: either the database is unchanged and no slug is
  reported, or exactly the movable identity secrets left the secrets store and their slugs are reported in order.
\<close>
theorem env_migration_preserves_resolution:
  assumes "rtranclp (env_step cipher) env_namespace_schema db"
    and "migrate_identity_to_variables cipher rnds now db = (db', res)"
  shows "(\<forall>name n v. resolves cipher db' name n v \<longleftrightarrow> resolves cipher db name n v) \<and> env_inv db' \<and>
    (db' = db \<and> mr_migrated res = [] \<or>
      mr_migrated res = List.map e_slug (movable cipher db) \<and>
      rows_of SecretKind db' = {r \<in> rows_of SecretKind db. r \<notin> set (movable cipher db)})"
  using migrate_keeps [OF env_system.run_preserved [OF assms(1) env_inv_schema] assms(2)] by blast

theorem env_migration_preserves_resolution_witness:
  "\<exists>db' res. migrate_identity_to_variables (Some demo_cipher) [''k3x''] 9 demo_env4 = (db', res) \<and>
     mr_migrated res = [''git-name''] \<and> resolves (Some demo_cipher) db' ''bob'' ''GIT_AUTHOR_NAME'' ''Ada''"
proof -
  obtain db' res where m: "migrate_identity_to_variables (Some demo_cipher) [''k3x''] 9 demo_env4 = (db', res)"
    by (cases "migrate_identity_to_variables (Some demo_cipher) [''k3x''] 9 demo_env4")
  have "mr_migrated (snd (migrate_identity_to_variables (Some demo_cipher) [''k3x''] 9 demo_env4)) = [''git-name'']"
    by code_simp
  then have s: "mr_migrated res = [''git-name'']" by (simp add: m)
  have "resolves (Some demo_cipher) db' ''bob'' ''GIT_AUTHOR_NAME'' ''Ada''"
    using demo_env4_resolves env_migration_preserves_resolution [OF demo_env_run m] by blast
  with m s show ?thesis by blast
qed

text \<open>Another row of either store delivers the name to the member.\<close>

definition rival_reaches :: "env_db \<Rightarrow> string \<Rightarrow> env_kind \<Rightarrow> string \<Rightarrow> string \<Rightarrow> bool" where
  "rival_reaches db n k i name \<longleftrightarrow>
     (\<exists>k'. \<exists>r \<in> rows_of k' db. e_env r = n \<and> (k', e_id r) \<noteq> (k, i) \<and> reach db k' r name)"

lemma rival_reaches_iff: "find_env_rival_for_member db n k i name \<noteq> None \<longleftrightarrow> rival_reaches db n k i name"
  unfolding no_rival_for_member rival_reaches_def by (simp only: not_all not_imp Bex_def Ball_def not_not conj_assoc)

text \<open>
  C0. Binding decides exactly: an unknown row is \<open>not_found\<close>; a member already reached by another row of
  either store under the same environment name is \<open>env_taken\<close>, with nothing changed; otherwise the
  call succeeds, the member is reached by the row, and nobody else's reach changes.
\<close>
theorem env_bind_decides:
  "(env_get k i db = None \<longrightarrow> env_bind k i name now db = (db, Inl (SecretsError EnvNotFound))) \<and>
    (\<forall>row. env_get k i db = Some row \<longrightarrow>
      (rival_reaches db (e_env row) k i name \<longrightarrow> env_bind k i name now db = (db, Inl (SecretsError EnvTaken))) \<and>
      (\<not> rival_reaches db (e_env row) k i name \<longrightarrow> (\<exists>db'. env_bind k i name now db = (db', Inr ()) \<and>
         (\<forall>k' r n. reach db' k' r n \<longleftrightarrow> reach db k' r n \<or> k' = k \<and> e_id r = i \<and> n = name) \<and>
         (\<forall>k'. rows_of k' db' = rows_of k' db))))"
proof (cases "env_get k i db")
  case None
  then show ?thesis by (simp add: env_bind_def)
next
  case (Some row)
  let ?db = "upd_half k (env_insert_binding i name now) db"
  have eff: "(\<forall>k' r n. reach ?db k' r n \<longleftrightarrow> reach db k' r n \<or> k' = k \<and> e_id r = i \<and> n = name) \<and>
     (\<forall>k'. rows_of k' ?db = rows_of k' db)"
  proof (intro conjI allI)
    show "reach ?db k' r n \<longleftrightarrow> reach db k' r n \<or> k' = k \<and> e_id r = i \<and> n = name" for k' r n
      by (auto simp: reach_def reaches_member_def list_ex_iff env_insert_binding_def sql_insert_ignore_def)
    show "rows_of k' ?db = rows_of k' db" for k' by (simp add: rows_of_def env_insert_binding_def)
  qed
  have eq: "env_bind k i name now db =
      (if rival_reaches db (e_env row) k i name then (db, Inl (SecretsError EnvTaken)) else (?db, Inr ()))"
    unfolding env_bind_def Some option.case rival_reaches_iff ..
  show ?thesis
  proof (cases "rival_reaches db (e_env row) k i name")
    case True
    with eq Some show ?thesis by simp
  next
    case False
    with eq have "env_bind k i name now db = (?db, Inr ())" by simp
    with eff have "\<exists>db'. env_bind k i name now db = (db', Inr ()) \<and>
        (\<forall>k' r n. reach db' k' r n \<longleftrightarrow> reach db k' r n \<or> k' = k \<and> e_id r = i \<and> n = name) \<and>
        (\<forall>k'. rows_of k' db' = rows_of k' db)" by blast
    with False Some show ?thesis by simp
  qed
qed

theorem env_bind_decides_witness:
  "\<exists>db'. env_bind VariableKind ''v1'' ''bob'' 5 (fst (variables_create (demo_create ''who'' ''GIT_AUTHOR_NAME'' None) ''x'' 4 demo_env4)) =
     (db', Inl (SecretsError EnvNotFound))"
proof -
  have "env_get VariableKind ''v1'' (fst (variables_create (demo_create ''who'' ''GIT_AUTHOR_NAME'' None) ''x'' 4 demo_env4)) = None"
    by code_simp
  then show ?thesis using env_bind_decides by blast
qed

end
