(* ===== verification/Enrollments.thy ===== *)
theory Enrollments
  imports EnvStores "HOL-Library.Word"
begin

text \<open>
  The device-code enrollment store, \<open>packages/core/src/enrollments.ts\<close>: a device mints a pair of codes,
  an approver approves or rejects the row by its user code, and the device's poll consumes the outcome.
  \<open>sha256Hex\<close>, the random device code and the field cipher are parameters; the random bytes of a user
  code are octets. A call is atomic: each method awaits at most the hash, before its first statement.
\<close>

section \<open>Codes\<close>

definition enrollment_ttl_ms :: int where "enrollment_ttl_ms = 5 * 60 * 1000"
definition default_poll_interval_s :: int where "default_poll_interval_s = 5"
definition slow_down_threshold_ms :: int where "slow_down_threshold_ms = 2500"
definition user_code_alphabet :: string where "user_code_alphabet = ''0123456789ABCDEFGHJKMNPQRSTVWXYZ''"
definition user_code_len :: nat where "user_code_len = 8"
definition device_code_prefix :: string where "device_code_prefix = ''csuite-dc_''"
definition encrypted_field_prefix :: string where "encrypted_field_prefix = ''enc-v1:''"

text \<open>
  \<open>toUpperCase\<close> on one code unit below 256. Sharp s (223) becomes two letters; the accented letters
  become accented capitals, which like themselves are not in the alphabet.
\<close>

definition upper_unit :: "char \<Rightarrow> string" where
  "upper_unit c = (if of_char c = (223 :: nat) then ''SS'' else [up_char c])"

definition normalize_user_code :: "string \<Rightarrow> string option" where
  "normalize_user_code input =
     (let upper = concat (List.map upper_unit (filter (\<lambda>c. \<not> (is_ws c \<or> c = CHR ''-'')) input))
      in if length upper \<noteq> user_code_len then None
         else if list_all (\<lambda>ch. ch \<in> set user_code_alphabet) upper then Some upper else None)"

definition format_user_code :: "string \<Rightarrow> string" where
  "format_user_code internal =
     (if length internal \<noteq> user_code_len then internal else take 4 internal @ ''-'' @ drop 4 internal)"

text \<open>
  Sixteen octets are drawn and the first eight are used, five bits of each: the loop's first draw
  already fills the code.
\<close>

definition user_code_char :: "8 word \<Rightarrow> char" where
  "user_code_char byte = user_code_alphabet ! unat (and byte 0b11111)"

definition generate_user_code :: "8 word list \<Rightarrow> string" where
  "generate_user_code bytes = List.map user_code_char (take user_code_len bytes)"

definition generate_device_code :: "string \<Rightarrow> string" where
  "generate_device_code random = device_code_prefix @ random"

section \<open>Rows and outcomes\<close>

datatype enrollment_status = EPending | EApproved | ERejected

record enrollment_row =
  er_hash :: string
  er_user_code :: string
  er_created_at :: int
  er_expires_at :: int
  er_status :: string
  er_source_ip :: "string option"
  er_source_ua :: "string option"
  er_label_hint :: string
  er_approved_by :: "string option"
  er_bound_member :: "string option"
  er_approve_args :: "string option"
  er_token_id :: "string option"
  er_token_ct :: "string option"
  er_reject_reason :: "string option"
  er_last_polled_at :: "int option"

definition status_of :: "enrollment_row \<Rightarrow> enrollment_status" where
  "status_of raw =
     (if er_status raw = ''approved'' then EApproved else if er_status raw = ''rejected'' then ERejected else EPending)"

record mint_input =
  mi_source_ip :: "string option"
  mi_source_ua :: "string option"
  mi_label_hint :: "string option"

record mint_result =
  mr_device_code :: string
  mr_user_code :: string
  mr_user_code_formatted :: string
  mr_device_code_hash :: string
  mr_expires_at :: int
  mr_expires_in :: int
  mr_interval :: int

record approve_input =
  ai_user_code :: string
  ai_approved_by :: string
  ai_bound_member :: string
  ai_approve_args :: string
  ai_token_id :: string
  ai_token_plaintext :: string

record reject_input =
  rj_user_code :: string
  rj_rejected_by :: string
  rj_reason :: "string option"

datatype poll_outcome =
    AuthorizationPending
  | SlowDown
  | ExpiredToken
  | AccessDenied "string option"
  | PollApproved string string string     \<comment> \<open>token plaintext, token id, member name\<close>

datatype lookup_outcome =
    LookupPending enrollment_row
  | LookupExpired
  | AlreadyApproved
  | AlreadyRejected "string option"
  | LookupNotFound

section \<open>Operations\<close>

definition enrollment_clash :: "enrollment_row \<Rightarrow> enrollment_row \<Rightarrow> bool" where
  "enrollment_clash r r' \<longleftrightarrow> er_hash r = er_hash r' \<or> er_user_code r = er_user_code r'"

definition new_enrollment :: "mint_input \<Rightarrow> string \<Rightarrow> string \<Rightarrow> int \<Rightarrow> enrollment_row" where
  "new_enrollment input hash user_code created_at =
     \<lparr>er_hash = hash, er_user_code = user_code, er_created_at = created_at,
      er_expires_at = created_at + enrollment_ttl_ms, er_status = ''pending'',
      er_source_ip = mi_source_ip input, er_source_ua = mi_source_ua input,
      er_label_hint = take 64 (orelse (mi_label_hint input) []),
      er_approved_by = None, er_bound_member = None, er_approve_args = None, er_token_id = None,
      er_token_ct = None, er_reject_reason = None, er_last_polled_at = None\<rparr>"

text \<open>\<open>draws\<close> are the random material of the attempts: a device code and the octets of a user code.\<close>

fun mint_attempts ::
  "(string \<Rightarrow> string) \<Rightarrow> mint_input \<Rightarrow> int \<Rightarrow> nat \<Rightarrow> (string \<times> 8 word list) list \<Rightarrow> enrollment_row list \<Rightarrow>
   enrollment_row list \<times> (unit, mint_result) res" where
  "mint_attempts sha input created_at 0 draws rows = (rows, Inl ())"
| "mint_attempts sha input created_at (Suc left) draws rows =
     (let (random, bytes) = (case draws of [] \<Rightarrow> ([], []) | d # _ \<Rightarrow> d);
          device_code = generate_device_code random;
          user_code = generate_user_code bytes;
          hash = sha device_code
      in case sql_insert enrollment_clash (new_enrollment input hash user_code created_at) rows of
           None \<Rightarrow> mint_attempts sha input created_at left (tl draws) rows
         | Some rows' \<Rightarrow>
             (rows', Inr \<lparr>mr_device_code = device_code, mr_user_code = user_code,
                mr_user_code_formatted = format_user_code user_code, mr_device_code_hash = hash,
                mr_expires_at = created_at + enrollment_ttl_ms, mr_expires_in = enrollment_ttl_ms div 1000,
                mr_interval = default_poll_interval_s\<rparr>))"

definition enroll_mint ::
  "(string \<Rightarrow> string) \<Rightarrow> mint_input \<Rightarrow> (string \<times> 8 word list) list \<Rightarrow> int \<Rightarrow> enrollment_row list \<Rightarrow>
   enrollment_row list \<times> (unit, mint_result) res" where
  "enroll_mint sha input draws now rows = mint_attempts sha input now 5 draws rows"

definition lookup_by_user_code :: "string \<Rightarrow> int \<Rightarrow> enrollment_row list \<Rightarrow> lookup_outcome" where
  "lookup_by_user_code user_code now rows =
     (case sql_get (\<lambda>r. er_user_code r = user_code) rows of
        None \<Rightarrow> LookupNotFound
      | Some row \<Rightarrow>
          if er_expires_at row < now then LookupExpired
          else (case status_of row of
                  EApproved \<Rightarrow> AlreadyApproved
                | ERejected \<Rightarrow> AlreadyRejected (er_reject_reason row)
                | EPending \<Rightarrow> LookupPending row))"

definition actionable :: "string \<Rightarrow> enrollment_row \<Rightarrow> bool" where
  "actionable user_code r \<longleftrightarrow> er_user_code r = user_code \<and> er_status r = ''pending''"

definition wrap_token :: "field_cipher option \<Rightarrow> string \<Rightarrow> string" where
  "wrap_token cipher plaintext =
     (case cipher of None \<Rightarrow> plaintext | Some c \<Rightarrow> (case encrypt c plaintext of None \<Rightarrow> plaintext | Some ct \<Rightarrow> ct))"

definition enroll_approve :: "field_cipher option \<Rightarrow> approve_input \<Rightarrow> enrollment_row list \<Rightarrow> enrollment_row list \<times> bool" where
  "enroll_approve cipher input rows =
     (let ct = wrap_token cipher (ai_token_plaintext input)
      in (sql_update (actionable (ai_user_code input))
            (\<lambda>r. r\<lparr>er_status := ''approved'', er_approved_by := Some (ai_approved_by input),
               er_bound_member := Some (ai_bound_member input), er_approve_args := Some (ai_approve_args input),
               er_token_id := Some (ai_token_id input), er_token_ct := Some ct\<rparr>) rows,
          sql_changes (actionable (ai_user_code input)) rows > 0))"

definition enroll_reject :: "reject_input \<Rightarrow> enrollment_row list \<Rightarrow> enrollment_row list \<times> bool" where
  "enroll_reject input rows =
     (sql_update (actionable (rj_user_code input))
        (\<lambda>r. r\<lparr>er_status := ''rejected'', er_approved_by := Some (rj_rejected_by input),
           er_reject_reason := rj_reason input\<rparr>) rows,
      sql_changes (actionable (rj_user_code input)) rows > 0)"

definition delete_by_device_hash :: "string \<Rightarrow> enrollment_row list \<Rightarrow> enrollment_row list" where
  "delete_by_device_hash hash rows = sql_delete (\<lambda>r. er_hash r = hash) rows"

definition unwrap_token :: "field_cipher option \<Rightarrow> string \<Rightarrow> (env_error, string option) res" where
  "unwrap_token cipher ct =
     (case cipher of
        None \<Rightarrow> Inr (Some ct)
      | Some c \<Rightarrow> if starts_with ct encrypted_field_prefix then decrypt c ct else Inr (Some ct))"

text \<open>A decryption that throws propagates, with the row still in place.\<close>

definition poll_by_device_code ::
  "(string \<Rightarrow> string) \<Rightarrow> field_cipher option \<Rightarrow> string \<Rightarrow> int \<Rightarrow> (enrollment_row list, env_error, poll_outcome) call" where
  "poll_by_device_code sha cipher device_code now rows =
     (let hash = sha device_code
      in case sql_get (\<lambda>r. er_hash r = hash) rows of
           None \<Rightarrow> (rows, Inr ExpiredToken)
         | Some row \<Rightarrow>
             if er_expires_at row < now then (delete_by_device_hash hash rows, Inr ExpiredToken)
             else
               (case status_of row of
                  ERejected \<Rightarrow> (delete_by_device_hash hash rows, Inr (AccessDenied (er_reject_reason row)))
                | EApproved \<Rightarrow>
                    (case (er_token_id row, er_token_ct row, er_bound_member row) of
                       (Some i, Some ct, Some member) \<Rightarrow>
                         (case unwrap_token cipher ct of
                            Inl e \<Rightarrow> (rows, Inl e)
                          | Inr None \<Rightarrow> (delete_by_device_hash hash rows, Inr ExpiredToken)
                          | Inr (Some plaintext) \<Rightarrow>
                              (delete_by_device_hash hash rows, Inr (PollApproved plaintext i member)))
                     | _ \<Rightarrow> (delete_by_device_hash hash rows, Inr ExpiredToken))
                | EPending \<Rightarrow>
                    (let outcome = (case er_last_polled_at row of
                            None \<Rightarrow> AuthorizationPending
                          | Some polled \<Rightarrow> if now - polled < slow_down_threshold_ms then SlowDown else AuthorizationPending)
                     in (sql_update (\<lambda>r. er_hash r = hash) (\<lambda>r. r\<lparr>er_last_polled_at := Some now\<rparr>) rows,
                         Inr outcome))))"

definition list_pending :: "int \<Rightarrow> enrollment_row list \<Rightarrow> enrollment_row list" where
  "list_pending now rows =
     order_asc er_created_at (sql_all (\<lambda>r. er_status r = ''pending'' \<and> er_expires_at r \<ge> now) rows)"

definition purge_expired :: "int \<Rightarrow> enrollment_row list \<Rightarrow> enrollment_row list \<times> nat" where
  "purge_expired now rows =
     (sql_delete (\<lambda>r. er_expires_at r < now) rows, sql_changes (\<lambda>r. er_expires_at r < now) rows)"

end
