(* ===== verification/EnrollLife.thy ===== *)
theory EnrollLife
  imports Enrollments DeliveryLedger
begin

text \<open>
  Runs of the enrollment store as sequences of calls, the invariant of its rows, and where every approved
  row comes from. The rate limit of \<open>POST /enroll\<close> (\<open>app.ts\<close>) is at the end.
\<close>

section \<open>Calls\<close>

datatype enroll_op =
    Mint mint_input "(string \<times> 8 word list) list" int
  | Approve approve_input
  | Reject reject_input
  | Poll string int
  | Purge int

datatype enroll_reply =
    MintReply "(unit, mint_result) res"
  | DecisionReply bool
  | PollReply "(env_error, poll_outcome) res"
  | PurgeReply nat

fun enroll_exec ::
  "(string \<Rightarrow> string) \<Rightarrow> field_cipher option \<Rightarrow> enroll_op \<Rightarrow> enrollment_row list \<Rightarrow> enrollment_row list \<times> enroll_reply" where
  "enroll_exec sha cipher (Mint input draws now) rows = map_prod id MintReply (enroll_mint sha input draws now rows)"
| "enroll_exec sha cipher (Approve input) rows = map_prod id DecisionReply (enroll_approve cipher input rows)"
| "enroll_exec sha cipher (Reject input) rows = map_prod id DecisionReply (enroll_reject input rows)"
| "enroll_exec sha cipher (Poll device_code now) rows = map_prod id PollReply (poll_by_device_code sha cipher device_code now rows)"
| "enroll_exec sha cipher (Purge now) rows = map_prod id PurgeReply (purge_expired now rows)"

text \<open>The draw of the \<open>n\<close>th attempt of a mint.\<close>

definition draw_of :: "(string \<times> 8 word list) list \<Rightarrow> nat \<Rightarrow> string \<times> 8 word list" where
  "draw_of draws n = (if n < length draws then draws ! n else ([], []))"

definition draw_hash :: "(string \<Rightarrow> string) \<Rightarrow> (string \<times> 8 word list) list \<Rightarrow> nat \<Rightarrow> string" where
  "draw_hash sha draws n = sha (generate_device_code (fst (draw_of draws n)))"

definition may_mint :: "(string \<Rightarrow> string) \<Rightarrow> string \<Rightarrow> enroll_op \<Rightarrow> bool" where
  "may_mint sha h op = (case op of Mint _ draws _ \<Rightarrow> \<exists>n < 5. draw_hash sha draws n = h | _ \<Rightarrow> False)"

lemma mint_attempts_cases:
  "mint_attempts sha input t left draws rows = (rows', r) \<Longrightarrow>
   rows' = rows \<or>
   (\<exists>n < left. rows' = rows @ [new_enrollment input (draw_hash sha draws n) (generate_user_code (snd (draw_of draws n))) t] \<and>
      (\<forall>x \<in> set rows. er_hash x \<noteq> draw_hash sha draws n \<and>
         er_user_code x \<noteq> generate_user_code (snd (draw_of draws n))))"
proof (induction sha input t left draws rows rule: mint_attempts.induct)
  case (2 sha input t left draws rows)
  obtain random bytes where d: "(case draws of [] \<Rightarrow> ([], []) | d # _ \<Rightarrow> d) = (random, bytes)" by force
  then have d0: "draw_of draws 0 = (random, bytes)" by (cases draws) (auto simp: draw_of_def)
  have tl: "draw_of (tl draws) n = draw_of draws (Suc n)" for n by (cases draws) (auto simp: draw_of_def)
  show ?case
  proof (cases "sql_insert enrollment_clash
      (new_enrollment input (sha (generate_device_code random)) (generate_user_code bytes) t) rows")
    case None
    with 2(2) d have "mint_attempts sha input t left (tl draws) rows = (rows', r)" by (simp add: Let_def)
    from 2(1) [OF d [symmetric] refl refl refl refl None this] show ?thesis
      unfolding draw_hash_def tl by (metis Suc_less_eq)
  next
    case (Some rows1)
    with 2(2) d have "rows' = rows1" by (simp add: Let_def)
    with Some d0 show ?thesis
      by (intro disjI2 exI [of _ 0])
        (auto simp: sql_insert_Some enrollment_clash_def new_enrollment_def draw_hash_def)
  qed
qed simp

section \<open>The invariant\<close>

definition enroll_inv :: "enrollment_row list \<Rightarrow> bool" where
  "enroll_inv rows \<longleftrightarrow>
     distinct (List.map er_hash rows) \<and> distinct (List.map er_user_code rows) \<and>
     (\<forall>r \<in> set rows. er_status r \<in> {''pending'', ''approved'', ''rejected''} \<and>
        er_expires_at r = er_created_at r + enrollment_ttl_ms \<and>
        (er_status r = ''approved'' \<longrightarrow> er_token_id r \<noteq> None \<and> er_token_ct r \<noteq> None \<and> er_bound_member r \<noteq> None))"

lemma enroll_inv_update:
  assumes "enroll_inv rows"
    and "\<And>r. P r \<Longrightarrow> er_hash (f r) = er_hash r \<and> er_user_code (f r) = er_user_code r \<and>
      er_expires_at (f r) = er_expires_at r \<and> er_created_at (f r) = er_created_at r"
    and "\<And>r. \<lbrakk>r \<in> set rows; P r\<rbrakk> \<Longrightarrow> er_status (f r) \<in> {''pending'', ''approved'', ''rejected''} \<and>
      (er_status (f r) = ''approved'' \<longrightarrow> er_token_id (f r) \<noteq> None \<and> er_token_ct (f r) \<noteq> None \<and> er_bound_member (f r) \<noteq> None)"
  shows "enroll_inv (sql_update P f rows)"
proof -
  have keys: "List.map er_hash (sql_update P f rows) = List.map er_hash rows"
    "List.map er_user_code (sql_update P f rows) = List.map er_user_code rows"
    using assms(2) by (auto simp: sql_update_def)
  have "\<forall>r \<in> set (sql_update P f rows). er_status r \<in> {''pending'', ''approved'', ''rejected''} \<and>
        er_expires_at r = er_created_at r + enrollment_ttl_ms \<and>
        (er_status r = ''approved'' \<longrightarrow> er_token_id r \<noteq> None \<and> er_token_ct r \<noteq> None \<and> er_bound_member r \<noteq> None)"
  proof
    fix r assume "r \<in> set (sql_update P f rows)"
    then obtain x where x: "x \<in> set rows" "r = (if P x then f x else x)" by (auto simp: set_sql_update)
    show "er_status r \<in> {''pending'', ''approved'', ''rejected''} \<and>
        er_expires_at r = er_created_at r + enrollment_ttl_ms \<and>
        (er_status r = ''approved'' \<longrightarrow> er_token_id r \<noteq> None \<and> er_token_ct r \<noteq> None \<and> er_bound_member r \<noteq> None)"
    proof (cases "P x")
      case True
      have "er_expires_at x = er_created_at x + enrollment_ttl_ms" using assms(1) x(1) unfolding enroll_inv_def by blast
      with True x assms(2) [OF True] assms(3) [OF x(1) True] show ?thesis by simp
    next
      case False
      with x have "r \<in> set rows" by simp
      with assms(1) show ?thesis unfolding enroll_inv_def by blast
    qed
  qed
  with assms(1) keys show ?thesis unfolding enroll_inv_def by simp
qed

lemma enroll_inv_delete: "enroll_inv rows \<Longrightarrow> enroll_inv (sql_delete P rows)"
  unfolding enroll_inv_def by (simp add: distinct_sql_delete)

text \<open>What a poll leaves: the row deleted, the row touched, or everything as it was.\<close>

lemma poll_rows:
  "fst (poll_by_device_code sha cipher dc now rows) \<in>
     {rows, delete_by_device_hash (sha dc) rows,
      sql_update (\<lambda>r. er_hash r = sha dc) (\<lambda>r. r\<lparr>er_last_polled_at := Some now\<rparr>) rows}"
  unfolding poll_by_device_code_def Let_def
  by (auto split: option.split enrollment_status.split sum.split)

lemma enroll_exec_inv:
  assumes "enroll_inv rows"
  shows "enroll_inv (fst (enroll_exec sha cipher op rows))"
proof (cases op)
  case (Mint input draws now)
  obtain rows' r where m: "enroll_mint sha input draws now rows = (rows', r)" by force
  from mint_attempts_cases [OF m [unfolded enroll_mint_def]] show ?thesis
    using assms m Mint by (fastforce simp: enroll_inv_def new_enrollment_def)
next
  case (Approve input)
  have "enroll_inv (fst (enroll_approve cipher input rows))"
    unfolding enroll_approve_def Let_def fst_conv by (rule enroll_inv_update [OF assms]) simp_all
  with Approve show ?thesis by simp
next
  case (Reject input)
  have "enroll_inv (fst (enroll_reject input rows))"
    unfolding enroll_reject_def Let_def fst_conv by (rule enroll_inv_update [OF assms]) simp_all
  with Reject show ?thesis by simp
next
  case (Poll dc now)
  have "enroll_inv (sql_update (\<lambda>r. er_hash r = sha dc) (\<lambda>r. r\<lparr>er_last_polled_at := Some now\<rparr>) rows)"
  proof (rule enroll_inv_update [OF assms])
    fix r assume "r \<in> set rows"
    with assms show "er_status (r\<lparr>er_last_polled_at := Some now\<rparr>) \<in> {''pending'', ''approved'', ''rejected''} \<and>
        (er_status (r\<lparr>er_last_polled_at := Some now\<rparr>) = ''approved'' \<longrightarrow> er_token_id (r\<lparr>er_last_polled_at := Some now\<rparr>) \<noteq> None \<and>
           er_token_ct (r\<lparr>er_last_polled_at := Some now\<rparr>) \<noteq> None \<and> er_bound_member (r\<lparr>er_last_polled_at := Some now\<rparr>) \<noteq> None)"
      unfolding enroll_inv_def by simp
  qed simp
  then show ?thesis using poll_rows [of sha cipher dc now rows] assms enroll_inv_delete [OF assms] Poll
    unfolding delete_by_device_hash_def by auto
next
  case (Purge now)
  with assms show ?thesis by (simp add: purge_expired_def enroll_inv_delete)
qed

section \<open>A consumed code stays consumed\<close>

definition absent :: "string \<Rightarrow> enrollment_row list \<Rightarrow> bool" where
  "absent h rows \<longleftrightarrow> h \<notin> er_hash ` set rows"

text \<open>One call that cannot mint the code anew.\<close>

definition other_step :: "(string \<Rightarrow> string) \<Rightarrow> field_cipher option \<Rightarrow> string \<Rightarrow> enrollment_row list \<Rightarrow> enrollment_row list \<Rightarrow> bool" where
  "other_step sha cipher h rows rows' \<longleftrightarrow>
     (\<exists>op. \<not> may_mint sha h op \<and> rows' = fst (enroll_exec sha cipher op rows))"

lemma absent_update: "(\<And>r. er_hash (f r) = er_hash r) \<Longrightarrow> absent h (sql_update P f rows) \<longleftrightarrow> absent h rows"
proof -
  assume "\<And>r. er_hash (f r) = er_hash r"
  then have "List.map er_hash (sql_update P f rows) = List.map er_hash rows" by (rule map_key_sql_update)
  then have "set (List.map er_hash (sql_update P f rows)) = set (List.map er_hash rows)" by simp
  then show ?thesis unfolding absent_def set_map by simp
qed

lemma absent_step: "other_step sha cipher h rows rows' \<Longrightarrow> absent h rows \<Longrightarrow> absent h rows'"
proof -
  assume "other_step sha cipher h rows rows'" and abs: "absent h rows"
  then obtain op where op: "\<not> may_mint sha h op" "rows' = fst (enroll_exec sha cipher op rows)"
    unfolding other_step_def by blast
  show "absent h rows'"
  proof (cases op)
    case (Mint input draws now)
    obtain rows1 r where m1: "mint_attempts sha input now 5 draws rows = (rows1, r)" by force
    then have m: "mint_attempts sha input now 5 draws rows = (rows', r)"
      using op(2) Mint by (simp add: enroll_mint_def)
    show ?thesis
      using mint_attempts_cases [OF m] abs op(1) Mint
      by (auto simp: absent_def may_mint_def new_enrollment_def; blast)
  next
    case (Poll dc now)
    have "absent h (delete_by_device_hash (sha dc) rows)" using abs by (auto simp: absent_def delete_by_device_hash_def)
    moreover have "absent h (sql_update (\<lambda>r. er_hash r = sha dc) (\<lambda>r. r\<lparr>er_last_polled_at := Some now\<rparr>) rows)"
      using abs by (simp add: absent_update)
    ultimately show ?thesis using poll_rows [of sha cipher dc now rows] abs op(2) Poll by auto
  qed (use abs op in \<open>auto simp: enroll_approve_def enroll_reject_def purge_expired_def Let_def absent_update\<close>,
       auto simp: absent_def)
qed

interpretation enroll_gone: frozen_once "other_step sha cipher h" "absent h" "\<lambda>_. ()" for sha cipher h
  by unfold_locales (auto intro: absent_step)

lemma run_other_steps:
  "list_all (\<lambda>op. \<not> may_mint sha h op) ops \<Longrightarrow>
   rtranclp (other_step sha cipher h) rows (fst (run_ops (enroll_exec sha cipher) ops rows))"
proof (induction ops arbitrary: rows)
  case (Cons op ops)
  have "other_step sha cipher h rows (fst (enroll_exec sha cipher op rows))"
    using Cons.prems by (auto simp: other_step_def)
  moreover have "rtranclp (other_step sha cipher h) (fst (enroll_exec sha cipher op rows))
      (fst (run_ops (enroll_exec sha cipher) ops (fst (enroll_exec sha cipher op rows))))"
    using Cons by simp
  ultimately show ?case by (simp add: case_prod_beta)
qed simp

lemma poll_absent: "absent (sha dc) rows \<Longrightarrow> poll_by_device_code sha cipher dc now rows = (rows, Inr ExpiredToken)"
proof -
  assume "absent (sha dc) rows"
  then have "sql_get (\<lambda>r. er_hash r = sha dc) rows = None"
    unfolding sql_get_None absent_def by (metis imageI)
  then show ?thesis by (simp add: poll_by_device_code_def)
qed

lemma poll_approved:
  assumes "poll_by_device_code sha cipher dc now rows = (rows', Inr (PollApproved token i member))"
  obtains row ct where "sql_get (\<lambda>r. er_hash r = sha dc) rows = Some row" "now \<le> er_expires_at row"
    "er_status row = ''approved''" "er_token_id row = Some i" "er_token_ct row = Some ct" "er_bound_member row = Some member"
    "unwrap_token cipher ct = Inr (Some token)" "rows' = delete_by_device_hash (sha dc) rows"
  using assms unfolding poll_by_device_code_def Let_def
  by (auto simp: status_of_def not_less split: option.splits if_splits sum.splits)

section \<open>Where an approved row comes from\<close>

definition minted_by :: "(string \<Rightarrow> string) \<Rightarrow> enroll_op list \<Rightarrow> enrollment_row \<Rightarrow> bool" where
  "minted_by sha ops r \<longleftrightarrow>
     (\<exists>input draws t. \<exists>n < 5. Mint input draws t \<in> set ops \<and> er_hash r = draw_hash sha draws n \<and>
        er_user_code r = generate_user_code (snd (draw_of draws n)) \<and> er_expires_at r = t + enrollment_ttl_ms)"

definition approved_by :: "field_cipher option \<Rightarrow> enroll_op list \<Rightarrow> enrollment_row \<Rightarrow> bool" where
  "approved_by cipher ops r \<longleftrightarrow>
     (\<exists>input. Approve input \<in> set ops \<and> ai_user_code input = er_user_code r \<and> er_token_id r = Some (ai_token_id input) \<and>
        er_token_ct r = Some (wrap_token cipher (ai_token_plaintext input)) \<and> er_bound_member r = Some (ai_bound_member input))"

definition traced :: "(string \<Rightarrow> string) \<Rightarrow> field_cipher option \<Rightarrow> enroll_op list \<Rightarrow> enrollment_row list \<Rightarrow> bool" where
  "traced sha cipher ops rows \<longleftrightarrow>
     (\<forall>r \<in> set rows. minted_by sha ops r \<and> (er_status r = ''approved'' \<longrightarrow> approved_by cipher ops r))"

lemma traced_more: "traced sha cipher ops rows \<Longrightarrow> set ops \<subseteq> set ops' \<Longrightarrow> set rows' \<subseteq> set rows \<Longrightarrow> traced sha cipher ops' rows'"
  unfolding traced_def minted_by_def approved_by_def by blast

lemma traced_update:
  assumes "traced sha cipher ops rows" "set ops \<subseteq> set ops'"
    and "\<And>r. er_hash (f r) = er_hash r \<and> er_user_code (f r) = er_user_code r \<and> er_expires_at (f r) = er_expires_at r"
    and "\<And>r. \<lbrakk>r \<in> set rows; P r; er_status (f r) = ''approved''\<rbrakk> \<Longrightarrow> approved_by cipher ops' (f r)"
  shows "traced sha cipher ops' (sql_update P f rows)"
  unfolding traced_def
proof
  fix r assume "r \<in> set (sql_update P f rows)"
  then obtain x where x: "x \<in> set rows" "r = (if P x then f x else x)" by (auto simp: set_sql_update)
  have "minted_by sha ops' x \<and> (er_status x = ''approved'' \<longrightarrow> approved_by cipher ops' x)"
    using traced_more [OF assms(1,2) order_refl] x(1) unfolding traced_def by blast
  then show "minted_by sha ops' r \<and> (er_status r = ''approved'' \<longrightarrow> approved_by cipher ops' r)"
    using x(2) assms(3) [of x] assms(4) [OF x(1)] by (cases "P x") (simp_all add: minted_by_def)
qed

lemma traced_exec:
  assumes "traced sha cipher ops rows"
  shows "traced sha cipher (op # ops) (fst (enroll_exec sha cipher op rows))"
proof (cases op)
  case (Mint input draws now)
  obtain rows' r where m: "mint_attempts sha input now 5 draws rows = (rows', r)" by force
  have old: "traced sha cipher (op # ops) rows" by (rule traced_more [OF assms]) auto
  from mint_attempts_cases [OF m] have "traced sha cipher (op # ops) rows'"
  proof
    assume "\<exists>n < 5. rows' = rows @ [new_enrollment input (draw_hash sha draws n) (generate_user_code (snd (draw_of draws n))) now] \<and>
      (\<forall>x \<in> set rows. er_hash x \<noteq> draw_hash sha draws n \<and> er_user_code x \<noteq> generate_user_code (snd (draw_of draws n)))"
    then obtain n where n: "n < 5"
      "rows' = rows @ [new_enrollment input (draw_hash sha draws n) (generate_user_code (snd (draw_of draws n))) now]" by blast
    have "minted_by sha (op # ops) (new_enrollment input (draw_hash sha draws n) (generate_user_code (snd (draw_of draws n))) now)"
      unfolding minted_by_def Mint using n(1) by (intro exI [of _ input] exI [of _ draws] exI [of _ now] exI [of _ n]) (simp add: new_enrollment_def)
    with old n(2) show ?thesis by (simp add: traced_def new_enrollment_def)
  qed (use old in simp)
  with m Mint show ?thesis by (simp add: enroll_mint_def)
next
  case (Approve input)
  have "traced sha cipher (op # ops) (fst (enroll_approve cipher input rows))"
    unfolding enroll_approve_def Let_def fst_conv
  proof (rule traced_update [OF assms])
    fix r assume "actionable (ai_user_code input) r"
    then show "approved_by cipher (op # ops) (r\<lparr>er_status := ''approved'', er_approved_by := Some (ai_approved_by input),
         er_bound_member := Some (ai_bound_member input), er_approve_args := Some (ai_approve_args input),
         er_token_id := Some (ai_token_id input), er_token_ct := Some (wrap_token cipher (ai_token_plaintext input))\<rparr>)"
      unfolding approved_by_def Approve by (intro exI [of _ input]) (simp add: actionable_def)
  qed auto
  with Approve show ?thesis by simp
next
  case (Reject input)
  have "traced sha cipher (op # ops) (fst (enroll_reject input rows))"
    unfolding enroll_reject_def fst_conv by (rule traced_update [OF assms]) auto
  with Reject show ?thesis by simp
next
  case (Poll dc now)
  have "traced sha cipher (op # ops) rows" "traced sha cipher (op # ops) (delete_by_device_hash (sha dc) rows)"
    by (rule traced_more [OF assms]; auto simp: delete_by_device_hash_def)+
  moreover have "traced sha cipher (op # ops) (sql_update (\<lambda>r. er_hash r = sha dc) (\<lambda>r. r\<lparr>er_last_polled_at := Some now\<rparr>) rows)"
  proof (rule traced_update [OF assms])
    fix r assume "r \<in> set rows" "er_status (r\<lparr>er_last_polled_at := Some now\<rparr>) = ''approved''"
    with assms have "approved_by cipher ops r" by (simp add: traced_def)
    then show "approved_by cipher (op # ops) (r\<lparr>er_last_polled_at := Some now\<rparr>)" by (auto simp: approved_by_def)
  qed auto
  ultimately show ?thesis using poll_rows [of sha cipher dc now rows] Poll by auto
next
  case (Purge now)
  have "traced sha cipher (op # ops) (fst (purge_expired now rows))"
    unfolding purge_expired_def fst_conv by (rule traced_more [OF assms]) auto
  with Purge show ?thesis by simp
qed

lemma traced_run:
  "traced sha cipher done_ops rows \<Longrightarrow>
   traced sha cipher (rev ops @ done_ops) (fst (run_ops (enroll_exec sha cipher) ops rows))"
proof (induction ops arbitrary: done_ops rows)
  case (Cons op ops)
  from Cons.IH [OF traced_exec [OF Cons.prems, of op]] show ?case by (simp add: case_prod_beta)
qed simp

section \<open>The rate limit on minting\<close>

text \<open>\<open>mintBuckets\<close> maps a source key to its count and the start of its window.\<close>

record mint_bucket =
  mb_count :: nat
  mb_first_at :: int

definition enroll_mint_max :: nat where "enroll_mint_max = 10"
definition enroll_mint_window_ms :: int where "enroll_mint_window_ms = 60 * 60 * 1000"

text \<open>\<open>Inl n\<close> is \<open>retryAfter: n\<close> seconds, rounded up.\<close>

definition check_mint_limit ::
  "string \<Rightarrow> int \<Rightarrow> (string \<Rightarrow> mint_bucket option) \<Rightarrow> (string \<Rightarrow> mint_bucket option) \<times> (int, unit) res" where
  "check_mint_limit key t buckets =
     (case buckets key of
        None \<Rightarrow> (buckets(key \<mapsto> \<lparr>mb_count = 1, mb_first_at = t\<rparr>), Inr ())
      | Some bucket \<Rightarrow>
          if t - mb_first_at bucket \<ge> enroll_mint_window_ms
          then (buckets(key \<mapsto> \<lparr>mb_count = 1, mb_first_at = t\<rparr>), Inr ())
          else
            (let bucket' = bucket\<lparr>mb_count := mb_count bucket + 1\<rparr>; buckets' = buckets(key \<mapsto> bucket')
             in if mb_count bucket' > enroll_mint_max
                then (buckets', Inl (- ((- (enroll_mint_window_ms - (t - mb_first_at bucket'))) div 1000)))
                else (buckets', Inr ())))"

end
