(* ===== verification/EnrollTheorems.thy ===== *)
theory EnrollTheorems
  imports EnrollLife
begin

text \<open>The properties of the enrollment store, each with a concrete instance of its hypotheses.\<close>

section \<open>User codes\<close>

definition code_ok :: "string \<Rightarrow> bool" where
  "code_ok u \<longleftrightarrow> length u = 8 \<and> list_all (\<lambda>c. c \<in> set user_code_alphabet) u"

lemma alphabet_chars:
  "list_all (\<lambda>c. upper_unit c = [c] \<and> upper_unit (low_char c) = [c] \<and> \<not> is_ws c \<and> \<not> is_ws (low_char c) \<and>
     c \<noteq> CHR ''-'' \<and> low_char c \<noteq> CHR ''-'') user_code_alphabet"
  by code_simp

lemma alphabet_char:
  "c \<in> set user_code_alphabet \<Longrightarrow> upper_unit c = [c] \<and> upper_unit (low_char c) = [c] \<and> \<not> is_ws c \<and> \<not> is_ws (low_char c) \<and>
     c \<noteq> CHR ''-'' \<and> low_char c \<noteq> CHR ''-''"
  using alphabet_chars unfolding list_all_iff by blast

lemma code_filter:
  assumes "list_all (\<lambda>c. c \<in> set user_code_alphabet) u"
  shows "filter (\<lambda>c. \<not> (is_ws c \<or> c = CHR ''-'')) u = u" "filter (\<lambda>c. \<not> (is_ws c \<or> c = CHR ''-'')) (js_lower u) = js_lower u"
    "concat (List.map upper_unit u) = u" "concat (List.map upper_unit (js_lower u)) = u"
  using assms by (induction u) (auto simp: js_lower_def dest!: alphabet_char)

lemma normalize_code: "code_ok u \<Longrightarrow> normalize_user_code u = Some u"
  by (simp add: code_ok_def normalize_user_code_def code_filter user_code_len_def Let_def del: de_Morgan_disj)

lemma normalize_lower: "code_ok u \<Longrightarrow> normalize_user_code (js_lower u) = Some u"
  by (simp add: code_ok_def normalize_user_code_def code_filter user_code_len_def Let_def del: de_Morgan_disj)

lemma normalize_drop: "normalize_user_code (a @ CHR ''-'' # b) = normalize_user_code (a @ b)"
  by (simp add: normalize_user_code_def)

lemma normalize_format: "code_ok u \<Longrightarrow> normalize_user_code (format_user_code u) = Some u"
  using normalize_drop [of "take 4 u" "drop 4 u"] normalize_code [of u]
  by (simp add: format_user_code_def code_ok_def user_code_len_def)

lemma normalize_range: "normalize_user_code s = Some u \<Longrightarrow> code_ok u"
  by (auto simp: normalize_user_code_def code_ok_def user_code_len_def Let_def split: if_splits)

lemma user_code_char_in: "user_code_char b \<in> set user_code_alphabet"
proof -
  have "and b 31 \<le> 31" by (rule word_and_le1)
  then have "unat (and b 31) < length user_code_alphabet"
    by (simp add: word_le_nat_alt user_code_alphabet_def)
  then show ?thesis unfolding user_code_char_def by simp
qed

lemma generated_code_ok: "length bytes \<ge> 8 \<Longrightarrow> code_ok (generate_user_code bytes)"
  by (auto simp: code_ok_def generate_user_code_def user_code_len_def list_all_iff user_code_char_in)

text \<open>
  User codes survive a person: any eight octets make a code of eight symbols of the alphabet; the
  code, its display form with a hyphen, its lower-case form, and each of these with a hyphen put anywhere
  normalize back to it; and whatever normalization accepts is itself such a code.
\<close>
theorem user_code_roundtrip:
  assumes "length bytes \<ge> 8"
  defines "u \<equiv> generate_user_code bytes"
  shows "normalize_user_code u = Some u \<and> normalize_user_code (format_user_code u) = Some u \<and>
    normalize_user_code (js_lower u) = Some u \<and>
    (\<forall>a b. a @ b \<in> {u, js_lower u} \<longrightarrow> normalize_user_code (a @ CHR ''-'' # b) = Some u) \<and>
    (\<forall>s v. normalize_user_code s = Some v \<longrightarrow> normalize_user_code (format_user_code v) = Some v)"
  using generated_code_ok [OF assms(1)] normalize_range
  unfolding u_def normalize_drop by (auto simp: normalize_code normalize_format normalize_lower)

theorem user_code_roundtrip_witness:
  "normalize_user_code (format_user_code (generate_user_code [0, 255, 17, 42, 64, 31, 200, 9])) =
     Some (generate_user_code [0, 255, 17, 42, 64, 31, 200, 9]) \<and>
   normalize_user_code '' 0zha-0z 89'' = Some ''0ZHA0Z89'' \<and> normalize_user_code ''0OHA0Z89'' = None"
proof (intro conjI)
  have "8 \<le> length ([0, 255, 17, 42, 64, 31, 200, 9] :: 8 word list)" by simp
  from user_code_roundtrip [OF this]
  show "normalize_user_code (format_user_code (generate_user_code [0, 255, 17, 42, 64, 31, 200, 9])) =
     Some (generate_user_code [0, 255, 17, 42, 64, 31, 200, 9])" by blast
qed code_simp+

section \<open>Single use\<close>

text \<open>
  C0. A device code is single-use: once a poll has answered \<open>approved\<close>, every later poll of that code
  answers \<open>expired_token\<close>, whatever calls come between, unless a mint draws a device code with the same hash.
\<close>
theorem enrollment_single_use:
  assumes "poll_by_device_code sha cipher dc now rows = (rows1, Inr (PollApproved token i member))"
    and "list_all (\<lambda>op. \<not> may_mint sha (sha dc) op) later"
  shows "snd (poll_by_device_code sha cipher dc t (fst (run_ops (enroll_exec sha cipher) later rows1))) = Inr ExpiredToken"
proof -
  from assms(1) have "rows1 = delete_by_device_hash (sha dc) rows" by (rule poll_approved)
  then have "absent (sha dc) rows1" by (auto simp: absent_def delete_by_device_hash_def)
  with enroll_gone.run_frozen [OF run_other_steps [OF assms(2)]]
  have "absent (sha dc) (fst (run_ops (enroll_exec sha cipher) later rows1))" by blast
  then show ?thesis by (simp add: poll_absent)
qed

definition demo_draws :: "(string \<times> 8 word list) list" where
  "demo_draws = [(''r1'', [0, 1, 2, 3, 4, 5, 6, 7])]"

definition demo_mint :: enroll_op where
  "demo_mint = Mint \<lparr>mi_source_ip = None, mi_source_ua = None, mi_label_hint = None\<rparr> demo_draws 1000"

definition demo_approval :: approve_input where
  "demo_approval = \<lparr>ai_user_code = ''01234567'', ai_approved_by = ''ada'', ai_bound_member = ''bob'',
     ai_approve_args = ''{}'', ai_token_id = ''t1'', ai_token_plaintext = ''csuite_abc''\<rparr>"

definition demo_sealer :: field_cipher where
  "demo_sealer = \<lparr>encrypt = (\<lambda>s. Some (''enc-v1:'' @ s)), decrypt = (\<lambda>s. Inr (Some (drop 7 s)))\<rparr>"

definition demo_rows :: "enrollment_row list" where
  "demo_rows = fst (run_ops (enroll_exec id (Some demo_sealer)) [demo_mint, Approve demo_approval] [])"

theorem enrollment_single_use_witness:
  "snd (poll_by_device_code id (Some demo_sealer) ''csuite-dc_r1'' 2000
     (fst (run_ops (enroll_exec id (Some demo_sealer)) [Approve demo_approval, Purge 1500]
        (delete_by_device_hash ''csuite-dc_r1'' demo_rows)))) = Inr ExpiredToken"
proof -
  have p: "poll_by_device_code id (Some demo_sealer) ''csuite-dc_r1'' 1200 demo_rows =
      (delete_by_device_hash ''csuite-dc_r1'' demo_rows, Inr (PollApproved ''csuite_abc'' ''t1'' ''bob''))"
    by code_simp
  have l: "list_all (\<lambda>op. \<not> may_mint id (id ''csuite-dc_r1'') op) [Approve demo_approval, Purge 1500]"
    by (simp add: may_mint_def)
  from enrollment_single_use [OF p l] show ?thesis .
qed

section \<open>Provenance\<close>

text \<open>
  C0. A token goes only to the device whose code was approved: when, after any calls on the empty store,
  a poll answers \<open>approved\<close>, then one earlier mint drew that device code together with a user code, one
  earlier approval named that very user code, and the answer carries that approval's token id and member
  and the unwrapped token it stored; and the poll is within five minutes of the mint.
\<close>
theorem enrollment_token_provenance:
  assumes "poll_by_device_code sha cipher dc now (fst (run_ops (enroll_exec sha cipher) ops [])) =
      (rows', Inr (PollApproved token i member))"
  shows "\<exists>m draws t n input. Mint m draws t \<in> set ops \<and> n < 5 \<and> sha dc = draw_hash sha draws n \<and>
    Approve input \<in> set ops \<and> ai_user_code input = generate_user_code (snd (draw_of draws n)) \<and>
    ai_token_id input = i \<and> ai_bound_member input = member \<and>
    unwrap_token cipher (wrap_token cipher (ai_token_plaintext input)) = Inr (Some token) \<and>
    now \<le> t + 5 * 60 * 1000"
proof -
  have "traced sha cipher [] []" by (simp add: traced_def)
  from traced_run [OF this] have tr: "traced sha cipher (rev ops) (fst (run_ops (enroll_exec sha cipher) ops []))" by simp
  from assms obtain row ct where row: "sql_get (\<lambda>r. er_hash r = sha dc) (fst (run_ops (enroll_exec sha cipher) ops [])) = Some row"
    "now \<le> er_expires_at row" "er_status row = ''approved''" "er_token_id row = Some i" "er_token_ct row = Some ct"
    "er_bound_member row = Some member" "unwrap_token cipher ct = Inr (Some token)"
    by (rule poll_approved)
  from sql_get_SomeD [OF row(1)] have r: "row \<in> set (fst (run_ops (enroll_exec sha cipher) ops []))" "er_hash row = sha dc"
    by simp_all
  with tr row(3) have "minted_by sha (rev ops) row" "approved_by cipher (rev ops) row"
    unfolding traced_def by blast+
  then obtain m draws t n input where "Mint m draws t \<in> set ops" "n < 5" "er_hash row = draw_hash sha draws n"
    "er_user_code row = generate_user_code (snd (draw_of draws n))" "er_expires_at row = t + enrollment_ttl_ms"
    "Approve input \<in> set ops" "ai_user_code input = er_user_code row" "er_token_id row = Some (ai_token_id input)"
    "er_token_ct row = Some (wrap_token cipher (ai_token_plaintext input))" "er_bound_member row = Some (ai_bound_member input)"
    unfolding minted_by_def approved_by_def by auto
  with r(2) row show ?thesis
    by (intro exI [of _ m] exI [of _ draws] exI [of _ t] exI [of _ n] exI [of _ input]) (simp add: enrollment_ttl_ms_def)
qed

theorem enrollment_token_provenance_witness:
  "\<exists>input. Approve input \<in> set [demo_mint, Approve demo_approval] \<and> ai_token_id input = ''t1'' \<and> ai_bound_member input = ''bob''"
proof -
  have p: "poll_by_device_code id (Some demo_sealer) ''csuite-dc_r1'' 1200
      (fst (run_ops (enroll_exec id (Some demo_sealer)) [demo_mint, Approve demo_approval] [])) =
      (delete_by_device_hash ''csuite-dc_r1'' demo_rows, Inr (PollApproved ''csuite_abc'' ''t1'' ''bob''))"
    by code_simp
  from enrollment_token_provenance [OF p] show ?thesis by blast
qed

section \<open>The first decision wins and is delivered\<close>

text \<open>What the store relies on of the cipher: a text without the prefix encrypts to one with it that decrypts back.\<close>

definition cipher_sound :: "field_cipher option \<Rightarrow> bool" where
  "cipher_sound cipher \<longleftrightarrow>
     (case cipher of None \<Rightarrow> True
      | Some c \<Rightarrow> (\<forall>p. \<not> starts_with p encrypted_field_prefix \<longrightarrow>
          (\<exists>e. encrypt c p = Some e \<and> starts_with e encrypted_field_prefix \<and> decrypt c e = Inr (Some p))))"

lemma unwrap_wrap:
  assumes "cipher_sound cipher" "\<not> starts_with p encrypted_field_prefix"
  shows "unwrap_token cipher (wrap_token cipher p) = Inr (Some p)"
proof (cases cipher)
  case (Some c)
  with assms obtain e where "encrypt c p = Some e" "starts_with e encrypted_field_prefix" "decrypt c e = Inr (Some p)"
    by (auto simp: cipher_sound_def)
  with Some show ?thesis by (simp add: unwrap_token_def wrap_token_def)
qed (simp add: unwrap_token_def wrap_token_def)

lemma approve_pending:
  assumes "enroll_inv rows" "r \<in> set rows" "er_status r = ''pending''" "er_user_code r = ai_user_code input"
  obtains rows1 row where "enroll_approve cipher input rows = (rows1, True)"
    "\<forall>x \<in> set rows1. \<not> actionable (ai_user_code input) x"
    "sql_get (\<lambda>x. er_hash x = er_hash r) rows1 = Some row" "er_expires_at row = er_expires_at r"
    "er_status row = ''approved''" "er_token_id row = Some (ai_token_id input)"
    "er_token_ct row = Some (wrap_token cipher (ai_token_plaintext input))" "er_bound_member row = Some (ai_bound_member input)"
proof -
  let ?P = "actionable (ai_user_code input)"
  define f where "f = (\<lambda>x :: enrollment_row. x\<lparr>er_status := ''approved'', er_approved_by := Some (ai_approved_by input),
     er_bound_member := Some (ai_bound_member input), er_approve_args := Some (ai_approve_args input),
     er_token_id := Some (ai_token_id input), er_token_ct := Some (wrap_token cipher (ai_token_plaintext input))\<rparr>)"
  let ?rows = "sql_update ?P f rows"
  have act: "?P r" using assms(3,4) by (simp add: actionable_def)
  then have "0 < sql_changes ?P rows" using assms(2) by (auto simp: sql_changes_pos)
  then have 1: "enroll_approve cipher input rows = (?rows, True)" by (simp add: enroll_approve_def f_def)
  have 2: "\<forall>x \<in> set ?rows. \<not> ?P x" by (auto simp: set_sql_update actionable_def f_def)
  have keys: "List.map er_hash ?rows = List.map er_hash rows" by (rule map_key_sql_update) (simp add: f_def)
  have "f r \<in> set ?rows" using assms(2) act by (auto simp: set_sql_update image_iff intro!: bexI [of _ r])
  then have 3: "sql_get (\<lambda>x. er_hash x = er_hash r) ?rows = Some (f r)"
    using assms(1) keys by (intro sql_get_unique) (simp_all add: enroll_inv_def f_def)
  show ?thesis by (rule that [OF 1 2 3]) (simp_all add: f_def)
qed

text \<open>
  C28. The first decision wins and reaches the device: approving a pending row succeeds; every further
  approval or rejection of that user code then returns false and changes nothing; and a poll of the
  device within the lifetime returns the approved token, its id and the member, and consumes the row.
\<close>
theorem enrollment_first_decision_delivered:
  assumes "enroll_inv rows" and "r \<in> set rows" and "er_status r = ''pending''" and "er_hash r = sha dc"
    and "er_user_code r = ai_user_code input" and "now \<le> er_expires_at r"
    and "cipher_sound cipher" and "\<not> starts_with (ai_token_plaintext input) encrypted_field_prefix"
  shows "\<exists>rows1. enroll_approve cipher input rows = (rows1, True) \<and>
    (\<forall>again. ai_user_code again = ai_user_code input \<longrightarrow> enroll_approve cipher again rows1 = (rows1, False)) \<and>
    (\<forall>rej. rj_user_code rej = ai_user_code input \<longrightarrow> enroll_reject rej rows1 = (rows1, False)) \<and>
    poll_by_device_code sha cipher dc now rows1 =
      (delete_by_device_hash (sha dc) rows1,
       Inr (PollApproved (ai_token_plaintext input) (ai_token_id input) (ai_bound_member input)))"
proof -
  from approve_pending [OF assms(1,2,3,5), of cipher] obtain rows1 row where
    ok: "enroll_approve cipher input rows = (rows1, True)"
    and settled: "\<forall>x \<in> set rows1. \<not> actionable (ai_user_code input) x"
    and row: "sql_get (\<lambda>x. er_hash x = sha dc) rows1 = Some row" "er_expires_at row = er_expires_at r"
      "er_status row = ''approved''" "er_token_id row = Some (ai_token_id input)"
      "er_token_ct row = Some (wrap_token cipher (ai_token_plaintext input))" "er_bound_member row = Some (ai_bound_member input)"
    using assms(4) by metis
  have none: "sql_changes (actionable (ai_user_code input)) rows1 = 0"
    using settled sql_changes_pos [of "actionable (ai_user_code input)" rows1] by auto
  have "\<forall>again. ai_user_code again = ai_user_code input \<longrightarrow> enroll_approve cipher again rows1 = (rows1, False)"
    using none sql_update_none [OF settled] by (simp add: enroll_approve_def)
  moreover have "\<forall>rej. rj_user_code rej = ai_user_code input \<longrightarrow> enroll_reject rej rows1 = (rows1, False)"
    using none sql_update_none [OF settled] by (simp add: enroll_reject_def)
  moreover have "poll_by_device_code sha cipher dc now rows1 =
      (delete_by_device_hash (sha dc) rows1,
       Inr (PollApproved (ai_token_plaintext input) (ai_token_id input) (ai_bound_member input)))"
    using assms(6) row unwrap_wrap [OF assms(7,8)] by (simp add: poll_by_device_code_def status_of_def)
  ultimately show ?thesis using ok by blast
qed

definition demo_pending :: "enrollment_row list" where
  "demo_pending = fst (enroll_exec id (Some demo_sealer) demo_mint [])"

theorem enrollment_first_decision_delivered_witness:
  "\<exists>rows1. enroll_approve (Some demo_sealer) demo_approval demo_pending = (rows1, True) \<and>
    snd (poll_by_device_code id (Some demo_sealer) ''csuite-dc_r1'' 1200 rows1) = Inr (PollApproved ''csuite_abc'' ''t1'' ''bob'')"
proof -
  have inv: "enroll_inv demo_pending" unfolding demo_pending_def by (rule enroll_exec_inv) (simp add: enroll_inv_def)
  have one: "length demo_pending = 1" by code_simp
  then have mem: "hd demo_pending \<in> set demo_pending" by (metis hd_in_set list.size(3) zero_neq_one)
  have r: "er_status (hd demo_pending) = ''pending''" "er_hash (hd demo_pending) = id ''csuite-dc_r1''"
    "er_user_code (hd demo_pending) = ai_user_code demo_approval" "1200 \<le> er_expires_at (hd demo_pending)" by code_simp+
  have c: "cipher_sound (Some demo_sealer)"
    by (simp add: cipher_sound_def demo_sealer_def starts_with_def encrypted_field_prefix_def)
  have p: "\<not> starts_with (ai_token_plaintext demo_approval) encrypted_field_prefix" by code_simp
  have v: "ai_token_plaintext demo_approval = ''csuite_abc''" "ai_token_id demo_approval = ''t1''"
    "ai_bound_member demo_approval = ''bob''" by (simp_all add: demo_approval_def)
  from enrollment_first_decision_delivered [where sha = id and dc = "''csuite-dc_r1''", OF inv mem r c p, unfolded v] show ?thesis by auto
qed

section \<open>Expiry\<close>

text \<open>
  C0. \<open>approve\<close> does not look at the expiry: on a pending row whose lifetime has ended it returns true and
  marks the row approved, although \<open>lookupByUserCode\<close> already answers \<open>expired\<close>; the poll then answers
  \<open>expired_token\<close> and the token is never delivered.
\<close>
theorem enrollment_approve_ignores_expiry:
  assumes "enroll_inv rows" and "r \<in> set rows" and "er_status r = ''pending''" and "er_hash r = sha dc"
    and "er_user_code r = ai_user_code input" and "er_expires_at r < now"
  shows "lookup_by_user_code (ai_user_code input) now rows = LookupExpired \<and>
    (\<exists>rows1. enroll_approve cipher input rows = (rows1, True) \<and>
      snd (poll_by_device_code sha cipher dc now rows1) = Inr ExpiredToken)"
proof
  have "sql_get (\<lambda>x. er_user_code x = ai_user_code input) rows = Some r"
    using assms(1,2,5) by (intro sql_get_unique) (simp_all add: enroll_inv_def)
  with assms(6) show "lookup_by_user_code (ai_user_code input) now rows = LookupExpired"
    by (simp add: lookup_by_user_code_def)
  from approve_pending [OF assms(1,2,3,5), of cipher] obtain rows1 row where
    "enroll_approve cipher input rows = (rows1, True)" "sql_get (\<lambda>x. er_hash x = sha dc) rows1 = Some row"
    "er_expires_at row = er_expires_at r"
    using assms(4) by metis
  with assms(6) show "\<exists>rows1. enroll_approve cipher input rows = (rows1, True) \<and>
      snd (poll_by_device_code sha cipher dc now rows1) = Inr ExpiredToken"
    by (intro exI [of _ rows1]) (simp add: poll_by_device_code_def)
qed

theorem enrollment_approve_ignores_expiry_witness:
  "\<exists>rows1. enroll_approve None demo_approval demo_pending = (rows1, True) \<and>
     snd (poll_by_device_code id None ''csuite-dc_r1'' 400000 rows1) = Inr ExpiredToken"
proof -
  have inv: "enroll_inv demo_pending" unfolding demo_pending_def by (rule enroll_exec_inv) (simp add: enroll_inv_def)
  have one: "length demo_pending = 1" by code_simp
  then have mem: "hd demo_pending \<in> set demo_pending" by (metis hd_in_set list.size(3) zero_neq_one)
  have r: "er_status (hd demo_pending) = ''pending''" "er_hash (hd demo_pending) = id ''csuite-dc_r1''"
    "er_user_code (hd demo_pending) = ai_user_code demo_approval" "er_expires_at (hd demo_pending) < 400000" by code_simp+
  from enrollment_approve_ignores_expiry [where sha = id and dc = "''csuite-dc_r1''", OF inv mem r] show ?thesis by blast
qed

end
