(* ===== verification/Registry.thy ===== *)
theory Registry
  imports Wire
begin

text \<open>
  The presence registry, \<open>packages/core/src/registry.ts\<close>: the known members, their live subscribers, and
  what each subscriber reported. A subscriber is a callback compared by reference; here it is a number
  that names it. A \<open>Map\<close> iterates in insertion order and is an association list.
\<close>

section \<open>State\<close>

record role =
  ro_title :: string
  ro_description :: string

type_synonym subscriber = nat

record turn_result =
  tr_at :: int
  tr_outcome :: turn_outcome

record presence_state =
  pr_name :: string
  pr_created :: int
  pr_last_seen :: int
  pr_role :: "role option"
  ps_subscribers :: "subscriber list"
  ps_tokens :: "(subscriber \<times> string option) list"
  ps_identities :: "(subscriber \<times> client_identity option) list"
  ps_ids :: "(subscriber \<times> string) list"
  ps_conditions :: "(subscriber \<times> condition_frame) list"
  ps_turns :: "(subscriber \<times> (string \<times> int) list) list"    \<comment> \<open>turn id and \<open>startedAt\<close>\<close>
  ps_last_acted :: "(subscriber \<times> int) list"
  ps_last_turn :: "(subscriber \<times> turn_result) list"

type_synonym registry = "(string \<times> presence_state) list"

definition fresh_presence :: "string \<Rightarrow> int \<Rightarrow> role option \<Rightarrow> presence_state" where
  "fresh_presence name now role =
     \<lparr>pr_name = name, pr_created = now, pr_last_seen = now, pr_role = role, ps_subscribers = [],
      ps_tokens = [], ps_identities = [], ps_ids = [], ps_conditions = [], ps_turns = [],
      ps_last_acted = [], ps_last_turn = []\<rparr>"

definition register_or_get :: "string \<Rightarrow> int \<Rightarrow> role option \<Rightarrow> registry \<Rightarrow> registry \<times> presence_state" where
  "register_or_get name now role reg =
     (case map_of reg name of
        Some existing \<Rightarrow>
          (let st = existing\<lparr>pr_last_seen := now\<rparr> in (AList.update name st reg, st))
      | None \<Rightarrow>
          (let st = fresh_presence name now role in (AList.update name st reg, st)))"

definition reg_get :: "string \<Rightarrow> registry \<Rightarrow> presence_state option" where
  "reg_get name reg = map_of reg name"

definition reg_has :: "string \<Rightarrow> registry \<Rightarrow> bool" where
  "reg_has name reg \<longleftrightarrow> map_of reg name \<noteq> None"

definition all_states :: "registry \<Rightarrow> presence_state list" where
  "all_states reg = List.map snd reg"

text \<open>The lookups \<open>map.get(sub) ?? null\<close>.\<close>

definition identity_of :: "presence_state \<Rightarrow> subscriber \<Rightarrow> client_identity option" where
  "identity_of st sub = (case map_of (ps_identities st) sub of None \<Rightarrow> None | Some i \<Rightarrow> i)"

definition token_of :: "presence_state \<Rightarrow> subscriber \<Rightarrow> string option" where
  "token_of st sub = (case map_of (ps_tokens st) sub of None \<Rightarrow> None | Some t \<Rightarrow> t)"

fun is_runner :: "client_identity option \<Rightarrow> bool" where
  "is_runner (Some (Runner ri)) = True"
| "is_runner _ = False"

section \<open>Reports\<close>

record version_skew =
  vs_skew :: bool
  vs_runner_version :: string
  vs_broker_version :: string

record client_report =
  cr_identity :: client_identity
  cr_connections :: nat
  cr_skew :: "version_skew option"    \<comment> \<open>only on runner reports\<close>

record runner_report =
  rr_identity :: runner_identity
  rr_connections :: nat
  rr_skew :: version_skew

datatype executor_status = ExReady | ExDegraded | ExUnreported

record executor_state =
  ex_state :: executor_status
  ex_reason :: "(condition_code \<times> string) option"
  ex_active_turns :: nat
  ex_last_turn_at :: "int option"
  ex_last_acted_at :: "int option"
  ex_last_outcome :: "turn_outcome option"

record presence_reports =
  rep_runners :: "runner_report list"
  rep_clients :: "client_report list"
  rep_unreported :: nat
  rep_executor :: executor_state

record presence =
  pe_name :: string
  pe_connected :: nat
  pe_auth_blocked :: nat
  pe_reports :: "presence_reports option"    \<comment> \<open>present when the caller gives the broker's version\<close>
  pe_created :: int
  pe_last_seen :: int
  pe_role :: "role option"

text \<open>The grouping key: the JSON text of the identity's fields, \<open>undefined\<close> printed as \<open>null\<close>.\<close>

fun runner_kind_text :: "runner_kind \<Rightarrow> string" where
  "runner_kind_text ClaudeRunner = ''claude''"
| "runner_kind_text CodexRunner = ''codex''"
| "runner_kind_text StubRunner = ''stub''"

fun build_source_text :: "build_source \<Rightarrow> string" where
  "build_source_text NpmBuild = ''npm''"
| "build_source_text MainBuild = ''main''"

fun supervision_json :: "supervision option \<Rightarrow> json" where
  "supervision_json None = JNull"
| "supervision_json (Some (Systemd unit)) = JObj [(''kind'', JStr ''systemd''), (''unit'', JStr unit)]"
| "supervision_json (Some NoSupervision) = JObj [(''kind'', JStr ''none'')]"

definition opt_json :: "string option \<Rightarrow> json" where
  "opt_json s = (case s of None \<Rightarrow> JNull | Some s \<Rightarrow> JStr s)"

fun client_key :: "client_identity \<Rightarrow> json_text" where
  "client_key (Runner ri) = json_stringify (JArr
     [JStr ''runner'', JStr (runner_kind_text (ri_runner ri)), opt_json (ri_model_id ri), JStr (ri_version ri),
      JStr (build_source_text (ri_build_source ri)), supervision_json (ri_supervision ri),
      opt_json (if ri_disposition_v1 ri then Some ''disposition-v1'' else None),
      opt_json (if ri_runner_state_v1 ri then Some ''runner-state-v1'' else None)])"
| "client_key (Browser v) = json_stringify (JArr [JStr ''browser'', JStr v])"
| "client_key (Cli v) = json_stringify (JArr [JStr ''cli'', JStr v])"
| "client_key (Sdk v) = json_stringify (JArr [JStr ''sdk'', JStr v])"

type_synonym client_groups = "(json_text \<times> client_identity \<times> nat) list"

definition group_client :: "client_identity option \<Rightarrow> client_groups \<Rightarrow> client_groups" where
  "group_client identity grouped =
     (case identity of
        None \<Rightarrow> grouped
      | Some i \<Rightarrow>
          (case map_of grouped (client_key i) of
             Some (j, connections) \<Rightarrow> AList.update (client_key i) (j, connections + 1) grouped
           | None \<Rightarrow> AList.update (client_key i) (i, 1) grouped))"

definition client_reports :: "string option \<Rightarrow> presence_state \<Rightarrow> client_report list" where
  "client_reports broker_version st =
     List.map (\<lambda>(k, identity, connections).
         \<lparr>cr_identity = identity, cr_connections = connections,
          cr_skew = (case identity of
             Runner ri \<Rightarrow> Some
               \<lparr>vs_skew = (case broker_version of None \<Rightarrow> False | Some v \<Rightarrow> ri_version ri \<noteq> v),
                vs_runner_version = ri_version ri,
                vs_broker_version = (case broker_version of None \<Rightarrow> ''(unreported)'' | Some v \<Rightarrow> v)\<rparr>
           | _ \<Rightarrow> None)\<rparr>)
       (fold group_client (List.map snd (ps_identities st)) [])"

definition runner_reports :: "client_report list \<Rightarrow> runner_report list" where
  "runner_reports reports =
     concat (List.map (\<lambda>r. case (cr_identity r, cr_skew r) of
         (Runner ri, Some skew) \<Rightarrow> [\<lparr>rr_identity = ri, rr_connections = cr_connections r, rr_skew = skew\<rparr>]
       | _ \<Rightarrow> []) reports)"

definition token_blocked :: "string list \<Rightarrow> string option \<Rightarrow> bool" where
  "token_blocked blocked token = (case token of None \<Rightarrow> False | Some t \<Rightarrow> t \<in> set blocked)"

text \<open>What one runner subscriber says of itself: state and reason, or nothing.\<close>

definition classify :: "string list \<Rightarrow> presence_state \<Rightarrow> subscriber \<Rightarrow>
    (condition_state \<times> (condition_code \<times> string) option) option" where
  "classify blocked st sub =
     (if token_blocked blocked (token_of st sub)
      then Some (Degraded, Some (AuthBlocked, ''runner credential is revoked''))
      else map_option (\<lambda>c. (cf_state c, cf_reason c)) (map_of (ps_conditions st) sub))"

definition says :: "condition_state \<Rightarrow> (condition_state \<times> (condition_code \<times> string) option) option \<Rightarrow> bool" where
  "says s c \<longleftrightarrow> map_option fst c = Some s"

definition max_list_opt :: "int list \<Rightarrow> int option" where
  "max_list_opt xs = (case xs of [] \<Rightarrow> None | x # rest \<Rightarrow> Some (fold max rest x))"

definition executor_of :: "string list \<Rightarrow> presence_state \<Rightarrow> executor_state" where
  "executor_of blocked st =
     (let classifications = List.map (classify blocked st)
            (filter (\<lambda>sub. is_runner (identity_of st sub)) (ps_subscribers st));
          ready = list_ex (says Ready) classifications;
          all_degraded = (classifications \<noteq> [] \<and> list_all (says Degraded) classifications);
          last_turns = order_desc tr_at (List.map snd (ps_last_turn st))
      in \<lparr>ex_state = (if ready then ExReady else if all_degraded then ExDegraded else ExUnreported),
          ex_reason = (if all_degraded
             then Option.bind (Option.bind (List.find (says Degraded) classifications) id) snd else None),
          ex_active_turns = fold (\<lambda>turns count. count + length turns) (List.map snd (ps_turns st)) 0,
          ex_last_turn_at = (case last_turns of [] \<Rightarrow> None | t # _ \<Rightarrow> Some (tr_at t)),
          ex_last_acted_at = max_list_opt (List.map snd (ps_last_acted st)),
          ex_last_outcome = (case last_turns of [] \<Rightarrow> None | t # _ \<Rightarrow> Some (tr_outcome t))\<rparr>)"

definition presence_of :: "string list \<Rightarrow> string option \<Rightarrow> presence_state \<Rightarrow> presence" where
  "presence_of blocked broker_version st =
     (let reports = client_reports broker_version st in
      \<lparr>pe_name = pr_name st, pe_connected = length (ps_subscribers st),
       pe_auth_blocked = length (filter (token_blocked blocked) (List.map snd (ps_tokens st))),
       pe_reports = (if broker_version \<noteq> None then Some
          \<lparr>rep_runners = runner_reports reports, rep_clients = reports,
           rep_unreported = length (filter (\<lambda>i. i = None) (List.map snd (ps_identities st))),
           rep_executor = executor_of blocked st\<rparr> else None),
       pe_created = pr_created st, pe_last_seen = pr_last_seen st, pe_role = pr_role st\<rparr>)"

definition reg_list :: "string list \<Rightarrow> string option \<Rightarrow> registry \<Rightarrow> presence list" where
  "reg_list blocked broker_version reg = List.map (presence_of blocked broker_version) (all_states reg)"

end
