(* ===== verification/Fanout.thy ===== *)
theory Fanout
  imports Prelude Complex_Main "HOL-Library.Multiset"
begin

text \<open>
  \<open>boundedParallel\<close> of \<open>packages/core/src/broker.ts\<close>: the fan-out pool of \<open>push\<close>. Its workers are
  asynchronous, so the model is a transition system: one worker advances at a time, and the theorems
  hold for every schedule. Items are their indices.
\<close>

section \<open>The pool\<close>

datatype worker = Claiming | Running nat | Stopped

record fan =
  fan_next :: nat              \<comment> \<open>\<open>next\<close>\<close>
  fan_workers :: "worker list"
  fan_pool :: bool             \<comment> \<open>the loop of claims; one task per item when there are enough workers\<close>
  fan_done :: "nat list"       \<comment> \<open>items whose callback was settled, returned or threw, in that order\<close>

definition fan_limit :: "rat \<Rightarrow> nat" where
  "fan_limit concurrency = nat (max 1 \<lfloor>concurrency\<rfloor>)"

definition fan_start :: "rat \<Rightarrow> nat \<Rightarrow> fan" where
  "fan_start concurrency n =
     (if fan_limit concurrency \<ge> n
      then \<lparr>fan_next = n, fan_workers = List.map Running [0..<n], fan_pool = False, fan_done = []\<rparr>
      else \<lparr>fan_next = 0, fan_workers = replicate (fan_limit concurrency) Claiming, fan_pool = True, fan_done = []\<rparr>)"

text \<open>
  One worker's next move over \<open>n\<close> items: take \<open>next++\<close> and run that item or return, or settle the item it
  runs. An error goes to \<open>onError\<close>, so the worker goes on either way.
\<close>

definition fan_advance :: "nat \<Rightarrow> nat \<Rightarrow> fan \<Rightarrow> fan option" where
  "fan_advance n w s =
     (if w \<ge> length (fan_workers s) then None
      else case fan_workers s ! w of
        Claiming \<Rightarrow>
          Some (s\<lparr>fan_next := fan_next s + 1,
                  fan_workers := (fan_workers s)[w := (if fan_next s \<ge> n then Stopped else Running (fan_next s))]\<rparr>)
      | Running i \<Rightarrow>
          Some (s\<lparr>fan_workers := (fan_workers s)[w := (if fan_pool s then Claiming else Stopped)],
                  fan_done := fan_done s @ [i]\<rparr>)
      | Stopped \<Rightarrow> None)"

inductive fan_step :: "nat \<Rightarrow> fan \<Rightarrow> fan \<Rightarrow> bool" for n where
  "fan_advance n w s = Some s' \<Longrightarrow> fan_step n s s'"

text \<open>A schedule names the worker that advances; a worker that cannot is skipped.\<close>

definition fan_run :: "nat \<Rightarrow> nat list \<Rightarrow> fan \<Rightarrow> fan" where
  "fan_run n schedule s =
     fold (\<lambda>w s. case fan_advance n w s of None \<Rightarrow> s | Some s' \<Rightarrow> s') schedule s"

fun running :: "worker \<Rightarrow> nat list" where
  "running (Running i) = [i]"
| "running _ = []"

definition in_flight :: "fan \<Rightarrow> nat list" where
  "in_flight s = concat (List.map running (fan_workers s))"

section \<open>Every schedule\<close>

inductive_cases fan_stepE: "fan_step n s s'"

lemma fan_advance_cases:
  assumes "fan_advance n w s = Some s'"
  obtains (claim) "w < length (fan_workers s)" "fan_workers s ! w = Claiming" "fan_next s < n"
      "s' = s\<lparr>fan_next := fan_next s + 1, fan_workers := (fan_workers s)[w := Running (fan_next s)]\<rparr>"
    | (stop) "w < length (fan_workers s)" "fan_workers s ! w = Claiming" "n \<le> fan_next s"
      "s' = s\<lparr>fan_next := fan_next s + 1, fan_workers := (fan_workers s)[w := Stopped]\<rparr>"
    | (finish) i where "w < length (fan_workers s)" "fan_workers s ! w = Running i"
      "s' = s\<lparr>fan_workers := (fan_workers s)[w := (if fan_pool s then Claiming else Stopped)], fan_done := fan_done s @ [i]\<rparr>"
  using assms by (auto simp: fan_advance_def split: if_splits worker.splits)

lemma mset_concat_update:
  "w < length xs \<Longrightarrow>
   mset (concat (List.map f (xs[w := x]))) + mset (f (xs ! w)) = mset (concat (List.map f xs)) + mset (f x)"
proof (induction xs arbitrary: w)
  case (Cons y ys)
  then show ?case by (cases w) (auto simp: ac_simps)
qed simp

lemma sum_list_update:
  "w < length xs \<Longrightarrow>
   sum_list (List.map f (xs[w := x])) + f (xs ! w) = sum_list (List.map f xs) + (f x :: nat)"
proof (induction xs arbitrary: w)
  case (Cons y ys)
  then show ?case by (cases w) auto
qed simp

text \<open>What was claimed is what is running or settled.\<close>

definition fan_inv :: "nat \<Rightarrow> fan \<Rightarrow> bool" where
  "fan_inv n s \<longleftrightarrow>
     mset (in_flight s) + mset (fan_done s) = mset [0..<min (fan_next s) n] \<and>
     (fan_workers s = [] \<longrightarrow> n = 0) \<and> (Stopped \<in> set (fan_workers s) \<or> \<not> fan_pool s \<longrightarrow> n \<le> fan_next s)"

lemma fan_start_inv: "fan_inv n (fan_start c n)"
proof -
  have "concat (List.map running (List.map Running xs)) = xs" for xs by (induction xs) auto
  moreover have "concat (List.map running (replicate k Claiming)) = []" for k by (induction k) auto
  moreover have "fan_limit c \<ge> 1" by (auto simp: fan_limit_def)
  ultimately show ?thesis by (auto simp: fan_inv_def fan_start_def in_flight_def)
qed

lemma fan_step_inv: "fan_step n s s' \<Longrightarrow> fan_inv n s \<Longrightarrow> fan_inv n s'"
proof (elim fan_stepE)
  fix w assume adv: "fan_advance n w s = Some s'" and inv: "fan_inv n s"
  note upd = mset_concat_update [of w "fan_workers s" running]
  have ins: "x \<in> set ((fan_workers s)[w := y]) \<Longrightarrow> x = y \<or> x \<in> set (fan_workers s)" for x y
    using set_update_subset_insert [of "fan_workers s" w y] by auto
  from adv show "fan_inv n s'"
  proof (cases rule: fan_advance_cases)
    case claim
    from upd [OF claim(1), of "Running (fan_next s)"] claim inv show ?thesis
      using ins [of Stopped] by (auto simp: fan_inv_def in_flight_def)
  next
    case stop
    from upd [OF stop(1), of Stopped] stop inv show ?thesis by (auto simp: fan_inv_def in_flight_def)
  next
    case (finish i)
    define y where "y = (if fan_pool s then Claiming else Stopped)"
    have y: "running y = []" by (simp add: y_def)
    have "mset (concat (List.map running ((fan_workers s)[w := y]))) + {#i#} = mset (in_flight s)"
      using upd [OF finish(1), of y] finish(2) y by (simp add: in_flight_def)
    with inv have "mset (concat (List.map running ((fan_workers s)[w := y]))) + mset (fan_done s @ [i])
        = mset [0..<min (fan_next s) n]"
      by (simp add: fan_inv_def) (metis add_mset_add_single union_assoc union_commute)
    then show ?thesis
      using inv finish ins [of Stopped y] y_def unfolding fan_inv_def in_flight_def
      by (auto split: if_splits)
  qed
qed

interpretation fan_pool: invariant_system "fan_step n" "fan_inv n" for n
  by unfold_locales (rule fan_step_inv)

fun worker_work :: "worker \<Rightarrow> nat" where
  "worker_work Claiming = 1"
| "worker_work (Running i) = 2"
| "worker_work Stopped = 0"

definition fan_work :: "nat \<Rightarrow> fan \<Rightarrow> nat" where
  "fan_work n s = 3 * (n - fan_next s) + sum_list (List.map worker_work (fan_workers s))"

lemma fan_step_work: "fan_step n s s' \<Longrightarrow> fan_work n s' < fan_work n s"
proof (elim fan_stepE)
  fix w assume "fan_advance n w s = Some s'"
  then show "fan_work n s' < fan_work n s"
  proof (cases rule: fan_advance_cases)
    case claim
    with sum_list_update [OF claim(1), of worker_work "Running (fan_next s)"]
    show ?thesis by (simp add: fan_work_def)
  next
    case stop
    with sum_list_update [OF stop(1), of worker_work Stopped] show ?thesis by (simp add: fan_work_def)
  next
    case (finish i)
    with sum_list_update [OF finish(1), of worker_work "if fan_pool s then Claiming else Stopped"]
    show ?thesis by (auto simp: fan_work_def split: if_splits)
  qed
qed

lemma fan_run_length: "(fan_step n ^^ k) s s' \<Longrightarrow> k + fan_work n s' \<le> fan_work n s"
proof (induction k arbitrary: s')
  case (Suc k)
  then obtain t where "(fan_step n ^^ k) s t" "fan_step n t s'" by auto
  with Suc.IH [of t] fan_step_work [of n t s'] show ?case by simp
qed simp

lemma fan_step_workers: "fan_step n s s' \<Longrightarrow> length (fan_workers s') = length (fan_workers s)"
  by (elim fan_stepE) (erule fan_advance_cases; simp)

lemma fan_run_workers: "(fan_step n)\<^sup>*\<^sup>* s s' \<Longrightarrow> length (fan_workers s') = length (fan_workers s)"
  by (induction rule: rtranclp_induct) (auto simp: fan_step_workers)

lemma in_flight_bound: "length (in_flight s) \<le> length (fan_workers s)"
proof -
  have "length (concat (List.map running ws)) \<le> length ws" for ws
  proof (induction ws)
    case (Cons w ws)
    then show ?case by (cases w) auto
  qed simp
  then show ?thesis by (simp add: in_flight_def)
qed

lemma fan_stuck:
  assumes "fan_inv n s" "\<nexists>s'. fan_step n s s'"
  shows "mset (fan_done s) = mset [0..<n]"
proof -
  have stopped: "x = Stopped" if x: "x \<in> set (fan_workers s)" for x
  proof -
    obtain w where w: "w < length (fan_workers s)" "fan_workers s ! w = x" using x by (auto simp: in_set_conv_nth)
    have "fan_advance n w s = None"
      using assms(2) fan_step.intros [of n w s] by (cases "fan_advance n w s") blast+
    with w show ?thesis by (auto simp: fan_advance_def split: worker.splits)
  qed
  then have "in_flight s = []" by (auto simp: in_flight_def dest!: stopped)
  moreover have "n \<le> fan_next s"
  proof (cases "fan_workers s")
    case Nil
    with assms(1) show ?thesis by (simp add: fan_inv_def)
  next
    case (Cons x ws)
    with stopped have "Stopped \<in> set (fan_workers s)" by auto
    with assms(1) show ?thesis by (simp add: fan_inv_def)
  qed
  ultimately show ?thesis using assms(1) by (simp add: fan_inv_def min_def)
qed

lemma fan_start_size:
  "length (fan_workers (fan_start c n)) = min (fan_limit c) n \<or> n = 0"
  by (auto simp: fan_start_def)

lemma fan_start_work: "fan_work n (fan_start c n) \<le> 3 * n + 2 * fan_limit c"
proof -
  have "sum_list (List.map worker_work (List.map Running xs)) = 2 * length xs" for xs by (induction xs) auto
  moreover have "sum_list (List.map worker_work (replicate k Claiming)) = k" for k by (induction k) auto
  ultimately show ?thesis by (auto simp: fan_start_def fan_work_def)
qed

end
