(* ===== verification/Broker.thy ===== *)
theory Broker
  imports Registry EventLog DeliveryLedger Fanout
begin

text \<open>
  The broker, \<open>packages/core/src/broker.ts\<close>: the registry, the event log and the disposition ledger tied
  together by \<open>push\<close>, the subscriptions, and the frames a runner sends. A subscriber callback is foreign
  code: it either returns or throws, and it may dispose of deliveries in the ledger before it does.
  The clock and the id source are arguments. Every call of a callback and every event shown to the
  disposition listeners is appended to a trace. A call runs to its end before the next one starts.
\<close>

section \<open>State\<close>

record disposition_event =
  de_message :: message
  de_recipient :: string
  de_disposition :: disposition
  de_at :: int
  de_reason :: "disposition_reason option"

record callback_call =
  cc_member :: string
  cc_subscriber :: subscriber
  cc_message :: message

record broker =
  br_registry :: registry
  br_log :: mem_log
  br_ledger :: mem_ledger
  br_blocked :: "string list"
  br_calls :: "callback_call list"
  br_events :: "disposition_event list"

text \<open>What a callback does when it is called: the ledger it leaves, and whether it returned.\<close>

type_synonym callbacks = "subscriber \<Rightarrow> message \<Rightarrow> mem_ledger \<Rightarrow> mem_ledger \<times> bool"

datatype broker_error =
    InvalidRecipient string
  | CredentialShapedBody
  | PresenceIdentity string string
  | SubscriberThrew

record push_context =
  pc_from :: "string option"
  pc_recipients :: "string list option"
  pc_track :: bool                      \<comment> \<open>\<open>trackDisposition !== false\<close>\<close>

record identity_context =
  ic_name :: "string option"
  ic_role :: "role option"
  ic_token :: "string option"
  ic_client :: "client_identity option"
  ic_runner :: "runner_identity option"    \<comment> \<open>the deprecated \<open>runnerIdentity\<close>\<close>
  ic_subscription :: "string option"

datatype ack_status = AckPending | AckUnreported | AckSettled

record acknowledgement =
  ack_status :: ack_status
  ack_pending :: nat
  ack_unreported :: nat

record delivery_report =
  dl_live :: nat
  dl_targets :: nat
  dl_ack :: "acknowledgement option"

record push_result =
  res_delivery :: delivery_report
  res_message :: message

section \<open>Helpers\<close>

definition supports_disposition :: "client_identity option \<Rightarrow> bool" where
  "supports_disposition identity =
     (case identity of Some (Runner ri) \<Rightarrow> ri_disposition_v1 ri | _ \<Rightarrow> False)"

definition assert_identity :: "string \<Rightarrow> string option \<Rightarrow> (broker_error, unit) res" where
  "assert_identity target name =
     (case name of
        None \<Rightarrow> Inr ()
      | Some n \<Rightarrow> if n \<noteq> target then Inl (PresenceIdentity target n) else Inr ())"

definition resolve_target :: "string option \<Rightarrow> (broker_error, string option) res" where
  "resolve_target target =
     (case target of
        None \<Rightarrow> Inr None
      | Some n \<Rightarrow> if name_ok n then Inr (Some n) else Inl (InvalidRecipient n))"

text \<open>\<open>name ? [name] : []\<close>: null and the empty string are falsy.\<close>

definition truthy_name :: "string option \<Rightarrow> string list" where
  "truthy_name name = (case name of None \<Rightarrow> [] | Some n \<Rightarrow> if n = [] then [] else [n])"

definition subscriber_ready :: "string list \<Rightarrow> presence_state \<Rightarrow> subscriber \<Rightarrow> bool" where
  "subscriber_ready blocked st sub =
     (if \<not> supports_disposition (identity_of st sub) then False
      else if token_blocked blocked (token_of st sub) then False
      else (case map_of (ps_conditions st) sub of None \<Rightarrow> False | Some c \<Rightarrow> cf_state c = Ready))"

text \<open>\<open>if (!state || !id) return null\<close>, then the first subscriber with that id.\<close>

definition find_subscription :: "presence_state option \<Rightarrow> string option \<Rightarrow> subscriber option" where
  "find_subscription st sid =
     (case (st, sid) of
        (Some st, Some sid) \<Rightarrow>
          if sid = [] then None
          else map_option fst (List.find (\<lambda>(sub, candidate). candidate = sid) (ps_ids st))
      | _ \<Rightarrow> None)"

definition put_state :: "string \<Rightarrow> presence_state \<Rightarrow> broker \<Rightarrow> broker" where
  "put_state name st b = b\<lparr>br_registry := AList.update name st (br_registry b)\<rparr>"

section \<open>Registration\<close>

definition broker_register ::
  "string \<Rightarrow> identity_context \<Rightarrow> int \<Rightarrow> broker \<Rightarrow> broker \<times> (broker_error, string \<times> int) res" where
  "broker_register name ctx now b =
     (case assert_identity name (ic_name ctx) of
        Inl e \<Rightarrow> (b, Inl e)
      | Inr _ \<Rightarrow>
          (let (reg, st) = register_or_get name now (ic_role ctx) (br_registry b)
           in (b\<lparr>br_registry := reg\<rparr>, Inr (pr_name st, pr_created st))))"

definition seed_members :: "(string \<times> role) list \<Rightarrow> int \<Rightarrow> broker \<Rightarrow> broker" where
  "seed_members members now b =
     b\<lparr>br_registry := fold (\<lambda>(name, role) reg. fst (register_or_get name now (Some role) reg))
                        members (br_registry b)\<rparr>"

section \<open>Push\<close>

definition push_message :: "string \<Rightarrow> int \<Rightarrow> string option \<Rightarrow> push_payload \<Rightarrow> push_context \<Rightarrow> message" where
  "push_message mid ts target p ctx =
     \<lparr>m_id = mid, m_ts = ts, m_to = target, m_from = pc_from ctx, m_title = p_title p, m_body = p_body p,
      m_level = (case p_level p of None \<Rightarrow> Info | Some l \<Rightarrow> l),
      m_data = (case p_data p of None \<Rightarrow> [] | Some d \<Rightarrow> d),
      m_attachments = (case p_attachments p of None \<Rightarrow> [] | Some xs \<Rightarrow> xs)\<rparr>"

text \<open>The audience persisted with the row.\<close>

definition push_audience :: "string option \<Rightarrow> push_context \<Rightarrow> string list option" where
  "push_audience target ctx =
     (case (target, pc_recipients ctx) of
        (None, Some rs) \<Rightarrow> Some (js_set (rs @ truthy_name (pc_from ctx)))
      | _ \<Rightarrow> None)"

text \<open>The names whose states the fan-out reaches, in the order of the \<open>Set\<close> of states.\<close>

definition target_names :: "string option \<Rightarrow> push_context \<Rightarrow> registry \<Rightarrow> string list" where
  "target_names target ctx reg =
     (case target of
        Some n \<Rightarrow>
          filter (\<lambda>n. reg_has n reg) ([n] @ filter (\<lambda>s. s \<noteq> n) (truthy_name (pc_from ctx)))
      | None \<Rightarrow>
          (case pc_recipients ctx of
             Some rs \<Rightarrow> js_set (filter (\<lambda>n. reg_has n reg) (rs @ truthy_name (pc_from ctx)))
           | None \<Rightarrow> List.map fst reg))"

definition target_states :: "string option \<Rightarrow> push_context \<Rightarrow> registry \<Rightarrow> presence_state list" where
  "target_states target ctx reg = List.map_filter (\<lambda>n. reg_get n reg) (target_names target ctx reg)"

definition disposition_names :: "string option \<Rightarrow> push_context \<Rightarrow> presence_state list \<Rightarrow> string list" where
  "disposition_names target ctx states =
     (case target of
        Some n \<Rightarrow> [n]
      | None \<Rightarrow> (case pc_recipients ctx of
                   Some rs \<Rightarrow> js_set rs
                 | None \<Rightarrow> js_set (List.map pr_name states)))"

text \<open>A live runner that cannot acknowledge, and none that can.\<close>

definition has_legacy_runner :: "presence_state \<Rightarrow> bool" where
  "has_legacy_runner st =
     (let runners = filter is_runner (List.map snd (ps_identities st))
      in runners \<noteq> [] \<and> \<not> list_ex supports_disposition runners)"

definition track_step :: "message \<Rightarrow> int \<Rightarrow> string list \<Rightarrow> presence_state \<Rightarrow> mem_ledger \<times> nat \<Rightarrow> mem_ledger \<times> nat" where
  "track_step message ts names st acc =
     (let (ledger, unreported) = acc in
      if pr_name st \<notin> set names then (ledger, unreported)
      else if has_legacy_runner st then (ledger, unreported + 1)
      else (mem_track message (pr_name st) ts ledger, unreported))"

definition track_all :: "message \<Rightarrow> int \<Rightarrow> string list \<Rightarrow> presence_state list \<Rightarrow> mem_ledger \<Rightarrow> mem_ledger \<times> nat" where
  "track_all message ts names states ledger = fold (track_step message ts names) states (ledger, 0)"

record fanout_task =
  ft_member :: string
  ft_sub :: subscriber
  ft_ack :: bool

definition capable_runners :: "bool \<Rightarrow> presence_state \<Rightarrow> subscriber list" where
  "capable_runners tracked st =
     (if tracked then filter (\<lambda>c. supports_disposition (identity_of st c)) (ps_subscribers st) else [])"

definition no_liveness_runner :: "client_identity option \<Rightarrow> bool" where
  "no_liveness_runner identity =
     (case identity of Some (Runner ri) \<Rightarrow> \<not> ri_runner_state_v1 ri | _ \<Rightarrow> False)"

text \<open>The runner that gets the message: the first ready one, else the first without a liveness protocol.\<close>

definition selected_runner :: "string list \<Rightarrow> presence_state \<Rightarrow> subscriber list \<Rightarrow> subscriber option" where
  "selected_runner blocked st capable =
     (case List.find (subscriber_ready blocked st) capable of
        Some c \<Rightarrow> Some c
      | None \<Rightarrow> List.find (\<lambda>c. no_liveness_runner (identity_of st c)) capable)"

definition member_tasks :: "string list \<Rightarrow> bool \<Rightarrow> presence_state \<Rightarrow> fanout_task list" where
  "member_tasks blocked tracked st =
     (let capable = capable_runners tracked st;
          selected = selected_runner blocked st capable
      in List.map (\<lambda>sub. \<lparr>ft_member = pr_name st, ft_sub = sub, ft_ack = supports_disposition (identity_of st sub)\<rparr>)
           (filter (\<lambda>sub. \<not> (is_runner (identity_of st sub) \<and> capable \<noteq> [] \<and> Some sub \<noteq> selected))
             (ps_subscribers st)))"

text \<open>The worker of \<open>boundedParallel\<close> on one task; the third component counts \<open>live\<close>.\<close>

definition run_task :: "callbacks \<Rightarrow> message \<Rightarrow> int \<Rightarrow> bool \<Rightarrow> fanout_task \<Rightarrow>
    mem_ledger \<times> callback_call list \<times> nat \<Rightarrow> mem_ledger \<times> callback_call list \<times> nat" where
  "run_task cb message ts track t acc =
     (let (ledger, calls, live) = acc;
          calls' = calls @ [\<lparr>cc_member = ft_member t, cc_subscriber = ft_sub t, cc_message = message\<rparr>];
          (ledger', ok) = cb (ft_sub t) message ledger
      in if \<not> ok then (ledger', calls', live)
         else (if track \<and> ft_ack t then mem_note_sent (m_id message) (ft_member t) ts ledger' else ledger',
               calls', live + 1))"

definition pending_for :: "message \<Rightarrow> int \<Rightarrow> mem_ledger \<Rightarrow> string \<Rightarrow> bool" where
  "pending_for message now ledger name =
     list_ex (\<lambda>row. m_id (pd_message row) = m_id message) (mem_pending name now ledger)"

text \<open>\<open>mid\<close> and \<open>ts\<close> are the id and the clock read on entry, \<open>later\<close> the clock read after the fan-out.\<close>

definition push :: "callbacks \<Rightarrow> string \<Rightarrow> int \<Rightarrow> int \<Rightarrow> push_payload \<Rightarrow> push_context \<Rightarrow> broker \<Rightarrow>
    broker \<times> (broker_error, push_result) res" where
  "push cb mid ts later p ctx b =
     (if contains_bearer_token (p_body p) then (b, Inl CredentialShapedBody)
      else case resolve_target (p_to p) of
        Inl e \<Rightarrow> (b, Inl e)
      | Inr target \<Rightarrow>
          (let message = push_message mid ts target p ctx;
               events = mem_append message (push_audience target ctx) (br_log b);
               states = target_states target ctx (br_registry b);
               names = disposition_names target ctx states;
               (ledger, unreported) = (if pc_track ctx then track_all message ts names states (br_ledger b)
                                       else (br_ledger b, 0));
               registry = fold (\<lambda>st reg. AList.update (pr_name st) (st\<lparr>pr_last_seen := ts\<rparr>) reg) states (br_registry b);
               tasks = concat (List.map (\<lambda>st. member_tasks (br_blocked b) (pc_track ctx \<and> pr_name st \<in> set names) st) states);
               (ledger', calls, live) = fold (run_task cb message ts (pc_track ctx)) tasks (ledger, br_calls b, 0);
               pending = length (filter (pending_for message later ledger') names);
               targets = (case target of
                   Some n \<Rightarrow> if reg_has n registry then 1 else 0
                 | None \<Rightarrow> (case pc_recipients ctx of Some rs \<Rightarrow> length rs | None \<Rightarrow> length states))
           in (b\<lparr>br_log := events, br_registry := registry, br_ledger := ledger', br_calls := calls\<rparr>,
               Inr \<lparr>res_delivery =
                      \<lparr>dl_live = live, dl_targets = targets,
                       dl_ack = (if \<not> pc_track ctx then None
                         else Some \<lparr>ack_status = (if pending > 0 then AckPending
                                                   else if unreported > 0 then AckUnreported else AckSettled),
                                    ack_pending = pending, ack_unreported = unreported\<rparr>)\<rparr>,
                    res_message = message\<rparr>)))"

end
