(* ===== verification/BrokerRunners.thy ===== *)
theory BrokerRunners
  imports Broker
begin

text \<open>
  The rest of the broker: subscriptions, the frames runners send, redelivery, the two sweeps and token
  revocation. A redelivery the code starts with \<open>void\<close> runs here where it is started, and its error is
  dropped as the code's \<open>catch\<close> drops it.
\<close>

section \<open>Changing one subscriber's entries\<close>

definition set_condition :: "subscriber \<Rightarrow> condition_frame \<Rightarrow> presence_state \<Rightarrow> presence_state" where
  "set_condition sub c st = st\<lparr>ps_conditions := AList.update sub c (ps_conditions st)\<rparr>"

definition set_turns :: "subscriber \<Rightarrow> (string \<times> int) list \<Rightarrow> presence_state \<Rightarrow> presence_state" where
  "set_turns sub turns st = st\<lparr>ps_turns := AList.update sub turns (ps_turns st)\<rparr>"

definition set_last_turn :: "subscriber \<Rightarrow> turn_result \<Rightarrow> presence_state \<Rightarrow> presence_state" where
  "set_last_turn sub t st = st\<lparr>ps_last_turn := AList.update sub t (ps_last_turn st)\<rparr>"

definition set_last_acted :: "subscriber \<Rightarrow> int \<Rightarrow> presence_state \<Rightarrow> presence_state" where
  "set_last_acted sub t st = st\<lparr>ps_last_acted := AList.update sub t (ps_last_acted st)\<rparr>"

text \<open>\<open>state.runnerTurns.get(sub) ?? new Map()\<close>.\<close>

definition turns_of :: "presence_state \<Rightarrow> subscriber \<Rightarrow> (string \<times> int) list" where
  "turns_of st sub = (case map_of (ps_turns st) sub of None \<Rightarrow> [] | Some t \<Rightarrow> t)"

section \<open>Redelivery\<close>

definition release_owner :: "string \<Rightarrow> string \<Rightarrow> broker \<Rightarrow> broker" where
  "release_owner name owner b = b\<lparr>br_ledger := fst (mem_release_owner name owner (br_ledger b))\<rparr>"

text \<open>\<open>projectDegraded\<close> and \<open>projectSubscriberGone\<close>, whose bodies are the same.\<close>

definition project_degraded :: "string \<Rightarrow> subscriber \<Rightarrow> presence_state \<Rightarrow> broker \<Rightarrow> broker" where
  "project_degraded name sub st b =
     (case map_of (ps_ids st) sub of
        None \<Rightarrow> b
      | Some owner \<Rightarrow> if owner = [] then b else release_owner name owner b)"

definition project_subscriber_gone :: "string \<Rightarrow> subscriber \<Rightarrow> presence_state \<Rightarrow> broker \<Rightarrow> broker" where
  "project_subscriber_gone name sub st b =
     (case map_of (ps_ids st) sub of
        None \<Rightarrow> b
      | Some owner \<Rightarrow> if owner = [] then b else release_owner name owner b)"

definition call_callback :: "callbacks \<Rightarrow> string \<Rightarrow> subscriber \<Rightarrow> message \<Rightarrow> broker \<Rightarrow> broker \<times> bool" where
  "call_callback cb name sub message b =
     (let (ledger, ok) = cb sub message (br_ledger b)
      in (b\<lparr>br_ledger := ledger,
            br_calls := br_calls b @ [\<lparr>cc_member = name, cc_subscriber = sub, cc_message = message\<rparr>]\<rparr>, ok))"

text \<open>The loop over the pending rows; a callback that throws ends it.\<close>

fun redeliver_rows :: "callbacks \<Rightarrow> string \<Rightarrow> subscriber \<Rightarrow> bool \<Rightarrow> int \<Rightarrow> pending_delivery list \<Rightarrow> nat \<Rightarrow>
    broker \<Rightarrow> broker \<times> (broker_error, nat) res" where
  "redeliver_rows cb name sub capable now [] delivered b = (b, Inr delivered)"
| "redeliver_rows cb name sub capable now (row # rows) delivered b =
     (let (b1, ok) = call_callback cb name sub (pd_message row) b in
      if \<not> ok then (b1, Inl SubscriberThrew)
      else redeliver_rows cb name sub capable now rows (delivered + 1)
             (if capable
              then b1\<lparr>br_ledger := mem_note_sent (m_id (pd_message row)) name now (br_ledger b1)\<rparr>
              else b1\<lparr>br_ledger := mem_mark_unreported (m_id (pd_message row)) name now (br_ledger b1)\<rparr>))"

definition redeliver_pending :: "callbacks \<Rightarrow> string \<Rightarrow> subscriber \<Rightarrow> client_identity option \<Rightarrow> int \<Rightarrow>
    broker \<Rightarrow> broker \<times> (broker_error, nat) res" where
  "redeliver_pending cb name sub identity now b =
     (let rows = mem_pending name now (br_ledger b);
          capable = supports_disposition identity;
          legacy = (is_runner identity \<and> \<not> capable)
      in if \<not> capable \<and> \<not> legacy then (b, Inr 0)
         else redeliver_rows cb name sub capable now rows 0 b)"

definition redeliver_to_ready :: "callbacks \<Rightarrow> string \<Rightarrow> presence_state \<Rightarrow> subscriber \<Rightarrow> int \<Rightarrow>
    broker \<Rightarrow> broker \<times> (broker_error, nat) res" where
  "redeliver_to_ready cb name st excluded now b =
     (case List.find (\<lambda>c. c \<noteq> excluded \<and> subscriber_ready (br_blocked b) st c) (ps_subscribers st) of
        None \<Rightarrow> (b, Inr 0)
      | Some ready \<Rightarrow> redeliver_pending cb name ready (identity_of st ready) now b)"

section \<open>Subscriptions\<close>

text \<open>\<open>fresh_id\<close> is what \<open>idFactory\<close> would return.\<close>

definition subscribed :: "subscriber \<Rightarrow> identity_context \<Rightarrow> string \<Rightarrow> presence_state \<Rightarrow> presence_state" where
  "subscribed callback ctx fresh_id st =
     st\<lparr>ps_subscribers := set_add callback (ps_subscribers st),
        ps_tokens := AList.update callback (ic_token ctx) (ps_tokens st),
        ps_identities := AList.update callback
          (case ic_client ctx of
             Some i \<Rightarrow> Some i
           | None \<Rightarrow> (case ic_runner ctx of Some ri \<Rightarrow> Some (Runner ri) | None \<Rightarrow> None)) (ps_identities st),
        ps_ids := AList.update callback
          (case ic_subscription ctx of Some sid \<Rightarrow> sid | None \<Rightarrow> fresh_id) (ps_ids st),
        ps_turns := AList.update callback [] (ps_turns st)\<rparr>"

definition subscribe :: "string \<Rightarrow> subscriber \<Rightarrow> identity_context \<Rightarrow> string \<Rightarrow> int \<Rightarrow>
    broker \<Rightarrow> broker \<times> (broker_error, unit) res" where
  "subscribe name callback ctx fresh_id now b =
     (case assert_identity name (ic_name ctx) of
        Inl e \<Rightarrow> (b, Inl e)
      | Inr _ \<Rightarrow>
          (let (reg, st) = register_or_get name now (ic_role ctx) (br_registry b)
           in (put_state name (subscribed callback ctx fresh_id st) (b\<lparr>br_registry := reg\<rparr>), Inr ())))"

text \<open>The function \<open>subscribe\<close> returns.\<close>

definition unsubscribed :: "subscriber \<Rightarrow> presence_state \<Rightarrow> presence_state" where
  "unsubscribed callback st =
     st\<lparr>ps_subscribers := filter (\<lambda>s. s \<noteq> callback) (ps_subscribers st),
        ps_tokens := AList.delete callback (ps_tokens st),
        ps_identities := AList.delete callback (ps_identities st),
        ps_ids := AList.delete callback (ps_ids st),
        ps_conditions := AList.delete callback (ps_conditions st),
        ps_turns := AList.delete callback (ps_turns st),
        ps_last_acted := AList.delete callback (ps_last_acted st),
        ps_last_turn := AList.delete callback (ps_last_turn st)\<rparr>"

definition unsubscribe :: "string \<Rightarrow> subscriber \<Rightarrow> broker \<Rightarrow> broker" where
  "unsubscribe name callback b =
     (case reg_get name (br_registry b) of
        None \<Rightarrow> b
      | Some current \<Rightarrow>
          put_state name (unsubscribed callback current) (project_subscriber_gone name callback current b))"

section \<open>Runner frames\<close>

definition emit_disposition :: "disposition_event \<Rightarrow> broker \<Rightarrow> broker" where
  "emit_disposition ev b = b\<lparr>br_events := br_events b @ [ev]\<rparr>"

fun reason_code_text :: "reason_code \<Rightarrow> string" where
  "reason_code_text RDegraded = ''degraded''"
| "reason_code_text RTurnFailed = ''turn_failed''"
| "reason_code_text RExpired = ''expired''"
| "reason_code_text RUnsupported = ''unsupported''"
| "reason_code_text ROperatorPolicy = ''operator_policy''"

definition reason_json :: "disposition_reason option \<Rightarrow> json" where
  "reason_json reason =
     (case reason of
        None \<Rightarrow> JNull
      | Some (c, detail) \<Rightarrow> JObj [(''code'', JStr (reason_code_text c)), (''detail'', JStr detail)])"

definition refusal_data :: "string \<Rightarrow> string \<Rightarrow> json \<Rightarrow> data" where
  "refusal_data message_id recipient reason =
     [(''kind'', JStr ''message_disposition''), (''messageId'', JStr message_id),
      (''recipient'', JStr recipient), (''disposition'', JStr ''refused''), (''reason'', reason)]"

definition refusal_payload :: "string \<Rightarrow> string \<Rightarrow> data \<Rightarrow> push_payload" where
  "refusal_payload sender body d =
     \<lparr>p_to = Some sender, p_title = Some ''Message explicitly refused'', p_body = body,
      p_level = Some Warning, p_data = Some d, p_attachments = None\<rparr>"

definition notice_context :: push_context where
  "notice_context = \<lparr>pc_from = None, pc_recipients = None, pc_track = False\<rparr>"

text \<open>\<open>clientIdentity\<close> of the frame's socket, and the owner its lease is held under.\<close>

definition disposition_owner :: "string \<Rightarrow> runner_identity \<Rightarrow> string option \<Rightarrow> string option" where
  "disposition_owner name ri subscription =
     (let owner = (case subscription of
            Some sid \<Rightarrow> Some sid
          | None \<Rightarrow> if ri_runner_state_v1 ri then None else Some (''legacy:'' @ name))
      in if owner = Some [] then None else owner)"

definition broker_disposition :: "callbacks \<Rightarrow> string \<Rightarrow> int \<Rightarrow> int \<Rightarrow> string \<Rightarrow> disposition_frame \<Rightarrow>
    identity_context \<Rightarrow> broker \<Rightarrow> broker \<times> (broker_error, bool) res" where
  "broker_disposition cb mid ts later name frame ctx b =
     (case assert_identity name (ic_name ctx) of
        Inl e \<Rightarrow> (b, Inl e)
      | Inr _ \<Rightarrow>
          (case ic_client ctx of
             Some (Runner ri) \<Rightarrow>
               (if \<not> ri_disposition_v1 ri then (b, Inr False)
                else case disposition_owner name ri (ic_subscription ctx) of
                  None \<Rightarrow> (b, Inr False)
                | Some owner \<Rightarrow>
                    (case mem_settle name frame owner (ri_runner_state_v1 ri) (br_ledger b) of
                       (ledger, None) \<Rightarrow> (b\<lparr>br_ledger := ledger\<rparr>, Inr False)
                     | (ledger, Some row) \<Rightarrow>
                         (let b1 = emit_disposition
                                \<lparr>de_message = pd_message row, de_recipient = name,
                                 de_disposition = df_disposition frame, de_at = df_at frame,
                                 de_reason = df_reason frame\<rparr> (b\<lparr>br_ledger := ledger\<rparr>)
                          in case (df_disposition frame, m_from (pd_message row)) of
                               (Refused, Some sender) \<Rightarrow>
                                 (let (b2, r) = push cb mid ts later
                                        (refusal_payload sender
                                          (''Message '' @ m_id (pd_message row) @ '' to '' @ name @ '' was refused.'')
                                          (refusal_data (m_id (pd_message row)) name (reason_json (df_reason frame))))
                                        notice_context b1
                                  in (b2, case r of Inl e \<Rightarrow> Inl e | Inr _ \<Rightarrow> Inr True))
                             | _ \<Rightarrow> (b1, Inr True))))
           | _ \<Rightarrow> (b, Inr False)))"

definition runner_condition :: "callbacks \<Rightarrow> string \<Rightarrow> condition_frame \<Rightarrow> identity_context \<Rightarrow> int \<Rightarrow>
    broker \<Rightarrow> broker \<times> (broker_error, bool) res" where
  "runner_condition cb name frame ctx now b =
     (case assert_identity name (ic_name ctx) of
        Inl e \<Rightarrow> (b, Inl e)
      | Inr _ \<Rightarrow>
          (case (reg_get name (br_registry b),
                 find_subscription (reg_get name (br_registry b)) (ic_subscription ctx)) of
             (Some st, Some sub) \<Rightarrow>
               (if \<not> is_runner (ic_client ctx) then (b, Inr False)
                else (let prior = map_of (ps_conditions st) sub;
                          st' = set_condition sub frame st;
                          b1 = put_state name st' b;
                          (b2, r) = (if cf_state frame = Degraded
                             then redeliver_to_ready cb name st' sub now (project_degraded name sub st' b1)
                             else if map_option cf_state prior \<noteq> Some Ready
                             then redeliver_pending cb name sub (ic_client ctx) now b1
                             else (b1, Inr 0))
                      in (b2, case r of Inl e \<Rightarrow> Inl e | Inr _ \<Rightarrow> Inr True)))
           | _ \<Rightarrow> (b, Inr False)))"

definition failed_turn_condition :: "int \<Rightarrow> string \<Rightarrow> condition_frame" where
  "failed_turn_condition when detail = \<lparr>cf_at = when, cf_state = Degraded, cf_reason = Some (UnknownCode, detail)\<rparr>"

text \<open>What a completed turn records of its subscriber, before a failure degrades it.\<close>

definition turn_completed :: "subscriber \<Rightarrow> string \<Rightarrow> int \<Rightarrow> turn_outcome \<Rightarrow> presence_state \<Rightarrow> presence_state" where
  "turn_completed sub turn_id when outcome st =
     (let st1 = set_turns sub (AList.delete turn_id (turns_of st sub)) st;
          st2 = set_last_turn sub \<lparr>tr_at = when, tr_outcome = outcome\<rparr> st1
      in if outcome = TurnActed then set_last_acted sub when st2 else st2)"

definition runner_turn :: "callbacks \<Rightarrow> string \<Rightarrow> turn_frame \<Rightarrow> identity_context \<Rightarrow> int \<Rightarrow>
    broker \<Rightarrow> broker \<times> (broker_error, bool) res" where
  "runner_turn cb name frame ctx now b =
     (case assert_identity name (ic_name ctx) of
        Inl e \<Rightarrow> (b, Inl e)
      | Inr _ \<Rightarrow>
          (case (reg_get name (br_registry b),
                 find_subscription (reg_get name (br_registry b)) (ic_subscription ctx)) of
             (Some st, Some sub) \<Rightarrow>
               (if \<not> is_runner (ic_client ctx) then (b, Inr False)
                else case tf_phase frame of
                    TurnStarted \<Rightarrow>
                      (put_state name (set_turns sub
                         (AList.update (tf_turn_id frame) (tf_at frame) (turns_of st sub)) st) b, Inr True)
                  | TurnCompleted outcome \<Rightarrow>
                      (if map_of (turns_of st sub) (tf_turn_id frame) = None
                       then (put_state name (set_turns sub (turns_of st sub) st) b, Inr False)
                       else (let st1 = turn_completed sub (tf_turn_id frame) (tf_at frame) outcome st in
                         if outcome = TurnFailed \<and> map_option cf_state (map_of (ps_conditions st1) sub) \<noteq> Some Degraded
                         then (let st2 = set_condition sub (failed_turn_condition (tf_at frame) ''runner turn failed'') st1
                               in (fst (redeliver_to_ready cb name st2 sub now
                                     (project_degraded name sub st2 (put_state name st2 b))), Inr True))
                         else (put_state name st1 b, Inr True))))
           | _ \<Rightarrow> (b, Inr False)))"

section \<open>Sweeps and revocation\<close>

definition open_turn_backstop_ms :: int where
  "open_turn_backstop_ms = 8 * 60 * 60000"

definition turn_expired :: "int \<Rightarrow> string \<times> int \<Rightarrow> bool" where
  "turn_expired now turn \<longleftrightarrow> now - snd turn \<ge> open_turn_backstop_ms"

text \<open>The body of the inner loop, for one subscriber of one member.\<close>

definition sweep_subscriber :: "callbacks \<Rightarrow> int \<Rightarrow> string \<Rightarrow> subscriber \<Rightarrow> broker \<times> nat \<Rightarrow> broker \<times> nat" where
  "sweep_subscriber cb now name sub acc =
     (let (b, released) = acc in
      case reg_get name (br_registry b) of
        None \<Rightarrow> (b, released)
      | Some st \<Rightarrow>
          (let expired = filter (turn_expired now) (turns_of st sub)
           in if expired = [] then (b, released)
              else (let st' = set_condition sub
                           (failed_turn_condition now ''runner turn exceeded exitability backstop'')
                           (set_last_turn sub \<lparr>tr_at = now, tr_outcome = TurnFailed\<rparr>
                             (set_turns sub (filter (\<lambda>t. \<not> turn_expired now t) (turns_of st sub)) st))
                    in (fst (redeliver_to_ready cb name st' sub now (project_degraded name sub st' (put_state name st' b))),
                        released + length expired))))"

definition sweep_member :: "callbacks \<Rightarrow> int \<Rightarrow> string \<Rightarrow> broker \<times> nat \<Rightarrow> broker \<times> nat" where
  "sweep_member cb now name acc =
     (case reg_get name (br_registry (fst acc)) of
        None \<Rightarrow> acc
      | Some st \<Rightarrow> fold (sweep_subscriber cb now name) (List.map fst (ps_turns st)) acc)"

definition sweep_open_turn_backstops :: "callbacks \<Rightarrow> int \<Rightarrow> broker \<Rightarrow> broker \<times> nat" where
  "sweep_open_turn_backstops cb now b =
     fold (sweep_member cb now) (List.map fst (br_registry b)) (b, 0)"

text \<open>The loop of \<open>sweepMessageDeliveries\<close>; the notice ids are \<open>fresh 0\<close>, \<open>fresh 1\<close> and so on.\<close>

fun notify_expired :: "callbacks \<Rightarrow> (nat \<Rightarrow> string) \<Rightarrow> nat \<Rightarrow> int \<Rightarrow> expired_delivery list \<Rightarrow> broker \<Rightarrow>
    broker \<times> (broker_error, unit) res" where
  "notify_expired cb fresh k now [] b = (b, Inr ())"
| "notify_expired cb fresh k now ((row, sender) # rows) b =
     (let b1 = emit_disposition
            \<lparr>de_message = pd_message row, de_recipient = pd_recipient row, de_disposition = Refused,
             de_at = now, de_reason = Some expired_reason\<rparr> b
      in case sender of
           None \<Rightarrow> notify_expired cb fresh k now rows b1
         | Some s \<Rightarrow>
             (case push cb (fresh k) now now
                (refusal_payload s
                  (''Message '' @ m_id (pd_message row) @ '' to '' @ pd_recipient row @ '' expired without acknowledgement.'')
                  (refusal_data (m_id (pd_message row)) (pd_recipient row) (JStr ''expired'')))
                notice_context b1 of
                (b2, Inl e) \<Rightarrow> (b2, Inl e)
              | (b2, Inr _) \<Rightarrow> notify_expired cb fresh (k + 1) now rows b2))"

definition sweep_message_deliveries :: "callbacks \<Rightarrow> (nat \<Rightarrow> string) \<Rightarrow> int \<Rightarrow> broker \<Rightarrow> broker \<times> (broker_error, nat) res" where
  "sweep_message_deliveries cb fresh now b =
     (let (ledger, expired) = mem_expire now (br_ledger b);
          (b', r) = notify_expired cb fresh 0 now expired (b\<lparr>br_ledger := ledger\<rparr>)
      in (b', case r of Inl e \<Rightarrow> Inl e | Inr _ \<Rightarrow> Inr (length expired)))"

definition block_subscriber :: "callbacks \<Rightarrow> int \<Rightarrow> string \<Rightarrow> presence_state \<Rightarrow> subscriber \<times> string option \<Rightarrow> broker \<Rightarrow> broker" where
  "block_subscriber cb now name st entry b =
     (if token_blocked (br_blocked b) (snd entry)
      then fst (redeliver_to_ready cb name st (fst entry) now (project_degraded name (fst entry) st b))
      else b)"

definition block_tokens :: "callbacks \<Rightarrow> string list \<Rightarrow> int \<Rightarrow> broker \<Rightarrow> broker" where
  "block_tokens cb token_ids now b =
     fold (\<lambda>st. fold (block_subscriber cb now (pr_name st) st) (ps_tokens st))
       (all_states (br_registry b))
       (b\<lparr>br_blocked := fold set_add token_ids (br_blocked b)\<rparr>)"

definition list_presences :: "callbacks \<Rightarrow> string option \<Rightarrow> int \<Rightarrow> broker \<Rightarrow> broker \<times> presence list" where
  "list_presences cb broker_version now b =
     (let b' = fst (sweep_open_turn_backstops cb now b)
      in (b', reg_list (br_blocked b') broker_version (br_registry b')))"

definition has_member :: "string \<Rightarrow> broker \<Rightarrow> bool" where
  "has_member name b = reg_has name (br_registry b)"

end
