(* ===== verification/BrokerLife.thy ===== *)
theory BrokerLife
  imports BrokerRunners DeliveryMemory
begin

text \<open>
  What the operations of the broker keep: the maps of every member's state run over exactly its
  subscribers, the log only grows, and revoked tokens stay revoked. The operations are the steps of a
  transition system; the subscriber callbacks are arbitrary throughout.
\<close>

section \<open>Parts an operation leaves alone\<close>

named_theorems broker_frame \<open>fields an operation does not touch\<close>

lemma project_degraded_frame [broker_frame]:
  "br_registry (project_degraded n s st b) = br_registry b" "br_log (project_degraded n s st b) = br_log b"
  "br_blocked (project_degraded n s st b) = br_blocked b" "br_calls (project_degraded n s st b) = br_calls b"
  "br_events (project_degraded n s st b) = br_events b"
  by (auto simp: project_degraded_def release_owner_def split: option.splits)

lemma project_subscriber_gone_eq: "project_subscriber_gone = project_degraded"
  by (intro ext) (simp add: project_subscriber_gone_def project_degraded_def)

lemma redeliver_rows_frame [broker_frame]:
  "br_registry (fst (redeliver_rows cb n s c t rows d b)) = br_registry b \<and>
   br_log (fst (redeliver_rows cb n s c t rows d b)) = br_log b \<and>
   br_blocked (fst (redeliver_rows cb n s c t rows d b)) = br_blocked b \<and>
   br_events (fst (redeliver_rows cb n s c t rows d b)) = br_events b"
  by (induction rows arbitrary: d b) (auto simp: call_callback_def Let_def split: prod.splits)

lemma redeliver_pending_frame [broker_frame]:
  "br_registry (fst (redeliver_pending cb n s i t b)) = br_registry b"
  "br_log (fst (redeliver_pending cb n s i t b)) = br_log b"
  "br_blocked (fst (redeliver_pending cb n s i t b)) = br_blocked b"
  "br_events (fst (redeliver_pending cb n s i t b)) = br_events b"
  by (auto simp: redeliver_pending_def Let_def broker_frame)

lemma redeliver_to_ready_frame [broker_frame]:
  "br_registry (fst (redeliver_to_ready cb n st x t b)) = br_registry b"
  "br_log (fst (redeliver_to_ready cb n st x t b)) = br_log b"
  "br_blocked (fst (redeliver_to_ready cb n st x t b)) = br_blocked b"
  "br_events (fst (redeliver_to_ready cb n st x t b)) = br_events b"
  by (auto simp: redeliver_to_ready_def broker_frame split: option.splits)

lemma put_state_frame [broker_frame]:
  "br_registry (put_state n st b) = AList.update n st (br_registry b)" "br_log (put_state n st b) = br_log b"
  "br_ledger (put_state n st b) = br_ledger b" "br_blocked (put_state n st b) = br_blocked b"
  "br_calls (put_state n st b) = br_calls b" "br_events (put_state n st b) = br_events b"
  by (simp_all add: put_state_def)

lemma emit_disposition_frame [broker_frame]:
  "br_registry (emit_disposition e b) = br_registry b" "br_log (emit_disposition e b) = br_log b"
  "br_ledger (emit_disposition e b) = br_ledger b" "br_blocked (emit_disposition e b) = br_blocked b"
  "br_calls (emit_disposition e b) = br_calls b"
  by (simp_all add: emit_disposition_def)

section \<open>Push, taken apart\<close>

definition push_states :: "string option \<Rightarrow> push_context \<Rightarrow> broker \<Rightarrow> presence_state list" where
  "push_states target ctx b = target_states target ctx (br_registry b)"

definition push_tracked :: "message \<Rightarrow> int \<Rightarrow> string option \<Rightarrow> push_context \<Rightarrow> broker \<Rightarrow> mem_ledger \<times> nat" where
  "push_tracked message ts target ctx b =
     (if pc_track ctx
      then track_all message ts (disposition_names target ctx (push_states target ctx b)) (push_states target ctx b) (br_ledger b)
      else (br_ledger b, 0))"

definition push_tasks :: "string option \<Rightarrow> push_context \<Rightarrow> broker \<Rightarrow> fanout_task list" where
  "push_tasks target ctx b =
     concat (List.map (\<lambda>st. member_tasks (br_blocked b)
         (pc_track ctx \<and> pr_name st \<in> set (disposition_names target ctx (push_states target ctx b))) st)
       (push_states target ctx b))"

definition push_fanout :: "callbacks \<Rightarrow> message \<Rightarrow> int \<Rightarrow> string option \<Rightarrow> push_context \<Rightarrow> broker \<Rightarrow>
    mem_ledger \<times> callback_call list \<times> nat" where
  "push_fanout cb message ts target ctx b =
     fold (run_task cb message ts (pc_track ctx)) (push_tasks target ctx b)
       (fst (push_tracked message ts target ctx b), br_calls b, 0)"

definition push_report :: "int \<Rightarrow> message \<Rightarrow> int \<Rightarrow> push_context \<Rightarrow> broker \<Rightarrow> mem_ledger \<Rightarrow> acknowledgement option" where
  "push_report later message ts ctx b ledger =
     (let target = m_to message;
          pending = length (filter (pending_for message later ledger)
                      (disposition_names target ctx (push_states target ctx b)));
          unreported = snd (push_tracked message ts target ctx b)
      in if \<not> pc_track ctx then None
         else Some \<lparr>ack_status = (if pending > 0 then AckPending else if unreported > 0 then AckUnreported else AckSettled),
                    ack_pending = pending, ack_unreported = unreported\<rparr>)"

definition touched :: "int \<Rightarrow> presence_state list \<Rightarrow> registry \<Rightarrow> registry" where
  "touched ts states reg = fold (\<lambda>st reg. AList.update (pr_name st) (st\<lparr>pr_last_seen := ts\<rparr>) reg) states reg"

definition push_done :: "callbacks \<Rightarrow> message \<Rightarrow> int \<Rightarrow> push_context \<Rightarrow> broker \<Rightarrow> broker" where
  "push_done cb message ts ctx b =
     (let target = m_to message; fan = push_fanout cb message ts target ctx b in
      b\<lparr>br_log := mem_append message (push_audience target ctx) (br_log b),
        br_registry := touched ts (push_states target ctx b) (br_registry b),
        br_ledger := fst fan, br_calls := fst (snd fan)\<rparr>)"

definition target_ok :: "string option \<Rightarrow> bool" where
  "target_ok target = (case target of None \<Rightarrow> True | Some n \<Rightarrow> name_ok n)"

lemma m_to_push_message [simp]: "m_to (push_message mid ts target p ctx) = target"
  by (simp add: push_message_def)

lemma push_sent:
  assumes "\<not> contains_bearer_token (p_body p)" "target_ok (p_to p)"
    and message_def: "message = push_message mid ts (p_to p) p ctx"
  shows "\<exists>res. push cb mid ts later p ctx b = (push_done cb message ts ctx b, Inr res) \<and>
    res_message res = message \<and> dl_live (res_delivery res) = snd (snd (push_fanout cb message ts (p_to p) ctx b)) \<and>
    dl_ack (res_delivery res) = push_report later message ts ctx b (br_ledger (push_done cb message ts ctx b))"
proof -
  have target: "resolve_target (p_to p) = Inr (p_to p)"
    using assms(2) by (auto simp: resolve_target_def target_ok_def split: option.splits)
  show ?thesis
    unfolding message_def
    by (simp add: push_def assms(1) target Let_def case_prod_beta push_done_def push_fanout_def push_tasks_def
        push_tracked_def push_states_def push_report_def touched_def)
qed

lemma push_refused:
  assumes "contains_bearer_token (p_body p) \<or> \<not> target_ok (p_to p)"
  shows "\<exists>e. push cb mid ts later p ctx b = (b, Inl e) \<and>
    (e = CredentialShapedBody \<longleftrightarrow> contains_bearer_token (p_body p)) \<and>
    (\<forall>n. e = InvalidRecipient n \<longleftrightarrow> \<not> contains_bearer_token (p_body p) \<and> p_to p = Some n)"
  using assms by (auto simp: push_def resolve_target_def target_ok_def split: option.splits)

lemma push_cases:
  obtains (refused) e where "push cb mid ts later p ctx b = (b, Inl e)"
      "contains_bearer_token (p_body p) \<or> \<not> target_ok (p_to p)"
    | (sent) res message where "push cb mid ts later p ctx b = (push_done cb message ts ctx b, Inr res)"
      "message = push_message mid ts (p_to p) p ctx" "res_message res = message"
      "\<not> contains_bearer_token (p_body p)" "target_ok (p_to p)"
      "dl_live (res_delivery res) = snd (snd (push_fanout cb message ts (p_to p) ctx b))"
      "dl_ack (res_delivery res) = push_report later message ts ctx b (br_ledger (push_done cb message ts ctx b))"
proof (cases "contains_bearer_token (p_body p) \<or> \<not> target_ok (p_to p)")
  case True
  from push_refused [OF this, of cb mid ts later ctx b] True show ?thesis using refused by blast
next
  case False
  then have ok: "\<not> contains_bearer_token (p_body p)" "target_ok (p_to p)" by auto
  from push_sent [OF ok refl, of cb mid ts later ctx b] obtain res where
    "push cb mid ts later p ctx b = (push_done cb (push_message mid ts (p_to p) p ctx) ts ctx b, Inr res)"
    "res_message res = push_message mid ts (p_to p) p ctx"
    "dl_live (res_delivery res) = snd (snd (push_fanout cb (push_message mid ts (p_to p) p ctx) ts (p_to p) ctx b))"
    "dl_ack (res_delivery res) = push_report later (push_message mid ts (p_to p) p ctx) ts ctx b
       (br_ledger (push_done cb (push_message mid ts (p_to p) p ctx) ts ctx b))" by blast
  then show ?thesis using sent ok by blast
qed

lemma push_done_frame [broker_frame]:
  "br_log (push_done cb message ts ctx b) = br_log b @ [\<lparr>se_message = message, se_recipients = push_audience (m_to message) ctx\<rparr>]"
  "br_registry (push_done cb message ts ctx b) = touched ts (push_states (m_to message) ctx b) (br_registry b)"
  "br_ledger (push_done cb message ts ctx b) = fst (push_fanout cb message ts (m_to message) ctx b)"
  "br_calls (push_done cb message ts ctx b) = fst (snd (push_fanout cb message ts (m_to message) ctx b))"
  "br_blocked (push_done cb message ts ctx b) = br_blocked b" "br_events (push_done cb message ts ctx b) = br_events b"
  by (simp_all add: push_done_def Let_def mem_append_def)

section \<open>Member states\<close>

text \<open>The maps of a member's state run over its subscribers.\<close>

definition state_inv :: "presence_state \<Rightarrow> bool" where
  "state_inv st \<longleftrightarrow>
     distinct (ps_subscribers st) \<and>
     List.map fst (ps_tokens st) = ps_subscribers st \<and> List.map fst (ps_identities st) = ps_subscribers st \<and>
     List.map fst (ps_ids st) = ps_subscribers st \<and> List.map fst (ps_turns st) = ps_subscribers st \<and>
     fst ` set (ps_conditions st) \<subseteq> set (ps_subscribers st) \<and>
     fst ` set (ps_last_acted st) \<subseteq> set (ps_subscribers st) \<and>
     fst ` set (ps_last_turn st) \<subseteq> set (ps_subscribers st)"

definition registry_inv :: "registry \<Rightarrow> bool" where
  "registry_inv reg \<longleftrightarrow>
     distinct (List.map fst reg) \<and> (\<forall>(name, st) \<in> set reg. pr_name st = name \<and> state_inv st)"

lemma registry_invD:
  assumes "registry_inv reg" "map_of reg n = Some st"
  shows "pr_name st = n \<and> state_inv st"
  using assms map_of_SomeD [OF assms(2)] by (auto simp: registry_inv_def)

lemma map_fst_update: "List.map fst (AList.update k v xs) = (if k \<in> fst ` set xs then List.map fst xs else List.map fst xs @ [k])"
  by (simp add: AList.update_keys image_set [symmetric] del: image_set)

lemma registry_inv_update [inv_intros]:
  assumes "registry_inv reg" "pr_name st = n" "state_inv st"
  shows "registry_inv (AList.update n st reg)"
proof -
  have "set (AList.update n st reg) \<subseteq> insert (n, st) (set reg)"
    by (induction reg) auto
  then show ?thesis
    using assms by (auto simp: registry_inv_def AList.distinct_update)
qed


lemma state_inv_fresh [inv_intros]: "state_inv (fresh_presence n now role)"
  by (simp add: state_inv_def fresh_presence_def)

lemma state_inv_seen [inv_intros]: "state_inv st \<Longrightarrow> state_inv (st\<lparr>pr_last_seen := now\<rparr>)"
  by (simp add: state_inv_def)

lemma state_inv_subscribed [inv_intros]: "state_inv st \<Longrightarrow> state_inv (subscribed cb ctx fresh st)"
  unfolding state_inv_def subscribed_def
  by (simp add: map_fst_update set_add_def) (metis list.set_map subset_insertI2)

lemma keys_in: "List.map fst xs = ks \<Longrightarrow> fst ` set xs = set ks"
  by (metis image_set)

lemma dom_delete: "fst ` set (AList.delete k xs) = fst ` set xs - {k}"
  by (metis AList.delete_keys image_set set_removeAll)

lemma state_inv_unsubscribed [inv_intros]: "state_inv st \<Longrightarrow> state_inv (unsubscribed cb st)"
  unfolding state_inv_def unsubscribed_def
  by (auto simp: AList.delete_keys removeAll_filter_not_eq dom_delete eq_commute [of cb])

lemma setters_inv [inv_intros]:
  assumes "state_inv st" "sub \<in> set (ps_subscribers st)"
  shows "state_inv (set_condition sub c st)" "state_inv (set_turns sub ts st)"
    "state_inv (set_last_turn sub t st)" "state_inv (set_last_acted sub i st)"
  using assms keys_in [of "ps_turns st" "ps_subscribers st"]
  by (simp_all add: state_inv_def set_condition_def set_turns_def set_last_turn_def set_last_acted_def
      AList.dom_update map_fst_update)

lemma setters_keep [simp]:
  "pr_name (set_condition sub c st) = pr_name st" "ps_subscribers (set_condition sub c st) = ps_subscribers st"
  "pr_name (set_turns sub ts st) = pr_name st" "ps_subscribers (set_turns sub ts st) = ps_subscribers st"
  "pr_name (set_last_turn sub t st) = pr_name st" "ps_subscribers (set_last_turn sub t st) = ps_subscribers st"
  "pr_name (set_last_acted sub i st) = pr_name st" "ps_subscribers (set_last_acted sub i st) = ps_subscribers st"
  "ps_ids (set_condition sub c st) = ps_ids st" "ps_ids (set_turns sub ts st) = ps_ids st"
  "ps_ids (set_last_turn sub t st) = ps_ids st" "ps_ids (set_last_acted sub i st) = ps_ids st"
  "ps_conditions (set_turns sub ts st) = ps_conditions st" "ps_conditions (set_last_turn sub t st) = ps_conditions st"
  "ps_conditions (set_last_acted sub i st) = ps_conditions st"
  by (simp_all add: set_condition_def set_turns_def set_last_turn_def set_last_acted_def)

lemma turn_completed_keep [simp]:
  "pr_name (turn_completed sub tid t outcome st) = pr_name st"
  "ps_subscribers (turn_completed sub tid t outcome st) = ps_subscribers st"
  "ps_ids (turn_completed sub tid t outcome st) = ps_ids st"
  "ps_conditions (turn_completed sub tid t outcome st) = ps_conditions st"
  by (simp_all add: turn_completed_def Let_def)

lemma turn_completed_inv [inv_intros]:
  "state_inv st \<Longrightarrow> sub \<in> set (ps_subscribers st) \<Longrightarrow> state_inv (turn_completed sub tid t outcome st)"
  by (simp add: turn_completed_def Let_def setters_inv)

lemma names_kept [simp]:
  "pr_name (subscribed cb ctx fresh st) = pr_name st" "pr_name (unsubscribed cb st) = pr_name st"
  by (simp_all add: subscribed_def unsubscribed_def)

lemma register_or_get_inv [inv_intros]:
  assumes "registry_inv reg" "register_or_get n now role reg = (reg', st)"
  shows "registry_inv reg' \<and> pr_name st = n \<and> state_inv st"
proof (cases "map_of reg n")
  case None
  with assms show ?thesis
    by (auto simp: register_or_get_def Let_def fresh_presence_def intro!: registry_inv_update
        state_inv_fresh [unfolded fresh_presence_def])
next
  case (Some old)
  note old = registry_invD [OF assms(1) Some]
  then have "state_inv (old\<lparr>pr_last_seen := now\<rparr>)" by (intro state_inv_seen) simp
  with assms Some old show ?thesis by (auto simp: register_or_get_def Let_def intro!: registry_inv_update)
qed

lemma found_subscriber:
  assumes "find_subscription (Some st) sid = Some sub" "state_inv st"
  shows "sub \<in> set (ps_subscribers st) \<and> (\<exists>i. sid = Some i \<and> i \<noteq> [] \<and> map_of (ps_ids st) sub = Some i)"
proof -
  from assms(1) obtain i p where i: "sid = Some i" "i \<noteq> []"
    and p: "List.find (\<lambda>(sub, c). c = i) (ps_ids st) = Some p" "fst p = sub"
    by (auto simp: find_subscription_def split: option.splits if_splits)
  then have "p \<in> set (ps_ids st) \<and> snd p = i" by (auto simp: find_Some_iff case_prod_beta)
  with p(2) have "(sub, i) \<in> set (ps_ids st)" by auto
  moreover have "distinct (List.map fst (ps_ids st))" "fst ` set (ps_ids st) = set (ps_subscribers st)"
    using assms(2) keys_in [of "ps_ids st" "ps_subscribers st"] by (simp_all add: state_inv_def)
  ultimately show ?thesis using i by (force simp: map_of_is_SomeI)
qed

lemma touched_inv [inv_intros]:
  "registry_inv reg \<Longrightarrow> (\<And>st. st \<in> set states \<Longrightarrow> state_inv st) \<Longrightarrow> registry_inv (touched ts states reg)"
proof (induction states arbitrary: reg)
  case (Cons st states)
  have "registry_inv (AList.update (pr_name st) (st\<lparr>pr_last_seen := ts\<rparr>) reg)"
    using Cons.prems by (intro registry_inv_update state_inv_seen) auto
  with Cons show ?case by (simp add: touched_def)
qed (simp add: touched_def)

lemma push_states_mem:
  "st \<in> set (push_states target ctx b) \<longleftrightarrow>
   (\<exists>n \<in> set (target_names target ctx (br_registry b)). map_of (br_registry b) n = Some st)"
  by (auto simp: push_states_def target_states_def reg_get_def List.map_filter_def image_iff)

lemma push_inv [inv_intros]: "registry_inv (br_registry b) \<Longrightarrow> registry_inv (br_registry (fst (push cb mid ts later p ctx b)))"
  by (cases rule: push_cases [of cb mid ts later p ctx b])
    (auto simp: broker_frame push_states_mem dest: registry_invD intro!: touched_inv)


lemma seed_members_inv [inv_intros]: "registry_inv (br_registry b) \<Longrightarrow> registry_inv (br_registry (seed_members ms now b))"
proof -
  have "registry_inv reg \<Longrightarrow>
    registry_inv (fold (\<lambda>(name, role) reg. fst (register_or_get name now (Some role) reg)) ms reg)" for reg
  proof (induction ms arbitrary: reg)
    case (Cons m ms)
    obtain n r where m: "m = (n, r)" by (cases m)
    obtain reg' st where "register_or_get n now (Some r) reg = (reg', st)" by fastforce
    with register_or_get_inv [OF Cons.prems this] Cons.IH [of reg'] m show ?case by simp
  qed simp
  then show "registry_inv (br_registry b) \<Longrightarrow> ?thesis" by (simp add: seed_members_def)
qed

lemma broker_register_inv [inv_intros]:
  assumes "registry_inv (br_registry b)"
  shows "registry_inv (br_registry (fst (broker_register n ctx now b)))"
proof -
  obtain reg st where r: "register_or_get n now (ic_role ctx) (br_registry b) = (reg, st)" by fastforce
  from register_or_get_inv [OF assms r] show ?thesis
    using assms r by (simp add: broker_register_def split: sum.split)
qed

lemma subscribe_inv [inv_intros]:
  assumes "registry_inv (br_registry b)"
  shows "registry_inv (br_registry (fst (subscribe n callback ctx fresh now b)))"
proof -
  obtain reg st where r: "register_or_get n now (ic_role ctx) (br_registry b) = (reg, st)" by fastforce
  from register_or_get_inv [OF assms r] show ?thesis
    using assms r by (auto simp: subscribe_def broker_frame split: sum.split intro!: inv_intros)
qed

lemma unsubscribe_inv [inv_intros]:
  "registry_inv (br_registry b) \<Longrightarrow> registry_inv (br_registry (unsubscribe n callback b))"
  by (auto simp: unsubscribe_def reg_get_def project_subscriber_gone_eq broker_frame split: option.split
      dest: registry_invD intro!: inv_intros)

lemma disposition_inv [inv_intros]:
  assumes "registry_inv (br_registry b)"
  shows "registry_inv (br_registry (fst (broker_disposition cb mid ts later n frame ctx b)))"
proof -
  have "registry_inv (br_registry (fst (push cb mid ts later p c (emit_disposition e (b\<lparr>br_ledger := l\<rparr>)))))" for p c e l
    by (rule push_inv) (simp add: broker_frame assms)
  then show ?thesis
    using assms
    by (auto simp: broker_disposition_def Let_def broker_frame case_prod_beta
        split: sum.split option.split client_identity.split disposition.split)
qed

lemma runner_condition_inv [inv_intros]:
  assumes "registry_inv (br_registry b)"
  shows "registry_inv (br_registry (fst (runner_condition cb n frame ctx now b)))"
proof -
  have "registry_inv (AList.update n (set_condition sub frame st) (br_registry b))"
    if st: "reg_get n (br_registry b) = Some st" and sub: "find_subscription (Some st) sid = Some sub" for st sid sub
    using registry_invD [OF assms st [unfolded reg_get_def]] found_subscriber [OF sub]
    by (intro registry_inv_update assms setters_inv) auto
  then show ?thesis
    using assms
    by (auto simp: runner_condition_def Let_def broker_frame case_prod_beta split: sum.split option.split)
qed

lemma runner_turn_inv [inv_intros]:
  assumes "registry_inv (br_registry b)"
  shows "registry_inv (br_registry (fst (runner_turn cb n frame ctx now b)))"
proof -
  have put: "registry_inv (AList.update n (set_turns sub ts st) (br_registry b)) \<and>
      registry_inv (AList.update n (turn_completed sub tid t out st) (br_registry b)) \<and>
      registry_inv (AList.update n (set_condition sub c (turn_completed sub tid t out st)) (br_registry b))"
    if st: "reg_get n (br_registry b) = Some st" and sub: "find_subscription (Some st) sid = Some sub"
    for st sid sub ts tid t out c
    using registry_invD [OF assms st [unfolded reg_get_def]] found_subscriber [OF sub]
    by (intro conjI registry_inv_update assms setters_inv turn_completed_inv) auto
  show ?thesis
    using assms put
    by (auto simp: runner_turn_def Let_def broker_frame split: sum.split option.split turn_phase.split)
qed

lemma turns_of_mem:
  assumes "state_inv st" "turns_of st sub \<noteq> []"
  shows "sub \<in> set (ps_subscribers st)"
proof -
  obtain t where "map_of (ps_turns st) sub = Some t" using assms(2) by (auto simp: turns_of_def split: option.splits)
  then have "sub \<in> fst ` set (ps_turns st)" by (force dest: map_of_SomeD)
  then show ?thesis using assms(1) keys_in [of "ps_turns st" "ps_subscribers st"] by (simp add: state_inv_def)
qed

lemma sweep_subscriber_inv:
  assumes "registry_inv (br_registry (fst acc))"
  shows "registry_inv (br_registry (fst (sweep_subscriber cb now n sub acc)))"
proof -
  have "registry_inv (AList.update n (set_condition sub c (set_last_turn sub l (set_turns sub t st))) (br_registry (fst acc)))"
    if st: "reg_get n (br_registry (fst acc)) = Some st" and ne: "filter P (turns_of st sub) \<noteq> []" for st P t l c
  proof -
    have "turns_of st sub \<noteq> []" using ne by auto
    then show ?thesis
      using registry_invD [OF assms st [unfolded reg_get_def]] turns_of_mem [of st sub]
      by (intro registry_inv_update assms setters_inv) auto
  qed
  then show ?thesis
    using assms
    by (simp add: sweep_subscriber_def Let_def case_prod_beta broker_frame split: option.split)
qed

lemma fold_inv: "(\<And>x s. P s \<Longrightarrow> P (f x s)) \<Longrightarrow> P s \<Longrightarrow> P (fold f xs s)"
  by (induction xs arbitrary: s) auto

lemma sweep_turns_inv [inv_intros]:
  assumes "registry_inv (br_registry b)"
  shows "registry_inv (br_registry (fst (sweep_open_turn_backstops cb now b)))"
proof -
  have member: "registry_inv (br_registry (fst (sweep_member cb now n acc)))"
    if "registry_inv (br_registry (fst acc))" for n acc
    unfolding sweep_member_def
    using that by (auto split: option.split intro!: fold_inv [where P = "\<lambda>acc. registry_inv (br_registry (fst acc))"] sweep_subscriber_inv)
  show ?thesis
    unfolding sweep_open_turn_backstops_def
    by (rule fold_inv [where P = "\<lambda>acc. registry_inv (br_registry (fst acc))"]) (auto simp: assms intro: member)
qed

text \<open>What every notice and every event keeps, the whole loop keeps.\<close>

lemma notify_expired_keeps:
  assumes push: "\<And>mid t p b. P b \<Longrightarrow> P (fst (push cb mid t t p notice_context b))"
    and emit: "\<And>e b. P b \<Longrightarrow> P (emit_disposition e b)"
  shows "P b \<Longrightarrow> P (fst (notify_expired cb fresh k now rows b))"
proof (induction rows arbitrary: k b)
  case (Cons e rows)
  obtain row sender where e: "e = (row, sender)" by (cases e)
  define b1 where "b1 = emit_disposition \<lparr>de_message = pd_message row, de_recipient = pd_recipient row,
      de_disposition = Refused, de_at = now, de_reason = Some expired_reason\<rparr> b"
  have b1: "P b1" using emit Cons.prems by (simp add: b1_def)
  show ?case
  proof (cases sender)
    case None
    then show ?thesis using Cons.IH [OF b1] by (simp add: e b1_def [symmetric])
  next
    case (Some s)
    obtain b2 r where p: "push cb (fresh k) now now
        (refusal_payload s
          (''Message '' @ m_id (pd_message row) @ '' to '' @ pd_recipient row @ '' expired without acknowledgement.'')
          (refusal_data (m_id (pd_message row)) (pd_recipient row) (JStr ''expired''))) notice_context b1 = (b2, r)"
      by fastforce
    then have "P b2" using push [OF b1] by (metis fst_conv)
    then show ?thesis using p Some Cons.IH [of b2 "k + 1"]
      by (cases r) (simp_all add: e b1_def [symmetric] Let_def)
  qed
qed simp

lemma notify_expired_inv:
  "registry_inv (br_registry b) \<Longrightarrow> registry_inv (br_registry (fst (notify_expired cb fresh k now rows b)))"
  by (rule notify_expired_keeps [where P = "\<lambda>b. registry_inv (br_registry b)"]) (auto simp: broker_frame intro: push_inv)

lemma sweep_deliveries_inv [inv_intros]:
  "registry_inv (br_registry b) \<Longrightarrow> registry_inv (br_registry (fst (sweep_message_deliveries cb fresh now b)))"
  using notify_expired_inv [of "b\<lparr>br_ledger := l\<rparr>" cb fresh 0 now e for l e]
  by (simp add: sweep_message_deliveries_def case_prod_beta)

lemma block_subscriber_frame [broker_frame]:
  "br_registry (block_subscriber cb now n st e b) = br_registry b"
  "br_log (block_subscriber cb now n st e b) = br_log b"
  "br_blocked (block_subscriber cb now n st e b) = br_blocked b"
  "br_events (block_subscriber cb now n st e b) = br_events b"
  by (simp_all add: block_subscriber_def broker_frame)

lemma fold_same: "(\<And>x s. g (f x s) = g s) \<Longrightarrow> g (fold f xs s) = g s"
  by (induction xs arbitrary: s) auto

lemma block_tokens_frame [broker_frame]:
  "br_registry (block_tokens cb ids now b) = br_registry b"
  "br_log (block_tokens cb ids now b) = br_log b"
  "br_blocked (block_tokens cb ids now b) = fold set_add ids (br_blocked b)"
  "br_events (block_tokens cb ids now b) = br_events b"
  unfolding block_tokens_def by (subst fold_same; simp add: fold_same broker_frame)+


section \<open>Runs\<close>

definition new_broker :: broker where
  "new_broker = \<lparr>br_registry = [], br_log = [], br_ledger = [], br_blocked = [], br_calls = [], br_events = []\<rparr>"

inductive broker_step :: "callbacks \<Rightarrow> broker \<Rightarrow> broker \<Rightarrow> bool" for cb where
  register: "broker_step cb b (fst (broker_register n ctx now b))"
| seed: "broker_step cb b (seed_members ms now b)"
| push: "broker_step cb b (fst (push cb mid ts later p ctx b))"
| subscribe: "broker_step cb b (fst (subscribe n callback ictx fresh_id now b))"
| unsubscribe: "broker_step cb b (unsubscribe n callback b)"
| disposition: "broker_step cb b (fst (broker_disposition cb mid ts later n frame ictx b))"
| condition: "broker_step cb b (fst (runner_condition cb n cframe ictx now b))"
| turn: "broker_step cb b (fst (runner_turn cb n tframe ictx now b))"
| redeliver: "broker_step cb b (fst (redeliver_pending cb n callback identity now b))"
| sweep_turns: "broker_step cb b (fst (sweep_open_turn_backstops cb now b))"
| sweep_messages: "broker_step cb b (fst (sweep_message_deliveries cb fresh now b))"
| block: "broker_step cb b (block_tokens cb ids now b)"
| presences: "broker_step cb b (fst (list_presences cb version now b))"

definition broker_inv :: "broker \<Rightarrow> bool" where
  "broker_inv b = registry_inv (br_registry b)"

lemma broker_step_inv: "broker_step cb b b' \<Longrightarrow> broker_inv b \<Longrightarrow> broker_inv b'"
  unfolding broker_inv_def
  by (induction rule: broker_step.induct)
    (simp_all add: inv_intros broker_frame list_presences_def Let_def)

interpretation broker_run: invariant_system "broker_step cb" broker_inv for cb
  by unfold_locales (rule broker_step_inv)

lemma new_broker_inv: "broker_inv new_broker"
  by (simp add: broker_inv_def new_broker_def registry_inv_def)

text \<open>Nothing is taken out of the log or the set of revoked tokens.\<close>

definition log_grows :: "broker \<Rightarrow> broker \<Rightarrow> bool" where
  "log_grows b b' \<longleftrightarrow> prefix (br_log b) (br_log b')"

lemma log_grows_push: "log_grows b (fst (push cb mid ts later p ctx b))"
  by (cases rule: push_cases [of cb mid ts later p ctx b]) (auto simp: log_grows_def broker_frame)

lemma log_same_sweep: "br_log (fst (sweep_open_turn_backstops cb now b)) = br_log b"
proof -
  have sub: "br_log (fst (sweep_subscriber cb now n s acc)) = br_log (fst acc)" for n s acc
    by (simp add: sweep_subscriber_def Let_def case_prod_beta broker_frame split: option.split)
  have "br_log (fst (fold (sweep_subscriber cb now n) ss acc)) = br_log (fst acc)" for n ss acc
    using fold_same [where g = "br_log \<circ> fst" and f = "sweep_subscriber cb now n"] sub by simp
  then have "br_log (fst (sweep_member cb now n acc)) = br_log (fst acc)" for n acc
    by (simp add: sweep_member_def split: option.split)
  then show ?thesis
    using fold_same [where g = "br_log \<circ> fst" and f = "sweep_member cb now"] by (simp add: sweep_open_turn_backstops_def)
qed

lemma log_grows_disposition: "log_grows b (fst (broker_disposition cb mid ts later n frame ctx b))"
proof -
  have "prefix (br_log b) (br_log (fst (push cb mid ts later p c (emit_disposition e (b\<lparr>br_ledger := l\<rparr>)))))" for p c e l
    using log_grows_push [of "emit_disposition e (b\<lparr>br_ledger := l\<rparr>)"] by (simp add: log_grows_def broker_frame)
  then show ?thesis
    by (auto simp: log_grows_def broker_disposition_def Let_def broker_frame case_prod_beta
        split: sum.split option.split client_identity.split disposition.split)
qed

lemma log_grows_notify: "log_grows b (fst (notify_expired cb fresh k now rows b))"
  by (rule notify_expired_keeps [where P = "log_grows b"])
    (use log_grows_push in \<open>auto simp: broker_frame log_grows_def intro: prefix_order.trans\<close>)

lemma log_same_register: "br_log (fst (broker_register n ctx now b)) = br_log b"
  by (simp add: broker_register_def case_prod_beta split: sum.split)

lemma log_same_subscribe:
  "br_log (fst (subscribe n callback ctx fresh now b)) = br_log b" "br_log (unsubscribe n callback b) = br_log b"
  by (auto simp: subscribe_def unsubscribe_def project_subscriber_gone_eq case_prod_beta broker_frame split: sum.split option.split)

lemma log_same_condition: "br_log (fst (runner_condition cb n frame ctx now b)) = br_log b"
  by (simp add: runner_condition_def Let_def case_prod_beta broker_frame split: sum.split option.split)

lemma log_same_turn: "br_log (fst (runner_turn cb n frame ctx now b)) = br_log b"
  by (simp add: runner_turn_def Let_def broker_frame split: sum.split option.split turn_phase.split)

lemma log_grows_sweep: "log_grows b (fst (sweep_message_deliveries cb fresh now b))"
  using log_grows_notify [of "b\<lparr>br_ledger := l\<rparr>" cb fresh 0 now e for l e]
  by (simp add: sweep_message_deliveries_def case_prod_beta log_grows_def)

lemma broker_step_log: "broker_step cb b b' \<Longrightarrow> prefix (br_log b) (br_log b')"
  unfolding log_grows_def [symmetric]
  by (induction rule: broker_step.induct)
    (simp_all add: log_grows_push log_grows_disposition log_grows_sweep,
     simp_all add: log_grows_def log_same_sweep log_same_register log_same_subscribe log_same_condition log_same_turn
       broker_frame list_presences_def Let_def seed_members_def)

interpretation broker_log: append_only_log "broker_step cb" br_log for cb
  by unfold_locales (rule broker_step_log)

section \<open>Reports\<close>

lemma client_key_inj: "client_key i = client_key j \<longleftrightarrow> i = j"
proof (cases "(i, j)" rule: prod.exhaust)
  case (Pair a b)
  have k: "runner_kind_text x = runner_kind_text y \<longleftrightarrow> x = y" for x y by (cases x; cases y) auto
  have s: "build_source_text x = build_source_text y \<longleftrightarrow> x = y" for x y by (cases x; cases y) auto
  have v: "supervision_json x = supervision_json y \<longleftrightarrow> x = y" for x y
    by (cases x rule: supervision_json.cases; cases y rule: supervision_json.cases) auto
  have m: "opt_json x = opt_json y \<longleftrightarrow> x = y" for x y by (auto simp: opt_json_def split: option.splits)
  show ?thesis
  proof (cases i; cases j)
    fix r r' assume "i = Runner r" "j = Runner r'"
    then show ?thesis
      by (cases r; cases r') (auto simp: json_stringify_def k s v m split: if_splits)
  qed (auto simp: json_stringify_def)
qed

end
