(* ===== verification/BrokerReports.thy ===== *)
theory BrokerReports
  imports BrokerLife
begin

text \<open>
  What a presence listing says of the live connections: the grouping of client reports counts every
  connection once, the executor state reads the runner subscribers, and no open turn outlives the
  eight-hour backstop.
\<close>

section \<open>Grouping\<close>

definition groups_ok :: "client_groups \<Rightarrow> client_identity option list \<Rightarrow> bool" where
  "groups_ok g ids \<longleftrightarrow>
     distinct (List.map fst g) \<and> (\<forall>(k, i, c) \<in> set g. k = client_key i \<and> c = count_list ids (Some i) \<and> c > 0) \<and>
     (\<forall>i. Some i \<in> set ids \<longrightarrow> client_key i \<in> fst ` set g)"

lemma group_step:
  assumes "groups_ok g ids"
  shows "groups_ok (group_client x g) (ids @ [x])"
proof (cases x)
  case None
  then show ?thesis using assms by (auto simp: groups_ok_def group_client_def)
next
  case (Some i)
  have dist: "distinct (List.map fst g)" and ent: "\<And>k j c. (k, j, c) \<in> set g \<Longrightarrow> k = client_key j \<and> c = count_list ids (Some j) \<and> c > 0"
    and all: "\<And>j. Some j \<in> set ids \<Longrightarrow> client_key j \<in> fst ` set g"
    using assms by (auto simp: groups_ok_def)
  have upd: "(k, j, c) \<in> set (AList.update (client_key i) v g) \<longleftrightarrow>
      (k = client_key i \<and> (j, c) = v) \<or> (k \<noteq> client_key i \<and> (k, j, c) \<in> set g)" for k j c v
  proof -
    have "(k, j, c) \<in> set (AList.update (client_key i) v g) \<longleftrightarrow> map_of (AList.update (client_key i) v g) k = Some (j, c)"
      using dist by (simp add: AList.distinct_update)
    also have "\<dots> \<longleftrightarrow> (k = client_key i \<and> (j, c) = v) \<or> (k \<noteq> client_key i \<and> map_of g k = Some (j, c))"
      by (auto simp: AList.update_conv')
    finally show ?thesis using dist by simp
  qed
  have v: "\<exists>v. group_client x g = AList.update (client_key i) (i, v) g \<and> v = count_list ids (Some i) + 1"
  proof (cases "map_of g (client_key i)")
    case None
    have "Some i \<notin> set ids" using None all by (auto simp: map_of_eq_None_iff)
    with None Some show ?thesis by (simp add: group_client_def count_list_0_iff)
  next
    case (Some p)
    obtain j c where p: "p = (j, c)" by (cases p)
    with Some have "(client_key i, j, c) \<in> set g" by (auto dest: map_of_SomeD)
    from ent [OF this] have "j = i" "c = count_list ids (Some i)" by (auto simp: client_key_inj)
    with Some p \<open>x = Some i\<close> show ?thesis by (simp add: group_client_def)
  qed
  then obtain v where v: "group_client x g = AList.update (client_key i) (i, v) g" "v = count_list ids (Some i) + 1" by blast
  have "\<forall>(k, j, c) \<in> set (group_client x g). k = client_key j \<and> c = count_list (ids @ [x]) (Some j) \<and> c > 0"
    using ent Some v by (auto simp: upd client_key_inj)
  moreover have "\<forall>j. Some j \<in> set (ids @ [x]) \<longrightarrow> client_key j \<in> fst ` set (group_client x g)"
    using all Some v by (auto simp: AList.dom_update)
  ultimately show ?thesis
    using dist v by (auto simp: groups_ok_def AList.distinct_update)
qed

lemma groups_ok_fold: "groups_ok g ids \<Longrightarrow> groups_ok (fold group_client xs g) (ids @ xs)"
proof (induction xs arbitrary: g ids)
  case (Cons x xs)
  from Cons.IH [OF group_step [OF Cons.prems, of x]] show ?case by simp
qed simp

definition all_groups :: "presence_state \<Rightarrow> client_groups" where
  "all_groups st = fold group_client (List.map snd (ps_identities st)) []"

lemma groups_ok_all: "groups_ok (all_groups st) (List.map snd (ps_identities st))"
  using groups_ok_fold [of "[]" "[]" "List.map snd (ps_identities st)"] by (simp add: groups_ok_def all_groups_def)

lemma sum_groups:
  "sum_list (List.map (\<lambda>(k, i, c). c) (group_client x g)) = sum_list (List.map (\<lambda>(k, i, c). c) g) + (if x = None then 0 else 1)"
proof -
  have upd: "map_of g k = Some (j, c) \<Longrightarrow>
      sum_list (List.map (\<lambda>(k, i, c). c) (AList.update k (j, Suc c) g)) = Suc (sum_list (List.map (\<lambda>(k, i, c). c) g))" for k j c
    by (induction g) (auto split: if_splits)
  have new: "map_of g k = None \<Longrightarrow>
      sum_list (List.map (\<lambda>(k, i, c). c) (AList.update k (j, Suc 0) g)) = Suc (sum_list (List.map (\<lambda>(k, i, c). c) g))" for k j
    by (induction g) (auto split: if_splits)
  show ?thesis
    using upd new by (auto simp: group_client_def split: option.splits)
qed

lemma sum_all_groups:
  "sum_list (List.map (\<lambda>(k, i, c). c) (fold group_client xs g)) + length (filter (\<lambda>i. i = None) xs) =
   sum_list (List.map (\<lambda>(k, i, c). c) g) + length xs"
  by (induction xs arbitrary: g) (auto simp: sum_groups)

lemma reports_conserve:
  assumes "state_inv st"
  shows "sum_list (List.map cr_connections (client_reports v st)) + length (filter (\<lambda>i. i = None) (List.map snd (ps_identities st))) =
    length (ps_subscribers st)"
proof -
  have "List.map cr_connections (client_reports v st) = List.map (\<lambda>(k, i, c). c) (all_groups st)"
    by (auto simp: client_reports_def all_groups_def)
  moreover have "length (ps_identities st) = length (ps_subscribers st)"
    using assms unfolding state_inv_def by (metis length_map)
  ultimately show ?thesis
    using sum_all_groups [of "List.map snd (ps_identities st)" "[]"] by (simp add: all_groups_def)
qed

lemma reports_per_identity:
  assumes "state_inv st"
  shows "distinct (List.map cr_identity (client_reports v st)) \<and>
    (\<forall>r \<in> set (client_reports v st).
       cr_connections r = length (filter (\<lambda>s. identity_of st s = Some (cr_identity r)) (ps_subscribers st)) \<and> cr_connections r > 0)"
proof -
  note g = groups_ok_all [of st, unfolded groups_ok_def]
  have keys: "List.map fst (ps_identities st) = ps_subscribers st" and d: "distinct (List.map fst (ps_identities st))"
    using assms by (auto simp: state_inv_def)
  have "count_list (List.map snd (ps_identities st)) (Some i) = length (filter (\<lambda>s. identity_of st s = Some i) (ps_subscribers st))" for i
  proof -
    have "filter (\<lambda>s. identity_of st s = Some i) (List.map fst (ps_identities st)) =
        List.map fst (filter (\<lambda>(s, j). j = Some i) (ps_identities st))"
      using d by (auto simp: filter_map identity_of_def intro!: arg_cong [where f = "List.map fst"] filter_cong)
    then have "length (filter (\<lambda>s. identity_of st s = Some i) (ps_subscribers st)) =
        length (filter (\<lambda>(s, j). j = Some i) (ps_identities st))"
      using keys by simp
    moreover have "count_list (List.map snd xs) y = length (filter (\<lambda>(s, j). j = y) xs)" for xs :: "('x \<times> client_identity option) list" and y
      by (induction xs) auto
    ultimately show ?thesis by simp
  qed
  note count = this
  have "distinct (List.map (\<lambda>(k, i, c). i) (all_groups st))"
  proof -
    have "List.map fst (all_groups st) = List.map client_key (List.map (\<lambda>(k, i, c). i) (all_groups st))"
      using g by (auto simp: comp_def)
    then show ?thesis using g by (metis distinct_map)
  qed
  moreover have "List.map cr_identity (client_reports v st) = List.map (\<lambda>(k, i, c). i) (all_groups st)"
    by (auto simp: client_reports_def all_groups_def)
  moreover have "\<exists>k. (k, cr_identity r, cr_connections r) \<in> set (all_groups st)" if "r \<in> set (client_reports v st)" for r
    using that by (auto simp: client_reports_def all_groups_def)
  ultimately show ?thesis using g count by fastforce
qed

section \<open>The executor state\<close>

lemma says_classify:
  "says c (classify blocked st s) \<longleftrightarrow>
   (if token_blocked blocked (token_of st s) then c = Degraded
    else map_option cf_state (map_of (ps_conditions st) s) = Some c)"
  by (auto simp: says_def classify_def)

lemma executor_ready_iff:
  "ex_state (executor_of blocked st) = ExReady \<longleftrightarrow>
   (\<exists>s \<in> set (ps_subscribers st). is_runner (identity_of st s) \<and> \<not> token_blocked blocked (token_of st s) \<and>
      map_option cf_state (map_of (ps_conditions st) s) = Some Ready)"
proof -
  have "ex_state (executor_of blocked st) = ExReady \<longleftrightarrow>
      list_ex (says Ready) (List.map (classify blocked st) (filter (\<lambda>sub. is_runner (identity_of st sub)) (ps_subscribers st)))"
    by (simp add: executor_of_def Let_def)
  also have "\<dots> \<longleftrightarrow> (\<exists>s \<in> set (ps_subscribers st). is_runner (identity_of st s) \<and> says Ready (classify blocked st s))"
    by (auto simp: list_ex_iff)
  finally show ?thesis unfolding says_classify by (metis condition_state.distinct(1))
qed

lemma executor_degraded_iff:
  "ex_state (executor_of blocked st) = ExDegraded \<longleftrightarrow>
   (\<exists>s \<in> set (ps_subscribers st). is_runner (identity_of st s)) \<and>
   (\<forall>s \<in> set (ps_subscribers st). is_runner (identity_of st s) \<longrightarrow>
      token_blocked blocked (token_of st s) \<or> map_option cf_state (map_of (ps_conditions st) s) = Some Degraded)"
proof -
  define cs where "cs = List.map (classify blocked st) (filter (\<lambda>sub. is_runner (identity_of st sub)) (ps_subscribers st))"
  have no: "\<not> (says Ready c \<and> says Degraded c)" for c by (auto simp: says_def)
  have "ex_state (executor_of blocked st) = ExDegraded \<longleftrightarrow> \<not> list_ex (says Ready) cs \<and> cs \<noteq> [] \<and> list_all (says Degraded) cs"
    by (simp add: executor_of_def Let_def cs_def)
  also have "\<dots> \<longleftrightarrow> cs \<noteq> [] \<and> list_all (says Degraded) cs"
    using no by (auto simp: list_ex_iff list_all_iff)
  also have "\<dots> \<longleftrightarrow> (\<exists>s \<in> set (ps_subscribers st). is_runner (identity_of st s)) \<and>
      (\<forall>s \<in> set (ps_subscribers st). is_runner (identity_of st s) \<longrightarrow> says Degraded (classify blocked st s))"
    by (auto simp: cs_def filter_empty_conv list_all_iff)
  finally show ?thesis unfolding says_classify by auto
qed


section \<open>The backstop\<close>

definition no_overdue :: "int \<Rightarrow> broker \<Rightarrow> string \<Rightarrow> subscriber \<Rightarrow> bool" where
  "no_overdue now b n sub \<longleftrightarrow>
     (\<forall>st. reg_get n (br_registry b) = Some st \<longrightarrow> filter (turn_expired now) (turns_of st sub) = [])"

lemma turns_of_setters [simp]:
  "turns_of (set_condition sub c st) s = turns_of st s" "turns_of (set_last_turn sub l st) s = turns_of st s"
  "turns_of (set_turns sub t st) s = (if s = sub then t else turns_of st s)"
  by (simp_all add: turns_of_def set_condition_def set_last_turn_def set_turns_def AList.update_conv')

lemma reg_get_update: "reg_get m (AList.update n st reg) = (if m = n then Some st else reg_get m reg)"
  by (simp add: reg_get_def AList.update_conv')

lemma sweep_subscriber_registry:
  "br_registry (fst (sweep_subscriber cb now n sub acc)) =
     (case reg_get n (br_registry (fst acc)) of
        None \<Rightarrow> br_registry (fst acc)
      | Some st \<Rightarrow>
          if filter (turn_expired now) (turns_of st sub) = [] then br_registry (fst acc)
          else AList.update n (set_condition sub (failed_turn_condition now ''runner turn exceeded exitability backstop'')
                 (set_last_turn sub \<lparr>tr_at = now, tr_outcome = TurnFailed\<rparr>
                   (set_turns sub (filter (\<lambda>t. \<not> turn_expired now t) (turns_of st sub)) st))) (br_registry (fst acc)))"
  by (simp add: sweep_subscriber_def Let_def case_prod_beta broker_frame split: option.split)

lemma sweep_subscriber_clears: "no_overdue now (fst (sweep_subscriber cb now n sub acc)) n sub"
  by (simp add: no_overdue_def sweep_subscriber_registry reg_get_update split: option.split)

lemma sweep_subscriber_keeps:
  "no_overdue now (fst acc) m s \<Longrightarrow> no_overdue now (fst (sweep_subscriber cb now n sub acc)) m s"
  by (auto simp: no_overdue_def sweep_subscriber_registry reg_get_update split: option.split if_splits)

lemma fold_establishes:
  assumes "\<And>x s. Q x (f x s)" "\<And>x y s. Q y s \<Longrightarrow> Q y (f x s)"
  shows "x \<in> set xs \<Longrightarrow> Q x (fold f xs s)"
proof (induction xs arbitrary: s)
  case (Cons y ys)
  have keep: "Q x s \<Longrightarrow> Q x (fold f ys s)" for s by (rule fold_inv) (use assms(2) in auto)
  from Cons keep assms(1) show ?case by auto
qed simp

lemma sweep_subscribers_keep:
  "no_overdue now (fst acc) m s \<Longrightarrow> no_overdue now (fst (fold (sweep_subscriber cb now n) subs acc)) m s"
  by (rule fold_inv [where P = "\<lambda>acc. no_overdue now (fst acc) m s"]) (auto intro: sweep_subscriber_keeps)

lemma sweep_member_keeps:
  "no_overdue now (fst acc) m s \<Longrightarrow> no_overdue now (fst (sweep_member cb now n acc)) m s"
  by (auto simp: sweep_member_def intro: sweep_subscribers_keep split: option.split)

lemma sweep_member_clears: "no_overdue now (fst (sweep_member cb now n acc)) n s"
proof (cases "reg_get n (br_registry (fst acc))")
  case None
  then show ?thesis by (simp add: sweep_member_def no_overdue_def)
next
  case (Some st)
  show ?thesis
  proof (cases "s \<in> set (List.map fst (ps_turns st))")
    case True
    have "no_overdue now (fst (fold (sweep_subscriber cb now n) (List.map fst (ps_turns st)) acc)) n s"
      by (rule fold_establishes [where Q = "\<lambda>s acc. no_overdue now (fst acc) n s", OF _ _ True])
        (auto intro: sweep_subscriber_clears sweep_subscriber_keeps)
    then show ?thesis using Some by (simp add: sweep_member_def)
  next
    case False
    then have "turns_of st s = []" by (auto simp: turns_of_def split: option.split dest!: map_of_SomeD) force
    then have "no_overdue now (fst acc) n s" using Some by (simp add: no_overdue_def)
    then show ?thesis by (rule sweep_member_keeps)
  qed
qed

lemma sweep_clears: "no_overdue now (fst (sweep_open_turn_backstops cb now b)) n s"
proof (cases "n \<in> set (List.map fst (br_registry b))")
  case True
  have "no_overdue now (fst (fold (sweep_member cb now) (List.map fst (br_registry b)) (b, 0))) n s"
    by (rule fold_establishes [where Q = "\<lambda>n acc. no_overdue now (fst acc) n s", OF _ _ True])
      (auto intro: sweep_member_clears sweep_member_keeps)
  then show ?thesis by (simp add: sweep_open_turn_backstops_def)
next
  case False
  then have "no_overdue now b n s" by (simp add: no_overdue_def reg_get_def map_of_eq_None_iff [THEN iffD2])
  then show ?thesis
    unfolding sweep_open_turn_backstops_def
    by (intro fold_inv [where P = "\<lambda>acc. no_overdue now (fst acc) n s"]) (auto intro: sweep_member_keeps)
qed

end
