(* ===== verification/BrokerPush.thy ===== *)
theory BrokerPush
  imports BrokerLife
begin

text \<open>
  Who a push reaches: the members the fan-out calls are the members the durable row shows the message to,
  one runner per tracked member, every other subscriber once.
\<close>

section \<open>Tasks and calls\<close>

definition task_call :: "message \<Rightarrow> fanout_task \<Rightarrow> callback_call" where
  "task_call message t = \<lparr>cc_member = ft_member t, cc_subscriber = ft_sub t, cc_message = message\<rparr>"

lemma run_task_calls: "\<exists>l' live'. run_task cb message ts track t (l, calls, live) = (l', calls @ [task_call message t], live')"
  by (auto simp: run_task_def task_call_def Let_def split: prod.split)

lemma fold_run_task_calls:
  "fst (snd (fold (run_task cb message ts track) tasks (l, calls, live))) = calls @ List.map (task_call message) tasks"
proof (induction tasks arbitrary: l calls live)
  case (Cons t tasks)
  obtain l' live' where "run_task cb message ts track t (l, calls, live) = (l', calls @ [task_call message t], live')"
    using run_task_calls by blast
  with Cons show ?case by simp
qed simp

lemma push_calls:
  "br_calls (push_done cb message ts ctx b) = br_calls b @ List.map (task_call message) (push_tasks (m_to message) ctx b)"
  by (simp add: broker_frame push_fanout_def fold_run_task_calls)

text \<open>Members a push is addressed to: dispositions are expected of them.\<close>

definition addressed :: "string option \<Rightarrow> push_context \<Rightarrow> string \<Rightarrow> bool" where
  "addressed target ctx n \<longleftrightarrow>
     (case target of
        Some t \<Rightarrow> n = t
      | None \<Rightarrow> (case pc_recipients ctx of None \<Rightarrow> True | Some rs \<Rightarrow> n \<in> set rs))"

lemma target_names_iff:
  "n \<in> set (target_names target ctx reg) \<longleftrightarrow>
   reg_has n reg \<and> (addressed target ctx n \<or> n \<in> set (truthy_name (pc_from ctx)))"
proof (cases target)
  case None
  show ?thesis
  proof (cases "pc_recipients ctx")
    case None
    have "n \<in> fst ` set reg \<longleftrightarrow> reg_has n reg" by (auto simp: reg_has_def map_of_eq_None_iff)
    then show ?thesis using None \<open>target = None\<close> by (simp add: target_names_def addressed_def del: not_None_eq)
  next
    case (Some rs)
    with \<open>target = None\<close> show ?thesis by (auto simp: target_names_def addressed_def)
  qed
next
  case (Some t)
  then show ?thesis by (auto simp: target_names_def addressed_def)
qed

lemma push_state_iff:
  assumes "registry_inv (br_registry b)"
  shows "st \<in> set (push_states target ctx b) \<longleftrightarrow>
    map_of (br_registry b) (pr_name st) = Some st \<and>
    (addressed target ctx (pr_name st) \<or> pr_name st \<in> set (truthy_name (pc_from ctx)))"
proof -
  have name: "n = pr_name st" if "map_of (br_registry b) n = Some st" for n
    using registry_invD [OF assms that] by simp
  have "st \<in> set (push_states target ctx b) \<longleftrightarrow>
      (\<exists>n. n \<in> set (target_names target ctx (br_registry b)) \<and> map_of (br_registry b) n = Some st)"
    unfolding push_states_mem by blast
  also have "\<dots> \<longleftrightarrow> pr_name st \<in> set (target_names target ctx (br_registry b)) \<and> map_of (br_registry b) (pr_name st) = Some st"
    using name by blast
  also have "\<dots> \<longleftrightarrow> map_of (br_registry b) (pr_name st) = Some st \<and>
      (addressed target ctx (pr_name st) \<or> pr_name st \<in> set (truthy_name (pc_from ctx)))"
    unfolding target_names_iff by (cases "map_of (br_registry b) (pr_name st)") (auto simp: reg_has_def)
  finally show ?thesis .
qed

lemma disposition_name_iff:
  assumes "registry_inv (br_registry b)" "st \<in> set (push_states target ctx b)"
  shows "pr_name st \<in> set (disposition_names target ctx (push_states target ctx b)) \<longleftrightarrow> addressed target ctx (pr_name st)"
  using assms(2) by (auto simp: disposition_names_def addressed_def split: option.split)

text \<open>What one member's tasks are: its subscribers, less the runners passed over.\<close>

definition passed_over :: "string list \<Rightarrow> bool \<Rightarrow> presence_state \<Rightarrow> subscriber \<Rightarrow> bool" where
  "passed_over blocked tracked st s \<longleftrightarrow>
     is_runner (identity_of st s) \<and> capable_runners tracked st \<noteq> [] \<and>
     selected_runner blocked st (capable_runners tracked st) \<noteq> Some s"

lemma member_tasks_eq:
  "member_tasks blocked tracked st =
     List.map (\<lambda>s. \<lparr>ft_member = pr_name st, ft_sub = s, ft_ack = supports_disposition (identity_of st s)\<rparr>)
       (filter (\<lambda>s. \<not> passed_over blocked tracked st s) (ps_subscribers st))"
  by (auto simp: member_tasks_def passed_over_def Let_def intro!: arg_cong [where f = "List.map _"] filter_cong)

definition member_calls :: "message \<Rightarrow> string option \<Rightarrow> push_context \<Rightarrow> broker \<Rightarrow> presence_state \<Rightarrow> callback_call list" where
  "member_calls message target ctx b st =
     List.map (\<lambda>s. \<lparr>cc_member = pr_name st, cc_subscriber = s, cc_message = message\<rparr>)
       (filter (\<lambda>s. \<not> passed_over (br_blocked b) (pc_track ctx \<and> addressed target ctx (pr_name st)) st s) (ps_subscribers st))"

definition push_new_calls :: "message \<Rightarrow> push_context \<Rightarrow> broker \<Rightarrow> callback_call list" where
  "push_new_calls message ctx b =
     concat (List.map (member_calls message (m_to message) ctx b) (push_states (m_to message) ctx b))"

lemma push_calls_eq:
  assumes "registry_inv (br_registry b)"
  shows "br_calls (push_done cb message ts ctx b) = br_calls b @ push_new_calls message ctx b"
proof -
  have "List.map (task_call message) (push_tasks (m_to message) ctx b) = push_new_calls message ctx b"
    unfolding push_tasks_def push_new_calls_def map_concat map_map
    by (intro arg_cong [where f = concat] map_cong refl)
      (simp add: member_tasks_eq member_calls_def task_call_def disposition_name_iff [OF assms])
  then show ?thesis by (simp add: push_calls)
qed

lemma target_names_distinct: "distinct (List.map fst reg) \<Longrightarrow> distinct (target_names target ctx reg)"
  by (auto simp: target_names_def truthy_name_def split: option.split)

lemma push_states_distinct:
  assumes "registry_inv (br_registry b)"
  shows "distinct (List.map pr_name (push_states target ctx b))"
  unfolding push_states_def target_states_def
proof (rule map_filter_distinct [where k = "\<lambda>n. n"])
  show "distinct (List.map (\<lambda>n. n) (target_names target ctx (br_registry b)))"
    using target_names_distinct [of "br_registry b" target ctx] assms by (simp add: registry_inv_def)
  show "reg_get n (br_registry b) = Some st \<Longrightarrow> pr_name st = n" for n st
    using registry_invD [OF assms, of n st] by (simp add: reg_get_def)
qed

lemma push_new_calls_distinct:
  assumes "registry_inv (br_registry b)"
  shows "distinct (push_new_calls message ctx b)"
proof -
  have one: "distinct (member_calls message t ctx b st)" if st: "st \<in> set (push_states t ctx b)" for st t
  proof -
    have "map_of (br_registry b) (pr_name st) = Some st" using st push_state_iff [OF assms] by blast
    then have "distinct (ps_subscribers st)" using registry_invD [OF assms] by (simp add: state_inv_def)
    then show ?thesis by (simp add: member_calls_def distinct_map inj_on_def)
  qed
  have names: "cc_member c = pr_name st" if "c \<in> set (member_calls message t ctx b st)" for c t st
    using that unfolding member_calls_def by force
  have "distinct (concat (List.map (member_calls message t ctx b) sts))"
    if "distinct (List.map pr_name sts)" "\<forall>st \<in> set sts. distinct (member_calls message t ctx b st)" for sts t
    using that
  proof (induction sts)
    case (Cons st sts)
    have "c \<notin> set (concat (List.map (member_calls message t ctx b) sts))" if "c \<in> set (member_calls message t ctx b st)" for c
    proof
      assume "c \<in> set (concat (List.map (member_calls message t ctx b) sts))"
      then obtain st' where "st' \<in> set sts" "c \<in> set (member_calls message t ctx b st')" by auto
      with names [OF that] names [OF this(2)] have "pr_name st \<in> pr_name ` set sts" by (metis imageI)
      with Cons.prems(1) show False by simp
    qed
    then have "set (member_calls message t ctx b st) \<inter> set (concat (List.map (member_calls message t ctx b) sts)) = {}" by blast
    moreover have "distinct (concat (List.map (member_calls message t ctx b) sts))" using Cons by simp
    moreover have "distinct (member_calls message t ctx b st)" using Cons.prems by simp
    ultimately show ?case by simp
  qed simp
  then show ?thesis
    unfolding push_new_calls_def using push_states_distinct [OF assms] one by blast
qed

lemma member_call_iff:
  "c \<in> set (member_calls message t ctx b st) \<longleftrightarrow>
     cc_member c = pr_name st \<and> cc_message c = message \<and> cc_subscriber c \<in> set (ps_subscribers st) \<and>
     \<not> passed_over (br_blocked b) (pc_track ctx \<and> addressed t ctx (pr_name st)) st (cc_subscriber c)"
  by (cases c) (simp add: member_calls_def image_iff, blast)

lemma push_new_call_iff:
  assumes "registry_inv (br_registry b)"
  shows "c \<in> set (push_new_calls message ctx b) \<longleftrightarrow>
    cc_message c = message \<and>
    (\<exists>st. map_of (br_registry b) (cc_member c) = Some st \<and> cc_subscriber c \<in> set (ps_subscribers st) \<and>
       (addressed (m_to message) ctx (cc_member c) \<or> cc_member c \<in> set (truthy_name (pc_from ctx))) \<and>
       \<not> passed_over (br_blocked b) (pc_track ctx \<and> addressed (m_to message) ctx (cc_member c)) st (cc_subscriber c))"
proof -
  have name: "pr_name st = cc_member c" if "map_of (br_registry b) (cc_member c) = Some st" for st
    using registry_invD [OF assms that] by simp
  have "c \<in> set (push_new_calls message ctx b) \<longleftrightarrow>
      (\<exists>st. st \<in> set (push_states (m_to message) ctx b) \<and> c \<in> set (member_calls message (m_to message) ctx b st))"
    by (simp add: push_new_calls_def Bex_def)
  also have "\<dots> \<longleftrightarrow> (\<exists>st. map_of (br_registry b) (cc_member c) = Some st \<and> pr_name st = cc_member c \<and>
      st \<in> set (push_states (m_to message) ctx b) \<and> c \<in> set (member_calls message (m_to message) ctx b st))"
    unfolding push_state_iff [OF assms] member_call_iff by metis
  finally show ?thesis
    unfolding push_state_iff [OF assms] member_call_iff using name by metis
qed

section \<open>The durable audience\<close>

lemma audience_visible:
  assumes "m_to message = target" "m_from message = pc_from ctx" "pc_from ctx \<noteq> Some []"
    and "\<not> is_secret_thread (m_data message)"
    and "target = None \<and> pc_recipients ctx = None \<longrightarrow> \<not> is_legacy_scoped_event (m_data message)"
  shows "feed_visible_to message (push_audience target ctx) n \<longleftrightarrow>
    addressed target ctx n \<or> n \<in> set (truthy_name (pc_from ctx))"
  using assms
  by (auto simp: feed_visible_to_def push_audience_def addressed_def truthy_name_def split: option.splits)

section \<open>One runner\<close>

lemma find_SomeD: "List.find P xs = Some x \<Longrightarrow> x \<in> set xs \<and> P x"
  by (auto simp: find_Some_iff)

lemma selected_runner_capable:
  "selected_runner blocked st cs = Some s \<Longrightarrow>
   s \<in> set cs \<and> (subscriber_ready blocked st s \<or> no_liveness_runner (identity_of st s) \<and> (\<forall>c \<in> set cs. \<not> subscriber_ready blocked st c))"
  by (auto simp: selected_runner_def find_None_iff dest!: find_SomeD split: option.splits)

lemma ready_capable: "subscriber_ready blocked st s \<Longrightarrow> supports_disposition (identity_of st s)"
  by (simp add: subscriber_ready_def split: if_splits)

lemma supports_runner: "supports_disposition i \<Longrightarrow> is_runner i"
  by (cases i rule: is_runner.cases) (auto simp: supports_disposition_def)

end
