(* ===== verification/BrokerLeases.thy ===== *)
theory BrokerLeases
  imports BrokerPush
begin

text \<open>
  The broker and its ledger: what a push tracks and reports, what becomes of the leases of a runner that
  is lost, and that the notices a refusal or an expiry pushes are never themselves tracked. Callbacks
  are \<open>quiet\<close> here: they return or throw, and do not dispose of anything before they do.
\<close>

definition quiet :: "callbacks \<Rightarrow> bool" where
  "quiet cb \<longleftrightarrow> (\<forall>s m l. fst (cb s m l) = l)"

section \<open>Tracking\<close>

text \<open>The message is new to the ledger.\<close>

definition fresh_message :: "string \<Rightarrow> mem_ledger \<Rightarrow> bool" where
  "fresh_message mid l \<longleftrightarrow>
     list_all (\<lambda>(k, r). m_id (mr_message r) \<noteq> mid \<and> \<not> starts_with k (mid @ [CHR 0x00])) l"

definition tracked_here :: "push_context \<Rightarrow> string option \<Rightarrow> presence_state \<Rightarrow> bool" where
  "tracked_here ctx target st \<longleftrightarrow> addressed target ctx (pr_name st) \<and> \<not> has_legacy_runner st"

definition fresh_row :: "message \<Rightarrow> int \<Rightarrow> string \<Rightarrow> memory_row" where
  "fresh_row message ts n =
     \<lparr>mr_message = message, mr_recipient = n, mr_state = DPending, mr_owner = None, mr_released = [],
      mr_attempts = 0, mr_first_sent = None, mr_last_sent = None, mr_disposition_at = None, mr_reason = None,
      mr_expires = ts + delivery_ttl\<rparr>"

lemma mem_key_same [simp]: "mem_key mid r = mem_key mid r' \<longleftrightarrow> r = r'"
  by (simp add: mem_key_def)

lemma track_fold:
  assumes "distinct (List.map pr_name sts)" "\<forall>st \<in> set sts. map_of l (mem_key (m_id message) (pr_name st)) = None"
  shows "fold (track_step message ts names) sts (l, u) =
    (l @ List.map (\<lambda>st. (mem_key (m_id message) (pr_name st), fresh_row message ts (pr_name st)))
           (filter (\<lambda>st. pr_name st \<in> set names \<and> \<not> has_legacy_runner st) sts),
     u + length (filter (\<lambda>st. pr_name st \<in> set names \<and> has_legacy_runner st) sts))"
  using assms
proof (induction sts arbitrary: l u)
  case (Cons st sts)
  define k where "k = mem_key (m_id message) (pr_name st)"
  define l' where "l' = (if pr_name st \<in> set names \<and> \<not> has_legacy_runner st then l @ [(k, fresh_row message ts (pr_name st))] else l)"
  define u' where "u' = (if pr_name st \<in> set names \<and> has_legacy_runner st then u + 1 else u)"
  have step: "track_step message ts names st (l, u) = (l', u')"
    using Cons.prems(2) by (simp add: track_step_def l'_def u'_def k_def mem_track_def fresh_row_def)
  have "\<forall>s \<in> set sts. map_of l' (mem_key (m_id message) (pr_name s)) = None"
  proof
    fix s assume s: "s \<in> set sts"
    with Cons.prems(1) have "pr_name s \<noteq> pr_name st" by (metis distinct.simps(2) image_eqI list.simps(9) list.set_map)
    with s Cons.prems(2) show "map_of l' (mem_key (m_id message) (pr_name s)) = None"
      by (simp add: l'_def k_def map_add_def)
  qed
  with Cons.IH [of l' u'] Cons.prems(1) step show ?case by (simp add: l'_def u'_def k_def)
qed simp

lemma fresh_message_key: "fresh_message mid l \<Longrightarrow> map_of l (mem_key mid n) = None"
  unfolding fresh_message_def list_all_iff
  by (fastforce simp: map_of_eq_None_iff mem_key_def starts_with_def)

lemma push_tracked_eq:
  assumes "registry_inv (br_registry b)" "pc_track ctx" "fresh_message (m_id message) (br_ledger b)" "m_to message = target"
  shows "push_tracked message ts target ctx b =
    (br_ledger b @ List.map (\<lambda>st. (mem_key (m_id message) (pr_name st), fresh_row message ts (pr_name st)))
        (filter (tracked_here ctx target) (push_states target ctx b)),
     length (filter (\<lambda>st. addressed target ctx (pr_name st) \<and> has_legacy_runner st) (push_states target ctx b)))"
proof -
  define names where "names = disposition_names target ctx (push_states target ctx b)"
  have names: "pr_name st \<in> set names \<longleftrightarrow> addressed target ctx (pr_name st)" if "st \<in> set (push_states target ctx b)" for st
    using disposition_name_iff [OF assms(1) that] by (simp add: names_def)
  have a: "filter (\<lambda>st. pr_name st \<in> set names \<and> \<not> has_legacy_runner st) (push_states target ctx b) =
      filter (tracked_here ctx target) (push_states target ctx b)"
    by (rule filter_cong) (auto simp: names tracked_here_def)
  have c: "filter (\<lambda>st. pr_name st \<in> set names \<and> has_legacy_runner st) (push_states target ctx b) =
      filter (\<lambda>st. addressed target ctx (pr_name st) \<and> has_legacy_runner st) (push_states target ctx b)"
    by (rule filter_cong) (auto simp: names)
  show ?thesis
    using track_fold [OF push_states_distinct [OF assms(1)], where l = "br_ledger b" and message = message and ts = ts and names = names and u = 0]
      fresh_message_key [OF assms(3)] assms(2)
    by (simp add: push_tracked_def track_all_def names_def [symmetric] a c)
qed

section \<open>The fan-out under quiet callbacks\<close>

text \<open>Everything a redelivery or a fan-out does to a row: count an attempt.\<close>

definition same_leases :: "mem_ledger \<Rightarrow> mem_ledger \<Rightarrow> bool" where
  "same_leases l l' \<longleftrightarrow>
     List.map (\<lambda>(k, r). (k, mr_message r, mr_recipient r, mr_state r, mr_owner r, mr_released r, mr_expires r)) l' =
     List.map (\<lambda>(k, r). (k, mr_message r, mr_recipient r, mr_state r, mr_owner r, mr_released r, mr_expires r)) l"

lemma same_leases_refl [simp]: "same_leases l l"
  by (simp add: same_leases_def)

lemma same_leases_trans: "same_leases l l' \<Longrightarrow> same_leases l' l'' \<Longrightarrow> same_leases l l''"
  by (simp add: same_leases_def)

lemma same_leases_note_sent: "same_leases l (mem_note_sent mid n ts l)"
  by (auto simp: same_leases_def mem_note_sent_def Let_def map_row_def split: option.split)

lemma same_leases_task:
  assumes "quiet cb"
  shows "same_leases l (fst (run_task cb message ts track t (l, calls, live)))"
proof -
  have "fst (cb (ft_sub t) message l) = l" using assms by (simp add: quiet_def)
  then show ?thesis by (auto simp: run_task_def Let_def same_leases_note_sent split: prod.split)
qed

lemma same_leases_tasks:
  assumes "quiet cb"
  shows "same_leases (fst acc) (fst (fold (run_task cb message ts track) tasks acc))"
proof (induction tasks arbitrary: acc)
  case (Cons t tasks)
  have "same_leases (fst acc) (fst (run_task cb message ts track t acc))"
    using same_leases_task [OF assms] by (cases acc) auto
  with Cons.IH [of "run_task cb message ts track t acc"] show ?case by (auto intro: same_leases_trans)
qed simp

text \<open>With \<open>trackDisposition: false\<close> the ledger is not touched at all.\<close>

lemma untracked_tasks:
  assumes "quiet cb"
  shows "fst (fold (run_task cb message ts False) tasks acc) = fst acc"
proof (induction tasks arbitrary: acc)
  case (Cons t tasks)
  have "fst (run_task cb message ts False t acc) = fst acc"
  proof -
    have "fst (cb (ft_sub t) message (fst acc)) = fst acc" using assms by (simp add: quiet_def)
    then show ?thesis by (cases acc) (auto simp: run_task_def Let_def split: prod.split)
  qed
  with Cons show ?case by simp
qed simp

lemma push_notice_ledger:
  assumes "quiet cb" "\<not> pc_track ctx"
  shows "br_ledger (fst (push cb mid ts later p ctx b)) = br_ledger b"
proof (cases rule: push_cases [of cb mid ts later p ctx b])
  case (sent res message)
  then show ?thesis
    using untracked_tasks [OF assms(1)] assms(2) by (simp add: broker_frame push_fanout_def push_tracked_def)
qed simp

lemma same_leases_redeliver_rows:
  assumes "quiet cb"
  shows "same_leases (br_ledger b) (br_ledger (fst (redeliver_rows cb n s True now rows d b)))"
proof (induction rows arbitrary: d b)
  case (Cons row rows)
  have same: "fst (cb s (pd_message row) (br_ledger b)) = br_ledger b" using assms by (simp add: quiet_def)
  obtain b1 ok where call: "call_callback cb n s (pd_message row) b = (b1, ok)" by fastforce
  with same have b1: "br_ledger b1 = br_ledger b" by (auto simp: call_callback_def split: prod.splits)
  define b2 where "b2 = b1\<lparr>br_ledger := mem_note_sent (m_id (pd_message row)) n now (br_ledger b1)\<rparr>"
  have "same_leases (br_ledger b) (br_ledger b2)" by (simp add: b2_def b1 same_leases_note_sent)
  then have "same_leases (br_ledger b) (br_ledger (fst (redeliver_rows cb n s True now rows (d + 1) b2)))"
    using Cons.IH [of b2] by (rule same_leases_trans)
  then show ?case using call by (cases ok) (simp_all add: b1 b2_def)
qed simp

lemma same_leases_to_ready:
  assumes "quiet cb"
  shows "same_leases (br_ledger b) (br_ledger (fst (redeliver_to_ready cb n st x now b)))"
proof (cases "List.find (\<lambda>c. c \<noteq> x \<and> subscriber_ready (br_blocked b) st c) (ps_subscribers st)")
  case None
  then show ?thesis by (simp add: redeliver_to_ready_def)
next
  case (Some c)
  from find_SomeD [OF Some] have "supports_disposition (identity_of st c)" using ready_capable by blast
  then have "redeliver_to_ready cb n st x now b =
      redeliver_rows cb n c True now (mem_pending n now (br_ledger b)) 0 b"
    using Some by (simp add: redeliver_to_ready_def redeliver_pending_def)
  then show ?thesis by (simp add: same_leases_redeliver_rows [OF assms])
qed


lemma same_leases_lookup:
  assumes "same_leases l l'" "map_of l k = Some r"
  shows "\<exists>r'. map_of l' k = Some r' \<and> mr_state r' = mr_state r \<and> mr_owner r' = mr_owner r \<and>
    mr_released r' = mr_released r \<and> mr_message r' = mr_message r \<and> mr_recipient r' = mr_recipient r \<and> mr_expires r' = mr_expires r"
proof -
  define f where "f = (\<lambda>(k :: string) (r :: memory_row). (mr_message r, mr_recipient r, mr_state r, mr_owner r, mr_released r, mr_expires r))"
  have "map_of (List.map (\<lambda>(k, r). (k, f k r)) l') k = map_of (List.map (\<lambda>(k, r). (k, f k r)) l) k"
    using assms(1) by (simp add: same_leases_def f_def)
  then have "map_option (f k) (map_of l' k) = map_option (f k) (map_of l k)" by (simp add: map_of_map_snd)
  with assms(2) show ?thesis by (auto simp: f_def)
qed

section \<open>The acknowledgement report\<close>

lemma pending_for_iff:
  "pending_for message later l n \<longleftrightarrow>
   (\<exists>x \<in> set (List.map (\<lambda>(k, r). (k, mr_message r, mr_recipient r, mr_state r, mr_owner r, mr_released r, mr_expires r)) l).
      m_id (fst (snd x)) = m_id message \<and> fst (snd (snd x)) = n \<and> fst (snd (snd (snd x))) = DPending \<and>
      snd (snd (snd (snd (snd (snd x))))) > later)"
  by (force simp: pending_for_def list_ex_iff mem_pending_def mem_pending_of_def)

lemma same_leases_pending_for: "same_leases l l' \<Longrightarrow> pending_for message later l' n = pending_for message later l n"
  unfolding pending_for_iff same_leases_def by (elim ssubst) (rule refl)

definition registered_addressees :: "string option \<Rightarrow> push_context \<Rightarrow> broker \<Rightarrow> presence_state list" where
  "registered_addressees target ctx b = filter (\<lambda>st. addressed target ctx (pr_name st)) (all_states (br_registry b))"

lemma same_length_by_key:
  assumes "distinct (List.map k xs)" "distinct (List.map k ys)" "set xs = set ys"
  shows "length xs = length ys"
proof -
  have "distinct xs" "distinct ys" using assms(1,2) by (auto simp: distinct_map)
  with assms(3) show ?thesis by (metis distinct_card)
qed

lemma all_states_iff:
  assumes "registry_inv reg"
  shows "st \<in> set (all_states reg) \<longleftrightarrow> map_of reg (pr_name st) = Some st"
proof -
  have d: "distinct (List.map fst reg)" using assms by (simp add: registry_inv_def)
  have "st \<in> set (all_states reg) \<longleftrightarrow> (\<exists>n. map_of reg n = Some st)"
    using d by (force simp: all_states_def)
  then show ?thesis using registry_invD [OF assms] by blast
qed

lemma all_states_distinct:
  assumes "registry_inv reg"
  shows "distinct (List.map pr_name (all_states reg))"
proof -
  have "List.map pr_name (all_states reg) = List.map fst reg"
    using assms by (auto simp: all_states_def registry_inv_def)
  then show ?thesis using assms by (simp add: registry_inv_def)
qed

lemma addressees_states:
  assumes "registry_inv (br_registry b)"
  shows "length (filter (\<lambda>st. addressed target ctx (pr_name st) \<and> P st) (push_states target ctx b)) =
    length (filter P (registered_addressees target ctx b))"
proof (rule same_length_by_key [where k = pr_name])
  show "distinct (List.map pr_name (filter (\<lambda>st. addressed target ctx (pr_name st) \<and> P st) (push_states target ctx b)))"
    by (rule distinct_map_filter [OF push_states_distinct [OF assms]])
  show "distinct (List.map pr_name (filter P (registered_addressees target ctx b)))"
    unfolding registered_addressees_def filter_filter by (rule distinct_map_filter [OF all_states_distinct [OF assms]])
  show "set (filter (\<lambda>st. addressed target ctx (pr_name st) \<and> P st) (push_states target ctx b)) =
      set (filter P (registered_addressees target ctx b))"
    using push_state_iff [OF assms] all_states_iff [OF assms] by (auto simp: registered_addressees_def)
qed

lemma length_partition: "length (filter P xs) + length (filter (\<lambda>x. \<not> P x) xs) = length xs"
  by (induction xs) auto

lemma push_pending_iff:
  assumes "registry_inv (br_registry b)" "quiet cb" "pc_track ctx" "fresh_message (m_id message) (br_ledger b)"
    and "later < ts + delivery_ttl"
  shows "pending_for message later (br_ledger (push_done cb message ts ctx b)) n \<longleftrightarrow>
    (\<exists>st \<in> set (push_states (m_to message) ctx b). tracked_here ctx (m_to message) st \<and> pr_name st = n)"
proof -
  define l0 where "l0 = fst (push_tracked message ts (m_to message) ctx b)"
  have l0: "l0 = br_ledger b @ List.map (\<lambda>st. (mem_key (m_id message) (pr_name st), fresh_row message ts (pr_name st)))
        (filter (tracked_here ctx (m_to message)) (push_states (m_to message) ctx b))"
    using push_tracked_eq [OF assms(1,3,4) refl] by (simp add: l0_def)
  have "same_leases l0 (br_ledger (push_done cb message ts ctx b))"
    using same_leases_tasks [OF assms(2), of "(l0, br_calls b, 0)"] by (simp add: broker_frame push_fanout_def l0_def)
  then have "pending_for message later (br_ledger (push_done cb message ts ctx b)) n = pending_for message later l0 n"
    by (rule same_leases_pending_for)
  also have "\<dots> \<longleftrightarrow> (\<exists>st \<in> set (push_states (m_to message) ctx b). tracked_here ctx (m_to message) st \<and> pr_name st = n)"
    unfolding pending_for_iff l0 set_map set_append map_append bex_Un bex_simps(7) set_filter
    using assms(4,5) by (auto simp: fresh_row_def fresh_message_def list_all_iff)
  finally show ?thesis .
qed

lemma disposition_names_distinct: "distinct (disposition_names target ctx states)"
  by (simp add: disposition_names_def split: option.split)

lemma push_report_counts:
  assumes "registry_inv (br_registry b)" "quiet cb" "pc_track ctx" "fresh_message (m_id message) (br_ledger b)"
    and "later < ts + delivery_ttl"
  defines "rs \<equiv> registered_addressees (m_to message) ctx b"
  shows "\<exists>a. push_report later message ts ctx b (br_ledger (push_done cb message ts ctx b)) = Some a \<and>
    ack_pending a = length (filter (\<lambda>st. \<not> has_legacy_runner st) rs) \<and>
    ack_unreported a = length (filter has_legacy_runner rs) \<and>
    (ack_status a = (if ack_pending a > 0 then AckPending else if ack_unreported a > 0 then AckUnreported else AckSettled))"
proof -
  define t where "t = m_to message"
  define sts where "sts = push_states t ctx b"
  define names where "names = disposition_names t ctx sts"
  have pend: "pending_for message later (br_ledger (push_done cb message ts ctx b)) n \<longleftrightarrow>
      n \<in> pr_name ` set (filter (tracked_here ctx t) sts)" for n
    unfolding push_pending_iff [OF assms(1-5)] sts_def t_def by auto
  have sub: "pr_name ` set (filter (tracked_here ctx t) sts) \<subseteq> set names"
    using disposition_name_iff [OF assms(1)] by (auto simp: names_def sts_def tracked_here_def)
  have "set (filter (pending_for message later (br_ledger (push_done cb message ts ctx b))) names) =
      set (List.map pr_name (filter (tracked_here ctx t) sts))"
    using pend sub by auto
  moreover have "distinct (filter (pending_for message later (br_ledger (push_done cb message ts ctx b))) names)"
    by (simp add: names_def disposition_names_distinct)
  moreover have d: "distinct (List.map pr_name (filter (tracked_here ctx t) sts))"
    unfolding sts_def by (rule distinct_map_filter [OF push_states_distinct [OF assms(1)]])
  ultimately have "length (filter (pending_for message later (br_ledger (push_done cb message ts ctx b))) names) =
      length (List.map pr_name (filter (tracked_here ctx t) sts))"
    by (metis distinct_card)
  also have "\<dots> = length (filter (\<lambda>st. \<not> has_legacy_runner st) rs)"
    using addressees_states [OF assms(1), of t ctx "\<lambda>st. \<not> has_legacy_runner st"]
    unfolding length_map rs_def sts_def t_def by (simp add: tracked_here_def [abs_def])
  finally have pending: "length (filter (pending_for message later (br_ledger (push_done cb message ts ctx b))) names) =
      length (filter (\<lambda>st. \<not> has_legacy_runner st) rs)" .
  have "snd (push_tracked message ts t ctx b) = length (filter has_legacy_runner rs)"
    using push_tracked_eq [OF assms(1,3,4) refl] addressees_states [OF assms(1), of t ctx has_legacy_runner]
    by (simp add: rs_def t_def)
  then show ?thesis
    using assms(3) pending by (simp add: push_report_def Let_def names_def sts_def t_def del: length_greater_0_conv)
qed

section \<open>A lost lease\<close>

definition leased_row :: "mem_ledger \<Rightarrow> string \<Rightarrow> string \<Rightarrow> string \<Rightarrow> bool" where
  "leased_row l mid n owner \<longleftrightarrow> (\<exists>r. map_of l (mem_key mid n) = Some r \<and> mem_holds n owner r)"

text \<open>Waiting for a runner again, with the old holder on record.\<close>

definition parked :: "mem_ledger \<Rightarrow> string \<Rightarrow> string \<Rightarrow> string \<Rightarrow> bool" where
  "parked l mid n owner \<longleftrightarrow>
     (\<exists>r. map_of l (mem_key mid n) = Some r \<and> mr_state r = DPending \<and> mr_owner r = None \<and> owner \<in> set (mr_released r))"

lemma release_lookup:
  "map_of (fst (mem_release_owner n owner l)) k =
     map_option (\<lambda>r. if mem_holds n owner r then released_row owner r else r) (map_of l k)"
  by (simp add: mem_release_owner_eq map_of_map_snd [where f = "\<lambda>k r. if mem_holds n owner r then released_row owner r else r"])

lemma release_parks: "leased_row l mid n owner \<Longrightarrow> parked (fst (mem_release_owner n owner l)) mid n owner"
  by (auto simp: leased_row_def parked_def release_lookup released_row_def)

lemma release_keeps_parked:
  assumes "parked l mid n owner"
  shows "parked (fst (mem_release_owner n' owner' l)) mid n owner"
  using assms unfolding parked_def release_lookup by (elim exE conjE) (simp add: mem_holds_def)

lemma same_leases_parked: "same_leases l l' \<Longrightarrow> parked l mid n owner \<Longrightarrow> parked l' mid n owner"
  unfolding parked_def by (elim exE conjE, drule (1) same_leases_lookup) auto

lemma release_owner_ledger: "br_ledger (release_owner n owner b) = fst (mem_release_owner n owner (br_ledger b))"
  by (simp add: release_owner_def)

lemma project_degraded_parked:
  "parked (br_ledger b) mid n owner \<Longrightarrow> parked (br_ledger (project_degraded n' s st b)) mid n owner"
  by (simp add: project_degraded_def release_owner_ledger release_keeps_parked split: option.split)

lemma project_degraded_parks:
  assumes "map_of (ps_ids st) s = Some sid" "sid \<noteq> []" "leased_row (br_ledger b) mid n sid"
  shows "parked (br_ledger (project_degraded n s st b)) mid n sid"
  using assms by (simp add: project_degraded_def release_owner_ledger release_parks)

lemma degrade_and_redeliver_parks:
  assumes "quiet cb" "map_of (ps_ids st) s = Some sid" "sid \<noteq> []" "leased_row (br_ledger b) mid n sid"
  shows "parked (br_ledger (fst (redeliver_to_ready cb n st s now (project_degraded n s st b)))) mid n sid"
  by (rule same_leases_parked [OF same_leases_to_ready [OF assms(1)] project_degraded_parks [OF assms(2-4)]])

text \<open>A parked delivery is not ended by a frame from the runner that lost it.\<close>

definition ending :: "disposition \<Rightarrow> bool" where
  "ending d \<longleftrightarrow> d \<noteq> Accepted \<and> d \<noteq> Deferred"

lemma parked_settle:
  assumes "parked l (df_message_id f) n owner" "ending (df_disposition f)"
  shows "mem_settle n f owner req l = (l, None)"
  using assms by (auto simp: parked_def ending_def mem_settle_def Let_def)

lemma late_frame_refused:
  assumes "parked (br_ledger b) (df_message_id f) n sid" "ending (df_disposition f)" "ic_subscription ctx = Some sid" "sid \<noteq> []"
    and "ic_name ctx = None \<or> ic_name ctx = Some n"
  shows "broker_disposition cb mid ts later n f ctx b = (b, Inr False)"
proof -
  have "assert_identity n (ic_name ctx) = Inr ()" using assms(5) by (auto simp: assert_identity_def)
  moreover have "disposition_owner n ri (Some sid) = Some sid" for ri using assms(4) by (simp add: disposition_owner_def)
  ultimately show ?thesis
    using parked_settle [OF assms(1,2)] assms(3)
    by (simp add: broker_disposition_def split: option.split client_identity.split)
qed

text \<open>The ways a live subscription \<open>s\<close> of member \<open>n\<close> with id \<open>sid\<close> loses what it holds.\<close>

inductive loses_lease :: "callbacks \<Rightarrow> string \<Rightarrow> subscriber \<Rightarrow> string \<Rightarrow> broker \<Rightarrow> broker \<Rightarrow> bool"
  for cb n s sid b where
  gone: "loses_lease cb n s sid b (unsubscribe n s b)"
| degraded: "\<lbrakk>cf_state frame = Degraded; ic_subscription ctx = Some sid; is_runner (ic_client ctx);
    ic_name ctx = None \<or> ic_name ctx = Some n; find_subscription (reg_get n (br_registry b)) (Some sid) = Some s\<rbrakk> \<Longrightarrow>
    loses_lease cb n s sid b (fst (runner_condition cb n frame ctx now b))"
| failed_turn: "\<lbrakk>tf_phase frame = TurnCompleted TurnFailed; ic_subscription ctx = Some sid; is_runner (ic_client ctx);
    ic_name ctx = None \<or> ic_name ctx = Some n; find_subscription (reg_get n (br_registry b)) (Some sid) = Some s;
    reg_get n (br_registry b) = Some st; map_of (turns_of st s) (tf_turn_id frame) \<noteq> None;
    map_option cf_state (map_of (ps_conditions st) s) \<noteq> Some Degraded\<rbrakk> \<Longrightarrow>
    loses_lease cb n s sid b (fst (runner_turn cb n frame ctx now b))"
| revoked: "\<lbrakk>reg_get n (br_registry b) = Some st; token_of st s = Some token; token \<in> set token_ids\<rbrakk> \<Longrightarrow>
    loses_lease cb n s sid b (block_tokens cb token_ids now b)"

inductive_cases loses_leaseE: "loses_lease cb n s sid b b'"

lemma leased_put_state [simp]: "leased_row (br_ledger (put_state n st b)) mid m owner = leased_row (br_ledger b) mid m owner"
  by (simp add: broker_frame)

lemma assert_identity_ok: "ic_name ctx = None \<or> ic_name ctx = Some n \<Longrightarrow> assert_identity n (ic_name ctx) = Inr ()"
  by (auto simp: assert_identity_def)

lemma block_subscriber_parked:
  assumes "quiet cb" "parked (br_ledger b) mid n owner"
  shows "parked (br_ledger (block_subscriber cb now m st e b)) mid n owner"
  using assms same_leases_parked [OF same_leases_to_ready [OF assms(1)] project_degraded_parked [OF assms(2)]]
  by (simp add: block_subscriber_def)

definition leased_or_parked :: "broker \<Rightarrow> string \<Rightarrow> string \<Rightarrow> string \<Rightarrow> bool" where
  "leased_or_parked b mid n sid \<longleftrightarrow> leased_row (br_ledger b) mid n sid \<or> parked (br_ledger b) mid n sid"

lemma release_leased_or_parked:
  assumes "leased_row l mid n sid"
  shows "leased_row (fst (mem_release_owner n' owner' l)) mid n sid \<or> parked (fst (mem_release_owner n' owner' l)) mid n sid"
proof -
  obtain r where r: "map_of l (mem_key mid n) = Some r" "mem_holds n sid r" using assms by (auto simp: leased_row_def)
  show ?thesis
  proof (cases "mem_holds n' owner' r")
    case True
    then have "n' = n" "owner' = sid" using r(2) by (auto simp: mem_holds_def)
    then show ?thesis using release_parks [OF assms] by simp
  next
    case False
    then show ?thesis using r by (simp add: leased_row_def release_lookup)
  qed
qed

lemma same_leases_leased: "same_leases l l' \<Longrightarrow> leased_row l mid n owner \<Longrightarrow> leased_row l' mid n owner"
  unfolding leased_row_def by (elim exE conjE, drule (1) same_leases_lookup) (auto simp: mem_holds_def)

lemma block_subscriber_either:
  assumes "quiet cb" "leased_or_parked b mid n sid"
  shows "leased_or_parked (block_subscriber cb now m st e b) mid n sid"
proof -
  have rel: "leased_or_parked (release_owner m o' b) mid n sid" for o'
  proof (cases "parked (br_ledger b) mid n sid")
    case True
    then show ?thesis using release_keeps_parked by (simp add: leased_or_parked_def release_owner_ledger)
  next
    case False
    with assms(2) have "leased_row (br_ledger b) mid n sid" by (simp add: leased_or_parked_def)
    from release_leased_or_parked [OF this] show ?thesis by (simp add: leased_or_parked_def release_owner_ledger)
  qed
  have "leased_or_parked (project_degraded m s st b) mid n sid" for s
    using assms(2) rel by (simp add: project_degraded_def split: option.split)
  then have "leased_or_parked (fst (redeliver_to_ready cb m st s now (project_degraded m s st b))) mid n sid" for s
    using same_leases_leased [OF same_leases_to_ready [OF assms(1)]] same_leases_parked [OF same_leases_to_ready [OF assms(1)]]
    unfolding leased_or_parked_def by blast
  then show ?thesis using assms(2) by (simp add: block_subscriber_def)
qed


lemma block_subscriber_parks:
  assumes "quiet cb" "leased_or_parked b mid n sid" "map_of (ps_ids st) s = Some sid" "sid \<noteq> []"
    and "token_blocked (br_blocked b) token"
  shows "parked (br_ledger (block_subscriber cb now n st (s, token) b)) mid n sid"
proof (cases "parked (br_ledger b) mid n sid")
  case True
  then show ?thesis by (rule block_subscriber_parked [OF assms(1)])
next
  case False
  with assms(2) have "leased_row (br_ledger b) mid n sid" by (simp add: leased_or_parked_def)
  from degrade_and_redeliver_parks [OF assms(1,3,4) this] assms(5) show ?thesis by (simp add: block_subscriber_def)
qed

text \<open>A fold that establishes a stable goal at one of its elements, from what it keeps before it.\<close>

lemma fold_reaches:
  assumes "x \<in> set xs" "\<And>y s. y \<in> set xs \<Longrightarrow> P s \<Longrightarrow> P (f y s)" "\<And>s. P s \<Longrightarrow> Q (f x s)"
    and "\<And>y s. y \<in> set xs \<Longrightarrow> Q s \<Longrightarrow> Q (f y s)" "P s"
  shows "Q (fold f xs s)"
  using assms
proof (induction xs arbitrary: s)
  case (Cons y ys)
  show ?case
  proof (cases "y = x")
    case True
    have "Q (f x s)" using Cons.prems(3,5) by blast
    moreover have "Q s \<Longrightarrow> Q (fold f ys s)" for s
      using Cons.prems(4) by (induction ys arbitrary: s) auto
    ultimately show ?thesis using True by simp
  next
    case False
    then have "x \<in> set ys" using Cons.prems(1) by simp
    then show ?thesis using Cons.IH [of "f y s"] Cons.prems by simp
  qed
qed simp

lemma block_tokens_parks:
  assumes "quiet cb" "registry_inv (br_registry b)" "map_of (br_registry b) n = Some st"
    and "map_of (ps_tokens st) s = Some (Some token)" "token \<in> set ids"
    and "map_of (ps_ids st) s = Some sid" "sid \<noteq> []" "leased_row (br_ledger b) mid n sid"
  shows "parked (br_ledger (block_tokens cb ids now b)) mid n sid"
proof -
  define bl where "bl = fold set_add ids (br_blocked b)"
  define P where "P = (\<lambda>b' :: broker. leased_or_parked b' mid n sid \<and> br_blocked b' = bl)"
  define Q where "Q = (\<lambda>b' :: broker. parked (br_ledger b') mid n sid)"
  have blocked: "token_blocked bl (Some token)" using assms(5) by (simp add: token_blocked_def bl_def)
  have P1: "P b' \<Longrightarrow> P (block_subscriber cb now m x e b')" for m x e b'
    using block_subscriber_either [OF assms(1)] by (simp add: P_def broker_frame)
  have Q1: "Q b' \<Longrightarrow> Q (block_subscriber cb now m x e b')" for m x e b'
    using block_subscriber_parked [OF assms(1)] by (simp add: Q_def)
  have PQ: "P b' \<Longrightarrow> Q (block_subscriber cb now n st (s, Some token) b')" for b'
    using block_subscriber_parks [OF assms(1) _ assms(6,7)] blocked by (simp add: P_def Q_def)
  have st: "pr_name st = n" "st \<in> set (all_states (br_registry b))" "(s, Some token) \<in> set (ps_tokens st)"
    using registry_invD [OF assms(2,3)] map_of_SomeD [OF assms(3)] map_of_SomeD [OF assms(4)]
    by (force simp: all_states_def)+
  have inner: "Q (fold (block_subscriber cb now (pr_name st) st) (ps_tokens st) b')" if "P b'" for b'
    unfolding st(1)
    by (rule fold_reaches [where P = P and Q = Q, OF st(3)]) (use that P1 Q1 PQ in auto)
  have P2: "P b' \<Longrightarrow> P (fold (block_subscriber cb now (pr_name x) x) (ps_tokens x) b')" for x b'
    by (rule fold_inv [where P = P]) (use P1 in auto)
  have Q2: "Q b' \<Longrightarrow> Q (fold (block_subscriber cb now (pr_name x) x) (ps_tokens x) b')" for x b'
    by (rule fold_inv [where P = Q]) (use Q1 in auto)
  have "P (b\<lparr>br_blocked := bl\<rparr>)" using assms(8) by (simp add: P_def leased_or_parked_def)
  with st(2) P2 inner Q2 have "Q (fold (\<lambda>st. fold (block_subscriber cb now (pr_name st) st) (ps_tokens st))
      (all_states (br_registry b)) (b\<lparr>br_blocked := bl\<rparr>))"
    by (rule fold_reaches [where P = P and Q = Q])
  then show ?thesis by (simp add: block_tokens_def Q_def bl_def)
qed

lemma loses_lease_parks:
  assumes "loses_lease cb n s sid b b'" "quiet cb" "registry_inv (br_registry b)" "reg_get n (br_registry b) = Some st"
    and "map_of (ps_ids st) s = Some sid" "sid \<noteq> []" "leased_row (br_ledger b) mid n sid"
  shows "parked (br_ledger b') mid n sid"
  using assms(1)
proof cases
  case gone
  then show ?thesis
    using project_degraded_parks [OF assms(5-7)] assms(4)
    by (simp add: unsubscribe_def project_subscriber_gone_eq broker_frame)
next
  case (degraded frame ctx now)
  have "parked (br_ledger (fst (redeliver_to_ready cb n (set_condition s frame st) s now
      (project_degraded n s (set_condition s frame st) (put_state n (set_condition s frame st) b))))) mid n sid"
    by (rule degrade_and_redeliver_parks [OF assms(2)]) (use assms in simp_all)
  then show ?thesis
    using degraded assms(4) assert_identity_ok [of ctx n] by (simp add: runner_condition_def Let_def case_prod_beta)
next
  case (failed_turn frame ctx st' now)
  then have st': "st' = st" using assms(4) by simp
  define st2 where "st2 = set_condition s (failed_turn_condition (tf_at frame) ''runner turn failed'')
      (turn_completed s (tf_turn_id frame) (tf_at frame) TurnFailed st)"
  have "parked (br_ledger (fst (redeliver_to_ready cb n st2 s now (project_degraded n s st2 (put_state n st2 b))))) mid n sid"
    by (rule degrade_and_redeliver_parks [OF assms(2)]) (use assms in \<open>simp_all add: st2_def\<close>)
  moreover obtain turn where "map_of (turns_of st s) (tf_turn_id frame) = Some turn"
    using failed_turn st' by auto
  moreover have "map_option cf_state (map_of (ps_conditions st) s) \<noteq> Some Degraded" using failed_turn st' by simp
  ultimately show ?thesis
    using failed_turn(1-6) assms(4) assert_identity_ok [of ctx n]
    by (simp add: runner_turn_def Let_def st2_def [symmetric])
next
  case (revoked st' token ids now)
  then have "st' = st" using assms(4) by simp
  with revoked(3) have "map_of (ps_tokens st) s = Some (Some token)" by (auto simp: token_of_def split: option.splits)
  from block_tokens_parks [OF assms(2,3) assms(4) [unfolded reg_get_def] this revoked(4) assms(5-7)] revoked(1)
  show ?thesis by simp
qed

section \<open>Notices\<close>

text \<open>What the expiry loop logs and shows for each expired delivery.\<close>

definition expiry_event :: "int \<Rightarrow> expired_delivery \<Rightarrow> disposition_event" where
  "expiry_event now e =
     \<lparr>de_message = pd_message (fst e), de_recipient = pd_recipient (fst e), de_disposition = Refused,
      de_at = now, de_reason = Some expired_reason\<rparr>"

lemma push_events: "br_events (fst (push cb mid ts later p ctx b)) = br_events b"
  by (cases rule: push_cases [of cb mid ts later p ctx b]) (auto simp: broker_frame)

lemma notify_expired_ledger:
  assumes "quiet cb"
  shows "br_ledger (fst (notify_expired cb fresh k now rows b)) = br_ledger b"
  by (rule notify_expired_keeps [where P = "\<lambda>b'. br_ledger b' = br_ledger b"])
    (use push_notice_ledger [OF assms] in \<open>auto simp: notice_context_def broker_frame\<close>)

lemma m_from_push_message [simp]: "m_from (push_message mid ts target p ctx) = pc_from ctx"
  by (simp add: push_message_def)

lemma push_to_log:
  assumes "push cb mid ts later p ctx b = (b', Inr res)"
  shows "br_log b' = br_log b @ [\<lparr>se_message = res_message res, se_recipients = push_audience (p_to p) ctx\<rparr>] \<and>
    m_to (res_message res) = p_to p \<and> m_from (res_message res) = pc_from ctx"
proof (cases rule: push_cases [of cb mid ts later p ctx b])
  case (sent res' message)
  with assms have "b' = push_done cb message ts ctx b" "res_message res = message" by simp_all
  then show ?thesis using sent(2) by (simp add: broker_frame)
qed (use assms in simp)

lemma notify_expired_ok:
  assumes "notify_expired cb fresh k now rows b = (b', Inr ())"
  shows "br_events b' = br_events b @ List.map (expiry_event now) rows \<and>
    (\<exists>new. br_log b' = br_log b @ new \<and>
       List.map (\<lambda>e. m_to (se_message e)) new = filter (\<lambda>s. s \<noteq> None) (List.map snd rows) \<and>
       (\<forall>e \<in> set new. m_from (se_message e) = None \<and> se_recipients e = None))"
  using assms
proof (induction rows arbitrary: k b)
  case (Cons e rows)
  obtain row sender where e: "e = (row, sender)" by (cases e)
  define b1 where "b1 = emit_disposition (expiry_event now e) b"
  have b1: "br_events b1 = br_events b @ [expiry_event now e]" "br_log b1 = br_log b"
    by (simp_all add: b1_def emit_disposition_def)
  show ?case
  proof (cases sender)
    case None
    with Cons.prems e have "notify_expired cb fresh k now rows b1 = (b', Inr ())"
      by (simp add: b1_def expiry_event_def Let_def)
    from Cons.IH [OF this] b1 e None show ?thesis by simp
  next
    case (Some s)
    define p where "p = refusal_payload s
          (''Message '' @ m_id (pd_message row) @ '' to '' @ pd_recipient row @ '' expired without acknowledgement.'')
          (refusal_data (m_id (pd_message row)) (pd_recipient row) (JStr ''expired''))"
    obtain b2 r where push: "push cb (fresh k) now now p notice_context b1 = (b2, r)" by fastforce
    with Cons.prems e Some have "\<not> (\<exists>err. r = Inl err)" and
      rest: "\<forall>res. r = Inr res \<longrightarrow> notify_expired cb fresh (k + 1) now rows b2 = (b', Inr ())"
      by (auto simp: b1_def expiry_event_def p_def Let_def)
    then obtain res where r: "r = Inr res" by (cases r) auto
    have "br_events b2 = br_events b1" using push_events [of cb "fresh k" now now p notice_context b1] push by simp
    moreover note push_to_log [OF push [unfolded r]] Cons.IH [OF rest [rule_format, OF r]]
    moreover have "p_to p = Some s" "push_audience (Some s) notice_context = None" "pc_from notice_context = None"
      by (simp_all add: p_def refusal_payload_def push_audience_def notice_context_def)
    ultimately show ?thesis using b1 e Some by auto
  qed
qed simp

lemma mem_expire_idem: "mem_expire now (fst (mem_expire now l)) = (fst (mem_expire now l), [])"
proof -
  have "\<not> mem_expires_now now r \<and> \<not> (mr_state r \<noteq> DPending \<and> mr_expires r \<le> now)"
    if "(k, r) \<in> set (fst (mem_expire now l))" for k r
    using that by (auto simp: mem_expire_def Let_def mem_expires_now_def mem_expire_row_def split: if_splits)
  then have 1: "filter (\<lambda>(k, r). mem_expires_now now r) (fst (mem_expire now l)) = []"
    and 2: "List.map (\<lambda>(k, r). if mem_expires_now now r then (k, mem_expire_row now r) else (k, r)) (fst (mem_expire now l)) = fst (mem_expire now l)"
    and 3: "filter (\<lambda>(k, r). \<not> (mr_state r \<noteq> DPending \<and> mr_expires r \<le> now)) (fst (mem_expire now l)) = fst (mem_expire now l)"
    by (fastforce simp: filter_empty_conv intro: map_idI filter_True)+
  show ?thesis unfolding mem_expire_def [of now "fst (mem_expire now l)"] Let_def 1 2 3 by simp
qed

end
