(* ===== verification/BrokerTheorems.thy ===== *)
theory BrokerTheorems
  imports BrokerReports BrokerLeases
begin

text \<open>
  The properties of the fan-out pool, the registry and the broker, each with a concrete instance of its
  hypotheses.
\<close>

section \<open>The fan-out pool\<close>

text \<open>
  C0. Every schedule of \<open>boundedParallel\<close> ends and runs each item exactly once: over n items an execution
  has at most \<open>3 n + 2 limit\<close> worker moves, no more than \<open>limit\<close> callbacks are ever in flight, no item is
  run twice, and when no worker can move, every item has been settled, whether its callback threw or not.
\<close>
theorem fanout_every_schedule:
  assumes "(fan_step n ^^ moves) (fan_start concurrency n) s"
  shows "moves \<le> 3 * n + 2 * fan_limit concurrency \<and>
    length (in_flight s) \<le> fan_limit concurrency \<and>
    distinct (in_flight s @ fan_done s) \<and> set (in_flight s @ fan_done s) \<subseteq> {0..<n} \<and>
    ((\<nexists>s'. fan_step n s s') \<longrightarrow> mset (fan_done s) = mset [0..<n])"
proof -
  have run: "(fan_step n)\<^sup>*\<^sup>* (fan_start concurrency n) s" using assms by (rule relpowp_imp_rtranclp)
  then have inv: "fan_inv n s" by (rule fan_pool.run_preserved [OF _ fan_start_inv])
  then have "mset (in_flight s @ fan_done s) = mset [0..<min (fan_next s) n]" by (simp add: fan_inv_def)
  then have eq: "distinct (in_flight s @ fan_done s)" "set (in_flight s @ fan_done s) = set [0..<min (fan_next s) n]"
    by (metis distinct_upt mset_eq_imp_distinct_iff, metis set_mset_mset)
  have "length (fan_workers (fan_start concurrency n)) \<le> fan_limit concurrency"
    using fan_start_size [of concurrency n] by (auto simp: fan_start_def)
  then have "length (in_flight s) \<le> fan_limit concurrency"
    using in_flight_bound [of s] fan_run_workers [OF run] by linarith
  moreover have "moves \<le> 3 * n + 2 * fan_limit concurrency"
    using fan_run_length [OF assms] fan_start_work [of n concurrency] by linarith
  ultimately show ?thesis using eq fan_stuck [OF inv] by auto
qed

theorem fanout_every_schedule_witness:
  "(fan_step 3 ^^ 6) (fan_start 2 3) (fan_run 3 [0, 1, 1, 1, 1, 0] (fan_start 2 3)) \<and>
   fan_done (fan_run 3 [0, 1, 1, 1, 1, 0] (fan_start 2 3)) = [1, 2, 0] \<and> (6 :: nat) \<le> 3 * 3 + 2 * fan_limit 2"
proof -
  define s where "s = (\<lambda>k. fan_run 3 (take k [0, 1, 1, 1, 1, 0]) (fan_start 2 3))"
  have one: "fan_step 3 (s k) (s (Suc k))" if "k \<in> {0, 1, 2, 3, 4, 5}" for k
  proof -
    have "fan_advance 3 ([0, 1, 1, 1, 1, 0] ! k) (s k) = Some (s (Suc k))"
      using that unfolding s_def by (elim insertE emptyE; hypsubst; code_simp)
    then show ?thesis by (rule fan_step.intros)
  qed
  have "(fan_step 3 ^^ k) (s 0) (s k)" if "k \<le> 6" for k
    using that
  proof (induction k)
    case (Suc k)
    then have "k \<in> {0, 1, 2, 3, 4, 5}" by auto
    from Suc one [OF this] show ?case by auto
  qed simp
  from this [of 6] have run: "(fan_step 3 ^^ 6) (fan_start 2 3) (fan_run 3 [0, 1, 1, 1, 1, 0] (fan_start 2 3))"
    by (simp add: s_def fan_run_def)
  from fanout_every_schedule [OF run] have "(6 :: nat) \<le> 3 * 3 + 2 * fan_limit 2" by blast
  moreover have "fan_done (fan_run 3 [0, 1, 1, 1, 1, 0] (fan_start 2 3)) = [1, 2, 0]" by code_simp
  ultimately show ?thesis using run by blast
qed

section \<open>Push\<close>

text \<open>
  A push is refused before it has any effect, and only for one of two reasons: a body that contains a
  complete bearer token, whatever its recipient, or a recipient that is not a member name. Then the broker
  is exactly as it was: no id is spent in the log, nobody is called, nothing is tracked. Every other push
  returns its message, after one entry was appended to the log.
\<close>
theorem push_refused_before_effects:
  "push cb mid ts later p ctx b = (b', r) \<Longrightarrow>
     (contains_bearer_token (p_body p) \<longrightarrow> b' = b \<and> r = Inl CredentialShapedBody) \<and>
     (\<not> contains_bearer_token (p_body p) \<longrightarrow>
        (case p_to p of
           Some n \<Rightarrow> if name_ok n then \<exists>res. r = Inr res else b' = b \<and> r = Inl (InvalidRecipient n)
         | None \<Rightarrow> \<exists>res. r = Inr res)) \<and>
     (\<forall>res. r = Inr res \<longrightarrow>
        List.map se_message (br_log b') = List.map se_message (br_log b) @ [res_message res] \<and>
        m_to (res_message res) = p_to p \<and> m_from (res_message res) = pc_from ctx \<and> m_body (res_message res) = p_body p)"
proof (cases rule: push_cases [of cb mid ts later p ctx b])
  case (refused e)
  assume push: "push cb mid ts later p ctx b = (b', r)"
  show ?thesis
    using push push_refused [OF refused(2), of cb mid ts later ctx b] refused(2)
    by (auto simp: target_ok_def split: option.splits)
next
  case (sent res message)
  assume push: "push cb mid ts later p ctx b = (b', r)"
  with sent have "b' = push_done cb message ts ctx b" "r = Inr res" by simp_all
  then show ?thesis
    using sent by (auto simp: broker_frame target_ok_def push_message_def split: option.splits)
qed

definition demo_ri :: "bool \<Rightarrow> runner_identity" where
  "demo_ri v1 = \<lparr>ri_runner = ClaudeRunner, ri_model_id = None, ri_version = ''1.0'', ri_build_source = NpmBuild,
     ri_disposition_v1 = v1, ri_runner_state_v1 = v1, ri_supervision = None\<rparr>"

definition demo_ctx :: "string \<Rightarrow> string \<Rightarrow> client_identity option \<Rightarrow> string option \<Rightarrow> identity_context" where
  "demo_ctx name sid client token = \<lparr>ic_name = Some name, ic_role = None, ic_token = token, ic_client = client,
     ic_runner = None, ic_subscription = Some sid\<rparr>"

definition demo_cb :: callbacks where
  "demo_cb s m l = (l, s \<noteq> 9)"

definition demo_payload :: "string option \<Rightarrow> string \<Rightarrow> push_payload" where
  "demo_payload target body = \<lparr>p_to = target, p_title = None, p_body = body, p_level = None, p_data = None, p_attachments = None\<rparr>"

definition demo_pctx :: push_context where
  "demo_pctx = \<lparr>pc_from = Some ''ada'', pc_recipients = None, pc_track = True\<rparr>"

text \<open>ada with a browser; bob with a browser and two runners, the first of them ready.\<close>

definition demo_broker :: broker where
  "demo_broker =
     (let b1 = fst (subscribe ''ada'' 1 (demo_ctx ''ada'' ''s1'' (Some (Browser ''2'')) None) [] 5 new_broker);
          b2 = fst (subscribe ''bob'' 2 (demo_ctx ''bob'' ''s2'' (Some (Browser ''2'')) None) [] 6 b1);
          b3 = fst (subscribe ''bob'' 3 (demo_ctx ''bob'' ''s3'' (Some (Runner (demo_ri True))) (Some ''t3'')) [] 7 b2);
          b4 = fst (subscribe ''bob'' 4 (demo_ctx ''bob'' ''s4'' (Some (Runner (demo_ri True))) None) [] 8 b3)
      in fst (runner_condition demo_cb ''bob'' \<lparr>cf_at = 9, cf_state = Ready, cf_reason = None\<rparr>
                (demo_ctx ''bob'' ''s3'' (Some (Runner (demo_ri True))) (Some ''t3'')) 9 b4))"

lemma reach_subscribe:
  "(broker_step cb)\<^sup>*\<^sup>* b0 b \<Longrightarrow> (broker_step cb)\<^sup>*\<^sup>* b0 (fst (subscribe n callback ictx fresh_id now b))"
  by (erule rtranclp.rtrancl_into_rtrancl) (rule broker_step.subscribe)

lemma reach_condition:
  "(broker_step cb)\<^sup>*\<^sup>* b0 b \<Longrightarrow> (broker_step cb)\<^sup>*\<^sup>* b0 (fst (runner_condition cb n cframe ictx now b))"
  by (erule rtranclp.rtrancl_into_rtrancl) (rule broker_step.condition)

lemma demo_broker_reachable: "(broker_step demo_cb)\<^sup>*\<^sup>* new_broker demo_broker"
  unfolding demo_broker_def Let_def by (intro reach_condition reach_subscribe rtranclp.rtrancl_refl)

lemma reachable_inv: "(broker_step cb)\<^sup>*\<^sup>* new_broker b \<Longrightarrow> registry_inv (br_registry b)"
  using broker_run.run_preserved [OF _ new_broker_inv] by (simp add: broker_inv_def)

theorem push_refused_before_effects_witness:
  "push demo_cb ''m1'' 10 10 (demo_payload (Some ''no such name'') ''hi'') demo_pctx demo_broker =
     (demo_broker, Inl (InvalidRecipient ''no such name''))"
proof -
  obtain b' r where "push demo_cb ''m1'' 10 10 (demo_payload (Some ''no such name'') ''hi'') demo_pctx demo_broker = (b', r)"
    by fastforce
  note p = this push_refused_before_effects [OF this]
  have "\<not> contains_bearer_token ''hi''" "\<not> name_ok ''no such name''" by code_simp+
  with p show ?thesis by (simp add: demo_payload_def)
qed



definition demo_pushed :: "broker \<times> (broker_error, push_result) res" where
  "demo_pushed = push demo_cb ''m1'' 10 10 (demo_payload (Some ''bob'') ''hi'') demo_pctx demo_broker"

definition demo_res :: push_result where
  "demo_res = \<lparr>res_delivery = \<lparr>dl_live = 3, dl_targets = 1, dl_ack =
       Some \<lparr>ack_status = AckPending, ack_pending = 1, ack_unreported = 0\<rparr>\<rparr>,
     res_message = push_message ''m1'' 10 (Some ''bob'') (demo_payload (Some ''bob'') ''hi'') demo_pctx\<rparr>"

lemma demo_pushed_ok: "snd demo_pushed = Inr demo_res"
  by code_simp

lemma demo_push_eq:
  "push demo_cb ''m1'' 10 10 (demo_payload (Some ''bob'') ''hi'') demo_pctx demo_broker = (fst demo_pushed, Inr demo_res)"
  by (metis demo_pushed_def demo_pushed_ok prod.collapse)


lemma find_filter: "(\<And>x. P x \<Longrightarrow> Q x) \<Longrightarrow> List.find P (filter Q xs) = List.find P xs"
  by (induction xs) auto

text \<open>
  C30. One runner per member. A tracked push to a member with runners that can acknowledge calls at most one
  of the member's runners. If one of them is ready, the first ready one in subscription order is the one
  called; if none is ready, only a runner without a liveness protocol can be, and otherwise the message waits
  in the ledger.
\<close>
theorem push_one_runner_per_member:
  assumes "(broker_step cb)\<^sup>*\<^sup>* new_broker b" and "push cb mid ts later p ctx b = (b', Inr res)"
    and "pc_track ctx" and "reg_get n (br_registry b) = Some st" and "addressed (p_to p) ctx n"
    and "\<exists>s \<in> set (ps_subscribers st). supports_disposition (identity_of st s)"
  shows "\<exists>calls. br_calls b' = br_calls b @ calls \<and>
    (let called = {s. \<lparr>cc_member = n, cc_subscriber = s, cc_message = res_message res\<rparr> \<in> set calls \<and> is_runner (identity_of st s)}
     in (case List.find (subscriber_ready (br_blocked b) st) (ps_subscribers st) of
           Some s \<Rightarrow> called = {s}
         | None \<Rightarrow> called \<subseteq> {s. no_liveness_runner (identity_of st s)} \<and> (\<forall>s \<in> called. called = {s})))"
proof -
  note inv = reachable_inv [OF assms(1)]
  obtain message where m: "b' = push_done cb message ts ctx b" "res_message res = message" "m_to message = p_to p"
    by (cases rule: push_cases [of cb mid ts later p ctx b]) (use assms(2) in auto)
  define blocked where "blocked = br_blocked b"
  define cs where "cs = capable_runners True st"
  have cs: "set cs = {s \<in> set (ps_subscribers st). supports_disposition (identity_of st s)}" "cs \<noteq> []"
    using assms(6) by (auto simp: cs_def capable_runners_def filter_empty_conv)
  define called where "called = {s. \<lparr>cc_member = n, cc_subscriber = s, cc_message = message\<rparr> \<in> set (push_new_calls message ctx b) \<and>
      is_runner (identity_of st s)}"
  have called: "s \<in> called \<longleftrightarrow> selected_runner blocked st cs = Some s" for s
  proof
    assume "s \<in> called"
    then show "selected_runner blocked st cs = Some s"
      using assms(3-5) m(3) cs(2)
      by (auto simp: called_def push_new_call_iff [OF inv] reg_get_def passed_over_def blocked_def cs_def)
  next
    assume sel: "selected_runner blocked st cs = Some s"
    then have "s \<in> set cs" using selected_runner_capable by blast
    then have "s \<in> set (ps_subscribers st)" "is_runner (identity_of st s)" using cs(1) supports_runner by auto
    then show "s \<in> called"
      using assms(3-5) m(3) sel
      by (auto simp: called_def push_new_call_iff [OF inv] reg_get_def passed_over_def blocked_def cs_def)
  qed
  have find: "List.find (subscriber_ready blocked st) cs = List.find (subscriber_ready blocked st) (ps_subscribers st)"
    unfolding cs_def capable_runners_def by (simp add: find_filter ready_capable)
  have "case List.find (subscriber_ready blocked st) (ps_subscribers st) of
      Some s \<Rightarrow> called = {s}
    | None \<Rightarrow> called \<subseteq> {s. no_liveness_runner (identity_of st s)} \<and> (\<forall>s \<in> called. called = {s})"
  proof (cases "List.find (subscriber_ready blocked st) (ps_subscribers st)")
    case None
    then have "selected_runner blocked st cs = List.find (\<lambda>c. no_liveness_runner (identity_of st c)) cs"
      by (simp add: selected_runner_def find)
    then show ?thesis using None called by (auto dest!: find_SomeD)
  next
    case (Some s)
    then have "selected_runner blocked st cs = Some s" by (simp add: selected_runner_def find)
    then show ?thesis using Some called by auto
  qed
  then show ?thesis
    using push_calls_eq [OF inv, of cb message ts ctx] m
    by (intro exI [of _ "push_new_calls message ctx b"]) (simp add: called_def [symmetric] blocked_def)
qed

theorem push_one_runner_per_member_witness:
  "\<exists>calls. br_calls (fst demo_pushed) = br_calls demo_broker @ calls \<and>
     {s. \<lparr>cc_member = ''bob'', cc_subscriber = s, cc_message = res_message demo_res\<rparr> \<in> set calls \<and>
         is_runner (identity_of (the (reg_get ''bob'' (br_registry demo_broker))) s)} = {3}"
proof -
  define st where "st = the (reg_get ''bob'' (br_registry demo_broker))"
  have st: "reg_get ''bob'' (br_registry demo_broker) = Some st" unfolding st_def by code_simp
  have capable: "supports_disposition (identity_of st 3)" "3 \<in> set (ps_subscribers st)" unfolding st_def by code_simp+
  have ready: "List.find (subscriber_ready (br_blocked demo_broker) st) (ps_subscribers st) = Some 3"
    unfolding st_def by code_simp
  have a: "addressed (p_to (demo_payload (Some ''bob'') ''hi'')) demo_pctx ''bob''" "pc_track demo_pctx" by code_simp+
  have c: "\<exists>s \<in> set (ps_subscribers st). supports_disposition (identity_of st s)" using capable by blast
  from push_one_runner_per_member [OF demo_broker_reachable demo_push_eq a(2) st a(1) c] ready
  show ?thesis by (simp add: Let_def st_def)
qed


lemma quiet_demo: "quiet demo_cb"
  by (simp add: quiet_def demo_cb_def)


section \<open>Runners\<close>

text \<open>
  C32. A lost runner keeps no lease, and its late frames are refused. Whenever a live subscription is removed,
  reports itself degraded, completes a failed turn, or has its token revoked, each delivery it had accepted
  goes back to pending; and an acted, handled or refused frame that still arrives from that subscription
  answers false and changes nothing.
\<close>
theorem broker_lost_lease_is_final:
  assumes "(broker_step cb)\<^sup>*\<^sup>* new_broker b" and "quiet cb" and "loses_lease cb n s sid b b'"
    and "reg_get n (br_registry b) = Some st" and "map_of (ps_ids st) s = Some sid" and "sid \<noteq> []"
    and "leased_row (br_ledger b) (df_message_id frame) n sid"
    and "ic_subscription ctx = Some sid" and "ic_name ctx = Some n" and "ending (df_disposition frame)"
  shows "\<not> leased_row (br_ledger b') (df_message_id frame) n sid \<and>
    parked (br_ledger b') (df_message_id frame) n sid \<and>
    broker_disposition cb mid ts later n frame ctx b' = (b', Inr False)"
proof -
  have "parked (br_ledger b') (df_message_id frame) n sid"
    by (rule loses_lease_parks [OF assms(3,2) reachable_inv [OF assms(1)] assms(4-7)])
  moreover from this have "\<not> leased_row (br_ledger b') (df_message_id frame) n sid"
    by (auto simp: parked_def leased_row_def mem_holds_def)
  ultimately show ?thesis
    using late_frame_refused [of b' frame n sid ctx] assms(6,8-10) by blast
qed

definition demo_accepted :: broker where
  "demo_accepted = fst (broker_disposition demo_cb ''x'' 11 11 ''bob''
     \<lparr>df_message_id = ''m1'', df_disposition = Accepted, df_at = 11, df_reason = None\<rparr>
     (demo_ctx ''bob'' ''s3'' (Some (Runner (demo_ri True))) (Some ''t3'')) (fst demo_pushed))"

lemma demo_accepted_reachable: "(broker_step demo_cb)\<^sup>*\<^sup>* new_broker demo_accepted"
proof -
  have "(broker_step demo_cb)\<^sup>*\<^sup>* new_broker (fst demo_pushed)"
    unfolding demo_pushed_def
    by (rule rtranclp.rtrancl_into_rtrancl [OF demo_broker_reachable]) (rule broker_step.push)
  then show ?thesis
    unfolding demo_accepted_def by (rule rtranclp.rtrancl_into_rtrancl) (rule broker_step.disposition)
qed

theorem broker_lost_lease_is_final_witness:
  "leased_row (br_ledger demo_accepted) ''m1'' ''bob'' ''s3'' \<and>
   parked (br_ledger (block_tokens demo_cb [''t3''] 12 demo_accepted)) ''m1'' ''bob'' ''s3'' \<and>
   broker_disposition demo_cb ''y'' 13 13 ''bob'' \<lparr>df_message_id = ''m1'', df_disposition = Handled, df_at = 13, df_reason = None\<rparr>
     (demo_ctx ''bob'' ''s3'' (Some (Runner (demo_ri True))) (Some ''t3'')) (block_tokens demo_cb [''t3''] 12 demo_accepted) =
   (block_tokens demo_cb [''t3''] 12 demo_accepted, Inr False)"
proof -
  define st where "st = the (reg_get ''bob'' (br_registry demo_accepted))"
  define f where "f = \<lparr>df_message_id = ''m1'', df_disposition = Handled, df_at = 13, df_reason = None :: disposition_reason option\<rparr>"
  define ctx where "ctx = demo_ctx ''bob'' ''s3'' (Some (Runner (demo_ri True))) (Some ''t3'')"
  have st: "reg_get ''bob'' (br_registry demo_accepted) = Some st" unfolding st_def by code_simp
  have token: "token_of st 3 = Some ''t3''" unfolding st_def by code_simp
  have sid: "map_of (ps_ids st) 3 = Some ''s3''" unfolding st_def by code_simp
  have "map_of (br_ledger demo_accepted) (mem_key ''m1'' ''bob'') \<noteq> None \<and>
      mem_holds ''bob'' ''s3'' (the (map_of (br_ledger demo_accepted) (mem_key ''m1'' ''bob'')))" by code_simp
  then have leased: "leased_row (br_ledger demo_accepted) (df_message_id f) ''bob'' ''s3''"
    by (auto simp: leased_row_def f_def)
  have loses: "loses_lease demo_cb ''bob'' 3 ''s3'' demo_accepted (block_tokens demo_cb [''t3''] 12 demo_accepted)"
    by (rule loses_lease.revoked [OF st token]) simp
  have ctx: "ic_subscription ctx = Some ''s3''" "ic_name ctx = Some ''bob''" "ending (df_disposition f)"
    by (simp_all add: ctx_def demo_ctx_def f_def ending_def)
  from broker_lost_lease_is_final [OF demo_accepted_reachable quiet_demo loses st sid _ leased ctx]
  show ?thesis using leased by (simp add: f_def ctx_def)
qed

text \<open>
  The expiry sweep does not feed itself. Its notices are pushed untracked: the ledger after the sweep is
  the ledger the expiry left, whatever else happened. When the sweep returns, it returns the number of
  deliveries expired, has shown the listeners one refused event for each, and has logged one notice from
  nobody to the sender of each that has one, in order; a second sweep at the same time does nothing.
\<close>
theorem expiry_notices_are_not_tracked:
  assumes "quiet cb" and "sweep_message_deliveries cb fresh now b = (b', r)"
  shows "br_ledger b' = fst (mem_expire now (br_ledger b)) \<and>
    sweep_message_deliveries cb fresh' now b' = (b', Inr 0) \<and>
    (\<forall>k. r = Inr k \<longrightarrow>
       (let expired = snd (mem_expire now (br_ledger b)) in
        k = length expired \<and> br_events b' = br_events b @ List.map (expiry_event now) expired \<and>
        (\<exists>new. br_log b' = br_log b @ new \<and>
           List.map (\<lambda>e. m_to (se_message e)) new = filter (\<lambda>s. s \<noteq> None) (List.map snd expired) \<and>
           (\<forall>e \<in> set new. m_from (se_message e) = None))))"
proof -
  obtain l expired where e: "mem_expire now (br_ledger b) = (l, expired)" by fastforce
  define b1 where "b1 = b\<lparr>br_ledger := l\<rparr>"
  obtain b2 r2 where n: "notify_expired cb fresh 0 now expired b1 = (b2, r2)" by fastforce
  have b': "b' = b2" "r = (case r2 of Inl err \<Rightarrow> Inl err | Inr _ \<Rightarrow> Inr (length expired))"
    using assms(2) e n by (auto simp: sweep_message_deliveries_def b1_def)
  have ledger: "br_ledger b' = l"
    using notify_expired_ledger [OF assms(1), of fresh 0 now expired b1] n b'(1) by (simp add: b1_def)
  have idem: "mem_expire now l = (l, [])" using mem_expire_idem [of now "br_ledger b"] e by simp
  have "b'\<lparr>br_ledger := l\<rparr> = b'" using ledger by simp
  then have again: "sweep_message_deliveries cb fresh' now b' = (b', Inr 0)"
    by (simp add: sweep_message_deliveries_def ledger idem)
  have "k = length expired \<and> br_events b' = br_events b @ List.map (expiry_event now) expired \<and>
        (\<exists>new. br_log b' = br_log b @ new \<and>
           List.map (\<lambda>e. m_to (se_message e)) new = filter (\<lambda>s. s \<noteq> None) (List.map snd expired) \<and>
           (\<forall>e \<in> set new. m_from (se_message e) = None))" if "r = Inr k" for k
  proof -
    have "r2 = Inr ()" "k = length expired" using that b'(2) by (auto split: sum.splits)
    with notify_expired_ok [of cb fresh 0 now expired b1 b2] n b'(1) show ?thesis by (auto simp: b1_def)
  qed
  then show ?thesis using ledger again e by (simp add: Let_def)
qed

theorem expiry_notices_are_not_tracked_witness:
  "\<exists>b' k. sweep_message_deliveries demo_cb (\<lambda>i. ''n'') (10 + delivery_ttl) demo_accepted = (b', Inr k) \<and>
     br_ledger b' = fst (mem_expire (10 + delivery_ttl) (br_ledger demo_accepted)) \<and> k = 1 \<and>
     List.map m_to (List.map se_message (br_log b')) = [Some ''bob'', Some ''ada'']"
proof -
  obtain b' r where s: "sweep_message_deliveries demo_cb (\<lambda>i. ''n'') (10 + delivery_ttl) demo_accepted = (b', r)" by fastforce
  have "snd (sweep_message_deliveries demo_cb (\<lambda>i. ''n'') (10 + delivery_ttl) demo_accepted) = Inr 1" by code_simp
  then have "r = Inr 1" by (simp add: s)
  moreover have "List.map m_to (List.map se_message
      (br_log (fst (sweep_message_deliveries demo_cb (\<lambda>i. ''n'') (10 + delivery_ttl) demo_accepted)))) = [Some ''bob'', Some ''ada'']"
    by code_simp
  then have "List.map m_to (List.map se_message (br_log b')) = [Some ''bob'', Some ''ada'']" by (simp only: s fst_conv)
  ultimately show ?thesis
    using s expiry_notices_are_not_tracked [OF quiet_demo s] by (intro exI [of _ b'] exI [of _ 1]) simp
qed

section \<open>Presence\<close>

text \<open>
  A presence listing accounts for every live connection. In any reachable broker, whatever the callbacks
  do: the connections of the client reports and the unreported ones add up to the connected count; identities
  are reported once, each with the number of live subscribers that gave it; the executor is ready exactly
  when some runner connection with an unrevoked token last said ready, and degraded exactly when there is a
  runner connection and each is revoked or last said degraded.
\<close>
theorem presence_report_accounts_for_connections:
  assumes "(broker_step cb)\<^sup>*\<^sup>* new_broker b" and "list_presences cb (Some version) now b = (b', ps)"
  shows "List.map pe_name ps = List.map fst (br_registry b') \<and>
    (\<forall>pe \<in> set ps. \<exists>st rep. reg_get (pe_name pe) (br_registry b') = Some st \<and> pe_reports pe = Some rep \<and>
       pe_connected pe = length (ps_subscribers st) \<and>
       sum_list (List.map cr_connections (rep_clients rep)) + rep_unreported rep = pe_connected pe \<and>
       distinct (List.map cr_identity (rep_clients rep)) \<and>
       (\<forall>r \<in> set (rep_clients rep). cr_connections r =
          length (filter (\<lambda>s. identity_of st s = Some (cr_identity r)) (ps_subscribers st))) \<and>
       (let runners = {s \<in> set (ps_subscribers st). is_runner (identity_of st s)};
            says = (\<lambda>c s. map_option cf_state (map_of (ps_conditions st) s) = Some c);
            revoked = (\<lambda>s. token_blocked (br_blocked b') (token_of st s))
        in (ex_state (rep_executor rep) = ExReady \<longleftrightarrow> (\<exists>s \<in> runners. \<not> revoked s \<and> says Ready s)) \<and>
           (ex_state (rep_executor rep) = ExDegraded \<longleftrightarrow>
              runners \<noteq> {} \<and> (\<forall>s \<in> runners. revoked s \<or> says Degraded s))))"
proof -
  have b': "b' = fst (sweep_open_turn_backstops cb now b)" and
    ps: "ps = List.map (presence_of (br_blocked b') (Some version)) (all_states (br_registry b'))"
    using assms(2) by (auto simp: list_presences_def Let_def reg_list_def)
  have inv: "registry_inv (br_registry b')" unfolding b' by (rule sweep_turns_inv [OF reachable_inv [OF assms(1)]])
  have names: "List.map pe_name ps = List.map fst (br_registry b')"
    using inv by (auto simp: ps presence_of_def Let_def all_states_def registry_inv_def)
  have one: "\<exists>st rep. reg_get (pe_name pe) (br_registry b') = Some st \<and> pe_reports pe = Some rep \<and>
      state_inv st \<and> pe_connected pe = length (ps_subscribers st) \<and> rep_clients rep = client_reports (Some version) st \<and>
      rep_unreported rep = length (filter (\<lambda>i. i = None) (List.map snd (ps_identities st))) \<and>
      rep_executor rep = executor_of (br_blocked b') st" if pe: "pe \<in> set ps" for pe
  proof -
    obtain st where st: "st \<in> set (all_states (br_registry b'))" "pe = presence_of (br_blocked b') (Some version) st"
      using pe by (auto simp: ps)
    then have "map_of (br_registry b') (pr_name st) = Some st" using all_states_iff [OF inv] by blast
    with registry_invD [OF inv this] st show ?thesis by (simp add: presence_of_def Let_def reg_get_def)
  qed
  show ?thesis
  proof (intro conjI ballI names)
    fix pe assume "pe \<in> set ps"
    from one [OF this] obtain st rep where p: "reg_get (pe_name pe) (br_registry b') = Some st" "pe_reports pe = Some rep"
      "state_inv st" "pe_connected pe = length (ps_subscribers st)" "rep_clients rep = client_reports (Some version) st"
      "rep_unreported rep = length (filter (\<lambda>i. i = None) (List.map snd (ps_identities st)))"
      "rep_executor rep = executor_of (br_blocked b') st" by blast
    show "\<exists>st rep. reg_get (pe_name pe) (br_registry b') = Some st \<and> pe_reports pe = Some rep \<and>
       pe_connected pe = length (ps_subscribers st) \<and>
       sum_list (List.map cr_connections (rep_clients rep)) + rep_unreported rep = pe_connected pe \<and>
       distinct (List.map cr_identity (rep_clients rep)) \<and>
       (\<forall>r \<in> set (rep_clients rep). cr_connections r =
          length (filter (\<lambda>s. identity_of st s = Some (cr_identity r)) (ps_subscribers st))) \<and>
       (let runners = {s \<in> set (ps_subscribers st). is_runner (identity_of st s)};
            says = (\<lambda>c s. map_option cf_state (map_of (ps_conditions st) s) = Some c);
            revoked = (\<lambda>s. token_blocked (br_blocked b') (token_of st s))
        in (ex_state (rep_executor rep) = ExReady \<longleftrightarrow> (\<exists>s \<in> runners. \<not> revoked s \<and> says Ready s)) \<and>
           (ex_state (rep_executor rep) = ExDegraded \<longleftrightarrow>
              runners \<noteq> {} \<and> (\<forall>s \<in> runners. revoked s \<or> says Degraded s)))"
    proof (intro exI [of _ st] exI [of _ rep] conjI p)
      show "sum_list (List.map cr_connections (rep_clients rep)) + rep_unreported rep = pe_connected pe"
        using reports_conserve [OF p(3), of "Some version"] p by simp
      show "distinct (List.map cr_identity (rep_clients rep))"
        "\<forall>r \<in> set (rep_clients rep). cr_connections r =
          length (filter (\<lambda>s. identity_of st s = Some (cr_identity r)) (ps_subscribers st))"
        using reports_per_identity [OF p(3), of "Some version"] p(5) by simp_all
    qed (simp only: Let_def p(7) executor_ready_iff executor_degraded_iff, blast)
  qed
qed

theorem presence_report_accounts_for_connections_witness:
  "List.map (\<lambda>pe. (pe_name pe, pe_connected pe)) (snd (list_presences demo_cb (Some ''1.0'') 20 demo_broker)) =
     [(''ada'', 1), (''bob'', 3)] \<and>
   List.map pe_name (snd (list_presences demo_cb (Some ''1.0'') 20 demo_broker)) =
     List.map fst (br_registry (fst (list_presences demo_cb (Some ''1.0'') 20 demo_broker)))"
proof -
  have "list_presences demo_cb (Some ''1.0'') 20 demo_broker =
      (fst (list_presences demo_cb (Some ''1.0'') 20 demo_broker), snd (list_presences demo_cb (Some ''1.0'') 20 demo_broker))" by simp
  from presence_report_accounts_for_connections [OF demo_broker_reachable this]
  have "List.map pe_name (snd (list_presences demo_cb (Some ''1.0'') 20 demo_broker)) =
     List.map fst (br_registry (fst (list_presences demo_cb (Some ''1.0'') 20 demo_broker)))" by blast
  moreover have "List.map (\<lambda>pe. (pe_name pe, pe_connected pe)) (snd (list_presences demo_cb (Some ''1.0'') 20 demo_broker)) =
     [(''ada'', 1), (''bob'', 3)]" by code_simp
  ultimately show ?thesis by blast
qed

text \<open>
  No open turn outlives the eight-hour backstop. After a presence listing at any time, in any broker state
  and with any callbacks, every turn still open in any subscription was started less than eight hours before.
\<close>
theorem open_turns_bounded:
  "reg_get n (br_registry (fst (list_presences cb version now b))) = Some st \<Longrightarrow>
   (tid, started) \<in> set (turns_of st sub) \<Longrightarrow> now - started < 8 * 60 * 60 * 1000"
proof -
  assume st: "reg_get n (br_registry (fst (list_presences cb version now b))) = Some st" and t: "(tid, started) \<in> set (turns_of st sub)"
  have "filter (turn_expired now) (turns_of st sub) = []"
    using sweep_clears [of now cb b n sub] st by (simp add: no_overdue_def list_presences_def Let_def)
  with t have "\<not> turn_expired now (tid, started)" by (auto simp: filter_empty_conv)
  then show "now - started < 8 * 60 * 60 * 1000" by (simp add: turn_expired_def open_turn_backstop_ms_def)
qed

definition demo_working :: broker where
  "demo_working = fst (runner_turn demo_cb ''bob'' \<lparr>tf_at = 30000000, tf_turn_id = ''u1'', tf_phase = TurnStarted\<rparr>
     (demo_ctx ''bob'' ''s3'' (Some (Runner (demo_ri True))) (Some ''t3'')) 30000000
     (fst (runner_turn demo_cb ''bob'' \<lparr>tf_at = 10, tf_turn_id = ''u0'', tf_phase = TurnStarted\<rparr>
        (demo_ctx ''bob'' ''s3'' (Some (Runner (demo_ri True))) (Some ''t3'')) 10 demo_broker)))"

theorem open_turns_bounded_witness:
  "(\<exists>st. reg_get ''bob'' (br_registry (fst (list_presences demo_cb None 30000010 demo_working))) = Some st \<and>
     turns_of st 3 = [(''u1'', 30000000)]) \<and>
   List.map fst (turns_of (the (reg_get ''bob'' (br_registry demo_working))) 3) = [''u0'', ''u1''] \<and>
   (30000010 - 30000000 :: int) < 8 * 60 * 60 * 1000"
proof -
  define st where "st = the (reg_get ''bob'' (br_registry (fst (list_presences demo_cb None 30000010 demo_working))))"
  have st: "reg_get ''bob'' (br_registry (fst (list_presences demo_cb None 30000010 demo_working))) = Some st"
    unfolding st_def by code_simp
  have t: "turns_of st 3 = [(''u1'', 30000000)]" unfolding st_def by code_simp
  have "(''u1'', 30000000) \<in> set (turns_of st 3)" using t by simp
  from open_turns_bounded [OF st this] have "(30000010 - 30000000 :: int) < 8 * 60 * 60 * 1000" .
  moreover have "List.map fst (turns_of (the (reg_get ''bob'' (br_registry demo_working))) 3) = [''u0'', ''u1'']" by code_simp
  ultimately show ?thesis using st t by blast
qed

end
