(* ===== verification/Calls.thy ===== *)
theory Calls
  imports Wire
begin

text \<open>
  Calls that thread a state and may throw, beyond \<open>cbind\<close>, \<open>cret\<close> and \<open>cmod\<close>: lifting a result, testing a
  condition, reading the state; and how to take a sequence of them apart in a proof.
\<close>

section \<open>Building blocks\<close>

definition clift :: "('e, 'a) res \<Rightarrow> ('s, 'e, 'a) call" where "clift r s = (s, r)"
definition cguard :: "bool \<Rightarrow> 'e \<Rightarrow> ('s, 'e, unit) call" where "cguard b e s = (s, guard b e)"
definition cget :: "('s \<Rightarrow> 'a) \<Rightarrow> ('s, 'e, 'a) call" where "cget f s = (s, Inr (f s))"

lemma clift_iff [res_simps, simp]: "clift r s = (s', r') \<longleftrightarrow> s' = s \<and> r = r'"
  by (auto simp: clift_def)

lemma cguard_iff [res_simps, simp]: "cguard b e s = (s', Inr u) \<longleftrightarrow> s' = s \<and> b"
  by (cases u) (auto simp: cguard_def guard_def)

lemma cget_iff [res_simps, simp]: "cget f s = (s', r) \<longleftrightarrow> s' = s \<and> r = Inr (f s)"
  by (auto simp: cget_def)

section \<open>Calls in sequence\<close>

lemma cbindE:
  assumes "cbind m f s = (s', r)"
  obtains (throw) e where "m s = (s', Inl e)" "r = Inl e" | (next_call) t a where "m s = (t, Inr a)" "f a t = (s', r)"
proof (cases "m s")
  case (Pair t q)
  then show ?thesis using assms throw next_call by (cases q) (auto simp: cbind_def)
qed

lemma clift_bindE:
  assumes "cbind (clift x) f s = (s', r)"
  obtains (throw) "s' = s" | (next_call) a where "x = Inr a" "f a s = (s', r)"
  using assms by (cases rule: cbindE) (auto simp: clift_def)

lemma cget_bind: "cbind (cget g) f s = f (g s) s"
  by (simp add: cbind_def cget_def)

lemma cread_bind: "cbind (\<lambda>s. (s, g s)) f s = cbind (clift (g s)) f s"
  by (simp add: cbind_def clift_def)

text \<open>A call that changed the store did not throw before it changed it.\<close>

lemma bind_changed:
  assumes "s' \<noteq> s"
  shows "cbind (clift x) f s = (s', r) \<longleftrightarrow> (\<exists>a. x = Inr a \<and> f a s = (s', r))"
    and "cbind (cguard b e) g s = (s', r) \<longleftrightarrow> b \<and> g () s = (s', r)"
  using assms by (auto simp: cbind_def clift_def cguard_def guard_def split: sum.splits if_splits)

lemma tx_outcome:
  "run_in_transaction m s = (s', r) \<Longrightarrow> (\<exists>e. r = Inl e \<and> s' = s) \<or> (\<exists>a. r = Inr a \<and> m s = (s', Inr a))"
  by (auto simp: run_in_transaction_def split: prod.splits sum.splits)

end
