(* ===== verification/FsPaths.thy ===== *)
theory FsPaths
  imports Calls
begin

text \<open>
  The path utilities of the team filesystem, \<open>packages/core/src/files/paths.ts\<close>, with the error codes of
  \<open>files/errors.ts\<close>. \<open>SqlConstraint\<close> is the exception SQLite raises on a primary-key clash. The second half
  relates the strings to lists of segments.
\<close>

section \<open>The functions\<close>

datatype fs_error =
    NotFound | Exists | NotADirectory | IsADirectory | NotEmpty | Forbidden | InvalidInput | TooLarge
  | Corrupt | SqlConstraint

definition root_path :: string where "root_path = ''/''"
definition max_path_length :: nat where "max_path_length = 1024"
definition max_segment_length :: nat where "max_segment_length = 255"
definition objective_namespace_segment :: string where "objective_namespace_segment = ''objectives''"
definition objective_owner_prefix :: string where "objective_owner_prefix = ''obj:''"

text \<open>\<open>SEGMENT_RE\<close>, one character.\<close>

definition segment_char :: "char \<Rightarrow> bool" where
  "segment_char c \<longleftrightarrow> name_char c \<or> c = CHR '' ''"

definition segment_ok :: "string \<Rightarrow> bool" where
  "segment_ok seg \<longleftrightarrow>
     \<not> (seg = ''.'' \<or> seg = ''..'') \<and> length seg \<le> max_segment_length \<and> js_trim seg = seg \<and>
     seg \<noteq> [] \<and> list_all segment_char seg"

definition path_segments :: "string \<Rightarrow> string list" where
  "path_segments raw = filter (\<lambda>s. length s > 0) (js_split CHR ''/'' raw)"

definition normalize_path :: "string \<Rightarrow> (fs_error, string) res" where
  "normalize_path raw =
     (if raw = [] then Inl InvalidInput
      else if length raw > max_path_length then Inl InvalidInput
      else if \<not> starts_with raw ''/'' then Inl InvalidInput
      else (let segments = path_segments raw in
        if segments = [] then Inr root_path
        else if \<not> list_all segment_ok segments then Inl InvalidInput
        else Inr (CHR ''/'' # js_join CHR ''/'' segments)))"

definition split_path :: "string \<Rightarrow> (fs_error, string list) res" where
  "split_path path = andThen (normalize_path path) (\<lambda>normalized.
     if normalized = root_path then Inr [] else Inr (js_split CHR ''/'' (drop 1 normalized)))"

definition parent_of :: "string \<Rightarrow> (fs_error, string) res" where
  "parent_of path = andThen (split_path path) (\<lambda>segments.
     if length segments = 0 then Inr root_path
     else if length segments = 1 then Inr root_path
     else Inr (CHR ''/'' # js_join CHR ''/'' (butlast segments)))"

definition basename_of :: "string \<Rightarrow> (fs_error, string) res" where
  "basename_of path = andThen (split_path path) (\<lambda>segments.
     if length segments = 0 then Inr [] else Inr (last segments))"

definition owner_of :: "string \<Rightarrow> (fs_error, string option) res" where
  "owner_of path = andThen (split_path path) (\<lambda>segments.
     case segments of
       [] \<Rightarrow> Inr None
     | s # rest \<Rightarrow>
         if s = objective_namespace_segment then
           (case rest of [] \<Rightarrow> Inr (Some objective_namespace_segment)
            | oid # _ \<Rightarrow> Inr (Some (objective_owner_prefix @ oid)))
         else Inr (Some s))"

definition parse_objective_namespace_path :: "string \<Rightarrow> (fs_error, (string \<times> string) option) res" where
  "parse_objective_namespace_path path = andThen (split_path path) (\<lambda>segments.
     case segments of
       s # oid # rest \<Rightarrow>
         if s \<noteq> objective_namespace_segment then Inr None
         else Inr (Some (oid, js_join CHR ''/'' rest))
     | _ \<Rightarrow> Inr None)"

definition join_path :: "string list \<Rightarrow> (fs_error, string) res" where
  "join_path parts =
     (let collected = concat (List.map path_segments parts) in
      if collected = [] then Inr root_path
      else normalize_path (CHR ''/'' # js_join CHR ''/'' collected))"

definition objective_namespace_path :: "string \<Rightarrow> string list \<Rightarrow> (fs_error, string) res" where
  "objective_namespace_path oid subpath =
     join_path (((CHR ''/'' # objective_namespace_segment) # [oid]) @ subpath)"

definition is_ancestor_path :: "string \<Rightarrow> string \<Rightarrow> bool" where
  "is_ancestor_path ancestor descendant =
     (if ancestor = descendant then True
      else if ancestor = root_path then True
      else starts_with descendant (ancestor @ ''/''))"

text \<open>\<open>name.lastIndexOf('.')\<close>: the position of the last dot, if any.\<close>

definition last_dot :: "string \<Rightarrow> nat option" where
  "last_dot name =
     (if CHR ''.'' \<in> set name then Some (length name - 1 - length (takeWhile (\<lambda>c. c \<noteq> CHR ''.'') (rev name)))
      else None)"

definition dedupe_candidate :: "string \<Rightarrow> nat \<Rightarrow> string" where
  "dedupe_candidate name i =
     (let (stem, ext) = (case last_dot name of
            Some d \<Rightarrow> if d > 0 then (take d name, drop d name) else (name, [])
          | None \<Rightarrow> (name, []))
      in stem @ ''-'' @ radix_string 10 i @ ext)"

text \<open>The loop over \<open>i\<close> from 1 to 9999; \<open>taken\<close> may throw.\<close>

fun dedupe_from :: "string \<Rightarrow> (string \<Rightarrow> (fs_error, bool) res) \<Rightarrow> nat list \<Rightarrow> (fs_error, string) res" where
  "dedupe_from name taken [] = Inl Exists"
| "dedupe_from name taken (i # is') =
     andThen (taken (dedupe_candidate name i)) (\<lambda>t.
       if \<not> t then Inr (dedupe_candidate name i) else dedupe_from name taken is')"

definition dedupe_basename :: "string \<Rightarrow> (string \<Rightarrow> (fs_error, bool) res) \<Rightarrow> (fs_error, string) res" where
  "dedupe_basename name taken =
     andThen (taken name) (\<lambda>t. if \<not> t then Inr name else dedupe_from name taken [1..<10000])"

section \<open>Strings and segments\<close>

definition path_of :: "string list \<Rightarrow> string" where
  "path_of segs = CHR ''/'' # js_join CHR ''/'' segs"

definition canonical :: "string \<Rightarrow> string list \<Rightarrow> bool" where
  "canonical p segs \<longleftrightarrow> p = path_of segs \<and> list_all segment_ok segs \<and> length p \<le> max_path_length"

lemma segment_no_slash: "segment_ok s \<Longrightarrow> CHR ''/'' \<notin> set s"
  by (auto simp: segment_ok_def list_all_iff segment_char_def name_char_def is_alnum_def is_lower_def is_upper_def is_digit_def)

lemma segment_nonempty: "segment_ok s \<Longrightarrow> s \<noteq> []"
  by (simp add: segment_ok_def)

lemma path_of_Nil [simp]: "path_of [] = root_path"
  by (simp add: path_of_def root_path_def)

lemma path_segments_plain:
  assumes "\<forall>s \<in> set segs. CHR ''/'' \<notin> set s \<and> s \<noteq> []"
  shows "path_segments (path_of segs) = segs"
proof (cases segs)
  case Nil
  then show ?thesis by (simp add: path_segments_def root_path_def)
next
  case (Cons s ss)
  have "js_split CHR ''/'' (js_join CHR ''/'' segs) = segs"
    using assms Cons by (intro js_split_join) auto
  moreover have "filter (\<lambda>s. length s > 0) segs = segs"
    using assms by (auto simp: filter_id_conv)
  ultimately show ?thesis by (simp add: path_segments_def path_of_def)
qed

lemma path_segments_path_of: "list_all segment_ok segs \<Longrightarrow> path_segments (path_of segs) = segs"
  by (rule path_segments_plain) (auto simp: list_all_iff dest: segment_no_slash segment_nonempty)

lemma path_of_root: "list_all segment_ok segs \<Longrightarrow> path_of segs = root_path \<longleftrightarrow> segs = []"
  using path_segments_path_of [of segs] path_segments_path_of [of "[]"] by (metis list.pred_inject(1) path_of_Nil)

lemma path_of_inj: "list_all segment_ok s \<Longrightarrow> list_all segment_ok t \<Longrightarrow> path_of s = path_of t \<longleftrightarrow> s = t"
  using path_segments_path_of by metis

lemma length_join_filter: "length (js_join c (filter (\<lambda>s. s \<noteq> []) ps)) \<le> length (js_join c ps)"
proof (induction ps)
  case (Cons p ps)
  show ?case
  proof (cases ps)
    case Nil
    then show ?thesis by simp
  next
    case (Cons q qs)
    have e: "length (js_join c (p # q # qs)) = length p + 1 + length (js_join c (q # qs))" by simp
    show ?thesis
    proof (cases "filter (\<lambda>s. s \<noteq> []) ps")
      case Nil
      then show ?thesis using e Cons by auto
    next
      case (Cons r rs)
      then have "length (js_join c (p # r # rs)) = length p + 1 + length (js_join c (r # rs))" by simp
      then show ?thesis using e Cons.IH Cons \<open>ps = q # qs\<close> by (cases "p = []") auto
    qed
  qed
qed simp

lemma normalize_Inr:
  "normalize_path raw = Inr p \<longleftrightarrow>
     raw \<noteq> [] \<and> length raw \<le> max_path_length \<and> starts_with raw ''/'' \<and>
     list_all segment_ok (path_segments raw) \<and> p = path_of (path_segments raw)"
  by (auto simp: normalize_path_def Let_def path_of_def root_path_def split: if_splits)

lemma length_path_of_segments: "starts_with raw ''/'' \<Longrightarrow> length (path_of (path_segments raw)) \<le> length raw"
proof -
  assume "starts_with raw ''/''"
  then obtain t where t: "raw = CHR ''/'' # t" by (auto simp: starts_with_iff)
  have "path_segments raw = filter (\<lambda>s. s \<noteq> []) (js_split CHR ''/'' t)" by (simp add: path_segments_def t)
  then have "length (js_join CHR ''/'' (path_segments raw)) \<le> length (js_join CHR ''/'' (js_split CHR ''/'' t))"
    using length_join_filter by metis
  then show ?thesis by (simp add: path_of_def t js_join_split)
qed

lemma normalize_canonical: "normalize_path raw = Inr p \<Longrightarrow> canonical p (path_segments raw)"
  using length_path_of_segments [of raw] by (auto simp: normalize_Inr canonical_def)

lemma canonical_normalize: "canonical p segs \<Longrightarrow> normalize_path p = Inr p"
  unfolding normalize_Inr canonical_def
  using path_segments_path_of [of segs] by (auto simp: path_of_def starts_with_def)

lemma canonical_split: "canonical p segs \<Longrightarrow> split_path p = Inr segs"
proof -
  assume c: "canonical p segs"
  then have p: "p = path_of segs" and ok: "list_all segment_ok segs" by (auto simp: canonical_def)
  show ?thesis
  proof (cases "segs = []")
    case True
    then show ?thesis using canonical_normalize [OF c] p by (simp add: split_path_def)
  next
    case False
    have "js_split CHR ''/'' (js_join CHR ''/'' segs) = segs"
      using ok False by (intro js_split_join) (auto simp: list_all_iff dest: segment_no_slash)
    then show ?thesis
      using canonical_normalize [OF c] p False path_of_root [OF ok] by (simp add: split_path_def path_of_def)
  qed
qed

lemma js_join_append: "xs \<noteq> [] \<Longrightarrow> ys \<noteq> [] \<Longrightarrow> js_join c (xs @ ys) = js_join c xs @ c # js_join c ys"
proof (induction c xs rule: js_join.induct)
  case (2 c s)
  then show ?case by (cases ys) auto
qed auto

lemma path_of_append: "xs \<noteq> [] \<Longrightarrow> ys \<noteq> [] \<Longrightarrow> path_of (xs @ ys) = path_of xs @ path_of ys"
  by (simp add: path_of_def js_join_append)

lemma canonical_butlast:
  assumes "canonical p segs"
  shows "canonical (path_of (butlast segs)) (butlast segs)"
proof (cases "segs = [] \<or> butlast segs = []")
  case True
  then show ?thesis by (auto simp: canonical_def root_path_def max_path_length_def)
next
  case False
  then have "segs = butlast segs @ [last segs]" by simp
  then have "path_of segs = path_of (butlast segs) @ path_of [last segs]"
    using path_of_append [of "butlast segs" "[last segs]"] False by simp
  then show ?thesis
    using assms by (auto simp: canonical_def list_all_iff dest: in_set_butlastD)
qed

lemma canonical_parent:
  assumes "canonical p segs"
  shows "parent_of p = Inr (path_of (butlast segs))"
proof (cases "length segs \<le> 1")
  case True
  then have "butlast segs = []" by (cases segs) auto
  with True show ?thesis using canonical_split [OF assms] by (cases segs) (auto simp: parent_of_def)
next
  case False
  then show ?thesis using canonical_split [OF assms] by (auto simp: parent_of_def path_of_def)
qed

lemma canonical_basename: "canonical p segs \<Longrightarrow> basename_of p = Inr (if segs = [] then [] else last segs)"
  by (simp add: basename_of_def canonical_split)

text \<open>The owner tag of a canonical path.\<close>

definition owner_tag :: "string list \<Rightarrow> string option" where
  "owner_tag segs =
     (case segs of
        [] \<Rightarrow> None
      | s # rest \<Rightarrow>
          if s = objective_namespace_segment then
            (case rest of [] \<Rightarrow> Some objective_namespace_segment | oid # _ \<Rightarrow> Some (objective_owner_prefix @ oid))
          else Some s)"

lemma canonical_owner: "canonical p segs \<Longrightarrow> owner_of p = Inr (owner_tag segs)"
  by (auto simp: owner_of_def canonical_split owner_tag_def split: list.split)

lemma starts_with_append [simp]: "starts_with (p @ t) p"
  by (simp add: starts_with_def)

lemma js_split_join_append:
  "ps \<noteq> [] \<Longrightarrow> \<forall>p \<in> set ps. c \<notin> set p \<Longrightarrow> js_split c (js_join c ps @ c # t) = ps @ js_split c t"
  by (induction c ps rule: js_join.induct) (auto simp: js_split_append)

text \<open>Ancestry of canonical paths is prefix order of segments.\<close>

lemma canonical_ancestor:
  assumes "canonical p ps" "canonical q qs"
  shows "is_ancestor_path p q \<longleftrightarrow> prefix ps qs"
proof -
  have ok: "list_all segment_ok ps" "list_all segment_ok qs" "p = path_of ps" "q = path_of qs"
    using assms by (auto simp: canonical_def)
  show ?thesis
  proof (cases "ps = [] \<or> ps = qs")
    case True
    then show ?thesis using ok by (auto simp: is_ancestor_path_def)
  next
    case False
    then have ne: "p \<noteq> q" "p \<noteq> root_path" using ok path_of_inj path_of_root by auto
    have "starts_with q (p @ ''/'') \<longleftrightarrow> prefix ps qs"
    proof
      assume "prefix ps qs"
      then obtain zs where "qs = ps @ zs" "zs \<noteq> []" using False by (auto simp: prefix_def)
      then have "q = p @ path_of zs" using False ok path_of_append [of ps zs] by simp
      then show "starts_with q (p @ ''/'')" by (simp add: path_of_def starts_with_def)
    next
      assume "starts_with q (p @ ''/'')"
      then obtain t where "q = p @ CHR ''/'' # t" by (auto simp: starts_with_iff)
      then have "js_join CHR ''/'' qs = js_join CHR ''/'' ps @ CHR ''/'' # t" using ok by (simp add: path_of_def)
      moreover have "js_split CHR ''/'' (js_join CHR ''/'' ps @ CHR ''/'' # t) = ps @ js_split CHR ''/'' t"
        using False ok(1) by (intro js_split_join_append) (auto simp: list_all_iff dest: segment_no_slash)
      moreover have "qs = [] \<Longrightarrow> False" using \<open>q = p @ CHR ''/'' # t\<close> ok by (simp add: path_of_def root_path_def)
      moreover have "js_split CHR ''/'' (js_join CHR ''/'' qs) = qs" if "qs \<noteq> []"
        using ok(2) that by (intro js_split_join) (auto simp: list_all_iff dest: segment_no_slash)
      ultimately have "qs = ps @ js_split CHR ''/'' t" by metis
      then show "prefix ps qs" by simp
    qed
    with ne show ?thesis by (simp add: is_ancestor_path_def)
  qed
qed


text \<open>Joining a directory and a plain name.\<close>

lemma join_name:
  assumes "list_all segment_ok ds" "CHR ''/'' \<notin> set name" "name \<noteq> []" "join_path [path_of ds, name] = Inr f"
  shows "canonical f (ds @ [name])"
proof -
  have "path_segments name = [name]" using assms(2,3) by (simp add: path_segments_def js_split_no_sep)
  then have c: "concat (List.map path_segments [path_of ds, name]) = ds @ [name]"
    using path_segments_path_of [OF assms(1)] by simp
  have plain: "\<forall>s \<in> set (ds @ [name]). CHR ''/'' \<notin> set s \<and> s \<noteq> []"
    using assms(1-3) by (auto simp: list_all_iff dest: segment_no_slash segment_nonempty)
  have "normalize_path (path_of (ds @ [name])) = Inr f"
    using assms(4) unfolding join_path_def Let_def c path_of_def [symmetric] by simp
  from normalize_canonical [OF this] show ?thesis by (simp add: path_segments_plain [OF plain])
qed

lemma join_name_ok: "canonical p (ds @ [name]) \<Longrightarrow> join_path [path_of ds, name] = Inr p"
proof -
  assume c: "canonical p (ds @ [name])"
  then have ok: "list_all segment_ok ds" "segment_ok name" "p = path_of (ds @ [name])" by (auto simp: canonical_def)
  have "path_segments name = [name]"
    using segment_no_slash [OF ok(2)] segment_nonempty [OF ok(2)] by (simp add: path_segments_def js_split_no_sep)
  then have "concat (List.map path_segments [path_of ds, name]) = ds @ [name]"
    using path_segments_path_of [OF ok(1)] by simp
  then show ?thesis using canonical_normalize [OF c] ok(3) by (simp add: join_path_def Let_def path_of_def)
qed

section \<open>Names with a number\<close>

lemma digit_char_no_slash: "d < 10 \<Longrightarrow> digit_char d \<noteq> CHR ''/''"
proof
  assume d: "d < 10" "digit_char d = CHR ''/''"
  then have "of_char (char_of (48 + d) :: char) = (47 :: nat)" by (simp add: digit_char_def)
  moreover have "of_char (char_of (48 + d) :: char) = 48 + d" using d(1) by simp
  ultimately show False by simp
qed

lemma radix_no_slash: "CHR ''/'' \<notin> set (radix_string 10 n)"
proof (induction n rule: less_induct)
  case (less n)
  show ?case
  proof (cases "n < 10")
    case True
    then show ?thesis using digit_char_no_slash [of n] by (subst radix_string.simps) auto
  next
    case False
    then have "CHR ''/'' \<notin> set (radix_string 10 (n div 10))" by (intro less) simp
    then show ?thesis using False digit_char_no_slash [of "n mod 10"] by (subst radix_string.simps) auto
  qed
qed

lemma dedupe_candidate_no_slash:
  assumes "CHR ''/'' \<notin> set name"
  shows "CHR ''/'' \<notin> set (dedupe_candidate name i) \<and> dedupe_candidate name i \<noteq> []"
  using assms radix_no_slash [of i]
  by (auto simp: dedupe_candidate_def Let_def split: option.split dest: in_set_takeD in_set_dropD)

lemma dedupe_result:
  assumes "dedupe_basename name taken = Inr new"
  shows "taken new = Inr False \<and> (new = name \<or> (\<exists>i. new = dedupe_candidate name i))"
proof -
  have "dedupe_from name taken is' = Inr new \<Longrightarrow> taken new = Inr False \<and> (\<exists>i. new = dedupe_candidate name i)" for is'
    by (induction is') (auto simp: andThen_Inr split: if_splits)
  with assms show ?thesis by (auto simp: dedupe_basename_def andThen_Inr split: if_splits)
qed

end
