(* ===== verification/FsStore.thy ===== *)
theory FsStore
  imports FsPaths
begin

text \<open>
  The team filesystem, \<open>packages/core/src/files/filesystem-store.ts\<close>: three tables of entries, blob
  reference counts and grants, and the permission-checked operations on them. The blob store
  (\<open>files/blob-store.ts\<close>, bytes on disk) is a parameter, what \<open>putFromBuffer\<close> or \<open>putFromStream\<close> answers;
  the hashes the store asks it to delete are recorded. The objective membership test is a parameter too.
\<close>

section \<open>Data\<close>

datatype entry_kind = FileKind | DirectoryKind

record fs_row =
  fr_path :: string
  fr_parent :: string
  fr_name :: string
  fr_kind :: entry_kind
  fr_owner :: string
  fr_hash :: "string option"
  fr_size :: "int option"
  fr_mime :: "string option"
  fr_created :: int
  fr_created_by :: string
  fr_updated :: int

record blob_row =
  bl_hash :: string
  bl_size :: int
  bl_refcount :: int
  bl_created :: int

record grant_row =
  gr_path :: string
  gr_viewer :: string
  gr_at :: int
  gr_via :: string

record fs_store =
  fs_entries :: "fs_row list"
  fs_blobs :: "blob_row list"
  fs_grants :: "grant_row list"
  fs_dropped :: "string list"    \<comment> \<open>hashes handed to \<open>blobs.delete\<close>\<close>

record fs_entry =
  fe_path :: string
  fe_name :: string
  fe_kind :: entry_kind
  fe_owner :: string
  fe_size :: "int option"
  fe_mime :: "string option"
  fe_hash :: "string option"
  fe_created :: int
  fe_created_by :: string
  fe_updated :: int
  fe_can_write :: "bool option"

definition row_to_entry :: "fs_row \<Rightarrow> fs_entry" where
  "row_to_entry r =
     \<lparr>fe_path = fr_path r, fe_name = fr_name r, fe_kind = fr_kind r, fe_owner = fr_owner r, fe_size = fr_size r,
      fe_mime = fr_mime r, fe_hash = fr_hash r, fe_created = fr_created r, fe_created_by = fr_created_by r,
      fe_updated = fr_updated r, fe_can_write = None\<rparr>"

record viewer =
  vw_name :: string
  vw_permissions :: "string list"

datatype collision = CollideError | CollideOverwrite | CollideSuffix

record write_input =
  wi_path :: string
  wi_mime :: string
  wi_writer :: viewer
  wi_source :: string
  wi_collision :: "collision option"
  wi_max_size :: "int option"

record copy_input =
  ci_src :: string
  ci_dst :: string
  ci_mime :: "string option"
  ci_collision :: "collision option"
  ci_viewer :: viewer

type_synonym objective_acl = "(string \<Rightarrow> string \<Rightarrow> bool) option"
type_synonym blob_put = "string \<Rightarrow> int option \<Rightarrow> (fs_error, string \<times> int) res"
type_synonym 'a fs_call = "(fs_store, fs_error, 'a) call"

section \<open>Statements\<close>

text \<open>
  \<open>LIKE\<close>: \<open>%\<close> matches any text, \<open>_\<close> any one character, and letters match in either case, as SQLite's
  default has it.
\<close>

fun sql_like :: "string \<Rightarrow> string \<Rightarrow> bool" where
  "sql_like [] s = (s = [])"
| "sql_like (p # ps) s =
     (if p = CHR ''%'' then sql_like ps s \<or> (case s of [] \<Rightarrow> False | c # cs \<Rightarrow> sql_like (p # ps) cs)
      else (case s of [] \<Rightarrow> False | c # cs \<Rightarrow> (p = CHR ''_'' \<or> low_char p = low_char c) \<and> sql_like ps cs))"

definition get_entry :: "string \<Rightarrow> fs_store \<Rightarrow> fs_row option" where
  "get_entry path s = sql_get (\<lambda>r. fr_path r = path) (fs_entries s)"

definition list_children :: "string \<Rightarrow> fs_store \<Rightarrow> fs_row list" where
  "list_children path s =
     order_asc (\<lambda>r. (fr_kind r = FileKind, fr_name r)) (sql_all (\<lambda>r. fr_parent r = path) (fs_entries s))"

definition list_descendants :: "string \<Rightarrow> string \<Rightarrow> fs_store \<Rightarrow> fs_row list" where
  "list_descendants path pattern s =
     order_desc (\<lambda>r. length (fr_path r)) (sql_all (\<lambda>r. fr_path r = path \<or> sql_like pattern (fr_path r)) (fs_entries s))"

definition list_homes :: "fs_store \<Rightarrow> fs_row list" where
  "list_homes s = order_asc fr_name (sql_all (\<lambda>r. fr_parent r = ''/'' \<and> fr_kind r = DirectoryKind) (fs_entries s))"

definition list_shared_rows :: "string \<Rightarrow> fs_store \<Rightarrow> fs_row list" where
  "list_shared_rows viewer s =
     order_desc fr_updated
       (sql_all (\<lambda>r. \<exists>g \<in> set (fs_grants s). gr_path g = fr_path r \<and> gr_viewer g = viewer) (fs_entries s))"

definition list_all_file_rows :: "fs_store \<Rightarrow> fs_row list" where
  "list_all_file_rows s = order_desc fr_updated (sql_all (\<lambda>r. fr_kind r = FileKind) (fs_entries s))"

definition insert_entry :: "fs_row \<Rightarrow> unit fs_call" where
  "insert_entry r s =
     (case sql_insert (\<lambda>r r'. fr_path r = fr_path r') r (fs_entries s) of
        None \<Rightarrow> (s, Inl SqlConstraint)
      | Some rows \<Rightarrow> (s\<lparr>fs_entries := rows\<rparr>, Inr ()))"

definition update_entry_content :: "string \<Rightarrow> int \<Rightarrow> string \<Rightarrow> int \<Rightarrow> string \<Rightarrow> fs_store \<Rightarrow> fs_store" where
  "update_entry_content hash sz mime now path s =
     s\<lparr>fs_entries := sql_update (\<lambda>r. fr_path r = path)
         (\<lambda>r. r\<lparr>fr_hash := Some hash, fr_size := Some sz, fr_mime := Some mime, fr_updated := now\<rparr>) (fs_entries s)\<rparr>"

definition delete_entry :: "string \<Rightarrow> fs_store \<Rightarrow> fs_store" where
  "delete_entry path s = s\<lparr>fs_entries := sql_delete (\<lambda>r. fr_path r = path) (fs_entries s)\<rparr>"

definition delete_grants_for_path :: "string \<Rightarrow> fs_store \<Rightarrow> fs_store" where
  "delete_grants_for_path path s = s\<lparr>fs_grants := sql_delete (\<lambda>g. gr_path g = path) (fs_grants s)\<rparr>"

definition upsert_blob :: "string \<Rightarrow> int \<Rightarrow> int \<Rightarrow> fs_store \<Rightarrow> fs_store" where
  "upsert_blob hash sz now s =
     s\<lparr>fs_blobs := sql_insert_ignore (\<lambda>b b'. bl_hash b = bl_hash b')
         \<lparr>bl_hash = hash, bl_size = sz, bl_refcount = 0, bl_created = now\<rparr> (fs_blobs s)\<rparr>"

definition inc_ref :: "string \<Rightarrow> fs_store \<Rightarrow> fs_store" where
  "inc_ref hash s = s\<lparr>fs_blobs := sql_update (\<lambda>b. bl_hash b = hash) (\<lambda>b. b\<lparr>bl_refcount := bl_refcount b + 1\<rparr>) (fs_blobs s)\<rparr>"

definition dec_ref :: "string \<Rightarrow> fs_store \<Rightarrow> fs_store" where
  "dec_ref hash s = s\<lparr>fs_blobs := sql_update (\<lambda>b. bl_hash b = hash) (\<lambda>b. b\<lparr>bl_refcount := bl_refcount b - 1\<rparr>) (fs_blobs s)\<rparr>"

definition blob_refcount :: "string \<Rightarrow> fs_store \<Rightarrow> int" where
  "blob_refcount hash s = (case sql_get (\<lambda>b. bl_hash b = hash) (fs_blobs s) of None \<Rightarrow> 0 | Some b \<Rightarrow> bl_refcount b)"

definition delete_zero_blob :: "string \<Rightarrow> fs_store \<Rightarrow> fs_store" where
  "delete_zero_blob hash s = s\<lparr>fs_blobs := sql_delete (\<lambda>b. bl_hash b = hash \<and> bl_refcount b \<le> 0) (fs_blobs s)\<rparr>"

text \<open>\<open>decRef\<close>, then at zero the row and the bytes go: the body shared by overwrite and remove.\<close>

definition decrement_and_maybe_drop_blob :: "string \<Rightarrow> fs_store \<Rightarrow> fs_store" where
  "decrement_and_maybe_drop_blob hash s =
     (let s1 = dec_ref hash s in
      if blob_refcount hash s1 \<le> 0
      then (delete_zero_blob hash s1)\<lparr>fs_dropped := fs_dropped s1 @ [hash]\<rparr> else s1)"

definition insert_grant :: "grant_row \<Rightarrow> fs_store \<Rightarrow> fs_store" where
  "insert_grant g s =
     s\<lparr>fs_grants := sql_insert_ignore
         (\<lambda>g g'. gr_path g = gr_path g' \<and> gr_viewer g = gr_viewer g' \<and> gr_via g = gr_via g') g (fs_grants s)\<rparr>"

definition has_grant :: "string \<Rightarrow> string \<Rightarrow> fs_store \<Rightarrow> bool" where
  "has_grant path viewer s \<longleftrightarrow> sql_get (\<lambda>g. gr_path g = path \<and> gr_viewer g = viewer) (fs_grants s) \<noteq> None"

section \<open>Permissions\<close>

definition manages :: "viewer \<Rightarrow> bool" where
  "manages v \<longleftrightarrow> ''members.manage'' \<in> set (vw_permissions v)"

definition owns_path :: "string \<Rightarrow> viewer \<Rightarrow> (fs_error, bool) res" where
  "owns_path path v =
     (if path = root_path then Inr False
      else andThen (owner_of path) (\<lambda>owner. Inr (owner = Some (vw_name v))))"

definition is_objective_member :: "objective_acl \<Rightarrow> string \<Rightarrow> viewer \<Rightarrow> (fs_error, bool) res" where
  "is_objective_member acl path v =
     (case acl of
        None \<Rightarrow> Inr False
      | Some is_member \<Rightarrow>
          andThen (parse_objective_namespace_path path) (\<lambda>parsed.
            case parsed of None \<Rightarrow> Inr False | Some (oid, _) \<Rightarrow> Inr (is_member oid (vw_name v))))"

definition can_write :: "objective_acl \<Rightarrow> string \<Rightarrow> viewer \<Rightarrow> (fs_error, bool) res" where
  "can_write acl path v =
     (if manages v then Inr True
      else andThen (owns_path path v) (\<lambda>o'. if o' then Inr True else is_objective_member acl path v))"

definition can_read :: "objective_acl \<Rightarrow> fs_store \<Rightarrow> string \<Rightarrow> viewer \<Rightarrow> (fs_error, bool) res" where
  "can_read acl s path v =
     (if manages v then Inr True
      else andThen (owns_path path v) (\<lambda>o'. if o' then Inr True
        else andThen (is_objective_member acl path v) (\<lambda>m. if m then Inr True
          else Inr (has_grant path (vw_name v) s))))"

definition with_capability :: "objective_acl \<Rightarrow> viewer \<Rightarrow> fs_row \<Rightarrow> (fs_error, fs_entry) res" where
  "with_capability acl v r =
     andThen (can_write acl (fr_path r) v) (\<lambda>w. Inr ((row_to_entry r)\<lparr>fe_can_write := Some w\<rparr>))"

fun map_res :: "('a \<Rightarrow> ('e, 'b) res) \<Rightarrow> 'a list \<Rightarrow> ('e, 'b list) res" where
  "map_res f [] = Inr []"
| "map_res f (x # xs) = andThen (f x) (\<lambda>y. andThen (map_res f xs) (\<lambda>ys. Inr (y # ys)))"

section \<open>Reading\<close>

definition fs_stat :: "objective_acl \<Rightarrow> string \<Rightarrow> viewer \<Rightarrow> fs_store \<Rightarrow> (fs_error, fs_entry option) res" where
  "fs_stat acl path v s =
     andThen (normalize_path path) (\<lambda>p.
     andThen (guard (p \<noteq> root_path) InvalidInput) (\<lambda>_.
     andThen (can_read acl s p v) (\<lambda>readable.
     andThen (guard readable Forbidden) (\<lambda>_.
       case get_entry p s of
         None \<Rightarrow> Inr None
       | Some r \<Rightarrow> andThen (with_capability acl v r) (\<lambda>e. Inr (Some e))))))"

definition fs_list :: "objective_acl \<Rightarrow> string \<Rightarrow> viewer \<Rightarrow> fs_store \<Rightarrow> (fs_error, fs_entry list) res" where
  "fs_list acl path v s =
     andThen (normalize_path path) (\<lambda>p.
       if p = root_path then
         map_res (with_capability acl v)
           (if manages v then list_homes s else filter (\<lambda>r. fr_owner r = vw_name v) (list_homes s))
       else
         andThen (can_read acl s p v) (\<lambda>readable.
         andThen (guard readable Forbidden) (\<lambda>_.
           case get_entry p s of
             None \<Rightarrow> andThen (can_read acl s p v) (\<lambda>again. if again then Inr [] else Inl NotFound)
           | Some target \<Rightarrow>
               if fr_kind target \<noteq> DirectoryKind then Inl NotADirectory
               else map_res (with_capability acl v) (list_children p s))))"

definition fs_list_shared :: "objective_acl \<Rightarrow> viewer \<Rightarrow> fs_store \<Rightarrow> (fs_error, fs_entry list) res" where
  "fs_list_shared acl v s = map_res (with_capability acl v) (list_shared_rows (vw_name v) s)"

definition fs_list_all_files :: "objective_acl \<Rightarrow> viewer \<Rightarrow> fs_store \<Rightarrow> (fs_error, fs_entry list) res" where
  "fs_list_all_files acl v s =
     andThen (guard (manages v) Forbidden) (\<lambda>_. map_res (with_capability acl v) (list_all_file_rows s))"

text \<open>The entry, and the hash whose bytes are streamed.\<close>

definition fs_open_read :: "objective_acl \<Rightarrow> string \<Rightarrow> viewer \<Rightarrow> fs_store \<Rightarrow> (fs_error, fs_entry \<times> string) res" where
  "fs_open_read acl path v s =
     andThen (fs_stat acl path v s) (\<lambda>found.
       case found of
         None \<Rightarrow> Inl NotFound
       | Some e \<Rightarrow>
           if fe_kind e \<noteq> FileKind then Inl IsADirectory
           else (case fe_hash e of None \<Rightarrow> Inl Corrupt | Some h \<Rightarrow> if h = [] then Inl Corrupt else Inr (e, h)))"

end
