(* ===== verification/FsWrite.thy ===== *)
theory FsWrite
  imports FsStore
begin

text \<open>
  The mutating operations of \<open>packages/core/src/files/filesystem-store.ts\<close>. A call that throws after it has
  created ancestor directories leaves them, as the code does; only the metadata transaction is undone.
\<close>

section \<open>Directories\<close>

definition root_entry :: fs_entry where
  "root_entry =
     \<lparr>fe_path = root_path, fe_name = [], fe_kind = DirectoryKind, fe_owner = [], fe_size = None, fe_mime = None,
      fe_hash = None, fe_created = 0, fe_created_by = [], fe_updated = 0, fe_can_write = None\<rparr>"

definition directory_row :: "string \<Rightarrow> string \<Rightarrow> string \<Rightarrow> string \<Rightarrow> viewer \<Rightarrow> int \<Rightarrow> fs_row" where
  "directory_row path parent name owner writer now =
     \<lparr>fr_path = path, fr_parent = parent, fr_name = name, fr_kind = DirectoryKind, fr_owner = owner, fr_hash = None,
      fr_size = None, fr_mime = None, fr_created = now, fr_created_by = vw_name writer, fr_updated = now\<rparr>"

text \<open>A falsy owner, null or the empty string, is refused.\<close>

definition require_owner :: "string \<Rightarrow> (fs_error, string) res" where
  "require_owner path =
     andThen (owner_of path) (\<lambda>owner.
       case owner of None \<Rightarrow> Inl InvalidInput | Some n \<Rightarrow> if n = [] then Inl InvalidInput else Inr n)"

definition create_directory_row :: "string \<Rightarrow> viewer \<Rightarrow> int \<Rightarrow> fs_entry fs_call" where
  "create_directory_row path writer now s =
     (if path = root_path then (s, Inl InvalidInput)
      else case get_entry path s of
        Some existing \<Rightarrow>
          if fr_kind existing \<noteq> DirectoryKind then (s, Inl NotADirectory) else (s, Inr (row_to_entry existing))
      | None \<Rightarrow>
          (cbind (clift (require_owner path)) (\<lambda>owner.
           cbind (clift (parent_of path)) (\<lambda>parent.
           cbind (clift (basename_of path)) (\<lambda>name.
           cbind (insert_entry (directory_row path parent name owner writer now)) (\<lambda>_.
           cget (\<lambda>s. row_to_entry (the (get_entry path s))))))) s))"

lemma parent_shorter: "parent_of path = Inr parent \<Longrightarrow> path \<noteq> root_path \<Longrightarrow> length parent < length path"
proof -
  assume p: "parent_of path = Inr parent" and ne: "path \<noteq> root_path"
  then obtain q where q: "normalize_path path = Inr q"
    by (auto simp: parent_of_def split_path_def andThen_Inr)
  define segs where "segs = path_segments path"
  note c = normalize_canonical [OF q, folded segs_def]
  have path: "starts_with path ''/''" "length q \<le> length path" "path \<noteq> []"
    using q length_path_of_segments [of path] by (auto simp: normalize_Inr)
  have parent: "parent = path_of (butlast segs)"
    using canonical_parent [OF c] p q canonical_normalize [OF c]
    by (simp add: parent_of_def split_path_def)
  show ?thesis
  proof (cases "segs = []")
    case True
    obtain t where t: "path = CHR ''/'' # t" using path(1) by (auto simp: starts_with_iff)
    with ne have "t \<noteq> []" by (auto simp: root_path_def)
    then show ?thesis using t parent True by (cases t) (auto simp: root_path_def)
  next
    case False
    have "length (path_of (butlast segs)) < length (path_of segs)"
    proof (cases "butlast segs = []")
      case True
      then have "segs = [last segs]" using False by (metis append_butlast_last_id append_Nil)
      moreover have "last segs \<noteq> []" using c False by (auto simp: canonical_def list_all_iff segment_ok_def)
      ultimately have "path_of segs = CHR ''/'' # last segs" by (metis js_join.simps(2) path_of_def)
      then show ?thesis using True \<open>last segs \<noteq> []\<close> by (simp add: root_path_def)
    next
      case ne: False
      have "path_of segs = path_of (butlast segs) @ path_of [last segs]"
        using path_of_append [OF ne, of "[last segs]"] False by simp
      then show ?thesis by (simp add: path_of_def)
    qed
    then show ?thesis using c path parent by (simp add: canonical_def)
  qed
qed

function ensure_directory_tree :: "string \<Rightarrow> viewer \<Rightarrow> int \<Rightarrow> fs_entry fs_call" where
  "ensure_directory_tree path writer now s =
     (if path = root_path then (s, Inr root_entry)
      else case get_entry path s of
        Some existing \<Rightarrow>
          if fr_kind existing \<noteq> DirectoryKind then (s, Inl NotADirectory) else (s, Inr (row_to_entry existing))
      | None \<Rightarrow>
          (case parent_of path of
             Inl e \<Rightarrow> (s, Inl e)
           | Inr parent \<Rightarrow>
               (case ensure_directory_tree parent writer now s of
                  (s', Inl e) \<Rightarrow> (s', Inl e)
                | (s', Inr _) \<Rightarrow> create_directory_row path writer now s')))"
  by pat_completeness auto
termination
  by (relation "measure (\<lambda>(path, _). length path)") (auto dest: parent_shorter)

declare ensure_directory_tree.simps [simp del]

definition fs_mkdir :: "objective_acl \<Rightarrow> string \<Rightarrow> viewer \<Rightarrow> bool \<Rightarrow> int \<Rightarrow> fs_entry fs_call" where
  "fs_mkdir acl path writer recursive now =
     cbind (clift (normalize_path path)) (\<lambda>p.
     cbind (cguard (p \<noteq> root_path) InvalidInput) (\<lambda>_.
     cbind (clift (can_write acl p writer)) (\<lambda>w.
     cbind (cguard w Forbidden) (\<lambda>_.
       if recursive then ensure_directory_tree p writer now
       else
         cbind (clift (parent_of p)) (\<lambda>parent.
         cbind (if parent = root_path then cret ()
                else cbind (cget (get_entry parent)) (\<lambda>row.
                  case row of
                    None \<Rightarrow> clift (Inl NotFound)
                  | Some r \<Rightarrow> cguard (fr_kind r = DirectoryKind) NotADirectory)) (\<lambda>_.
           create_directory_row p writer now))))))"

text \<open>\<open>ensureHome\<close> joins \<open>/\<close> and the member's name.\<close>

definition ensure_home :: "string \<Rightarrow> int \<Rightarrow> unit fs_call" where
  "ensure_home member_name now =
     cbind (clift (join_path [''/'', member_name])) (\<lambda>home.
     cbind (cget (get_entry home)) (\<lambda>row.
       if row \<noteq> None then cret ()
       else insert_entry
         \<lparr>fr_path = home, fr_parent = root_path, fr_name = member_name, fr_kind = DirectoryKind, fr_owner = member_name,
          fr_hash = None, fr_size = None, fr_mime = None, fr_created = now, fr_created_by = member_name,
          fr_updated = now\<rparr>))"

section \<open>Writing\<close>

text \<open>What the transaction of \<open>writeFile\<close> and \<open>copyByBlobRef\<close> finds at the path and decides.\<close>

definition resolve_collision :: "string \<Rightarrow> collision \<Rightarrow> fs_store \<Rightarrow>
    (fs_error, fs_row option \<times> string \<times> bool) res" where
  "resolve_collision path strategy s =
     (case get_entry path s of
        None \<Rightarrow> Inr (None, path, False)
      | Some existing \<Rightarrow>
          if fr_kind existing = DirectoryKind then Inl IsADirectory
          else (case strategy of
              CollideError \<Rightarrow> Inl Exists
            | CollideSuffix \<Rightarrow>
                andThen (basename_of path) (\<lambda>base.
                andThen (dedupe_basename base (\<lambda>candidate.
                    andThen (join_path [fr_parent existing, candidate]) (\<lambda>p. Inr (get_entry p s \<noteq> None)))) (\<lambda>new_name.
                andThen (join_path [fr_parent existing, new_name]) (\<lambda>final. Inr (None, final, base \<noteq> new_name))))
            | CollideOverwrite \<Rightarrow> Inr (Some existing, path, False)))"

definition file_row :: "string \<Rightarrow> string \<Rightarrow> string \<Rightarrow> string \<Rightarrow> string \<Rightarrow> int \<Rightarrow> string \<Rightarrow> viewer \<Rightarrow> int \<Rightarrow> fs_row" where
  "file_row path parent name owner hash sz mime writer now =
     \<lparr>fr_path = path, fr_parent = parent, fr_name = name, fr_kind = FileKind, fr_owner = owner, fr_hash = Some hash,
      fr_size = Some sz, fr_mime = Some mime, fr_created = now, fr_created_by = vw_name writer, fr_updated = now\<rparr>"

text \<open>Point the row at the new hash, or insert one; then count the reference.\<close>

definition store_reference :: "string \<Rightarrow> fs_row option \<Rightarrow> string \<Rightarrow> int \<Rightarrow> string \<Rightarrow> viewer \<Rightarrow> int \<Rightarrow> unit fs_call" where
  "store_reference final existing hash sz mime writer now =
     (case existing of
        Some row \<Rightarrow>
          cmod (\<lambda>s.
            let s1 = inc_ref hash (update_entry_content hash sz mime now final s)
            in case fr_hash row of
                 None \<Rightarrow> s1
               | Some prior \<Rightarrow> if prior \<noteq> [] \<and> prior \<noteq> hash then decrement_and_maybe_drop_blob prior s1 else s1)
      | None \<Rightarrow>
          cbind (clift (require_owner final)) (\<lambda>owner.
          cbind (clift (parent_of final)) (\<lambda>parent.
          cbind (clift (basename_of final)) (\<lambda>name.
          cbind (insert_entry (file_row final parent name owner hash sz mime writer now)) (\<lambda>_.
            cmod (inc_ref hash))))))"

definition write_tx :: "string \<Rightarrow> collision \<Rightarrow> string \<Rightarrow> int \<Rightarrow> string \<Rightarrow> viewer \<Rightarrow> int \<Rightarrow> (string \<times> bool) fs_call" where
  "write_tx path strategy hash sz mime writer now =
     cbind (\<lambda>s. (s, resolve_collision path strategy s)) (\<lambda>(existing, final, renamed).
     cbind (cmod (upsert_blob hash sz now)) (\<lambda>_.
     cbind (store_reference final existing hash sz mime writer now) (\<lambda>_. cret (final, renamed))))"

definition fs_write_file :: "objective_acl \<Rightarrow> blob_put \<Rightarrow> write_input \<Rightarrow> int \<Rightarrow> (fs_entry \<times> bool) fs_call" where
  "fs_write_file acl put input now =
     cbind (clift (normalize_path (wi_path input))) (\<lambda>p.
     cbind (cguard (p \<noteq> root_path) InvalidInput) (\<lambda>_.
     cbind (clift (can_write acl p (wi_writer input))) (\<lambda>w.
     cbind (cguard w Forbidden) (\<lambda>_.
     cbind (clift (parent_of p)) (\<lambda>parent.
     cbind (ensure_directory_tree parent (wi_writer input) now) (\<lambda>_.
     cbind (clift (put (wi_source input) (wi_max_size input))) (\<lambda>(hash, sz).
     cbind (run_in_transaction
              (write_tx p (case wi_collision input of None \<Rightarrow> CollideError | Some c \<Rightarrow> c) hash sz (wi_mime input) (wi_writer input) now))
       (\<lambda>(final, renamed).
     cbind (cget (get_entry final)) (\<lambda>row.
       case row of None \<Rightarrow> clift (Inl Corrupt) | Some r \<Rightarrow> cret (row_to_entry r, renamed))))))))))"

definition copy_tx :: "string \<Rightarrow> collision \<Rightarrow> string \<Rightarrow> int \<Rightarrow> string \<Rightarrow> viewer \<Rightarrow> int \<Rightarrow> string fs_call" where
  "copy_tx path strategy hash sz mime writer now =
     cbind (\<lambda>s. (s, resolve_collision path strategy s)) (\<lambda>(existing, final, renamed).
     cbind (store_reference final existing hash sz mime writer now) (\<lambda>_. cret final))"

definition fs_copy_by_blob_ref :: "objective_acl \<Rightarrow> copy_input \<Rightarrow> int \<Rightarrow> fs_entry fs_call" where
  "fs_copy_by_blob_ref acl input now =
     cbind (clift (normalize_path (ci_src input))) (\<lambda>src.
     cbind (clift (normalize_path (ci_dst input))) (\<lambda>dst.
     cbind (cguard (dst \<noteq> root_path) InvalidInput) (\<lambda>_.
     cbind (\<lambda>s. (s, can_read acl s src (ci_viewer input))) (\<lambda>readable.
     cbind (cguard readable Forbidden) (\<lambda>_.
     cbind (clift (can_write acl dst (ci_viewer input))) (\<lambda>writable.
     cbind (cguard writable Forbidden) (\<lambda>_.
     cbind (cget (get_entry src)) (\<lambda>found.
     cbind (clift (from_option NotFound found)) (\<lambda>src_row.
     cbind (cguard (fr_kind src_row = FileKind) IsADirectory) (\<lambda>_.
     cbind (clift (case (fr_hash src_row, fr_size src_row) of
              (Some h, Some sz) \<Rightarrow> if h = [] then Inl Corrupt else Inr (h, sz)
            | _ \<Rightarrow> Inl Corrupt)) (\<lambda>(hash, sz).
     cbind (clift (parent_of dst)) (\<lambda>parent.
     cbind (ensure_directory_tree parent (ci_viewer input) now) (\<lambda>_.
     cbind (run_in_transaction
              (copy_tx dst (case ci_collision input of None \<Rightarrow> CollideError | Some c \<Rightarrow> c) hash sz
                (case ci_mime input of Some m \<Rightarrow> m
                 | None \<Rightarrow> (case fr_mime src_row of Some m \<Rightarrow> m | None \<Rightarrow> ''application/octet-stream''))
                (ci_viewer input) now)) (\<lambda>final.
     cbind (cget (get_entry final)) (\<lambda>row.
       case row of None \<Rightarrow> clift (Inl Corrupt) | Some r \<Rightarrow> cret (row_to_entry r))))))))))))))))"

section \<open>Removing and moving\<close>

text \<open>One row of the cascade: the entry, its grants, and its reference.\<close>

definition remove_row :: "fs_row \<Rightarrow> fs_store \<Rightarrow> fs_store" where
  "remove_row row s =
     (let s1 = delete_grants_for_path (fr_path row) (delete_entry (fr_path row) s)
      in case fr_hash row of
           None \<Rightarrow> s1
         | Some h \<Rightarrow> if fr_kind row = FileKind \<and> h \<noteq> [] then decrement_and_maybe_drop_blob h s1 else s1)"

definition remove_tx :: "fs_row \<Rightarrow> string \<Rightarrow> bool \<Rightarrow> unit fs_call" where
  "remove_tx target path recursive s =
     (if fr_kind target = FileKind then (remove_row target s, Inr ())
      else if list_children path s \<noteq> [] \<and> \<not> recursive then (s, Inl NotEmpty)
      else (fold remove_row (list_descendants path (path @ ''/%'') s) s, Inr ()))"

definition fs_remove :: "objective_acl \<Rightarrow> string \<Rightarrow> viewer \<Rightarrow> bool \<Rightarrow> unit fs_call" where
  "fs_remove acl path writer recursive =
     cbind (clift (normalize_path path)) (\<lambda>p.
     cbind (cguard (p \<noteq> root_path) InvalidInput) (\<lambda>_.
     cbind (clift (can_write acl p writer)) (\<lambda>w.
     cbind (cguard w Forbidden) (\<lambda>_.
     cbind (cget (get_entry p)) (\<lambda>found.
     cbind (clift (from_option NotFound found)) (\<lambda>target.
       run_in_transaction (remove_tx target p recursive)))))))"

definition move_path :: "string \<Rightarrow> string \<Rightarrow> string \<Rightarrow> int \<Rightarrow> string \<Rightarrow> fs_store \<Rightarrow> fs_store" where
  "move_path dst parent name now src s =
     s\<lparr>fs_entries := sql_update (\<lambda>r. fr_path r = src)
         (\<lambda>r. r\<lparr>fr_path := dst, fr_parent := parent, fr_name := name, fr_updated := now\<rparr>) (fs_entries s)\<rparr>"

text \<open>\<open>INSERT ... SELECT\<close> of the source's grants under the new path; a clash fails the statement.\<close>

definition copy_grants :: "string \<Rightarrow> string \<Rightarrow> unit fs_call" where
  "copy_grants dst src s =
     (let copies = List.map (\<lambda>g. g\<lparr>gr_path := dst\<rparr>) (sql_all (\<lambda>g. gr_path g = src) (fs_grants s))
      in if \<exists>c \<in> set copies. \<exists>g \<in> set (fs_grants s). gr_path g = dst \<and> gr_viewer g = gr_viewer c \<and> gr_via g = gr_via c
         then (s, Inl SqlConstraint)
         else (s\<lparr>fs_grants := fs_grants s @ copies\<rparr>, Inr ()))"

definition move_tx :: "string \<Rightarrow> string \<Rightarrow> int \<Rightarrow> unit fs_call" where
  "move_tx src dst now =
     cbind (cget (get_entry dst)) (\<lambda>existing.
     cbind (cguard (existing = None) Exists) (\<lambda>_.
     cbind (clift (parent_of dst)) (\<lambda>parent.
     cbind (clift (basename_of dst)) (\<lambda>name.
     cbind (cmod (move_path dst parent name now src)) (\<lambda>_.
     cbind (copy_grants dst src) (\<lambda>_.
       cmod (delete_grants_for_path src)))))))"

definition fs_move :: "objective_acl \<Rightarrow> string \<Rightarrow> string \<Rightarrow> viewer \<Rightarrow> int \<Rightarrow> fs_entry fs_call" where
  "fs_move acl from to' writer now =
     cbind (clift (normalize_path from)) (\<lambda>src.
     cbind (clift (normalize_path to')) (\<lambda>dst.
       if src = dst then
         cbind (cget (get_entry src)) (\<lambda>row. clift (map_sum id row_to_entry (from_option NotFound row)))
       else
         cbind (cguard (src \<noteq> root_path \<and> dst \<noteq> root_path) InvalidInput) (\<lambda>_.
         cbind (clift (andThen (can_write acl src writer) (\<lambda>w. if \<not> w then Inr False else can_write acl dst writer))) (\<lambda>w.
         cbind (cguard w Forbidden) (\<lambda>_.
         cbind (cguard (\<not> is_ancestor_path src dst) InvalidInput) (\<lambda>_.
         cbind (cget (get_entry src)) (\<lambda>found.
         cbind (clift (from_option NotFound found)) (\<lambda>row.
         cbind (cguard (fr_kind row \<noteq> DirectoryKind) InvalidInput) (\<lambda>_.
         cbind (clift (parent_of dst)) (\<lambda>parent.
         cbind (ensure_directory_tree parent writer now) (\<lambda>_.
         cbind (run_in_transaction (move_tx src dst now)) (\<lambda>_.
         cbind (cget (get_entry dst)) (\<lambda>moved.
           clift (map_sum id row_to_entry (from_option Corrupt moved)))))))))))))))"

section \<open>Grants\<close>

definition fs_grant :: "string \<Rightarrow> string \<Rightarrow> string \<Rightarrow> int \<Rightarrow> unit fs_call" where
  "fs_grant path viewer via now =
     cbind (clift (normalize_path path)) (\<lambda>p.
     cbind (cguard (p \<noteq> root_path) InvalidInput) (\<lambda>_.
     cbind (clift (owner_of p)) (\<lambda>owner.
       if owner = Some viewer then cret ()
       else cmod (insert_grant \<lparr>gr_path = p, gr_viewer = viewer, gr_at = now, gr_via = via\<rparr>))))"

end
