(* ===== verification/FsTree.thy ===== *)
theory FsTree
  imports FsWrite
begin

text \<open>
  What the filesystem keeps: entries form a tree under canonical paths, files have a content hash and
  directories none, and no blob has fewer references on record than entries that point at it.
\<close>

section \<open>The tree\<close>

definition row_ok :: "fs_row \<Rightarrow> bool" where
  "row_ok r \<longleftrightarrow>
     (\<exists>segs. segs \<noteq> [] \<and> canonical (fr_path r) segs \<and> fr_parent r = path_of (butlast segs) \<and> fr_name r = last segs) \<and>
     (if fr_kind r = DirectoryKind then fr_hash r = None else \<exists>h. fr_hash r = Some h \<and> h \<noteq> [])"

definition is_directory :: "string \<Rightarrow> fs_store \<Rightarrow> bool" where
  "is_directory path s \<longleftrightarrow> path = root_path \<or> (\<exists>r \<in> set (fs_entries s). fr_path r = path \<and> fr_kind r = DirectoryKind)"

definition tree_inv :: "fs_store \<Rightarrow> bool" where
  "tree_inv s \<longleftrightarrow>
     distinct (List.map fr_path (fs_entries s)) \<and>
     (\<forall>r \<in> set (fs_entries s). row_ok r \<and> is_directory (fr_parent r) s)"

lemma tree_invD:
  assumes "tree_inv s" "r \<in> set (fs_entries s)"
  shows "row_ok r" "is_directory (fr_parent r) s"
  using assms by (auto simp: tree_inv_def)

lemma get_entry_Some: "tree_inv s \<Longrightarrow> get_entry p s = Some r \<longleftrightarrow> r \<in> set (fs_entries s) \<and> fr_path r = p"
  unfolding get_entry_def by (rule sql_get_key_iff) (simp add: tree_inv_def)

lemma get_entry_None: "get_entry p s = None \<longleftrightarrow> (\<forall>r \<in> set (fs_entries s). fr_path r \<noteq> p)"
  by (simp add: get_entry_def sql_get_None)

text \<open>A row whose parent is a directory may be added under a new path.\<close>

lemma tree_inv_insert:
  assumes "tree_inv s" "row_ok r" "is_directory (fr_parent r) s" "get_entry (fr_path r) s = None"
    and "fs_entries s' = fs_entries s @ [r]"
  shows "tree_inv s'"
proof -
  have dirs: "is_directory p s \<Longrightarrow> is_directory p s'" for p
    using assms(5) by (auto simp: is_directory_def)
  have "fr_path r \<notin> fr_path ` set (fs_entries s)" using assms(4) by (auto simp: get_entry_None)
  then show ?thesis
    using assms dirs by (auto simp: tree_inv_def)
qed

lemma insert_entry_iff:
  "insert_entry r s = (s', Inr ()) \<longleftrightarrow> get_entry (fr_path r) s = None \<and> s' = s\<lparr>fs_entries := fs_entries s @ [r]\<rparr>"
  by (auto simp: insert_entry_def sql_insert_def get_entry_None split: if_splits)

lemma insert_entry_fail: "insert_entry r s = (s', Inl e) \<Longrightarrow> s' = s"
  by (auto simp: insert_entry_def split: option.splits)

text \<open>What a store has gained: more entries, and nothing else changed.\<close>

definition only_new_dirs :: "fs_store \<Rightarrow> fs_store \<Rightarrow> bool" where
  "only_new_dirs s s' \<longleftrightarrow>
     (\<exists>new. s' = s\<lparr>fs_entries := fs_entries s @ new\<rparr> \<and> (\<forall>r \<in> set new. fr_kind r = DirectoryKind \<and> fr_hash r = None))"

lemma only_new_dirs_refl [simp]: "only_new_dirs s s"
  by (auto simp: only_new_dirs_def intro: exI [of _ "[]"])

lemma only_new_dirs_trans: "only_new_dirs s t \<Longrightarrow> only_new_dirs t u \<Longrightarrow> only_new_dirs s u"
  unfolding only_new_dirs_def by (elim exE conjE) (rule_tac x = "new @ newa" in exI, auto)

lemma owner_tag_nonempty:
  assumes "list_all segment_ok segs" "segs \<noteq> []"
  shows "\<exists>owner. owner_tag segs = Some owner \<and> owner \<noteq> []"
proof -
  obtain a rest where "segs = a # rest" "a \<noteq> []" using assms by (cases segs) (auto simp: segment_ok_def)
  then show ?thesis
    by (cases "a = objective_namespace_segment"; cases rest)
      (auto simp: owner_tag_def objective_owner_prefix_def)
qed

text \<open>Creating one directory whose parent exists.\<close>

lemma create_directory_row_cases:
  assumes "create_directory_row path writer now s = (s', r)" "canonical path segs" "segs \<noteq> []"
  shows "(s' = s \<and> (r = Inl NotADirectory \<and> get_entry path s \<noteq> None \<or> (\<exists>e. r = Inr (row_to_entry e) \<and> get_entry path s = Some e \<and> fr_kind e = DirectoryKind))) \<or>
    (\<exists>owner. get_entry path s = None \<and> owner_tag segs = Some owner \<and>
       (let row = directory_row path (path_of (butlast segs)) (last segs) owner writer now
        in s' = s\<lparr>fs_entries := fs_entries s @ [row]\<rparr> \<and> r = Inr (row_to_entry row)))"
proof -
  have ok: "list_all segment_ok segs" "path = path_of segs" using assms(2) by (auto simp: canonical_def)
  then have root: "path \<noteq> root_path" using path_of_root assms(3) by simp
  obtain owner where owner: "owner_tag segs = Some owner" "owner \<noteq> []"
    using owner_tag_nonempty [OF ok(1) assms(3)] by blast
  show ?thesis
  proof (cases "get_entry path s")
    case None
    define row where "row = directory_row path (path_of (butlast segs)) (last segs) owner writer now"
    have path: "fr_path row = path" by (simp add: row_def directory_row_def)
    define t where "t = s\<lparr>fs_entries := fs_entries s @ [row]\<rparr>"
    have ins: "insert_entry row s = (t, Inr ())" using None path by (simp add: insert_entry_iff t_def)
    have get: "get_entry path t = Some row"
      using None path by (simp add: t_def get_entry_def sql_get_append) (simp add: sql_get_def)
    have "create_directory_row path writer now s = (t, Inr (row_to_entry row))"
      using None root owner ins get assms(3)
      by (simp add: create_directory_row_def require_owner_def canonical_owner [OF assms(2)] canonical_parent [OF assms(2)]
          canonical_basename [OF assms(2)] cbind_def clift_def cget_def row_def [symmetric])
    then show ?thesis using assms(1) None owner by (simp add: Let_def row_def t_def)
  next
    case (Some e)
    then show ?thesis using assms(1) root by (auto simp: create_directory_row_def split: if_splits)
  qed
qed

lemma directory_row_ok:
  assumes "canonical path segs" "segs \<noteq> []"
  shows "row_ok (directory_row path (path_of (butlast segs)) (last segs) owner writer now)"
  using assms by (auto simp: row_ok_def directory_row_def)

lemma create_directory_row_inv:
  assumes "create_directory_row path writer now s = (s', r)" "canonical path segs" "segs \<noteq> []"
    and "tree_inv s" "is_directory (path_of (butlast segs)) s"
  shows "tree_inv s' \<and> only_new_dirs s s' \<and> (\<forall>e. r = Inr e \<longrightarrow> is_directory path s')"
  using create_directory_row_cases [OF assms(1-3)]
proof (elim disjE exE conjE)
  assume "s' = s" "r = Inl NotADirectory"
  then show ?thesis using assms(4) by simp
next
  fix e assume "s' = s" "r = Inr (row_to_entry e)" "get_entry path s = Some e" "fr_kind e = DirectoryKind"
  then show ?thesis using assms(4) by (auto simp: is_directory_def get_entry_Some)
next
  fix owner
  define row where "row = directory_row path (path_of (butlast segs)) (last segs) owner writer now"
  assume new: "get_entry path s = None" and
    "let row = directory_row path (path_of (butlast segs)) (last segs) owner writer now
     in s' = s\<lparr>fs_entries := fs_entries s @ [row]\<rparr> \<and> r = Inr (row_to_entry row)"
  then have s': "s' = s\<lparr>fs_entries := fs_entries s @ [row]\<rparr>" by (simp add: Let_def row_def)
  have f: "fr_path row = path" "fr_parent row = path_of (butlast segs)" "fr_kind row = DirectoryKind" "fr_hash row = None"
    by (simp_all add: row_def directory_row_def)
  have "tree_inv s'"
    by (rule tree_inv_insert [OF assms(4)]) (use f new s' assms(5) directory_row_ok [OF assms(2,3)] in \<open>simp_all add: row_def\<close>)
  then show ?thesis using f s' by (auto simp: only_new_dirs_def is_directory_def)
qed

lemma ensure_directory_tree_inv:
  assumes "ensure_directory_tree path writer now s = (s', r)" "canonical path segs" "tree_inv s"
  shows "tree_inv s' \<and> only_new_dirs s s' \<and> (\<forall>e. r = Inr e \<longrightarrow> is_directory path s')"
  using assms
proof (induction path writer now s arbitrary: segs s' r rule: ensure_directory_tree.induct)
  case (1 path writer now s)
  show ?case
  proof (cases "path = root_path")
    case True
    then show ?thesis using 1(2,4) by (auto simp: ensure_directory_tree.simps is_directory_def)
  next
    case False
    have segs: "segs \<noteq> []" using False 1(3) by (auto simp: canonical_def)
    show ?thesis
    proof (cases "get_entry path s")
      case (Some e)
      then have "s' = s \<and> (r = Inl NotADirectory \<or> fr_kind e = DirectoryKind)"
        using 1(2) False by (simp add: ensure_directory_tree.simps [of path] split: if_splits)
      then show ?thesis using Some 1(4) get_entry_Some [OF 1(4)] by (auto simp: is_directory_def)
    next
      case None
      define parent where "parent = path_of (butlast segs)"
      have parent: "parent_of path = Inr parent" using canonical_parent [OF 1(3)] by (simp add: parent_def)
      obtain t q where rec: "ensure_directory_tree parent writer now s = (t, q)" by fastforce
      note IH = 1(1) [OF False None parent rec canonical_butlast [OF 1(3), folded parent_def] 1(4)]
      show ?thesis
      proof (cases q)
        case (Inl e)
        then show ?thesis
          using 1(2) False None parent rec IH by (auto simp: ensure_directory_tree.simps [of path])
      next
        case (Inr e)
        then have "create_directory_row path writer now t = (s', r)"
          using 1(2) False None parent rec by (simp add: ensure_directory_tree.simps [of path])
        from create_directory_row_inv [OF this 1(3) segs] IH Inr only_new_dirs_trans [of s t s']
        show ?thesis by (simp add: parent_def)
      qed
    qed
  qed
qed

end
