(* ===== verification/FsBlobs.thy ===== *)
theory FsBlobs
  imports FsTree
begin

text \<open>
  Reference counts: no blob has fewer references on record than entries point at it, so bytes are handed
  to deletion only when no entry needs them.
\<close>

definition refs :: "string \<Rightarrow> fs_store \<Rightarrow> nat" where
  "refs h s = length (filter (\<lambda>r. fr_hash r = Some h) (fs_entries s))"

definition refs_inv :: "fs_store \<Rightarrow> bool" where
  "refs_inv s \<longleftrightarrow> distinct (List.map bl_hash (fs_blobs s)) \<and> (\<forall>h. int (refs h s) \<le> blob_refcount h s)"

definition fs_inv :: "fs_store \<Rightarrow> bool" where
  "fs_inv s \<longleftrightarrow> tree_inv s \<and> refs_inv s"

text \<open>What a call hands to deletion is not referenced when it ends.\<close>

definition drops_dead :: "fs_store \<Rightarrow> fs_store \<Rightarrow> bool" where
  "drops_dead s s' \<longleftrightarrow> (\<exists>d. fs_dropped s' = fs_dropped s @ d \<and> (\<forall>h \<in> set d. refs h s' = 0))"

lemma drops_dead_refl [simp]: "fs_dropped s' = fs_dropped s \<Longrightarrow> drops_dead s s'"
  by (simp add: drops_dead_def)

section \<open>Statements on the blob table\<close>

lemma blob_frames [simp]:
  "fs_entries (inc_ref h s) = fs_entries s" "fs_entries (dec_ref h s) = fs_entries s"
  "fs_entries (upsert_blob h n t s) = fs_entries s" "fs_entries (delete_zero_blob h s) = fs_entries s"
  "fs_entries (decrement_and_maybe_drop_blob h s) = fs_entries s"
  "fs_dropped (inc_ref h s) = fs_dropped s" "fs_dropped (upsert_blob h n t s) = fs_dropped s"
  "fs_grants (decrement_and_maybe_drop_blob h s) = fs_grants s"
  by (simp_all add: inc_ref_def dec_ref_def upsert_blob_def delete_zero_blob_def decrement_and_maybe_drop_blob_def Let_def)

lemma blob_refcount_entries [simp]: "blob_refcount h (s\<lparr>fs_entries := e\<rparr>) = blob_refcount h s"
  "blob_refcount h (s\<lparr>fs_dropped := d\<rparr>) = blob_refcount h s" "blob_refcount h (s\<lparr>fs_grants := g\<rparr>) = blob_refcount h s"
  by (simp_all add: blob_refcount_def)

lemma refs_frames [simp]:
  "refs h (inc_ref k s) = refs h s" "refs h (upsert_blob k n t s) = refs h s"
  "refs h (decrement_and_maybe_drop_blob k s) = refs h s" "refs h (s\<lparr>fs_blobs := b\<rparr>) = refs h s"
  "refs h (s\<lparr>fs_dropped := d\<rparr>) = refs h s" "refs h (s\<lparr>fs_grants := g\<rparr>) = refs h s"
  by (simp_all add: refs_def)

lemma blob_refcount_inc:
  "blob_refcount h (inc_ref k s) =
   (if h = k \<and> sql_get (\<lambda>b. bl_hash b = k) (fs_blobs s) \<noteq> None then blob_refcount h s + 1 else blob_refcount h s)"
  by (auto simp: blob_refcount_def inc_ref_def sql_get_update_key [where k = bl_hash] split: option.split)

lemma blob_refcount_dec:
  "blob_refcount h (dec_ref k s) =
   (if h = k \<and> sql_get (\<lambda>b. bl_hash b = k) (fs_blobs s) \<noteq> None then blob_refcount h s - 1 else blob_refcount h s)"
  by (auto simp: blob_refcount_def dec_ref_def sql_get_update_key [where k = bl_hash] split: option.split)

lemma distinct_inc_dec [simp]:
  "List.map bl_hash (fs_blobs (inc_ref k s)) = List.map bl_hash (fs_blobs s)"
  "List.map bl_hash (fs_blobs (dec_ref k s)) = List.map bl_hash (fs_blobs s)"
  by (simp_all add: inc_ref_def dec_ref_def)

lemma sql_delete_filter: "sql_delete P t = filter (\<lambda>r. \<not> P r) t"
  by (simp add: sql_delete_def)

lemma blob_refcount_delete_zero:
  assumes "distinct (List.map bl_hash (fs_blobs s))" "blob_refcount k s \<le> 0"
  shows "blob_refcount h (delete_zero_blob k s) = (if h = k then 0 else blob_refcount h s)"
proof -
  have "sql_get (\<lambda>b. bl_hash b = h) (fs_blobs (delete_zero_blob k s)) =
    (case sql_get (\<lambda>b. bl_hash b = h) (fs_blobs s) of None \<Rightarrow> None
     | Some b \<Rightarrow> if bl_hash b = k \<and> bl_refcount b \<le> 0 then None else Some b)"
    using sql_get_filter_key [OF assms(1), of h "\<lambda>b. \<not> (bl_hash b = k \<and> bl_refcount b \<le> 0)"]
    by (simp add: delete_zero_blob_def sql_delete_filter split: option.split)
  then show ?thesis
    using assms(2) by (auto simp: blob_refcount_def dest: sql_get_SomeD split: option.splits)
qed

lemma decrement_refcount:
  assumes "distinct (List.map bl_hash (fs_blobs s))"
  shows "blob_refcount h (decrement_and_maybe_drop_blob k s) =
      (if h = k then max 0 (blob_refcount h s - 1) else blob_refcount h s)"
    and "distinct (List.map bl_hash (fs_blobs (decrement_and_maybe_drop_blob k s)))"
    and "fs_dropped (decrement_and_maybe_drop_blob k s) = fs_dropped s @ (if blob_refcount k s \<le> 1 then [k] else [])"
proof -
  have none: "sql_get (\<lambda>b. bl_hash b = k) (fs_blobs s) = None \<Longrightarrow> blob_refcount k s = 0"
    by (simp add: blob_refcount_def)
  have d: "distinct (List.map bl_hash (fs_blobs (dec_ref k s)))" using assms by simp
  have dec: "blob_refcount k (dec_ref k s) \<le> 0 \<longleftrightarrow> blob_refcount k s \<le> 1"
    using none by (auto simp: blob_refcount_dec)
  have drop: "fs_dropped (dec_ref k s) = fs_dropped s" by (simp add: dec_ref_def)
  show "blob_refcount h (decrement_and_maybe_drop_blob k s) =
      (if h = k then max 0 (blob_refcount h s - 1) else blob_refcount h s)"
    using dec none blob_refcount_delete_zero [OF d, of k h]
    by (auto simp: decrement_and_maybe_drop_blob_def Let_def blob_refcount_dec)
  show "distinct (List.map bl_hash (fs_blobs (decrement_and_maybe_drop_blob k s)))"
    using d by (auto simp: decrement_and_maybe_drop_blob_def Let_def delete_zero_blob_def)
  show "fs_dropped (decrement_and_maybe_drop_blob k s) = fs_dropped s @ (if blob_refcount k s \<le> 1 then [k] else [])"
    using dec drop by (simp add: decrement_and_maybe_drop_blob_def Let_def)
qed

section \<open>Removing rows\<close>

lemma refs_filter_path:
  assumes "distinct (List.map fr_path es)" "r \<in> set es"
  shows "length (filter (\<lambda>x. fr_hash x = Some h) (filter (\<lambda>x. fr_path x \<noteq> fr_path r) es)) +
    (if fr_hash r = Some h then 1 else 0) = length (filter (\<lambda>x. fr_hash x = Some h) es)"
  using assms
proof (induction es)
  case (Cons e es)
  show ?case
  proof (cases "e = r")
    case True
    then have "filter (\<lambda>x. fr_path x \<noteq> fr_path r) es = es"
      using Cons.prems(1) by (auto simp: filter_id_conv image_iff)
    then show ?thesis using True by simp
  next
    case False
    then have "fr_path e \<noteq> fr_path r" using Cons.prems by (auto simp: image_iff)
    with False Cons show ?thesis by auto
  qed
qed simp

lemma remove_row_entries: "fs_entries (remove_row r s) = filter (\<lambda>x. fr_path x \<noteq> fr_path r) (fs_entries s)"
  by (auto simp: remove_row_def Let_def delete_entry_def delete_grants_for_path_def sql_delete_filter split: option.split)

lemma remove_row_refs:
  assumes "refs_inv s" "distinct (List.map fr_path (fs_entries s))" "r \<in> set (fs_entries s)" "row_ok r"
  shows "refs_inv (remove_row r s) \<and> drops_dead s (remove_row r s)"
proof -
  define s1 where "s1 = delete_grants_for_path (fr_path r) (delete_entry (fr_path r) s)"
  have s1: "fs_entries s1 = filter (\<lambda>x. fr_path x \<noteq> fr_path r) (fs_entries s)" "fs_blobs s1 = fs_blobs s" "fs_dropped s1 = fs_dropped s"
    by (simp_all add: s1_def delete_entry_def delete_grants_for_path_def sql_delete_filter)
  have r1: "refs h s1 + (if fr_hash r = Some h then 1 else 0) = refs h s" for h
    using refs_filter_path [OF assms(2,3), of h] s1 by (simp add: refs_def)
  have c1: "blob_refcount h s1 = blob_refcount h s" for h by (simp add: blob_refcount_def s1)
  have inv: "int (refs h s) \<le> blob_refcount h s" for h using assms(1) by (simp add: refs_inv_def)
  have d1: "distinct (List.map bl_hash (fs_blobs s1))" using assms(1) s1 by (simp add: refs_inv_def)
  show ?thesis
  proof (cases "fr_hash r")
    case None
    then have "remove_row r s = s1" by (simp add: remove_row_def s1_def)
    then show ?thesis using r1 c1 inv d1 None s1 by (simp add: refs_inv_def)
  next
    case (Some h)
    then have "fr_kind r = FileKind \<and> h \<noteq> []" using assms(4) by (cases "fr_kind r") (auto simp: row_ok_def)
    then have eq: "remove_row r s = decrement_and_maybe_drop_blob h s1" using Some by (simp add: remove_row_def s1_def)
    note dec = decrement_refcount [OF d1, where k = h]
    have le: "int (refs k (remove_row r s)) \<le> blob_refcount k (remove_row r s)" for k
      using r1 [of k] inv [of k] Some by (auto simp: eq dec(1) c1 split: if_splits)
    have "refs h (remove_row r s) = 0" if "blob_refcount h s1 \<le> 1"
      using r1 [of h] inv [of h] Some that by (simp add: eq c1)
    then have "drops_dead s (remove_row r s)" using dec(3) s1 by (auto simp: drops_dead_def eq)
    then show ?thesis using le dec(2) by (simp add: refs_inv_def eq)
  qed
qed

lemma remove_row_refs_mono: "refs h (remove_row r s) \<le> refs h s"
proof -
  have "length (filter P (filter Q xs)) \<le> length (filter P xs)" for P Q and xs :: "fs_row list"
    by (induction xs) auto
  then show ?thesis unfolding refs_def remove_row_entries .
qed

lemma remove_rows:
  assumes "refs_inv s" "distinct (List.map fr_path (fs_entries s))" "\<forall>r \<in> set (fs_entries s). row_ok r"
    and "distinct (List.map fr_path rows)" "set rows \<subseteq> set (fs_entries s)"
  shows "refs_inv (fold remove_row rows s) \<and> drops_dead s (fold remove_row rows s) \<and>
    fs_entries (fold remove_row rows s) = filter (\<lambda>x. fr_path x \<notin> fr_path ` set rows) (fs_entries s)"
  using assms
proof (induction rows arbitrary: s)
  case Nil
  then show ?case by simp
next
  case (Cons r rows)
  define t where "t = remove_row r s"
  have r: "r \<in> set (fs_entries s)" using Cons.prems(5) by simp
  have t: "refs_inv t" "drops_dead s t"
    using remove_row_refs [OF Cons.prems(1,2) r] Cons.prems(3) r by (auto simp: t_def)
  have e: "fs_entries t = filter (\<lambda>x. fr_path x \<noteq> fr_path r) (fs_entries s)" by (simp add: t_def remove_row_entries)
  have dist: "distinct (List.map fr_path (fs_entries t))" using Cons.prems(2) by (simp add: e distinct_map_filter)
  have ok: "\<forall>x \<in> set (fs_entries t). row_ok x" using Cons.prems(3) by (simp add: e)
  have sub: "set rows \<subseteq> set (fs_entries t)" using Cons.prems(4,5) by (force simp: e image_iff)
  have dr: "distinct (List.map fr_path rows)" using Cons.prems(4) by simp
  note IH = Cons.IH [OF t(1) dist ok dr sub]
  define u where "u = fold remove_row rows t"
  obtain d where d: "fs_dropped t = fs_dropped s @ d" "\<forall>h \<in> set d. refs h t = 0" using t(2) by (auto simp: drops_dead_def)
  obtain d' where d': "fs_dropped u = fs_dropped t @ d'" "\<forall>h \<in> set d'. refs h u = 0"
    using IH by (auto simp: drops_dead_def u_def)
  have "refs h u \<le> refs h t" for h
    unfolding u_def by (induction rows arbitrary: t) (auto intro: order_trans remove_row_refs_mono)
  then have "drops_dead s u" using d d' by (auto simp: drops_dead_def intro!: exI [of _ "d @ d'"]) (metis le_zero_eq)
  moreover have "fs_entries u = filter (\<lambda>x. fr_path x \<notin> fr_path ` set (r # rows)) (fs_entries s)"
    using IH by (auto simp: u_def e intro!: filter_cong)
  ultimately show ?case using IH by (simp add: u_def t_def)
qed

end
