(* ===== verification/FsLife.thy ===== *)
theory FsLife
  imports FsBlobs
begin

text \<open>
  Every operation keeps the tree and the reference counts, drops only dead blobs, and touches only the
  entries it may. The operations are gathered in a datatype with an executable interpreter.
\<close>

section \<open>What a call touches\<close>

text \<open>Entries outside \<open>P\<close> stay as they are, and a new entry outside \<open>P\<close> is a directory.\<close>

definition touches :: "(string \<Rightarrow> bool) \<Rightarrow> fs_store \<Rightarrow> fs_store \<Rightarrow> bool" where
  "touches P s s' \<longleftrightarrow>
     (\<forall>r \<in> set (fs_entries s). \<not> P (fr_path r) \<longrightarrow> r \<in> set (fs_entries s')) \<and>
     (\<forall>r \<in> set (fs_entries s'). r \<in> set (fs_entries s) \<or> P (fr_path r) \<or> fr_kind r = DirectoryKind)"

lemma touches_refl [simp]: "touches P s s"
  by (simp add: touches_def)

lemma touches_trans: "touches P s t \<Longrightarrow> touches P t u \<Longrightarrow> touches P s u"
  unfolding touches_def by blast

lemma touches_mono: "touches P s t \<Longrightarrow> (\<And>p. P p \<Longrightarrow> Q p) \<Longrightarrow> touches Q s t"
  unfolding touches_def by blast

lemma only_new_dirs_touches: "only_new_dirs s s' \<Longrightarrow> touches P s s'"
  by (auto simp: only_new_dirs_def touches_def)

text \<open>New directories change no count.\<close>

lemma only_new_dirs_refs:
  assumes "only_new_dirs s s'"
  shows "refs h s' = refs h s" "fs_blobs s' = fs_blobs s" "fs_dropped s' = fs_dropped s" "fs_grants s' = fs_grants s"
    "refs_inv s \<Longrightarrow> refs_inv s'"
proof -
  obtain new where new: "s' = s\<lparr>fs_entries := fs_entries s @ new\<rparr>" "\<forall>r \<in> set new. fr_hash r = None"
    using assms by (auto simp: only_new_dirs_def)
  have "filter (\<lambda>r. fr_hash r = Some h) new = []" for h using new(2) by (auto simp: filter_empty_conv)
  then have refs: "refs h s' = refs h s" for h using new(1) by (simp add: refs_def)
  show "refs h s' = refs h s" by (rule refs)
  show "fs_blobs s' = fs_blobs s" "fs_dropped s' = fs_dropped s" "fs_grants s' = fs_grants s" using new(1) by simp_all
  then show "refs_inv s \<Longrightarrow> refs_inv s'" using refs by (simp add: refs_inv_def blob_refcount_def)
qed

section \<open>Storing a reference\<close>

definition has_blob :: "string \<Rightarrow> fs_store \<Rightarrow> bool" where
  "has_blob h s \<longleftrightarrow> sql_get (\<lambda>b. bl_hash b = h) (fs_blobs s) \<noteq> None"

lemma refs_update:
  assumes "distinct (List.map fr_path es)" "row \<in> set es"
  shows "length (filter (\<lambda>r. fr_hash r = Some k) (sql_update (\<lambda>r. fr_path r = fr_path row)
      (\<lambda>r. r\<lparr>fr_hash := Some h, fr_size := a, fr_mime := b, fr_updated := c\<rparr>) es)) + (if fr_hash row = Some k then 1 else 0) =
    length (filter (\<lambda>r. fr_hash r = Some k) es) + (if k = h then 1 else 0)"
  using assms
proof (induction es)
  case (Cons e es)
  show ?case
  proof (cases "e = row")
    case True
    then have "\<forall>r \<in> set es. fr_path r \<noteq> fr_path row" using Cons.prems(1) by (auto simp: image_iff)
    then have "sql_update (\<lambda>r. fr_path r = fr_path row) f es = es" for f by (rule sql_update_none)
    then show ?thesis using True by (simp add: sql_update_def)
  next
    case False
    then have "fr_path e \<noteq> fr_path row" using Cons.prems by (auto simp: image_iff)
    with False Cons show ?thesis by (auto simp: sql_update_def)
  qed
qed simp

lemma overwrite_inv:
  assumes inv: "fs_inv s" and row: "row \<in> set (fs_entries s)" "fr_path row = final" "fr_kind row = FileKind"
    and h: "has_blob h s" "h \<noteq> []"
    and run: "store_reference final (Some row) h sz mime writer now s = (s', r)"
  shows "r = Inr () \<and> fs_inv s' \<and> drops_dead s s' \<and> touches (\<lambda>p. p = final) s s'"
proof -
  have dist: "distinct (List.map fr_path (fs_entries s))" using inv by (simp add: fs_inv_def tree_inv_def)
  define f where "f = (\<lambda>r :: fs_row. r\<lparr>fr_hash := Some h, fr_size := Some sz, fr_mime := Some mime, fr_updated := now\<rparr>)"
  define s1 where "s1 = inc_ref h (update_entry_content h sz mime now final s)"
  obtain prior where prior: "fr_hash row = Some prior" "prior \<noteq> []"
    using tree_invD(1) [of s row] inv row by (auto simp: fs_inv_def row_ok_def)
  have s': "r = Inr ()" "s' = (if prior \<noteq> h then decrement_and_maybe_drop_blob prior s1 else s1)"
    using run prior by (auto simp: store_reference_def s1_def Let_def)
  have e1: "fs_entries s1 = sql_update (\<lambda>r. fr_path r = final) f (fs_entries s)" "fs_dropped s1 = fs_dropped s"
    by (simp_all add: s1_def update_entry_content_def f_def)
  have es: "fs_entries s' = fs_entries s1" using s' by simp
  have refs: "refs k s1 + (if prior = k then 1 else 0) = refs k s + (if k = h then 1 else 0)" for k
    using refs_update [OF dist row(1), where k = k and h = h and a = "Some sz" and b = "Some mime" and c = now] prior row(2) by (simp add: refs_def e1 f_def)
  have counts: "blob_refcount k s1 = blob_refcount k s + (if k = h then 1 else 0)" for k
    using h by (auto simp: s1_def blob_refcount_inc update_entry_content_def has_blob_def)
  have d1: "distinct (List.map bl_hash (fs_blobs s1))"
    using inv by (simp add: s1_def update_entry_content_def fs_inv_def refs_inv_def)
  have le: "int (refs k s) \<le> blob_refcount k s" for k using inv by (simp add: fs_inv_def refs_inv_def)
  have "refs_inv s' \<and> drops_dead s s'"
  proof (cases "prior = h")
    case True
    have "int (refs k s') \<le> blob_refcount k s'" for k
      using refs [of k] counts [of k] le [of k] True s'(2) by (auto split: if_splits)
    then show ?thesis using s'(2) True d1 e1 by (auto simp: refs_inv_def)
  next
    case False
    then have eq: "s' = decrement_and_maybe_drop_blob prior s1" using s'(2) by simp
    note dec = decrement_refcount [OF d1, where k = prior]
    have "int (refs k s') \<le> blob_refcount k s'" for k
      using refs [of k] counts [of k] le [of k] False by (auto simp: eq dec(1) split: if_splits)
    moreover have "refs prior s' = 0" if "blob_refcount prior s1 \<le> 1"
      using refs [of prior] counts [of prior] le [of prior] False that by (simp add: eq)
    ultimately show ?thesis using dec(2,3) e1 by (auto simp: refs_inv_def drops_dead_def eq)
  qed
  moreover have "tree_inv s'"
  proof -
    have keep: "fr_path (f r) = fr_path r" "fr_parent (f r) = fr_parent r" "fr_name (f r) = fr_name r" "fr_kind (f r) = fr_kind r"
      "fr_hash (f r) = Some h" for r by (simp_all add: f_def)
    have only: "x = row" if "x \<in> set (fs_entries s)" "fr_path x = final" for x
      using dist row(1,2) that by (auto dest: inj_onD simp: distinct_map)
    have "row_ok x' \<and> is_directory (fr_parent x') s'" if x': "x' \<in> set (fs_entries s')" for x'
    proof -
      obtain x where x: "x \<in> set (fs_entries s)" "x' = (if fr_path x = final then f x else x)"
        using x' by (auto simp: es e1 set_sql_update)
      have dirs: "is_directory p s'" if p: "is_directory p s" for p
      proof (cases "p = root_path")
        case False
        then obtain y where y: "y \<in> set (fs_entries s)" "fr_path y = p" "fr_kind y = DirectoryKind"
          using p by (auto simp: is_directory_def)
        then have "fr_path y \<noteq> final" using only [of y] row(3) by auto
        then have "y \<in> set (fs_entries s')" using y(1) by (force simp: es e1 set_sql_update)
        with y show ?thesis by (auto simp: is_directory_def)
      qed (simp add: is_directory_def)
      have ok: "row_ok x" "is_directory (fr_parent x) s" using inv x(1) by (auto simp: fs_inv_def tree_inv_def)
      show ?thesis
      proof (cases "fr_path x = final")
        case True
        then have "x = row" using only x(1) by simp
        then show ?thesis using x(2) True ok dirs keep h(2) row(3) by (simp add: row_ok_def)
      next
        case False
        then show ?thesis using x(2) ok dirs by simp
      qed
    qed
    moreover have "distinct (List.map fr_path (fs_entries s'))"
      using dist keep(1) by (simp add: es e1)
    ultimately show ?thesis by (simp add: tree_inv_def)
  qed
  moreover have "touches (\<lambda>p. p = final) s s'"
    by (auto simp: touches_def es e1 set_sql_update f_def)
  ultimately show ?thesis using s'(1) by (simp add: fs_inv_def)
qed

lemma new_file_inv:
  assumes inv: "fs_inv s" and c: "canonical final segs" "segs \<noteq> []" "is_directory (path_of (butlast segs)) s"
    and h: "has_blob h s" "h \<noteq> []"
    and run: "store_reference final None h sz mime writer now s = (s', r)"
  shows "r = Inr () \<longrightarrow> fs_inv s' \<and> drops_dead s s' \<and> touches (\<lambda>p. p = final) s s' \<and> get_entry final s = None"
proof
  assume r: "r = Inr ()"
  obtain owner where owner: "owner_tag segs = Some owner" "owner \<noteq> []"
    using owner_tag_nonempty c by (auto simp: canonical_def)
  define row where "row = file_row final (path_of (butlast segs)) (last segs) owner h sz mime writer now"
  have f: "fr_path row = final" "fr_parent row = path_of (butlast segs)" "fr_name row = last segs" "fr_kind row = FileKind"
    "fr_hash row = Some h" by (simp_all add: row_def file_row_def)
  have ro: "require_owner final = Inr owner"
    using owner by (simp add: require_owner_def canonical_owner [OF c(1)])
  have step: "cbind (insert_entry row) (\<lambda>_. cmod (inc_ref h)) s = (s', Inr ())"
    using run r c(2) unfolding store_reference_def row_def
    by (simp add: ro canonical_parent [OF c(1)] canonical_basename [OF c(1)] cbind_def clift_def)
  then obtain t where ins: "insert_entry row s = (t, Inr ())" and s': "s' = inc_ref h t"
    by (auto simp: cbind_Inr)
  then have t: "t = s\<lparr>fs_entries := fs_entries s @ [row]\<rparr>" and none: "get_entry final s = None"
    using f by (auto simp: insert_entry_iff)
  have e: "fs_entries s' = fs_entries s @ [row]" by (simp add: s' t)
  have "tree_inv s'"
    by (rule tree_inv_insert [of s row]) (use inv f c none h e in \<open>auto simp: fs_inv_def row_ok_def\<close>)
  moreover have "refs k s' = refs k s + (if k = h then 1 else 0)" for k using f(5) by (auto simp: refs_def e)
  moreover have "blob_refcount k s' = blob_refcount k s + (if k = h then 1 else 0)" for k
    using h(1) by (auto simp: s' t blob_refcount_inc has_blob_def)
  moreover have "List.map bl_hash (fs_blobs s') = List.map bl_hash (fs_blobs s)" "fs_dropped s' = fs_dropped s"
    by (simp_all add: s' t)
  ultimately show "fs_inv s' \<and> drops_dead s s' \<and> touches (\<lambda>p. p = final) s s' \<and> get_entry final s = None"
    using inv none f e by (auto simp: fs_inv_def refs_inv_def touches_def)
qed


section \<open>The metadata transactions\<close>

lemma resolve_collision_spec:
  assumes "tree_inv s" "canonical p segs" "segs \<noteq> []" "resolve_collision p strategy s = Inr (existing, final, renamed)"
  shows "\<exists>fsegs. canonical final fsegs \<and> fsegs \<noteq> [] \<and> butlast fsegs = butlast segs \<and>
    (final = p \<or> strategy = CollideSuffix \<and> existing = None \<and> get_entry p s \<noteq> None) \<and>
    (\<forall>row. existing = Some row \<longrightarrow> row \<in> set (fs_entries s) \<and> fr_path row = final \<and> fr_kind row = FileKind)"
proof (cases "get_entry p s")
  case None
  then show ?thesis using assms by (auto simp: resolve_collision_def)
next
  case (Some e)
  then have e: "e \<in> set (fs_entries s)" "fr_path e = p" using get_entry_Some [OF assms(1)] by auto
  have kind: "fr_kind e = FileKind"
    using Some assms(4) by (cases "fr_kind e") (auto simp: resolve_collision_def)
  show ?thesis
  proof (cases strategy)
    case CollideOverwrite
    then show ?thesis using Some assms e kind by (auto simp: resolve_collision_def)
  next
    case CollideError
    then show ?thesis using Some assms kind by (simp add: resolve_collision_def)
  next
    case CollideSuffix
    obtain es where es: "canonical (fr_path e) es" "fr_parent e = path_of (butlast es)"
      using tree_invD(1) [OF assms(1) e(1)] by (auto simp: row_ok_def)
    have "es = segs" using es(1) assms(2) e(2) path_of_inj by (auto simp: canonical_def)
    then have parent: "fr_parent e = path_of (butlast segs)" using es(2) by simp
    have base: "basename_of p = Inr (last segs)" using canonical_basename [OF assms(2)] assms(3) by simp
    define taken where "taken = (\<lambda>c. andThen (join_path [fr_parent e, c]) (\<lambda>q. Inr (get_entry q s \<noteq> None)))"
    have "andThen (dedupe_basename (last segs) taken) (\<lambda>new. andThen (join_path [fr_parent e, new])
        (\<lambda>f. Inr (None, f, last segs \<noteq> new))) = Inr (existing, final, renamed)"
      using assms(4) by (simp add: resolve_collision_def Some kind CollideSuffix base taken_def)
    then obtain new where new: "dedupe_basename (last segs) taken = Inr new" and
      final: "join_path [path_of (butlast segs), new] = Inr final" "existing = None"
      unfolding parent andThen_Inr by auto
    have ok: "list_all segment_ok (butlast segs)" "segment_ok (last segs)"
      using assms(2,3) by (auto simp: canonical_def list_all_iff dest: in_set_butlastD)
    have "new = last segs \<or> (\<exists>i. new = dedupe_candidate (last segs) i)" using dedupe_result [OF new] by simp
    then have "CHR ''/'' \<notin> set new" "new \<noteq> []"
      using dedupe_candidate_no_slash [OF segment_no_slash [OF ok(2)]] segment_no_slash [OF ok(2)] segment_nonempty [OF ok(2)]
      by metis+
    then have "canonical final (butlast segs @ [new])" using join_name [OF ok(1) _ _ final(1)] by simp
    then show ?thesis using final(2) Some CollideSuffix
      by (intro exI [of _ "butlast segs @ [new]"]) simp
  qed
qed

lemma refs_inv_upsert:
  assumes "refs_inv s"
  shows "refs_inv (upsert_blob h n t s)"
proof -
  have "blob_refcount k (upsert_blob h n t s) = blob_refcount k s" for k
  proof (cases "\<exists>b \<in> set (fs_blobs s). bl_hash b = h")
    case True
    then show ?thesis by (auto simp: upsert_blob_def sql_insert_ignore_def)
  next
    case False
    then have "sql_get (\<lambda>b. bl_hash b = h) (fs_blobs s) = None" by (simp add: sql_get_None)
    moreover have "fs_blobs (upsert_blob h n t s) = fs_blobs s @ [\<lparr>bl_hash = h, bl_size = n, bl_refcount = 0, bl_created = t\<rparr>]"
      using False by (auto simp: upsert_blob_def sql_insert_ignore_def)
    ultimately show ?thesis
      by (auto simp: blob_refcount_def sql_get_append split: option.split) (auto simp: sql_get_def split: if_splits)
  qed
  moreover have "distinct (List.map bl_hash (fs_blobs (upsert_blob h n t s)))"
    using assms by (auto simp: refs_inv_def upsert_blob_def sql_insert_ignore_def)
  ultimately show ?thesis using assms by (simp add: refs_inv_def)
qed

lemma upsert_has_blob: "has_blob h (upsert_blob h n t s)"
  by (auto simp: has_blob_def upsert_blob_def sql_insert_ignore_def sql_get_None)

lemma tree_inv_cong: "fs_entries s' = fs_entries s \<Longrightarrow> tree_inv s' = tree_inv s"
  by (simp add: tree_inv_def is_directory_def)

lemma fs_inv_upsert: "fs_inv s \<Longrightarrow> fs_inv (upsert_blob h n t s)"
  using tree_inv_cong [of "upsert_blob h n t s" s] by (simp add: fs_inv_def refs_inv_upsert)

text \<open>What a successful placement has done.\<close>

definition placed :: "string \<Rightarrow> collision \<Rightarrow> string \<Rightarrow> fs_store \<Rightarrow> fs_store \<Rightarrow> bool" where
  "placed p strategy final s s' \<longleftrightarrow>
     fs_inv s' \<and> drops_dead s s' \<and> touches (\<lambda>q. q = final) s s' \<and>
     (final = p \<or> strategy = CollideSuffix \<and> get_entry final s = None)"

lemma store_reference_placed:
  assumes "fs_inv s" "canonical p segs" "segs \<noteq> []" "is_directory (path_of (butlast segs)) s"
    and "resolve_collision p strategy s = Inr (existing, final, renamed)" "has_blob h s" "h \<noteq> []"
    and "store_reference final existing h sz mime writer now s = (s', Inr ())"
  shows "placed p strategy final s s'"
proof -
  have tree: "tree_inv s" using assms(1) by (simp add: fs_inv_def)
  obtain fsegs where f: "canonical final fsegs" "fsegs \<noteq> []" "butlast fsegs = butlast segs"
    "final = p \<or> strategy = CollideSuffix \<and> existing = None \<and> get_entry p s \<noteq> None"
    "\<forall>row. existing = Some row \<longrightarrow> row \<in> set (fs_entries s) \<and> fr_path row = final \<and> fr_kind row = FileKind"
    using resolve_collision_spec [OF tree assms(2,3,5)] by blast
  show ?thesis
  proof (cases existing)
    case None
    have "is_directory (path_of (butlast fsegs)) s" using assms(4) f(3) by simp
    from new_file_inv [OF assms(1) f(1,2) this assms(6,7) assms(8) [unfolded None]] f(4)
    show ?thesis by (auto simp: placed_def)
  next
    case (Some row)
    from overwrite_inv [OF assms(1) _ _ _ assms(6,7) assms(8) [unfolded Some]] f(4,5) Some
    show ?thesis by (auto simp: placed_def)
  qed
qed

lemma write_tx_placed:
  assumes "fs_inv s" "canonical p segs" "segs \<noteq> []" "is_directory (path_of (butlast segs)) s" "h \<noteq> []"
    and "write_tx p strategy h sz mime writer now s = (s', Inr (final, renamed))"
  shows "placed p strategy final s s'"
proof -
  obtain existing where res: "resolve_collision p strategy s = Inr (existing, final, renamed)"
    and st: "store_reference final existing h sz mime writer now (upsert_blob h sz now s) = (s', Inr ())"
    using assms(6) by (auto simp: write_tx_def cbind_Inr split: prod.splits)
  define t where "t = upsert_blob h sz now s"
  have e: "fs_entries t = fs_entries s" "fs_dropped t = fs_dropped s" by (simp_all add: t_def)
  have get: "get_entry q t = get_entry q s" for q by (simp add: get_entry_def e)
  have "resolve_collision p strategy t = resolve_collision p strategy s"
    unfolding resolve_collision_def get ..
  then have "resolve_collision p strategy t = Inr (existing, final, renamed)" using res by simp
  moreover have "is_directory (path_of (butlast segs)) t" using assms(4) e(1) by (simp add: is_directory_def)
  moreover have "has_blob h t" by (simp add: t_def upsert_has_blob)
  ultimately have "placed p strategy final t s'"
    using store_reference_placed [OF fs_inv_upsert [OF assms(1), of h sz now, folded t_def] assms(2,3) _ _ _ assms(5) st [folded t_def]]
    by blast
  then show ?thesis using get e by (auto simp: placed_def drops_dead_def touches_def)
qed

lemma copy_tx_placed:
  assumes "fs_inv s" "canonical p segs" "segs \<noteq> []" "is_directory (path_of (butlast segs)) s" "h \<noteq> []"
    and "has_blob h s" "copy_tx p strategy h sz mime writer now s = (s', Inr final)"
  shows "placed p strategy final s s'"
proof -
  obtain existing renamed where res: "resolve_collision p strategy s = Inr (existing, final, renamed)"
    and st: "store_reference final existing h sz mime writer now s = (s', Inr ())"
    using assms(7) by (auto simp: copy_tx_def cbind_Inr split: prod.splits)
  show ?thesis by (rule store_reference_placed [OF assms(1-4) res assms(6,5) st])
qed

end
