(* ===== verification/FsOps.thy ===== *)
theory FsOps
  imports FsLife
begin

text \<open>
  The operations of the team filesystem one by one: each keeps the tree and the reference counts, hands only
  dead blobs to deletion, and leaves every entry alone that it was not asked to change.
\<close>

section \<open>What every operation keeps\<close>

definition fs_kept :: "(string \<Rightarrow> bool) \<Rightarrow> fs_store \<Rightarrow> fs_store \<Rightarrow> bool" where
  "fs_kept P s s' \<longleftrightarrow> fs_inv s' \<and> drops_dead s s' \<and> touches P s s'"

lemma fs_kept_refl: "fs_inv s \<Longrightarrow> fs_kept P s s"
  by (simp add: fs_kept_def)

lemma fs_kept_dirs: "fs_inv s \<Longrightarrow> tree_inv s' \<Longrightarrow> only_new_dirs s s' \<Longrightarrow> fs_kept P s s'"
  using only_new_dirs_refs [of s s'] by (simp add: fs_kept_def fs_inv_def only_new_dirs_touches)

lemma fs_kept_after_dirs:
  assumes "only_new_dirs s t" "fs_kept P t s'"
  shows "fs_kept P s s'"
  using assms only_new_dirs_refs(3) [OF assms(1)] touches_trans [OF only_new_dirs_touches [OF assms(1)]]
  by (auto simp: fs_kept_def drops_dead_def)

lemma fs_kept_mono: "fs_kept P s s' \<Longrightarrow> (\<And>q. P q \<Longrightarrow> Q q) \<Longrightarrow> fs_kept Q s s'"
  unfolding fs_kept_def by (blast intro: touches_mono)

text \<open>Ancestors first, then the rest of the call on a tree in which the parent is a directory.\<close>

lemma ensure_then:
  assumes inv: "fs_inv s" and p: "canonical p segs"
    and run: "cbind (clift (parent_of p)) (\<lambda>parent. cbind (ensure_directory_tree parent w now) (\<lambda>_. m)) s = (s', r)"
    and rest: "\<And>t. fs_inv t \<Longrightarrow> is_directory (path_of (butlast segs)) t \<Longrightarrow> only_new_dirs s t \<Longrightarrow> m t = (s', r) \<Longrightarrow> fs_kept P t s'"
  shows "fs_kept P s s'"
proof -
  have par: "parent_of p = Inr (path_of (butlast segs))" by (rule canonical_parent [OF p])
  obtain t q where ens: "ensure_directory_tree (path_of (butlast segs)) w now s = (t, q)" by fastforce
  have inv': "tree_inv s" using inv by (simp add: fs_inv_def)
  note e = ensure_directory_tree_inv [OF ens canonical_butlast [OF p] inv']
  then have t: "fs_inv t" "only_new_dirs s t" using only_new_dirs_refs [of s t] inv by (simp_all add: fs_inv_def)
  show ?thesis
  proof (cases q)
    case (Inl x)
    then have "s' = t" using run ens by (simp add: par cbind_def clift_def)
    then show ?thesis using fs_kept_dirs [OF inv] e by simp
  next
    case (Inr x)
    then have "m t = (s', r)" using run ens by (simp add: par cbind_def clift_def)
    then show ?thesis using rest [OF t(1) _ t(2)] Inr e fs_kept_after_dirs [OF t(2)] by simp
  qed
qed

definition placing :: "string \<Rightarrow> collision \<Rightarrow> fs_store \<Rightarrow> string \<Rightarrow> bool" where
  "placing p strategy s q \<longleftrightarrow> q = p \<or> strategy = CollideSuffix \<and> get_entry q s = None"

lemma placed_kept:
  assumes "placed p strategy final t s'" "only_new_dirs s t"
  shows "fs_kept (placing p strategy s) t s'"
proof -
  have "get_entry q t = None \<Longrightarrow> get_entry q s = None" for q
    using assms(2) by (auto simp: only_new_dirs_def get_entry_None)
  then show ?thesis
    using assms(1) touches_mono [of "\<lambda>q. q = final" t s' "placing p strategy s"]
    by (auto simp: placed_def fs_kept_def placing_def)
qed

section \<open>Directories\<close>

lemma normalize_nonroot:
  assumes "normalize_path raw = Inr p" "p \<noteq> root_path"
  shows "\<exists>segs. canonical p segs \<and> segs \<noteq> []"
  using normalize_canonical [OF assms(1)] assms(2) by (auto simp: canonical_def)

text \<open>The checks that open every write: the path is canonical, not the root, and the writer may write there.\<close>

lemma checked_cases:
  assumes "cbind (clift (normalize_path raw)) (\<lambda>p. cbind (cguard (p \<noteq> root_path) InvalidInput) (\<lambda>_.
     cbind (clift (can_write acl p w)) (\<lambda>wr. cbind (cguard wr Forbidden) (\<lambda>_. m p)))) s = (s', r)"
  shows "s' = s \<or> (\<exists>p segs. normalize_path raw = Inr p \<and> canonical p segs \<and> segs \<noteq> [] \<and> can_write acl p w = Inr True \<and>
     m p s = (s', r))"
  using assms normalize_nonroot [of raw]
  by (auto simp: cbind_def clift_def cguard_def guard_def split: sum.splits if_splits prod.splits)

lemma mkdir_kept:
  assumes inv: "fs_inv s" and run: "fs_mkdir acl path w recursive now s = (s', r)"
  shows "fs_kept (\<lambda>_. False) s s'"
proof (cases "s' = s")
  case True
  then show ?thesis using inv by (simp add: fs_kept_refl)
next
  case False
  obtain p segs where c: "canonical p segs" "segs \<noteq> []" and m: "(if recursive then ensure_directory_tree p w now
       else
         cbind (clift (parent_of p)) (\<lambda>parent.
         cbind (if parent = root_path then cret ()
                else cbind (cget (get_entry parent)) (\<lambda>row.
                  case row of
                    None \<Rightarrow> clift (Inl NotFound)
                  | Some r \<Rightarrow> cguard (fr_kind r = DirectoryKind) NotADirectory)) (\<lambda>_.
           create_directory_row p w now))) s = (s', r)"
    using checked_cases [OF run [unfolded fs_mkdir_def]] False by blast
  have inv': "tree_inv s" using inv by (simp add: fs_inv_def)
  show ?thesis
  proof (cases recursive)
    case True
    then have "ensure_directory_tree p w now s = (s', r)" using m by simp
    from ensure_directory_tree_inv [OF this c(1) inv'] show ?thesis by (intro fs_kept_dirs inv) simp_all
  next
    case rec: False
    with m False canonical_parent [OF c(1)] get_entry_Some [OF inv', of "path_of (butlast segs)"]
    have "is_directory (path_of (butlast segs)) s \<and> create_directory_row p w now s = (s', r)"
      by (auto simp: cbind_def clift_def cget_def cret_def cguard_def guard_def is_directory_def
          split: if_splits option.splits)
    with create_directory_row_inv [OF _ c inv', of w now s' r] show ?thesis
      by (intro fs_kept_dirs inv) simp_all
  qed
qed

text \<open>A member's name is one path segment.\<close>

lemma ensure_home_kept:
  assumes inv: "fs_inv s" and name: "CHR ''/'' \<notin> set name" "name \<noteq> []" and run: "ensure_home name now s = (s', r)"
  shows "fs_kept (\<lambda>_. False) s s'"
  using run unfolding ensure_home_def
proof (cases rule: clift_bindE)
  case throw
  then show ?thesis using inv by (simp add: fs_kept_refl)
next
  case (next_call home)
  have "join_path [path_of [], name] = Inr home" using next_call(1) by (simp add: root_path_def)
  from join_name [OF _ name this] have c: "canonical home [name]" by simp
  define row where "row = \<lparr>fr_path = home, fr_parent = root_path, fr_name = name, fr_kind = DirectoryKind, fr_owner = name,
     fr_hash = None, fr_size = None, fr_mime = None, fr_created = now, fr_created_by = name, fr_updated = now\<rparr>"
  have row: "row_ok row" "fr_path row = home" "fr_parent row = root_path" "fr_kind row = DirectoryKind" "fr_hash row = None"
    using c by (auto simp: row_def row_ok_def intro: exI [of _ "[name]"])
  from next_call(2) have alt: "s' = s \<or> get_entry home s = None \<and> insert_entry row s = (s', r)"
    by (auto simp: cget_bind cret_def row_def split: if_splits)
  show ?thesis
  proof (cases "s' = s")
    case True
    then show ?thesis using inv by (simp add: fs_kept_refl)
  next
    case False
    then have none: "get_entry home s = None" and ins: "insert_entry row s = (s', r)" using alt by auto
    have s': "s' = s\<lparr>fs_entries := fs_entries s @ [row]\<rparr>"
      using ins insert_entry_fail [of row s s'] insert_entry_iff [of row s s'] False by (cases r) auto
    have "tree_inv s'"
      by (rule tree_inv_insert [of s row]) (use inv row none s' in \<open>simp_all add: fs_inv_def is_directory_def\<close>)
    then show ?thesis using inv row s' by (intro fs_kept_dirs) (auto simp: only_new_dirs_def)
  qed
qed

lemma grant_kept:
  assumes inv: "fs_inv s" and run: "fs_grant path viewer via now s = (s', r)"
  shows "fs_kept (\<lambda>_. False) s s'"
proof -
  have "fs_entries s' = fs_entries s \<and> fs_blobs s' = fs_blobs s \<and> fs_dropped s' = fs_dropped s"
    using run by (auto simp: fs_grant_def cbind_def clift_def cguard_def cret_def cmod_def insert_grant_def
        split: prod.splits sum.splits if_splits)
  then show ?thesis
    using inv tree_inv_cong [of s' s]
    by (simp add: fs_kept_def fs_inv_def refs_inv_def refs_def blob_refcount_def touches_def)
qed

end
