(* ===== verification/FsMoves.thy ===== *)
theory FsMoves
  imports FsOps
begin

text \<open>Writing, copying, removing and moving keep the filesystem's invariant, each on its own entries.\<close>

section \<open>Writing and copying\<close>

text \<open>The blob store answers a hash that is not empty.\<close>

definition put_ok :: "blob_put \<Rightarrow> bool" where
  "put_ok put \<longleftrightarrow> (\<forall>src m h n. put src m = Inr (h, n) \<longrightarrow> h \<noteq> [])"

definition strategy_of :: "collision option \<Rightarrow> collision" where
  "strategy_of c = (case c of None \<Rightarrow> CollideError | Some c \<Rightarrow> c)"

definition write_scope :: "objective_acl \<Rightarrow> string \<Rightarrow> viewer \<Rightarrow> collision option \<Rightarrow> fs_store \<Rightarrow> string \<Rightarrow> bool" where
  "write_scope acl raw v c s q \<longleftrightarrow>
     (\<exists>p. normalize_path raw = Inr p \<and> can_write acl p v = Inr True \<and> placing p (strategy_of c) s q)"

lemma write_tx_kept:
  assumes "fs_inv t" "canonical p segs" "segs \<noteq> []" "is_directory (path_of (butlast segs)) t" "only_new_dirs s t" "h \<noteq> []"
    and "run_in_transaction (write_tx p c h sz mime w now) t = (t', q)"
  shows "fs_kept (placing p c s) t t'"
  using tx_outcome [OF assms(7)]
proof (elim disjE exE conjE)
  fix a assume "write_tx p c h sz mime w now t = (t', Inr a)"
  then have "placed p c (fst a) t t'"
    using write_tx_placed [OF assms(1-4,6), of c sz mime w now t' "fst a" "snd a"] by simp
  then show ?thesis using assms(5) by (rule placed_kept)
qed (use assms(1) fs_kept_refl in simp)

lemma copy_tx_kept:
  assumes "fs_inv t" "canonical p segs" "segs \<noteq> []" "is_directory (path_of (butlast segs)) t" "only_new_dirs s t" "h \<noteq> []"
    and "has_blob h t" "run_in_transaction (copy_tx p c h sz mime w now) t = (t', q)"
  shows "fs_kept (placing p c s) t t'"
  using tx_outcome [OF assms(8)]
proof (elim disjE exE conjE)
  fix a assume "copy_tx p c h sz mime w now t = (t', Inr a)"
  from copy_tx_placed [OF assms(1-4,6,7) this] show ?thesis using assms(5) by (rule placed_kept)
qed (use assms(1) fs_kept_refl in simp)

lemma write_file_kept:
  assumes inv: "fs_inv s" and put: "put_ok put" and run: "fs_write_file acl put input now s = (s', r)"
  shows "fs_kept (write_scope acl (wi_path input) (wi_writer input) (wi_collision input) s) s s'"
proof (cases "s' = s")
  case True
  then show ?thesis using inv by (simp add: fs_kept_refl)
next
  case False
  define c where "c = strategy_of (wi_collision input)"
  define rest where "rest p = cbind (clift (put (wi_source input) (wi_max_size input))) (\<lambda>(hash, sz).
     cbind (run_in_transaction (write_tx p c hash sz (wi_mime input) (wi_writer input) now)) (\<lambda>(final, renamed).
     cbind (cget (get_entry final)) (\<lambda>row.
       case row of None \<Rightarrow> clift (Inl Corrupt) | Some r \<Rightarrow> cret (row_to_entry r, renamed))))" for p
  obtain p segs where p: "normalize_path (wi_path input) = Inr p" "canonical p segs" "segs \<noteq> []"
      "can_write acl p (wi_writer input) = Inr True" and
    m: "cbind (clift (parent_of p)) (\<lambda>parent. cbind (ensure_directory_tree parent (wi_writer input) now) (\<lambda>_. rest p)) s = (s', r)"
    using checked_cases [OF run [unfolded fs_write_file_def]] False
    unfolding rest_def c_def strategy_of_def by blast
  have "fs_kept (placing p c s) s s'"
  proof (rule ensure_then [OF inv p(2) m])
    fix t assume t: "fs_inv t" "is_directory (path_of (butlast segs)) t" "only_new_dirs s t" and body: "rest p t = (s', r)"
    from body [unfolded rest_def] show "fs_kept (placing p c s) t s'"
    proof (cases rule: clift_bindE)
      case throw
      then show ?thesis using t(1) by (simp add: fs_kept_refl)
    next
      case (next_call hs)
      obtain h sz where hs: "hs = (h, sz)" by fastforce
      obtain t' q where tx: "run_in_transaction (write_tx p c h sz (wi_mime input) (wi_writer input) now) t = (t', q)"
        by fastforce
      then have "s' = t'" using next_call(2) unfolding hs
        by (auto simp: cbind_def cget_def clift_def cret_def split: sum.splits option.splits prod.splits)
      moreover have "h \<noteq> []" using put next_call(1) hs by (auto simp: put_ok_def)
      ultimately show ?thesis using write_tx_kept [OF t(1) p(2,3) t(2,3) _ tx] by simp
    qed
  qed
  then show ?thesis by (rule fs_kept_mono) (use p in \<open>auto simp: write_scope_def c_def\<close>)
qed

text \<open>A row's hash has a blob row, because the row counts as a reference.\<close>

lemma row_has_blob:
  assumes "fs_inv s" "r \<in> set (fs_entries s)" "fr_hash r = Some h"
  shows "has_blob h s \<and> h \<noteq> []"
proof -
  have "r \<in> set (filter (\<lambda>r. fr_hash r = Some h) (fs_entries s))" using assms by simp
  then have "0 < refs h s" unfolding refs_def by (metis length_pos_if_in_set)
  moreover have "int (refs h s) \<le> blob_refcount h s" using assms(1) by (simp add: fs_inv_def refs_inv_def)
  ultimately have "0 < blob_refcount h s" by simp
  then have "has_blob h s" by (auto simp: blob_refcount_def has_blob_def split: option.splits)
  moreover have "h \<noteq> []" using tree_invD(1) [of s r] assms by (auto simp: fs_inv_def row_ok_def split: if_splits)
  ultimately show ?thesis by simp
qed

lemma content_of_Inr:
  "(case fr_hash row of None \<Rightarrow> Inl Corrupt | Some h \<Rightarrow> (case fr_size row of None \<Rightarrow> Inl Corrupt
     | Some sz \<Rightarrow> if h = [] then Inl Corrupt else Inr (h, sz))) = Inr a \<longleftrightarrow>
   fr_hash row = Some (fst a) \<and> fr_size row = Some (snd a) \<and> fst a \<noteq> []"
  by (auto split: option.splits if_splits)

lemma copy_kept:
  assumes inv: "fs_inv s" and run: "fs_copy_by_blob_ref acl input now s = (s', r)"
  shows "fs_kept (write_scope acl (ci_dst input) (ci_viewer input) (ci_collision input) s) s s'"
proof (cases "s' = s")
  case True
  then show ?thesis using inv by (simp add: fs_kept_refl)
next
  case False
  define c where "c = strategy_of (ci_collision input)"
  define mime where "mime row = (case ci_mime input of Some m \<Rightarrow> m
     | None \<Rightarrow> (case fr_mime row of Some m \<Rightarrow> m | None \<Rightarrow> ''application/octet-stream''))" for row :: fs_row
  define rest where "rest p h sz row =
     cbind (run_in_transaction (copy_tx p c h sz (mime row) (ci_viewer input) now)) (\<lambda>final.
     cbind (cget (get_entry final)) (\<lambda>row. case row of None \<Rightarrow> clift (Inl Corrupt) | Some r \<Rightarrow> cret (row_to_entry r)))" for p h sz row
  have "\<exists>src p row h sz. normalize_path (ci_dst input) = Inr p \<and> p \<noteq> root_path \<and> can_write acl p (ci_viewer input) = Inr True \<and>
     get_entry src s = Some row \<and> fr_hash row = Some h \<and>
     (\<exists>parent. parent_of p = Inr parent \<and> cbind (ensure_directory_tree parent (ci_viewer input) now) (\<lambda>_. rest p h sz row) s = (s', r))"
    using run unfolding fs_copy_by_blob_ref_def strategy_of_def [symmetric] c_def [symmetric] mime_def [symmetric] rest_def [symmetric]
    by (simp add: bind_changed [OF False] cread_bind cget_bind from_option_Inr content_of_Inr case_prod_beta del: split_paired_Ex)
      (elim exE conjE, simp, blast)
  then obtain src p row h sz where p: "normalize_path (ci_dst input) = Inr p" "p \<noteq> root_path" "can_write acl p (ci_viewer input) = Inr True"
    and row: "get_entry src s = Some row" "fr_hash row = Some h" and
    m: "cbind (clift (parent_of p)) (\<lambda>parent. cbind (ensure_directory_tree parent (ci_viewer input) now) (\<lambda>_. rest p h sz row)) s = (s', r)"
    by (auto simp: bind_changed [OF False])
  obtain segs where segs: "canonical p segs" "segs \<noteq> []" using normalize_nonroot [OF p(1,2)] by blast
  have "row \<in> set (fs_entries s)" using row(1) get_entry_Some [of s src row] inv by (simp add: fs_inv_def)
  note h = row_has_blob [OF inv this row(2)]
  have "fs_kept (placing p c s) s s'"
  proof (rule ensure_then [OF inv segs(1) m])
    fix t assume t: "fs_inv t" "is_directory (path_of (butlast segs)) t" "only_new_dirs s t" and body: "rest p h sz row t = (s', r)"
    obtain t' q where tx: "run_in_transaction (copy_tx p c h sz (mime row) (ci_viewer input) now) t = (t', q)" by fastforce
    then have "s' = t'" using body unfolding rest_def
      by (auto simp: cbind_def cget_def clift_def cret_def split: sum.splits option.splits)
    moreover have "has_blob h t" using h only_new_dirs_refs(2) [OF t(3)] by (simp add: has_blob_def)
    ultimately show "fs_kept (placing p c s) t s'" using copy_tx_kept [OF t(1) segs t(2,3) _ _ tx] h by simp
  qed
  then show ?thesis by (rule fs_kept_mono) (use p in \<open>auto simp: write_scope_def c_def\<close>)
qed

end
