(* ===== verification/FsRemove.thy ===== *)
theory FsRemove
  imports FsMoves
begin

text \<open>Removal, what its \<open>LIKE\<close> pattern covers, and moves; then all operations together as a step relation.\<close>

section \<open>The LIKE pattern of a removal\<close>

lemma sql_like_percent [simp]: "sql_like ''%'' q"
  by (induction q) auto

lemma sql_like_prefix:
  "CHR ''%'' \<notin> set ps \<Longrightarrow> sql_like (ps @ ''%'') q \<longleftrightarrow> length ps \<le> length q \<and> sql_like ps (take (length ps) q)"
proof (induction ps arbitrary: q)
  case Nil
  then show ?case using sql_like_percent by simp
next
  case (Cons a ps)
  then show ?case by (cases q) auto
qed

lemma sql_like_self: "CHR ''%'' \<notin> set ps \<Longrightarrow> sql_like ps ps"
  by (induction ps) auto

lemma segment_no_percent: "segment_ok s \<Longrightarrow> CHR ''%'' \<notin> set s"
  by (auto simp: segment_ok_def list_all_iff segment_char_def name_char_def is_alnum_def is_lower_def is_upper_def is_digit_def)

lemma join_no_percent: "\<forall>p \<in> set ps. CHR ''%'' \<notin> set p \<Longrightarrow> c \<noteq> CHR ''%'' \<Longrightarrow> CHR ''%'' \<notin> set (js_join c ps)"
  by (induction c ps rule: js_join.induct) auto

lemma canonical_no_percent: "canonical p segs \<Longrightarrow> CHR ''%'' \<notin> set p"
  using join_no_percent [of segs "CHR ''/''"] segment_no_percent by (auto simp: canonical_def path_of_def list_all_iff)

text \<open>Whatever a removal of \<open>p\<close> covers.\<close>

definition removal_covers :: "string \<Rightarrow> string \<Rightarrow> bool" where
  "removal_covers p q \<longleftrightarrow> q = p \<or> sql_like (p @ ''/%'') q"

lemma removal_covers_child:
  assumes "CHR ''%'' \<notin> set p" "removal_covers p q"
  shows "removal_covers p (q @ ''/'' @ z)"
proof -
  have n: "CHR ''%'' \<notin> set (p @ ''/'')" using assms(1) by simp
  have like: "sql_like (p @ ''/%'') q \<longleftrightarrow> length (p @ ''/'') \<le> length q \<and> sql_like (p @ ''/'') (take (length (p @ ''/'')) q)" for q
    using sql_like_prefix [OF n, of q] by simp
  show ?thesis
  proof (cases "q = p")
    case True
    have "take (length (p @ ''/'')) (p @ ''/'' @ z) = p @ ''/''" by simp
    then show ?thesis using True like [of "p @ ''/'' @ z"] sql_like_self [OF n] by (simp add: removal_covers_def)
  next
    case False
    then have "sql_like (p @ ''/%'') q" using assms(2) by (simp add: removal_covers_def)
    then show ?thesis using like [of q] like [of "q @ ''/'' @ z"] by (auto simp: removal_covers_def)
  qed
qed

text \<open>A row's path is its parent's, a slash, and its name, unless the parent is the root.\<close>

lemma row_path:
  assumes "row_ok r" "fr_parent r \<noteq> root_path"
  shows "\<exists>z. fr_path r = fr_parent r @ ''/'' @ z"
proof -
  obtain segs where s: "segs \<noteq> []" "canonical (fr_path r) segs" "fr_parent r = path_of (butlast segs)"
    using assms(1) by (auto simp: row_ok_def)
  then have "butlast segs \<noteq> []" using assms(2) by auto
  then have "path_of segs = fr_parent r @ path_of [last segs]"
    using path_of_append [of "butlast segs" "[last segs]"] s by simp
  then show ?thesis using s(2) by (auto simp: canonical_def path_of_def)
qed

section \<open>Removing\<close>

lemma list_descendants_rows:
  "set (list_descendants p (p @ ''/%'') s) = {r \<in> set (fs_entries s). removal_covers p (fr_path r)}"
  by (simp add: list_descendants_def removal_covers_def)

lemma distinct_order_desc: "distinct (List.map k t) \<Longrightarrow> distinct (List.map k (order_desc f t))"
  by (simp add: distinct_map order_desc_def)

lemma remove_tx_kept:
  assumes inv: "fs_inv s" and p: "canonical p segs" "segs \<noteq> []" and target: "get_entry p s = Some target"
    and run: "remove_tx target p recursive s = (s', Inr ())"
  shows "fs_kept (removal_covers p) s s'"
proof -
  have tree: "tree_inv s" and refs: "refs_inv s" using inv by (simp_all add: fs_inv_def)
  have dist: "distinct (List.map fr_path (fs_entries s))" and ok: "\<forall>r \<in> set (fs_entries s). row_ok r"
    using tree by (auto simp: tree_inv_def)
  have t: "target \<in> set (fs_entries s)" "fr_path target = p" using target get_entry_Some [OF tree] by auto
  have only: "x = target" if "x \<in> set (fs_entries s)" "fr_path x = p" for x
    using dist t that by (auto dest: inj_onD simp: distinct_map)
  define rows where "rows = (if fr_kind target = FileKind then [target] else list_descendants p (p @ ''/%'') s)"
  have s': "s' = fold remove_row rows s" using run by (auto simp: remove_tx_def rows_def split: if_splits)
  have drows: "distinct (List.map fr_path rows)" "set rows \<subseteq> set (fs_entries s)"
    using dist t by (auto simp: rows_def list_descendants_def sql_all_def distinct_map_filter intro!: distinct_order_desc)
  note rem = remove_rows [OF refs dist ok drows, folded s']
  have covered: "removal_covers p (fr_path r)" if "r \<in> set rows" for r
    using that t list_descendants_rows [of p s] by (auto simp: rows_def removal_covers_def split: if_splits)
  have dirs: "fr_kind target = DirectoryKind \<Longrightarrow> r \<in> set (fs_entries s) \<Longrightarrow> removal_covers p (fr_path r) \<Longrightarrow> r \<in> set rows" for r
    using list_descendants_rows [of p s] by (simp add: rows_def)
  have es: "fs_entries s' = filter (\<lambda>x. fr_path x \<notin> fr_path ` set rows) (fs_entries s)" using rem by simp
  have parent: "is_directory (fr_parent r) s'" if r: "r \<in> set (fs_entries s')" for r
  proof (cases "fr_parent r = root_path")
    case False
    have rs: "r \<in> set (fs_entries s)" "fr_path r \<notin> fr_path ` set rows" using r es by auto
    then obtain d where d: "d \<in> set (fs_entries s)" "fr_path d = fr_parent r" "fr_kind d = DirectoryKind"
      using tree_invD(2) [OF tree rs(1)] False by (auto simp: is_directory_def)
    have "fr_path d \<notin> fr_path ` set rows"
    proof
      assume "fr_path d \<in> fr_path ` set rows"
      then obtain x where x: "x \<in> set rows" "fr_path x = fr_path d" by auto
      then have cov: "removal_covers p (fr_parent r)" using covered [OF x(1)] d(2) by simp
      have "x = d" using x d(1) drows(2) dist by (metis distinct_map inj_onD subsetD)
      then have dir: "fr_kind target = DirectoryKind" using x(1) d(3) by (cases "fr_kind target") (auto simp: rows_def)
      obtain z where "fr_path r = fr_parent r @ ''/'' @ z" using row_path ok rs(1) False by blast
      then have "removal_covers p (fr_path r)" using removal_covers_child [OF canonical_no_percent [OF p(1)] cov] by simp
      then have "r \<in> set rows" using dirs [OF dir rs(1)] by simp
      then show False using rs(2) by auto
    qed
    then have "d \<in> set (fs_entries s')" using d(1) es by simp
    then show ?thesis using d by (auto simp: is_directory_def)
  qed (simp add: is_directory_def)
  have "tree_inv s'"
    using dist ok parent es by (auto simp: tree_inv_def distinct_map_filter)
  moreover have "touches (removal_covers p) s s'" using covered es by (auto simp: touches_def)
  ultimately show ?thesis using rem by (simp add: fs_kept_def fs_inv_def)
qed

definition remove_scope :: "objective_acl \<Rightarrow> string \<Rightarrow> viewer \<Rightarrow> string \<Rightarrow> bool" where
  "remove_scope acl raw v q \<longleftrightarrow>
     (\<exists>p. normalize_path raw = Inr p \<and> can_write acl p v = Inr True \<and> removal_covers p q)"

lemma remove_kept:
  assumes inv: "fs_inv s" and run: "fs_remove acl path w recursive s = (s', r)"
  shows "fs_kept (remove_scope acl path w) s s'"
proof (cases "s' = s")
  case True
  then show ?thesis using inv by (simp add: fs_kept_refl)
next
  case False
  obtain p segs where p: "normalize_path path = Inr p" "canonical p segs" "segs \<noteq> []" "can_write acl p w = Inr True"
    and m: "cbind (cget (get_entry p)) (\<lambda>found. cbind (clift (from_option NotFound found)) (\<lambda>target.
       run_in_transaction (remove_tx target p recursive))) s = (s', r)"
    using checked_cases [OF run [unfolded fs_remove_def]] False by blast
  then obtain target where target: "get_entry p s = Some target" "run_in_transaction (remove_tx target p recursive) s = (s', r)"
    by (auto simp: cget_bind bind_changed [OF False] from_option_Inr)
  then have "remove_tx target p recursive s = (s', Inr ())" using tx_outcome [OF target(2)] False by auto
  from remove_tx_kept [OF inv p(2,3) target(1) this] show ?thesis
    by (rule fs_kept_mono) (use p in \<open>auto simp: remove_scope_def\<close>)
qed

section \<open>Moving\<close>

lemma refs_hashes: "List.map fr_hash (fs_entries t) = List.map fr_hash (fs_entries s) \<Longrightarrow> refs h t = refs h s"
proof -
  have c: "length (filter (\<lambda>r. fr_hash r = Some h) es) = length (filter (\<lambda>v. v = Some h) (List.map fr_hash es))" for es :: "fs_row list"
    by (induction es) auto
  show "List.map fr_hash (fs_entries t) = List.map fr_hash (fs_entries s) \<Longrightarrow> refs h t = refs h s"
    by (simp only: refs_def c)
qed

text \<open>Giving the row under one key a key that is free keeps the keys distinct.\<close>

lemma distinct_rekey:
  assumes "distinct (List.map k t)" "y \<notin> k ` set t" "\<And>r. k (f r) = y"
  shows "distinct (List.map k (sql_update (\<lambda>r. k r = x) f t))"
proof -
  have "List.map k (sql_update (\<lambda>r. k r = x) f t) = List.map (\<lambda>v. if v = x then y else v) (List.map k t)"
    using assms(3) by (simp add: sql_update_def)
  moreover have "inj_on (\<lambda>v. if v = x then y else v) (set (List.map k t))" using assms(2) by (auto simp: inj_on_def)
  ultimately show ?thesis using assms(1) by (metis distinct_map)
qed

lemma move_tx_kept:
  assumes inv: "fs_inv s" and dst: "canonical dst segs" "segs \<noteq> []" "is_directory (path_of (butlast segs)) s"
    and src: "get_entry src s = Some row" "fr_kind row = FileKind" and run: "move_tx src dst now s = (s', Inr ())"
  shows "fs_kept (\<lambda>q. q = src \<or> q = dst) s s' \<and>
    (\<exists>t. fs_entries s' = fs_entries t \<and> t = move_path dst (path_of (butlast segs)) (last segs) now src s)"
proof -
  have tree: "tree_inv s" using inv by (simp add: fs_inv_def)
  have dist: "distinct (List.map fr_path (fs_entries s))" and ok: "\<forall>r \<in> set (fs_entries s). row_ok r \<and> is_directory (fr_parent r) s"
    using tree by (auto simp: tree_inv_def)
  have row: "row \<in> set (fs_entries s)" "fr_path row = src" using src get_entry_Some [OF tree] by auto
  define f where "f = (\<lambda>r :: fs_row. r\<lparr>fr_path := dst, fr_parent := path_of (butlast segs), fr_name := last segs, fr_updated := now\<rparr>)"
  define t where "t = move_path dst (path_of (butlast segs)) (last segs) now src s"
  note run' = run [unfolded move_tx_def cget_bind, simplified cbind_def clift_def canonical_parent [OF dst(1)]
      canonical_basename [OF dst(1)] cmod_def cguard_def, simplified]
  have none: "get_entry dst s = None" using run' by (simp add: guard_def split: if_splits)
  then have "(case copy_grants dst src t of (u, Inl e) \<Rightarrow> (u, Inl e) | (u, Inr _) \<Rightarrow> (delete_grants_for_path src u, Inr ())) =
      (s', Inr ())"
    using run' dst(2) by (simp add: t_def)
  then have same: "fs_entries s' = fs_entries t" "fs_blobs s' = fs_blobs t" "fs_dropped s' = fs_dropped t"
    by (auto simp: copy_grants_def delete_grants_for_path_def Let_def split: if_splits)
  have t: "fs_entries t = sql_update (\<lambda>r. fr_path r = src) f (fs_entries s)" "fs_blobs t = fs_blobs s" "fs_dropped t = fs_dropped s"
    by (simp_all add: t_def move_path_def f_def)
  have f: "fr_path (f r) = dst" "fr_parent (f r) = path_of (butlast segs)" "fr_name (f r) = last segs" "fr_kind (f r) = fr_kind r"
    "fr_hash (f r) = fr_hash r" for r by (simp_all add: f_def)
  have "List.map fr_hash (fs_entries t) = List.map fr_hash (fs_entries s)" using f by (simp add: t sql_update_def)
  then have "refs h t = refs h s" for h by (rule refs_hashes)
  then have refs: "refs_inv s' \<and> drops_dead s s'"
    using inv same t by (simp add: refs_inv_def refs_def blob_refcount_def fs_inv_def)
  have only: "x = row" if "x \<in> set (fs_entries s)" "fr_path x = src" for x
    using dist row that by (auto dest: inj_onD simp: distinct_map)
  have free: "dst \<notin> fr_path ` set (fs_entries s)" using none by (auto simp: get_entry_None)
  have distt: "distinct (List.map fr_path (fs_entries t))"
    unfolding t(1) by (rule distinct_rekey [OF dist free]) (rule f(1))
  have dirs: "is_directory q s \<Longrightarrow> is_directory q s'" for q
  proof (cases "q = root_path")
    case False
    assume "is_directory q s"
    then obtain y where y: "y \<in> set (fs_entries s)" "fr_path y = q" "fr_kind y = DirectoryKind"
      using False by (auto simp: is_directory_def)
    then have "fr_path y \<noteq> src" using only [of y] src(2) by auto
    then have "y \<in> set (fs_entries s')" using y(1) by (force simp: same t set_sql_update)
    then show ?thesis using y by (auto simp: is_directory_def)
  qed (simp add: is_directory_def)
  have each: "row_ok x' \<and> is_directory (fr_parent x') s'" if x': "x' \<in> set (fs_entries s')" for x'
  proof -
    obtain x where x: "x \<in> set (fs_entries s)" "x' = (if fr_path x = src then f x else x)"
      using x' by (auto simp: same t set_sql_update)
    show ?thesis
    proof (cases "fr_path x = src")
      case True
      have "row_ok x" using ok x(1) by simp
      then have "row_ok (f x)" using dst by (auto simp: row_ok_def f)
      then show ?thesis using x(2) True dirs [OF dst(3)] by (simp add: f)
    next
      case False
      then show ?thesis using x ok dirs by simp
    qed
  qed
  have "tree_inv s'" using distt each by (simp add: tree_inv_def same)
  moreover have "touches (\<lambda>q. q = src \<or> q = dst) s s'"
    by (auto simp: touches_def same t set_sql_update f)
  ultimately show ?thesis using refs same(1) t_def by (auto simp: fs_kept_def fs_inv_def)
qed

definition move_scope :: "objective_acl \<Rightarrow> string \<Rightarrow> string \<Rightarrow> viewer \<Rightarrow> string \<Rightarrow> bool" where
  "move_scope acl from dest v q \<longleftrightarrow>
     (\<exists>p raw. raw \<in> {from, dest} \<and> normalize_path raw = Inr p \<and> can_write acl p v = Inr True \<and> q = p)"

lemma move_kept:
  assumes inv: "fs_inv s" and run: "fs_move acl from dest w now s = (s', r)"
  shows "fs_kept (move_scope acl from dest w) s s'"
proof (cases "s' = s")
  case True
  then show ?thesis using inv by (simp add: fs_kept_refl)
next
  case False
  define rest where "rest src dst = cbind (run_in_transaction (move_tx src dst now)) (\<lambda>_.
         cbind (cget (get_entry dst)) (\<lambda>moved. clift (map_sum id row_to_entry (from_option Corrupt moved))))" for src dst
  have "\<exists>src dst row. normalize_path from = Inr src \<and> normalize_path dest = Inr dst \<and> dst \<noteq> root_path \<and>
     can_write acl src w = Inr True \<and> can_write acl dst w = Inr True \<and> get_entry src s = Some row \<and> fr_kind row \<noteq> DirectoryKind \<and>
     (\<exists>parent. parent_of dst = Inr parent \<and> cbind (ensure_directory_tree parent w now) (\<lambda>_. rest src dst) s = (s', r))"
    using run False unfolding fs_move_def rest_def [symmetric]
    by (simp add: bind_changed [OF False] cget_bind from_option_Inr andThen_Inr if_distrib [of "\<lambda>m. m s"] cong: if_cong split: if_splits)
  then obtain src dst row parent where p: "normalize_path from = Inr src" "normalize_path dest = Inr dst" "dst \<noteq> root_path"
     "can_write acl src w = Inr True" "can_write acl dst w = Inr True" and row: "get_entry src s = Some row" "fr_kind row \<noteq> DirectoryKind"
    and m': "parent_of dst = Inr parent" "cbind (ensure_directory_tree parent w now) (\<lambda>_. rest src dst) s = (s', r)"
    by (elim exE conjE) (rule that)
  have m: "cbind (clift (parent_of dst)) (\<lambda>parent. cbind (ensure_directory_tree parent w now) (\<lambda>_. rest src dst)) s = (s', r)"
    using m' by (simp add: bind_changed [OF False])
  have kind: "fr_kind row = FileKind" using row(2) by (cases "fr_kind row") auto
  obtain segs where segs: "canonical dst segs" "segs \<noteq> []" using normalize_nonroot [OF p(2,3)] by blast
  have "fs_kept (\<lambda>q. q = src \<or> q = dst) s s'"
  proof (rule ensure_then [OF inv segs(1) m])
    fix t assume t: "fs_inv t" "is_directory (path_of (butlast segs)) t" "only_new_dirs s t" and body: "rest src dst t = (s', r)"
    obtain t' q where tx: "run_in_transaction (move_tx src dst now) t = (t', q)" by fastforce
    then have "s' = t'" using body unfolding rest_def
      by (auto simp: cbind_def cget_def clift_def split: sum.splits)
    moreover have "row \<in> set (fs_entries t)" "fr_path row = src"
      using row(1) get_entry_Some [of s src row] inv t(3) by (auto simp: fs_inv_def only_new_dirs_def)
    then have "get_entry src t = Some row" using get_entry_Some [of t src row] t(1) by (simp add: fs_inv_def)
    moreover have "fs_kept (\<lambda>q. q = src \<or> q = dst) t t'" if "get_entry src t = Some row"
      using tx_outcome [OF tx]
    proof (elim disjE exE conjE)
      fix u assume "move_tx src dst now t = (t', Inr u)"
      then have "move_tx src dst now t = (t', Inr ())" by simp
      from move_tx_kept [OF t(1) segs t(2) that kind this] show ?thesis by (rule conjunct1)
    qed (use t(1) fs_kept_refl in simp)
    ultimately show "fs_kept (\<lambda>q. q = src \<or> q = dst) t s'" by simp
  qed
  then show ?thesis by (rule fs_kept_mono) (use p in \<open>auto simp: move_scope_def\<close>)
qed

end
