(* ===== verification/FsCalls.thy ===== *)
theory FsCalls
  imports FsRemove
begin

text \<open>
  The operations of the team filesystem gathered: what each may touch, the step relation they make, and
  the facts about single results that the properties rest on.
\<close>

section \<open>All operations\<close>

datatype fs_op =
    OpWrite write_input
  | OpCopy copy_input
  | OpMkdir string viewer bool
  | OpRemove string viewer bool
  | OpMove string string viewer
  | OpGrant string string string
  | OpHome string

definition quiet :: "'a fs_call \<Rightarrow> unit fs_call" where
  "quiet m s = (case m s of (s', r) \<Rightarrow> (s', map_sum id (\<lambda>_. ()) r))"

fun fs_exec :: "objective_acl \<Rightarrow> blob_put \<Rightarrow> int \<Rightarrow> fs_op \<Rightarrow> unit fs_call" where
  "fs_exec acl put now (OpWrite input) = quiet (fs_write_file acl put input now)"
| "fs_exec acl put now (OpCopy input) = quiet (fs_copy_by_blob_ref acl input now)"
| "fs_exec acl put now (OpMkdir path v recursive) = quiet (fs_mkdir acl path v recursive now)"
| "fs_exec acl put now (OpRemove path v recursive) = fs_remove acl path v recursive"
| "fs_exec acl put now (OpMove from dest v) = quiet (fs_move acl from dest v now)"
| "fs_exec acl put now (OpGrant path viewer via) = fs_grant path viewer via now"
| "fs_exec acl put now (OpHome name) = ensure_home name now"

text \<open>The paths an operation may change a file at: all of them writable for the member who asks.\<close>

fun fs_scope :: "objective_acl \<Rightarrow> fs_op \<Rightarrow> fs_store \<Rightarrow> string \<Rightarrow> bool" where
  "fs_scope acl (OpWrite input) s q = write_scope acl (wi_path input) (wi_writer input) (wi_collision input) s q"
| "fs_scope acl (OpCopy input) s q = write_scope acl (ci_dst input) (ci_viewer input) (ci_collision input) s q"
| "fs_scope acl (OpRemove path v recursive) s q = remove_scope acl path v q"
| "fs_scope acl (OpMove from dest v) s q = move_scope acl from dest v q"
| "fs_scope acl op s q = False"

text \<open>A home is made for a member, whose name is one path segment.\<close>

fun op_ok :: "fs_op \<Rightarrow> bool" where
  "op_ok (OpHome name) = (name \<noteq> [] \<and> CHR ''/'' \<notin> set name)"
| "op_ok op = True"

lemma quiet_run: "quiet m s = (s', r) \<Longrightarrow> \<exists>q. m s = (s', q)"
  by (auto simp: quiet_def split: prod.splits)

lemma fs_exec_kept:
  assumes inv: "fs_inv s" and put: "put_ok put" and ok: "op_ok op" and run: "fs_exec acl put now op s = (s', r)"
  shows "fs_kept (fs_scope acl op s) s s'"
proof (cases op)
  case (OpWrite input)
  with run obtain q where "fs_write_file acl put input now s = (s', q)" by (auto dest: quiet_run)
  from write_file_kept [OF inv put this] show ?thesis using OpWrite by (auto elim: fs_kept_mono)
next
  case (OpCopy input)
  with run obtain q where "fs_copy_by_blob_ref acl input now s = (s', q)" by (auto dest: quiet_run)
  from copy_kept [OF inv this] show ?thesis using OpCopy by (auto elim: fs_kept_mono)
next
  case (OpMkdir path v recursive)
  with run obtain q where "fs_mkdir acl path v recursive now s = (s', q)" by (auto dest: quiet_run)
  from mkdir_kept [OF inv this] show ?thesis by (rule fs_kept_mono) simp
next
  case (OpRemove path v recursive)
  with remove_kept [OF inv, of acl path v recursive s' r] run show ?thesis by (auto elim: fs_kept_mono)
next
  case (OpMove src dest v)
  with run obtain q where "fs_move acl src dest v now s = (s', q)" by (auto dest: quiet_run)
  from move_kept [OF inv this] show ?thesis using OpMove by (auto elim: fs_kept_mono)
next
  case (OpGrant path viewer via)
  with grant_kept [OF inv, of path viewer via now s' r] run show ?thesis by (auto elim: fs_kept_mono)
next
  case (OpHome name)
  with ensure_home_kept [OF inv, of name now s' r] run ok show ?thesis by (auto elim: fs_kept_mono)
qed

section \<open>The filesystem as a system\<close>

inductive fs_step :: "fs_store \<Rightarrow> fs_store \<Rightarrow> bool" where
  fs_call_made: "put_ok put \<Longrightarrow> op_ok op \<Longrightarrow> fs_exec acl put now op s = (s', r) \<Longrightarrow> fs_step s s'"

definition fs_empty :: fs_store where
  "fs_empty = \<lparr>fs_entries = [], fs_blobs = [], fs_grants = [], fs_dropped = []\<rparr>"

lemma fs_inv_empty: "fs_inv fs_empty"
  by (simp add: fs_inv_def tree_inv_def refs_inv_def refs_def blob_refcount_def fs_empty_def sql_get_def)

interpretation fs_system: invariant_system fs_step fs_inv
  by unfold_locales (auto elim!: fs_step.cases dest!: fs_exec_kept simp: fs_kept_def)

lemma fs_reachable_inv: "rtranclp fs_step fs_empty s \<Longrightarrow> fs_inv s"
  using fs_inv_empty by (rule fs_system.run_preserved [rotated])

section \<open>Reading\<close>

lemma with_capability_spec:
  "with_capability acl v r = Inr e \<Longrightarrow> fe_path e = fr_path r \<and> fe_hash e = fr_hash r \<and> fe_kind e = fr_kind r \<and>
    (\<exists>w. fe_can_write e = Some w \<and> can_write acl (fr_path r) v = Inr w)"
  by (auto simp: with_capability_def row_to_entry_def andThen_Inr)

lemma fs_stat_spec:
  assumes "fs_inv s" "fs_stat acl path v s = Inr (Some e)"
  shows "\<exists>r \<in> set (fs_entries s). normalize_path path = Inr (fr_path r) \<and> can_read acl s (fr_path r) v = Inr True \<and>
    with_capability acl v r = Inr e"
proof -
  obtain p r where "normalize_path path = Inr p" "can_read acl s p v = Inr True" "get_entry p s = Some r" "with_capability acl v r = Inr e"
    using assms(2) by (auto simp: fs_stat_def andThen_Inr guard_Inr split: option.splits)
  then show ?thesis using get_entry_Some [of s p r] assms(1) by (auto simp: fs_inv_def)
qed


end
