(* ===== verification/FsResults.thy ===== *)
theory FsResults
  imports FsCalls
begin

text \<open>What a call that returned has done: the shape of a successful write, move, removal and recursive mkdir.\<close>

section \<open>Directories\<close>

lemma directories_above:
  assumes "tree_inv s" "canonical p segs" "is_directory p s"
  shows "is_directory (path_of (take k segs)) s"
  using assms
proof (induction segs arbitrary: p rule: rev_induct)
  case Nil
  then show ?case by (simp add: is_directory_def)
next
  case (snoc x segs)
  have p: "p = path_of (segs @ [x])" using snoc.prems(2) by (simp add: canonical_def)
  have "is_directory (path_of segs) s"
  proof (cases "p = root_path")
    case True
    then have "segs @ [x] = []" using snoc.prems(2) path_of_root [of "segs @ [x]"] p by (simp add: canonical_def)
    then show ?thesis by simp
  next
    case False
    then obtain r where r: "r \<in> set (fs_entries s)" "fr_path r = p" using snoc.prems(3) by (auto simp: is_directory_def)
    obtain rs where rs: "canonical (fr_path r) rs" "fr_parent r = path_of (butlast rs)"
      using tree_invD(1) [OF snoc.prems(1) r(1)] by (auto simp: row_ok_def)
    have "rs = segs @ [x]" using rs(1) snoc.prems(2) r(2) path_of_inj by (auto simp: canonical_def)
    then show ?thesis using tree_invD(2) [OF snoc.prems(1) r(1)] rs(2) by simp
  qed
  moreover have "canonical (path_of segs) segs" using canonical_butlast [OF snoc.prems(2)] by simp
  ultimately show ?case
    using snoc.IH [of "path_of segs"] snoc.prems(1,3) p by (cases "k \<le> length segs") auto
qed

text \<open>No file lies on the way to the path.\<close>

definition no_file_on :: "string list \<Rightarrow> fs_store \<Rightarrow> bool" where
  "no_file_on segs s \<longleftrightarrow> (\<forall>k. \<forall>r \<in> set (fs_entries s). fr_path r = path_of (take k segs) \<longrightarrow> fr_kind r = DirectoryKind)"

lemma ensure_directory_tree_total:
  assumes "canonical path segs" "tree_inv s" "no_file_on segs s"
  shows "\<exists>s' e. ensure_directory_tree path writer now s = (s', Inr e)"
  using assms
proof (induction segs arbitrary: path rule: rev_induct)
  case Nil
  then show ?case by (auto simp: canonical_def ensure_directory_tree.simps)
next
  case (snoc x segs)
  note c = snoc.prems(1)
  have path: "path = path_of (segs @ [x])" "path \<noteq> root_path" 
    using c path_of_root [of "segs @ [x]"] by (simp_all add: canonical_def)
  show ?case
  proof (cases "get_entry path s")
    case (Some r)
    then have "r \<in> set (fs_entries s)" "fr_path r = path_of (take (length (segs @ [x])) (segs @ [x]))"
      using get_entry_Some [OF snoc.prems(2)] path by auto
    then have "fr_kind r = DirectoryKind" using snoc.prems(3) unfolding no_file_on_def by blast
    then show ?thesis using Some path(2) by (simp add: ensure_directory_tree.simps [of path])
  next
    case None
    have cp: "canonical (path_of segs) segs" using canonical_butlast [OF c] by simp
    have parent: "parent_of path = Inr (path_of segs)" using canonical_parent [OF c] by simp
    have "no_file_on segs s"
      unfolding no_file_on_def
    proof (intro allI ballI impI)
      fix k r assume r: "r \<in> set (fs_entries s)" "fr_path r = path_of (take k segs)"
      have "take k segs = take (min k (length segs)) (segs @ [x])" by (simp add: min_def)
      then show "fr_kind r = DirectoryKind" using snoc.prems(3) r unfolding no_file_on_def by metis
    qed
    from snoc.IH [OF cp snoc.prems(2) this] obtain t e where
      t: "ensure_directory_tree (path_of segs) writer now s = (t, Inr e)" by blast
    note tt = ensure_directory_tree_inv [OF t cp snoc.prems(2)]
    obtain s' q where run: "create_directory_row path writer now t = (s', q)" by fastforce
    have kind: "fr_kind r = DirectoryKind" if r: "get_entry path t = Some r" for r
    proof -
      have "r \<in> set (fs_entries t)" "fr_path r = path" using get_entry_Some [of t path r] tt r by auto
      moreover have "r \<notin> set (fs_entries s)" using None \<open>fr_path r = path\<close> by (auto simp: get_entry_None)
      ultimately show ?thesis using tt by (auto simp: only_new_dirs_def)
    qed
    have "\<exists>e. q = Inr e"
    proof (cases "get_entry path t")
      case None
      then show ?thesis using create_directory_row_cases [OF run c] by (auto simp: Let_def)
    next
      case (Some r)
      then show ?thesis using run path(2) kind [OF Some] by (auto simp: create_directory_row_def)
    qed
    then show ?thesis using t run None path(2) parent by (auto simp: ensure_directory_tree.simps [of path])
  qed
qed

section \<open>Successful writes\<close>

lemma can_write_reads: "can_write acl p v = Inr True \<Longrightarrow> can_read acl s p v = Inr True"
  by (cases "owns_path p v"; cases "is_objective_member acl p v") (auto simp: can_write_def can_read_def split: if_splits)

text \<open>The row a successful placement leaves at the final path.\<close>

lemma get_entry_inc [simp]: "get_entry p (inc_ref h s) = get_entry p s" "get_entry p (upsert_blob h n t s) = get_entry p s"
    "get_entry p (decrement_and_maybe_drop_blob h s) = get_entry p s"
  by (simp_all add: get_entry_def)

lemma get_updated:
  "get_entry p s = Some row \<Longrightarrow> get_entry p (update_entry_content h sz mime now p s) =
     Some (row\<lparr>fr_hash := Some h, fr_size := Some sz, fr_mime := Some mime, fr_updated := now\<rparr>)"
  by (simp add: get_entry_def update_entry_content_def sql_get_update_key [where k = fr_path])

lemma store_reference_row:
  assumes "store_reference final existing h sz mime writer now s = (s', Inr ())"
    and "\<forall>row. existing = Some row \<longrightarrow> get_entry final s = Some row \<and> fr_kind row = FileKind"
  shows "\<exists>row. get_entry final s' = Some row \<and> fr_hash row = Some h \<and> fr_size row = Some sz \<and> fr_kind row = FileKind"
proof (cases existing)
  case None
  obtain owner parent name t where
    ins: "insert_entry (file_row final parent name owner h sz mime writer now) s = (t, Inr ())" and s': "s' = inc_ref h t"
  proof -
    from assms(1) None show ?thesis
      unfolding store_reference_def option.case
      by (simp add: cbind_Inr cmod_iff) (elim exE conjE, rule that, assumption+)
  qed
  define row where "row = file_row final parent name owner h sz mime writer now"
  have f: "fr_path row = final" "fr_hash row = Some h" "fr_size row = Some sz" "fr_kind row = FileKind"
    by (simp_all add: row_def file_row_def)
  have t: "get_entry final s = None" "t = s\<lparr>fs_entries := fs_entries s @ [row]\<rparr>"
    using ins f(1) unfolding row_def [symmetric] by (simp_all add: insert_entry_iff)
  then have "get_entry final t = Some row"
    using f(1) by (simp add: get_entry_def sql_get_append) (simp add: sql_get_def)
  then show ?thesis using f s' by simp
next
  case (Some row)
  have row: "get_entry final s = Some row" "fr_kind row = FileKind" using assms(2) Some by auto
  have s': "s' = (let s1 = inc_ref h (update_entry_content h sz mime now final s)
            in case fr_hash row of
                 None \<Rightarrow> s1
               | Some prior \<Rightarrow> if prior \<noteq> [] \<and> prior \<noteq> h then decrement_and_maybe_drop_blob prior s1 else s1)"
    using assms(1) by (simp add: Some store_reference_def cmod_def)
  have "get_entry final s' = get_entry final (update_entry_content h sz mime now final s)"
    unfolding s' Let_def by (simp split: option.split)
  then show ?thesis using get_updated [OF row(1)] row(2) by simp
qed

lemma write_success:
  assumes inv: "fs_inv s" and put: "put_ok put" and run: "fs_write_file acl put input now s = (s', Inr (e, renamed))"
  shows "\<exists>p segs t h sz final row. normalize_path (wi_path input) = Inr p \<and> canonical p segs \<and> segs \<noteq> [] \<and>
     can_write acl p (wi_writer input) = Inr True \<and> fs_inv t \<and> only_new_dirs s t \<and> is_directory (path_of (butlast segs)) t \<and>
     put (wi_source input) (wi_max_size input) = Inr (h, sz) \<and> h \<noteq> [] \<and>
     write_tx p (strategy_of (wi_collision input)) h sz (wi_mime input) (wi_writer input) now t = (s', Inr (final, renamed)) \<and>
     get_entry final s' = Some row \<and> e = row_to_entry row"
proof -
  define fin where "fin = (\<lambda>(final, renamed). cbind (cget (get_entry final)) (\<lambda>row.
         case row of None \<Rightarrow> clift (Inl Corrupt) | Some r \<Rightarrow> cret (row_to_entry r, renamed :: bool)))"
  define tail where "tail p = cbind (clift (put (wi_source input) (wi_max_size input))) (\<lambda>(hash, sz).
     cbind (run_in_transaction (write_tx p (strategy_of (wi_collision input)) hash sz (wi_mime input) (wi_writer input) now)) fin)" for p
  obtain p parent d t where p: "normalize_path (wi_path input) = Inr p" "p \<noteq> root_path" "can_write acl p (wi_writer input) = Inr True"
    and parent: "parent_of p = Inr parent" and ens: "ensure_directory_tree parent (wi_writer input) now s = (t, Inr d)"
    and rest: "tail p t = (s', Inr (e, renamed))"
    using run unfolding fs_write_file_def strategy_of_def [symmetric] fin_def [symmetric] tail_def [symmetric]
    by (auto simp: cbind_Inr)
  obtain h sz where hs: "put (wi_source input) (wi_max_size input) = Inr (h, sz)"
    and rest': "cbind (run_in_transaction (write_tx p (strategy_of (wi_collision input)) h sz (wi_mime input) (wi_writer input) now)) fin t
       = (s', Inr (e, renamed))"
    using rest unfolding tail_def by (cases rule: cbindE) (auto simp: clift_def)
  obtain u final ren where tx: "write_tx p (strategy_of (wi_collision input)) h sz (wi_mime input) (wi_writer input) now t = (u, Inr (final, ren))"
    and f: "fin (final, ren) u = (s', Inr (e, renamed))"
    using rest' by (cases rule: cbindE) (auto simp: run_in_transaction_commit)
  then obtain row where "u = s'" "ren = renamed" and row: "get_entry final s' = Some row" "e = row_to_entry row"
    by (auto simp: fin_def cget_bind cret_def clift_def split: option.splits)
  with tx have tx: "write_tx p (strategy_of (wi_collision input)) h sz (wi_mime input) (wi_writer input) now t = (s', Inr (final, renamed))"
    by simp
  obtain segs where segs: "canonical p segs" "segs \<noteq> []" using normalize_nonroot [OF p(1,2)] by blast
  have par: "parent = path_of (butlast segs)" using parent canonical_parent [OF segs(1)] by simp
  have tree: "tree_inv s" using inv by (simp add: fs_inv_def)
  note e = ensure_directory_tree_inv [OF ens [unfolded par] canonical_butlast [OF segs(1)] tree]
  then have "fs_inv t" using only_new_dirs_refs(5) [of s t] inv by (simp add: fs_inv_def)
  moreover have "h \<noteq> []" using put hs by (auto simp: put_ok_def)
  ultimately show ?thesis using p segs hs tx row e par by blast
qed

section \<open>Successful moves and removals\<close>

lemma move_success:
  assumes inv: "fs_inv s" and run: "fs_move acl from dest w now s = (s', Inr e)"
    and p: "normalize_path from = Inr src" "normalize_path dest = Inr dst" "src \<noteq> dst"
  shows "\<exists>segs t row. canonical dst segs \<and> segs \<noteq> [] \<and> fs_inv t \<and> only_new_dirs s t \<and>
     is_directory (path_of (butlast segs)) t \<and> get_entry src s = Some row \<and> get_entry src t = Some row \<and> fr_kind row = FileKind \<and>
     can_write acl src w = Inr True \<and> can_write acl dst w = Inr True \<and> move_tx src dst now t = (s', Inr ()) \<and>
     from_option Corrupt (get_entry dst s') = Inr (the (get_entry dst s')) \<and> e = row_to_entry (the (get_entry dst s'))"
proof -
  define fin where "fin = (\<lambda>_ :: unit. cbind (cget (get_entry dst)) (\<lambda>moved. clift (map_sum id row_to_entry (from_option Corrupt moved))))"
  define tail where "tail = cbind (run_in_transaction (move_tx src dst now)) (\<lambda>_. cbind (cget (get_entry dst)) (\<lambda>moved.
     clift (map_sum id row_to_entry (from_option Corrupt moved))))"
  have tail_fin: "tail = cbind (run_in_transaction (move_tx src dst now)) fin" by (simp add: tail_def fin_def)
  have "\<exists>row parent d t. dst \<noteq> root_path \<and> get_entry src s = Some row \<and> fr_kind row \<noteq> DirectoryKind \<and>
    can_write acl src w = Inr True \<and> can_write acl dst w = Inr True \<and> parent_of dst = Inr parent \<and>
    ensure_directory_tree parent w now s = (t, Inr d) \<and> tail t = (s', Inr e)"
    using run p(3) unfolding fs_move_def
    by (auto simp: cbind_Inr p(1,2) from_option_Inr andThen_Inr tail_def split: if_splits)
  then obtain row parent d t where ne: "dst \<noteq> root_path" and row: "get_entry src s = Some row" "fr_kind row \<noteq> DirectoryKind"
    and w: "can_write acl src w = Inr True" "can_write acl dst w = Inr True"
    and parent: "parent_of dst = Inr parent" and ens: "ensure_directory_tree parent w now s = (t, Inr d)"
    and tail: "cbind (run_in_transaction (move_tx src dst now)) fin t = (s', Inr e)"
    unfolding tail_fin by blast
  obtain u where tx: "move_tx src dst now t = (u, Inr ())" and f: "fin () u = (s', Inr e)"
    using tail by (cases rule: cbindE) (auto simp: run_in_transaction_commit)
  have e: "u = s'" "get_entry dst s' \<noteq> None" "e = row_to_entry (the (get_entry dst s'))"
    using f by (auto simp: fin_def cget_bind clift_def from_option_def split: option.splits)
  obtain segs where segs: "canonical dst segs" "segs \<noteq> []" using normalize_nonroot [OF p(2) ne] by blast
  have par: "parent = path_of (butlast segs)" using parent canonical_parent [OF segs(1)] by simp
  have tree: "tree_inv s" using inv by (simp add: fs_inv_def)
  note k = ensure_directory_tree_inv [OF ens [unfolded par] canonical_butlast [OF segs(1)] tree]
  then have t: "fs_inv t" using only_new_dirs_refs(5) [of s t] inv by (simp add: fs_inv_def)
  have "row \<in> set (fs_entries t)" "fr_path row = src"
    using row(1) get_entry_Some [OF tree] k by (auto simp: only_new_dirs_def)
  then have "get_entry src t = Some row" using get_entry_Some [of t src row] t by (simp add: fs_inv_def)
  moreover have "fr_kind row = FileKind" using row(2) by (cases "fr_kind row") auto
  moreover have "from_option Corrupt (get_entry dst s') = Inr (the (get_entry dst s'))" using e(2) by auto
  ultimately show ?thesis using segs t k row(1) w tx e(1,3) by blast
qed

lemma remove_success:
  assumes inv: "fs_inv s" and run: "fs_remove acl path w recursive s = (s', Inr ())" and p: "normalize_path path = Inr p"
  shows "\<exists>target segs. canonical p segs \<and> segs \<noteq> [] \<and> can_write acl p w = Inr True \<and> get_entry p s = Some target \<and>
     remove_tx target p recursive s = (s', Inr ())"
proof -
  obtain target where t: "p \<noteq> root_path" "can_write acl p w = Inr True" "get_entry p s = Some target"
    "run_in_transaction (remove_tx target p recursive) s = (s', Inr ())"
    using run unfolding fs_remove_def by (auto simp: cbind_Inr p from_option_Inr)
  obtain segs where "canonical p segs" "segs \<noteq> []" using normalize_nonroot [OF p t(1)] by blast
  with t show ?thesis by (auto simp: run_in_transaction_commit)
qed

end
