(* ===== verification/FsTheorems.thy ===== *)
theory FsTheorems
  imports FsResults
begin

text \<open>
  The properties of the team filesystem, with concrete runs that show their hypotheses can hold.
\<close>

section \<open>Concrete stores\<close>

definition fs_run :: "objective_acl \<Rightarrow> blob_put \<Rightarrow> int \<Rightarrow> fs_op list \<Rightarrow> fs_store \<Rightarrow> fs_store" where
  "fs_run acl put now ops s = fold (\<lambda>op s. fst (fs_exec acl put now op s)) ops s"

lemma fs_run_reachable:
  "rtranclp fs_step s0 s \<Longrightarrow> put_ok put \<Longrightarrow> list_all op_ok ops \<Longrightarrow> rtranclp fs_step s0 (fs_run acl put now ops s)"
proof (induction ops arbitrary: s)
  case (Cons op ops)
  obtain s' r where e: "fs_exec acl put now op s = (s', r)" by fastforce
  then have "fs_step s s'" using Cons.prems by (auto intro: fs_call_made)
  then have "rtranclp fs_step s0 s'" using Cons.prems(1) by simp
  then show ?case using Cons.IH [of s'] Cons.prems e by (simp add: fs_run_def)
qed (simp add: fs_run_def)

text \<open>A blob store that answers a tag of the text itself, and two members.\<close>

definition demo_put :: blob_put where "demo_put src m = Inr (CHR ''h'' # src, int (length src))"
definition ada :: viewer where "ada = \<lparr>vw_name = ''ada'', vw_permissions = []\<rparr>"
definition bob :: viewer where "bob = \<lparr>vw_name = ''bob'', vw_permissions = []\<rparr>"
definition put_text :: "viewer \<Rightarrow> string \<Rightarrow> string \<Rightarrow> collision option \<Rightarrow> write_input" where
  "put_text v path txt c =
     \<lparr>wi_path = path, wi_mime = ''text/plain'', wi_writer = v, wi_source = txt, wi_collision = c, wi_max_size = None\<rparr>"

definition demo_acl :: objective_acl where "demo_acl = Some (\<lambda>oid name. oid = ''o1'' \<and> name = ''ada'')"

definition demo_ops :: "fs_op list" where
  "demo_ops = [OpHome ''ada'', OpWrite (put_text ada ''/ada/a_b/x.txt'' ''one'' None),
     OpWrite (put_text ada ''/ada/axb/y.txt'' ''two'' None)]"

definition demo_store :: fs_store where "demo_store = fs_run demo_acl demo_put 5 demo_ops fs_empty"

lemma demo_put_ok: "put_ok demo_put"
  by (simp add: put_ok_def demo_put_def)

lemma demo_fs_reachable: "rtranclp fs_step fs_empty demo_store"
  unfolding demo_store_def by (rule fs_run_reachable) (simp_all add: demo_put_ok demo_ops_def)

section \<open>Invariants\<close>



text \<open>
  C7. Content is handed to deletion only when nothing refers to it: after any call on any reachable store,
  each hash the call asked the blob store to delete is the content of no entry, and for every hash the
  reference count on record is at least the number of entries with that content.
\<close>

theorem fs_live_content_kept:
  assumes "rtranclp fs_step fs_empty s" "fs_step s s'"
  shows "\<exists>dropped. fs_dropped s' = fs_dropped s @ dropped \<and>
      (\<forall>h \<in> set dropped. \<forall>r \<in> set (fs_entries s'). fr_hash r \<noteq> Some h) \<and>
      (\<forall>h. int (length (filter (\<lambda>r. fr_hash r = Some h) (fs_entries s'))) \<le> blob_refcount h s')"
proof -
  have "fs_inv s' \<and> drops_dead s s'"
    using assms(2) fs_reachable_inv [OF assms(1)] by (auto elim!: fs_step.cases dest!: fs_exec_kept simp: fs_kept_def)
  then show ?thesis by (auto simp: fs_inv_def refs_inv_def drops_dead_def refs_def filter_empty_conv)
qed

theorem fs_live_content_kept_witness:
  "(\<exists>dropped. fs_dropped (fst (fs_exec demo_acl demo_put 6 (OpRemove ''/ada/a_b/x.txt'' ada False) demo_store)) =
      fs_dropped demo_store @ dropped) \<and>
   fs_dropped (fst (fs_exec demo_acl demo_put 6 (OpRemove ''/ada/a_b/x.txt'' ada False) demo_store)) = [''hone'']"
proof
  define s' where "s' = fst (fs_exec demo_acl demo_put 6 (OpRemove ''/ada/a_b/x.txt'' ada False) demo_store)"
  obtain r where r: "fs_exec demo_acl demo_put 6 (OpRemove ''/ada/a_b/x.txt'' ada False) demo_store = (s', r)"
    by (metis s'_def prod.collapse)
  have "fs_step demo_store s'" by (rule fs_call_made [OF demo_put_ok _ r]) simp
  from fs_live_content_kept [OF demo_fs_reachable this]
  show "\<exists>dropped. fs_dropped (fst (fs_exec demo_acl demo_put 6 (OpRemove ''/ada/a_b/x.txt'' ada False) demo_store)) =
      fs_dropped demo_store @ dropped" unfolding s'_def by blast
next
  show "fs_dropped (fst (fs_exec demo_acl demo_put 6 (OpRemove ''/ada/a_b/x.txt'' ada False) demo_store)) = [''hone'']"
    by code_simp
qed

section \<open>Who may change what\<close>

text \<open>
  C0. A call changes only entries its caller may write. Every entry that was there and is not there unchanged
  afterwards, and every file that is new, lies in the call's scope: for a write or a copy the requested path,
  or, when the collision strategy is suffix, a path that was free; for a removal the path and what its
  \<open>LIKE\<close> pattern covers; for a move its two paths; and the requested paths are writable for the caller.
  Making a directory, a home or a grant changes no entry and creates no file.
\<close>

theorem fs_calls_confined:
  assumes "rtranclp fs_step fs_empty s" "put_ok put" "op_ok op" "fs_exec acl put now op s = (s', r)"
  shows "(\<forall>row \<in> set (fs_entries s) - set (fs_entries s'). fs_scope acl op s (fr_path row)) \<and>
    (\<forall>row \<in> set (fs_entries s') - set (fs_entries s). fr_kind row = FileKind \<longrightarrow> fs_scope acl op s (fr_path row))"
  using fs_exec_kept [OF fs_reachable_inv [OF assms(1)] assms(2-4)]
  by (auto simp: fs_kept_def touches_def)

theorem fs_calls_confined_witness:
  "fs_scope demo_acl (OpWrite (put_text bob ''/ada/a_b/x.txt'' ''three'' (Some CollideOverwrite))) demo_store ''/ada/a_b/x.txt'' = False \<and>
   (\<exists>row \<in> set (fs_entries (fst (fs_exec demo_acl demo_put 7
       (OpWrite (put_text bob ''/ada/a_b/x.txt'' ''three'' (Some CollideOverwrite))) demo_store))).
      fr_path row = ''/ada/a_b/x.txt'' \<and> fr_hash row = Some ''hone'')"
proof -
  define op where "op = OpWrite (put_text bob ''/ada/a_b/x.txt'' ''three'' (Some CollideOverwrite))"
  have "normalize_path ''/ada/a_b/x.txt'' = Inr ''/ada/a_b/x.txt''" "can_write demo_acl ''/ada/a_b/x.txt'' bob = Inr False"
    by code_simp+
  then have no: "fs_scope demo_acl op demo_store ''/ada/a_b/x.txt'' = False"
    by (auto simp: op_def put_text_def write_scope_def)
  obtain s' r where r: "fs_exec demo_acl demo_put 7 op demo_store = (s', r)" by fastforce
  have "op_ok op" by (simp add: op_def)
  note c = fs_calls_confined [OF demo_fs_reachable demo_put_ok this r]
  have "list_ex (\<lambda>row. fr_path row = ''/ada/a_b/x.txt'' \<and> fr_hash row = Some ''hone'') (fs_entries demo_store)" by code_simp
  then obtain row where row: "row \<in> set (fs_entries demo_store)" "fr_path row = ''/ada/a_b/x.txt''" "fr_hash row = Some ''hone''"
    by (auto simp: list_ex_iff)
  then have "row \<in> set (fs_entries s')" using conjunct1 [OF c] no by (metis DiffI)
  then show ?thesis using no r row unfolding op_def by auto
qed

text \<open>
  C0. What a viewer is shown is what the viewer may read. An entry that \<open>stat\<close> returns, and the content that
  \<open>openReadStream\<close> opens, are a row of the store at the canonical form of the requested path, and the viewer
  manages members, owns the path, is a member of its objective or holds a grant on it; and the entry's
  \<open>canWrite\<close> is the answer \<open>canWrite\<close> itself gives for that path.
\<close>

theorem fs_reads_permitted:
  assumes "rtranclp fs_step fs_empty s"
  shows "(fs_stat acl path v s = Inr (Some e) \<longrightarrow>
      (\<exists>row \<in> set (fs_entries s). normalize_path path = Inr (fr_path row) \<and> fe_path e = fr_path row \<and> fe_hash e = fr_hash row \<and>
         (manages v \<or> owner_of (fr_path row) = Inr (Some (vw_name v)) \<or> is_objective_member acl (fr_path row) v = Inr True \<or>
          has_grant (fr_path row) (vw_name v) s) \<and>
         (\<exists>w. fe_can_write e = Some w \<and> can_write acl (fr_path row) v = Inr w))) \<and>
    (fs_open_read acl path v s = Inr (e, h) \<longrightarrow> fs_stat acl path v s = Inr (Some e) \<and> fe_kind e = FileKind \<and> fe_hash e = Some h)"
proof -
  have inv: "fs_inv s" by (rule fs_reachable_inv [OF assms])
  have allowed: "manages v \<or> owner_of p = Inr (Some (vw_name v)) \<or> is_objective_member acl p v = Inr True \<or> has_grant p (vw_name v) s"
    if "can_read acl s p v = Inr True" for p
    using that
    by (cases "owner_of p"; cases "is_objective_member acl p v") (auto simp: can_read_def owns_path_def split: if_splits)
  have "fs_open_read acl path v s = Inr (e, h) \<Longrightarrow> fs_stat acl path v s = Inr (Some e) \<and> fe_kind e = FileKind \<and> fe_hash e = Some h"
    by (cases "fs_stat acl path v s") (auto simp: fs_open_read_def split: option.splits if_splits)
  moreover have "\<exists>row \<in> set (fs_entries s). normalize_path path = Inr (fr_path row) \<and> fe_path e = fr_path row \<and> fe_hash e = fr_hash row \<and>
         (manages v \<or> owner_of (fr_path row) = Inr (Some (vw_name v)) \<or> is_objective_member acl (fr_path row) v = Inr True \<or>
          has_grant (fr_path row) (vw_name v) s) \<and>
         (\<exists>w. fe_can_write e = Some w \<and> can_write acl (fr_path row) v = Inr w)" if "fs_stat acl path v s = Inr (Some e)"
    using fs_stat_spec [OF inv that] with_capability_spec allowed by blast
  ultimately show ?thesis by blast
qed

theorem fs_reads_permitted_witness:
  "(\<exists>e. fs_stat demo_acl ''/ada//a_b/x.txt'' ada demo_store = Inr (Some e) \<and>
      (\<exists>row \<in> set (fs_entries demo_store). fe_path e = fr_path row)) \<and>
   fs_stat demo_acl ''/ada/a_b/x.txt'' bob demo_store = Inl Forbidden"
proof
  have "(case fs_stat demo_acl ''/ada//a_b/x.txt'' ada demo_store of Inr (Some e) \<Rightarrow> True | _ \<Rightarrow> False) = True" by code_simp
  then obtain e where e: "fs_stat demo_acl ''/ada//a_b/x.txt'' ada demo_store = Inr (Some e)"
    by (auto split: sum.splits option.splits)
  from conjunct1 [OF fs_reads_permitted [OF demo_fs_reachable, of demo_acl "''/ada//a_b/x.txt''" ada e]] e
  show "\<exists>e. fs_stat demo_acl ''/ada//a_b/x.txt'' ada demo_store = Inr (Some e) \<and>
      (\<exists>row \<in> set (fs_entries demo_store). fe_path e = fr_path row)" by blast
next
  show "fs_stat demo_acl ''/ada/a_b/x.txt'' bob demo_store = Inl Forbidden" by code_simp
qed

end
