(* ===== verification/FsOutcomes.thy ===== *)
theory FsOutcomes
  imports FsTheorems
begin

text \<open>What single calls of the team filesystem do: paths, recursive directories, writes, removals and moves.\<close>

section \<open>Paths\<close>

text \<open>
  C0. Path functions agree with each other. The canonical form of a path is a fixed point of
  \<open>normalizePath\<close>; its segments are those of the raw path; joining them gives it back; joining parent and
  base name gives it back; and a canonical path is an ancestor of another exactly when its segments are a
  prefix of the other's.
\<close>

theorem fs_path_roundtrip:
  assumes "normalize_path raw = Inr p" "normalize_path raw' = Inr p'"
  shows "normalize_path p = Inr p \<and> split_path raw = Inr (path_segments raw) \<and> split_path p = Inr (path_segments raw) \<and>
    join_path (path_segments raw) = Inr p \<and>
    (p \<noteq> root_path \<longrightarrow> (\<exists>d b. parent_of p = Inr d \<and> basename_of p = Inr b \<and> join_path [d, b] = Inr p)) \<and>
    is_ancestor_path p p' = prefix (path_segments raw) (path_segments raw')"
proof -
  define segs where "segs = path_segments raw"
  have c: "canonical p segs" "canonical p' (path_segments raw')"
    using normalize_canonical assms by (auto simp: segs_def)
  have ok: "list_all segment_ok segs" "p = path_of segs" using c(1) by (auto simp: canonical_def)
  have "path_segments s = [s]" if s: "s \<in> set segs" for s
  proof -
    have "segment_ok s" using ok(1) s by (auto simp: list_all_iff)
    then show ?thesis using segment_no_slash segment_nonempty by (simp add: path_segments_def js_split_no_sep)
  qed
  then have "List.map path_segments segs = List.map (\<lambda>s. [s]) segs" by simp
  then have "concat (List.map path_segments segs) = segs" by (simp only: concat_map_singleton) simp
  then have "join_path segs = Inr p"
    using canonical_normalize [OF c(1)] ok(2) by (cases "segs = []") (auto simp: join_path_def path_of_def root_path_def)
  moreover have "split_path raw = split_path p"
    using assms(1) canonical_normalize [OF c(1)] by (simp add: split_path_def)
  moreover have "\<exists>d b. parent_of p = Inr d \<and> basename_of p = Inr b \<and> join_path [d, b] = Inr p" if "p \<noteq> root_path"
  proof -
    have ne: "segs \<noteq> []" using that ok(2) by auto
    then have "canonical p (butlast segs @ [last segs])" using c(1) by simp
    then show ?thesis using canonical_parent [OF c(1)] canonical_basename [OF c(1)] ne join_name_ok by simp
  qed
  ultimately show ?thesis
    using canonical_normalize [OF c(1)] canonical_split [OF c(1)] canonical_ancestor [OF c] by (simp add: segs_def)
qed

theorem fs_path_roundtrip_witness:
  "normalize_path ''//ada//notes/'' = Inr ''/ada/notes'' \<and> join_path [''ada'', ''notes''] = Inr ''/ada/notes''"
proof -
  have n: "normalize_path ''//ada//notes/'' = Inr ''/ada/notes''" "path_segments ''//ada//notes/'' = [''ada'', ''notes'']"
    by code_simp+
  from fs_path_roundtrip [OF n(1) n(1)] show ?thesis using n by simp
qed

section \<open>Making directories\<close>

text \<open>
  C0. A recursive \<open>mkdir\<close> of a writable path that is not the root and has no file on the way to it always
  returns, never throws, and leaves every prefix of the path a directory. The recursion over ancestors that
  it runs on ends because each parent is a shorter string.
\<close>

theorem fs_mkdir_recursive_total:
  assumes "rtranclp fs_step fs_empty s" "normalize_path raw = Inr p" "p \<noteq> root_path" "can_write acl p v = Inr True"
    and "\<forall>k. \<forall>r \<in> set (fs_entries s). fr_path r = path_of (take k (path_segments raw)) \<longrightarrow> fr_kind r = DirectoryKind"
  shows "\<exists>s' e. fs_mkdir acl raw v True now s = (s', Inr e) \<and>
    (\<forall>k. path_of (take k (path_segments raw)) = root_path \<or>
       (\<exists>r \<in> set (fs_entries s'). fr_path r = path_of (take k (path_segments raw)) \<and> fr_kind r = DirectoryKind))"
proof -
  have inv: "fs_inv s" by (rule fs_reachable_inv [OF assms(1)])
  have c: "canonical p (path_segments raw)" by (rule normalize_canonical [OF assms(2)])
  have tree: "tree_inv s" using inv by (simp add: fs_inv_def)
  have "no_file_on (path_segments raw) s" unfolding no_file_on_def by (rule assms(5))
  then obtain s' e where run: "ensure_directory_tree p v now s = (s', Inr e)"
    using ensure_directory_tree_total [OF c tree] by blast
  note k = ensure_directory_tree_inv [OF run c tree]
  have "fs_mkdir acl raw v True now s = (s', Inr e)"
    using run assms(2-4) by (simp add: fs_mkdir_def cbind_def clift_def cguard_def)
  moreover have "is_directory (path_of (take k (path_segments raw))) s'" for k
    using directories_above [OF _ c] k by blast
  ultimately show ?thesis unfolding is_directory_def by blast
qed

theorem fs_mkdir_recursive_total_witness:
  "(\<exists>s' e. fs_mkdir demo_acl ''/objectives/o1/a/b'' ada True 9 fs_empty = (s', Inr e)) \<and>
   can_write demo_acl ''/objectives'' ada = Inr False"
proof
  have n: "normalize_path ''/objectives/o1/a/b'' = Inr ''/objectives/o1/a/b''" "can_write demo_acl ''/objectives/o1/a/b'' ada = Inr True"
    by code_simp+
  have "''/objectives/o1/a/b'' \<noteq> root_path" "\<forall>k. \<forall>r \<in> set (fs_entries fs_empty). fr_path r =
     path_of (take k (path_segments ''/objectives/o1/a/b'')) \<longrightarrow> fr_kind r = DirectoryKind"
    by (simp_all add: root_path_def fs_empty_def)
  from fs_mkdir_recursive_total [OF _ n(1) this(1) n(2) this(2), of 9]
  show "\<exists>s' e. fs_mkdir demo_acl ''/objectives/o1/a/b'' ada True 9 fs_empty = (s', Inr e)" by blast
next
  show "can_write demo_acl ''/objectives'' ada = Inr False" by code_simp
qed

section \<open>Writing\<close>

text \<open>The entry a successful write answers, and the row it left.\<close>

lemma write_result:
  assumes inv: "fs_inv s" and put: "put_ok put" and run: "fs_write_file acl put input now s = (s', Inr (e, renamed))"
  shows "\<exists>h sz row. put (wi_source input) (wi_max_size input) = Inr (h, sz) \<and> row \<in> set (fs_entries s') \<and> e = row_to_entry row \<and>
     fr_hash row = Some h \<and> h \<noteq> [] \<and> fr_size row = Some sz \<and> fr_kind row = FileKind"
proof -
  obtain p segs t h sz final row where w: "canonical p segs" "segs \<noteq> []" "fs_inv t" "is_directory (path_of (butlast segs)) t"
     "put (wi_source input) (wi_max_size input) = Inr (h, sz)" "h \<noteq> []"
     "write_tx p (strategy_of (wi_collision input)) h sz (wi_mime input) (wi_writer input) now t = (s', Inr (final, renamed))"
     "get_entry final s' = Some row" "e = row_to_entry row"
    using write_success [OF assms] by blast
  obtain existing where res: "resolve_collision p (strategy_of (wi_collision input)) t = Inr (existing, final, renamed)"
    and st: "store_reference final existing h sz (wi_mime input) (wi_writer input) now (upsert_blob h sz now t) = (s', Inr ())"
    using w(7) by (auto simp: write_tx_def cbind_Inr split: prod.splits)
  have tree: "tree_inv t" using w(3) by (simp add: fs_inv_def)
  have "\<forall>row. existing = Some row \<longrightarrow> get_entry final (upsert_blob h sz now t) = Some row \<and> fr_kind row = FileKind"
    using resolve_collision_spec [OF tree w(1,2) res] get_entry_Some [OF tree] by auto
  from store_reference_row [OF st this] w(8)
  have row: "fr_hash row = Some h" "fr_size row = Some sz" "fr_kind row = FileKind" by auto
  have "fs_inv s'" using write_file_kept [OF inv put run] by (simp add: fs_kept_def)
  then have "row \<in> set (fs_entries s')" using w(8) get_entry_Some [of s' final row] by (simp add: fs_inv_def)
  with row w(5,6,9) show ?thesis by blast
qed

text \<open>
  C0. What was written can be read back. After a successful \<open>writeFile\<close>, opening the path of the entry it
  answered gives that entry, marked writable, and the hash under which the blob store took the content, for
  any viewer who may write there; the entry's size is the one the blob store reported.
\<close>

theorem fs_written_file_opens:
  assumes "rtranclp fs_step fs_empty s" "put_ok put" "fs_write_file acl put input now s = (s', Inr (e, renamed))"
    and "can_write acl (fe_path e) v = Inr True"
  shows "\<exists>h sz. put (wi_source input) (wi_max_size input) = Inr (h, sz) \<and> fe_hash e = Some h \<and> fe_size e = Some sz \<and>
    fs_open_read acl (fe_path e) v s' = Inr (e\<lparr>fe_can_write := Some True\<rparr>, h)"
proof -
  have inv: "fs_inv s" by (rule fs_reachable_inv [OF assms(1)])
  obtain h sz row where w: "put (wi_source input) (wi_max_size input) = Inr (h, sz)" "row \<in> set (fs_entries s')" "e = row_to_entry row"
     "fr_hash row = Some h" "h \<noteq> []" "fr_size row = Some sz" "fr_kind row = FileKind"
    using write_result [OF inv assms(2,3)] by blast
  have tree: "tree_inv s'" using write_file_kept [OF inv assms(2,3)] by (simp add: fs_kept_def fs_inv_def)
  obtain segs where segs: "segs \<noteq> []" "canonical (fr_path row) segs" using tree_invD(1) [OF tree w(2)] by (auto simp: row_ok_def)
  have path: "fe_path e = fr_path row" "fe_hash e = Some h" "fe_size e = Some sz" "fe_kind e = FileKind"
    using w by (simp_all add: row_to_entry_def)
  have "fr_path row \<noteq> root_path" using segs path_of_root [of segs] by (simp add: canonical_def)
  moreover have "get_entry (fr_path row) s' = Some row" using get_entry_Some [OF tree] w(2) by simp
  moreover have "with_capability acl v row = Inr (e\<lparr>fe_can_write := Some True\<rparr>)" using assms(4) path(1) w(3) by (simp add: with_capability_def)
  ultimately have "fs_stat acl (fe_path e) v s' = Inr (Some (e\<lparr>fe_can_write := Some True\<rparr>))"
    using canonical_normalize [OF segs(2)] can_write_reads [OF assms(4), of s'] path(1) by (simp add: fs_stat_def)
  then show ?thesis using w(1,5) path by (simp add: fs_open_read_def)
qed

theorem fs_written_file_opens_witness:
  "\<exists>s' e. fs_write_file demo_acl demo_put (put_text ada ''/objectives/o1/n.md'' ''x'' None) 9 demo_store = (s', Inr (e, False)) \<and>
     fs_open_read demo_acl (fe_path e) ada s' = Inr (e\<lparr>fe_can_write := Some True\<rparr>, ''hx'')"
proof -
  define input where "input = put_text ada ''/objectives/o1/n.md'' ''x'' None"
  have "(case fs_write_file demo_acl demo_put input 9 demo_store of
      (s', Inr (e, b)) \<Rightarrow> fe_path e = ''/objectives/o1/n.md'' \<and> \<not> b | _ \<Rightarrow> False) = True"
    unfolding input_def by code_simp
  then obtain s' e where w: "fs_write_file demo_acl demo_put input 9 demo_store = (s', Inr (e, False))" "fe_path e = ''/objectives/o1/n.md''"
    by (auto split: prod.splits sum.splits)
  have "can_write demo_acl (fe_path e) ada = Inr True" unfolding w(2) by code_simp
  from fs_written_file_opens [OF demo_fs_reachable demo_put_ok w(1) this] have "fs_open_read demo_acl (fe_path e) ada s' = Inr (e\<lparr>fe_can_write := Some True\<rparr>, ''hx'')"
    by (auto simp: demo_put_def input_def put_text_def)
  with w(1) show ?thesis unfolding input_def by blast
qed

text \<open>
  Writing a file again with the content it already has counts a reference that no entry stands for: the
  reference count on record grows by one and the number of entries with that content does not change, so
  that the content is never handed to deletion however its entries are removed later.
\<close>

theorem fs_rewrite_leaks_reference:
  assumes "rtranclp fs_step fs_empty s" "put_ok put" "normalize_path (wi_path input) = Inr p"
    and "row \<in> set (fs_entries s)" "fr_path row = p" "fr_hash row = Some h" "put (wi_source input) (wi_max_size input) = Inr (h, sz)"
    and "wi_collision input = Some CollideOverwrite" "fs_write_file acl put input now s = (s', Inr result)"
  shows "blob_refcount h s' = blob_refcount h s + 1 \<and>
    length (filter (\<lambda>r. fr_hash r = Some h) (fs_entries s')) = length (filter (\<lambda>r. fr_hash r = Some h) (fs_entries s))"
proof -
  have inv: "fs_inv s" by (rule fs_reachable_inv [OF assms(1)])
  obtain e renamed where result: "result = (e, renamed)" by fastforce
  obtain segs t final where w: "canonical p segs" "segs \<noteq> []" "fs_inv t" "only_new_dirs s t"
     "write_tx p CollideOverwrite h sz (wi_mime input) (wi_writer input) now t = (s', Inr (final, renamed))"
    using write_success [OF inv assms(2) assms(9) [unfolded result]] assms(3,7,8) by (auto simp: strategy_of_def)
  have tree: "tree_inv t" using w(3) by (simp add: fs_inv_def)
  have rt: "row \<in> set (fs_entries t)" using assms(4) w(4) by (auto simp: only_new_dirs_def)
  then have get: "get_entry p t = Some row" using assms(5) get_entry_Some [OF tree] by simp
  have kind: "fr_kind row = FileKind"
    using tree_invD(1) [OF tree rt] assms(6) by (cases "fr_kind row") (auto simp: row_ok_def)
  define u where "u = upsert_blob h sz now t"
  have s': "s' = inc_ref h (update_entry_content h sz (wi_mime input) now p u)"
    using w(5) get kind assms(6)
    by (auto simp: write_tx_def resolve_collision_def cbind_def cmod_def store_reference_def u_def Let_def cret_def)
  have cnt: "blob_refcount h t = blob_refcount h s" "refs h t = refs h s"
    using only_new_dirs_refs [OF w(4)] by (simp_all add: blob_refcount_def)
  have "blob_refcount h s' = blob_refcount h u + 1"
    using upsert_has_blob [of h sz now t] by (simp add: s' blob_refcount_inc u_def has_blob_def update_entry_content_def)
  moreover have "blob_refcount h u = blob_refcount h t"
  proof -
    have "has_blob h t" using row_has_blob [OF w(3) rt assms(6)] by simp
    then have "u = t" by (auto simp: u_def upsert_blob_def sql_insert_ignore_def has_blob_def sql_get_None)
    then show ?thesis by simp
  qed
  moreover have "refs h s' = refs h t"
  proof -
    have "distinct (List.map fr_path (fs_entries t))" using tree by (simp add: tree_inv_def)
    from refs_update [OF this rt, where k = h and h = h and a = "Some sz" and b = "Some (wi_mime input)" and c = now] assms(5,6)
    show ?thesis by (simp add: refs_def s' u_def update_entry_content_def)
  qed
  ultimately show ?thesis using cnt by (simp add: refs_def)
qed

theorem fs_rewrite_leaks_reference_witness:
  "blob_refcount ''hone'' (fst (fs_write_file demo_acl demo_put
      (put_text ada ''/ada/a_b/x.txt'' ''one'' (Some CollideOverwrite)) 9 demo_store)) = 2"
proof -
  define input where "input = put_text ada ''/ada/a_b/x.txt'' ''one'' (Some CollideOverwrite)"
  have "list_ex (\<lambda>r. fr_path r = ''/ada/a_b/x.txt'' \<and> fr_hash r = Some ''hone'') (fs_entries demo_store)" by code_simp
  then obtain row where row: "row \<in> set (fs_entries demo_store)" "fr_path row = ''/ada/a_b/x.txt''" "fr_hash row = Some ''hone''"
    by (auto simp: list_ex_iff)
  have "is_ok (snd (fs_write_file demo_acl demo_put input 9 demo_store)) = True" unfolding input_def by code_simp
  then obtain s' res where w: "fs_write_file demo_acl demo_put input 9 demo_store = (s', Inr res)"
    by (cases "fs_write_file demo_acl demo_put input 9 demo_store") (auto elim: is_okE)
  have n: "normalize_path (wi_path input) = Inr ''/ada/a_b/x.txt''" unfolding input_def put_text_def by code_simp
  have p: "demo_put (wi_source input) (wi_max_size input) = Inr (''hone'', 3)" "wi_collision input = Some CollideOverwrite"
    by (simp_all add: input_def put_text_def demo_put_def)
  have "blob_refcount ''hone'' demo_store = 1" by code_simp
  with fs_rewrite_leaks_reference [OF demo_fs_reachable demo_put_ok n row p w] w show ?thesis
    unfolding input_def by simp
qed

section \<open>Removing and moving\<close>





end
