(* ===== verification/NotifyStore.thy ===== *)
theory NotifyStore
  imports EnvStores Calls
begin

text \<open>
  The external-notifications store, \<open>packages/core/src/notifications/store.ts\<close>: endpoints, shared
  authentication profiles, delivery receipts with a cap per endpoint, and the queue of held deliveries. The
  JSON columns hold lists, policies and overrides that this file alone writes, so a column is the value it
  serialises. Signing secrets go through the \<open>field_cipher\<close> of the environment stores.
\<close>

section \<open>Data\<close>

datatype nt_error =
    NtNotFound | NtInvalidInput | NtSlugTaken | NtUnknownProfile | NtProfileInUse | NtNoKek
  | NtSqlConstraint      \<comment> \<open>what SQLite throws on a key clash\<close>
  | NtCipher env_error   \<comment> \<open>what the cipher throws\<close>
  | NtNullRecord         \<comment> \<open>a property read on a receipt that is not there\<close>

datatype auth_kind = HmacSha256 | HeaderSecret

record nt_auth =
  au_kind :: auth_kind
  au_header :: "string option"
  au_prefix :: "string option"

datatype offline_policy = OfflineDrop | OfflineQueue
datatype busy_policy = BusyNow | BusyWait

record nt_policy =
  po_offline :: offline_policy
  po_busy :: busy_policy
  po_debounce_ms :: int
  po_debounce_max :: int
  po_queue_ttl :: int
  po_max_wait :: int

record nt_policy_patch =
  pp_offline :: "offline_policy option"
  pp_busy :: "busy_policy option"
  pp_debounce_ms :: "int option"
  pp_debounce_max :: "int option"
  pp_queue_ttl :: "int option"
  pp_max_wait :: "int option"

record nt_target =
  tg_member :: "string option"
  tg_channel :: "string option"

record nt_overrides =
  ov_offline :: "offline_policy option"
  ov_busy :: "busy_policy option"
  ov_level :: "log_level option"

datatype nt_status =
    NtDelivered | NtPending | NtExpired | NtDropped | NtRejected | NtFiltered | NtDuplicate | NtCoalesced | NtFailed

record profile_row =
  np_id :: string
  np_slug :: string
  np_description :: string
  np_auth :: nt_auth
  np_secret :: "string option"
  np_created_by :: string
  np_created_at :: int
  np_updated_at :: int

text \<open>Filter rules are JSON values the store does not look into.\<close>

record endpoint_row =
  ne_id :: string
  ne_slug :: string
  ne_display_name :: string
  ne_description :: string
  ne_enabled :: bool
  ne_auth :: nt_auth
  ne_secret :: "string option"
  ne_profile :: "string option"
  ne_targets :: "nt_target list"
  ne_level :: log_level
  ne_title :: "string option"
  ne_template :: "string option"
  ne_filters :: "json list"
  ne_policy :: nt_policy
  ne_dedupe_header :: "string option"
  ne_created_by :: string
  ne_created_at :: int
  ne_updated_at :: int

record receipt =
  nr_id :: string
  nr_endpoint :: string
  nr_endpoint_slug :: string
  nr_received :: int
  nr_status :: nt_status
  nr_reason :: "string option"
  nr_dedupe :: "string option"
  nr_messages :: "string list"
  nr_body :: string
  nr_content_type :: "string option"
  nr_rendered :: string
  nr_level :: log_level
  nr_title :: "string option"
  nr_overrides :: "nt_overrides option"
  nr_delivered_at :: "int option"
  nr_replay_of :: "string option"

datatype held_reason = HeldOffline | HeldBusy

record held_row =
  nh_id :: string
  nh_endpoint :: string
  nh_member :: string
  nh_reason :: held_reason
  nh_deliveries :: "string list"
  nh_level :: log_level
  nh_title :: "string option"
  nh_created :: int
  nh_deadline :: int

record nt_store =
  nt_profiles :: "profile_row list"
  nt_endpoints :: "endpoint_row list"
  nt_receipts :: "receipt list"
  nt_held :: "held_row list"

type_synonym 'a nt_call = "(nt_store, nt_error, 'a) call"

definition hook_body_max :: nat where "hook_body_max = 256 * 1024"
definition receipt_retention :: nat where "receipt_retention = 1000"
definition nt_secret_max :: nat where "nt_secret_max = 4096"

definition default_policy :: nt_policy where
  "default_policy =
     \<lparr>po_offline = OfflineDrop, po_busy = BusyNow, po_debounce_ms = 0, po_debounce_max = 20,
      po_queue_ttl = 24 * 60 * 60 * 1000, po_max_wait = 15 * 60 * 1000\<rparr>"

definition merge_policy :: "nt_policy \<Rightarrow> nt_policy_patch \<Rightarrow> nt_policy" where
  "merge_policy p patch =
     \<lparr>po_offline = orelse (pp_offline patch) (po_offline p), po_busy = orelse (pp_busy patch) (po_busy p),
      po_debounce_ms = orelse (pp_debounce_ms patch) (po_debounce_ms p),
      po_debounce_max = orelse (pp_debounce_max patch) (po_debounce_max p),
      po_queue_ttl = orelse (pp_queue_ttl patch) (po_queue_ttl p), po_max_wait = orelse (pp_max_wait patch) (po_max_wait p)\<rparr>"

definition resolve_policy :: "nt_policy_patch option \<Rightarrow> nt_policy" where
  "resolve_policy partial = (case partial of None \<Rightarrow> default_policy | Some p \<Rightarrow> merge_policy default_policy p)"

definition normalize_auth :: "nt_auth option \<Rightarrow> nt_auth" where
  "normalize_auth input =
     (case input of None \<Rightarrow> \<lparr>au_kind = HeaderSecret, au_header = None, au_prefix = None\<rparr> | Some a \<Rightarrow> a)"

definition nt_validate_slug :: "string \<Rightarrow> (nt_error, unit) res" where
  "nt_validate_slug slug = (case validate_source_slug slug of Inl _ \<Rightarrow> Inl NtInvalidInput | Inr u \<Rightarrow> Inr u)"

definition filled :: "string option \<Rightarrow> bool" where
  "filled x = (case x of None \<Rightarrow> False | Some s \<Rightarrow> length s > 0)"

definition validate_targets :: "nt_target list \<Rightarrow> (nt_error, unit) res" where
  "validate_targets targets =
     (if targets = [] then Inl NtInvalidInput
      else guard (list_all (\<lambda>t. filled (tg_member t) \<noteq> filled (tg_channel t)) targets) NtInvalidInput)"

definition encrypt_secret :: "string \<Rightarrow> field_cipher option \<Rightarrow> (nt_error, string) res" where
  "encrypt_secret secret cipher =
     (if length secret = 0 then Inl NtInvalidInput
      else if length secret > nt_secret_max then Inl NtInvalidInput
      else case cipher of
        None \<Rightarrow> Inl NtNoKek
      | Some c \<Rightarrow> from_option NtInvalidInput (encrypt c secret))"

section \<open>Profiles\<close>

definition nt_list_profiles :: "nt_store \<Rightarrow> profile_row list" where
  "nt_list_profiles s = order_asc np_created_at (nt_profiles s)"

definition nt_get_profile :: "string \<Rightarrow> nt_store \<Rightarrow> profile_row option" where
  "nt_get_profile i s = sql_get (\<lambda>p. np_id p = i) (nt_profiles s)"

definition nt_get_profile_by_slug :: "string \<Rightarrow> nt_store \<Rightarrow> profile_row option" where
  "nt_get_profile_by_slug slug s = sql_get (\<lambda>p. np_slug p = slug) (nt_profiles s)"

definition nt_endpoint_count :: "string \<Rightarrow> nt_store \<Rightarrow> nat" where
  "nt_endpoint_count i s = length (sql_all (\<lambda>e. ne_profile e = Some i) (nt_endpoints s))"

definition nt_create_profile :: "string \<Rightarrow> string option \<Rightarrow> nt_auth \<Rightarrow> string \<Rightarrow> string \<Rightarrow> int \<Rightarrow> profile_row nt_call" where
  "nt_create_profile slug description auth creator uuid now =
     cbind (clift (nt_validate_slug slug)) (\<lambda>_.
     cbind (cget (nt_get_profile_by_slug slug)) (\<lambda>taken.
     cbind (cguard (taken = None) NtSlugTaken) (\<lambda>_ s.
       let row = \<lparr>np_id = uuid, np_slug = slug, np_description = orelse description [], np_auth = normalize_auth (Some auth),
             np_secret = None, np_created_by = creator, np_created_at = now, np_updated_at = now\<rparr>
       in case sql_insert (\<lambda>p q. np_id p = np_id q \<or> np_slug p = np_slug q) row (nt_profiles s) of
            None \<Rightarrow> (s, Inl NtSqlConstraint)
          | Some rows \<Rightarrow> (s\<lparr>nt_profiles := rows\<rparr>, Inr row))))"

definition nt_update_profile :: "string \<Rightarrow> string option \<Rightarrow> nt_auth option \<Rightarrow> int \<Rightarrow> profile_row option nt_call" where
  "nt_update_profile i description auth now =
     cbind (cget (nt_get_profile i)) (\<lambda>found.
     cbind (clift (from_option NtNotFound found)) (\<lambda>existing.
     cbind (cmod (\<lambda>s. s\<lparr>nt_profiles := sql_update (\<lambda>p. np_id p = i)
         (\<lambda>p. p\<lparr>np_description := orelse description (np_description existing),
               np_auth := (case auth of None \<Rightarrow> np_auth existing | Some a \<Rightarrow> normalize_auth (Some a)), np_updated_at := now\<rparr>)
         (nt_profiles s)\<rparr>)) (\<lambda>_.
     cget (nt_get_profile i))))"

definition nt_delete_profile :: "string \<Rightarrow> unit nt_call" where
  "nt_delete_profile i =
     cbind (cget (nt_get_profile i)) (\<lambda>found.
     cbind (clift (from_option NtNotFound found)) (\<lambda>existing.
     cbind (cget (nt_endpoint_count i)) (\<lambda>refs.
     cbind (cguard (\<not> refs > 0) NtProfileInUse) (\<lambda>_.
       cmod (\<lambda>s. s\<lparr>nt_profiles := sql_delete (\<lambda>p. np_id p = i) (nt_profiles s)\<rparr>)))))"

definition put_profile_secret :: "string \<Rightarrow> string option \<Rightarrow> int \<Rightarrow> nt_store \<Rightarrow> nt_store" where
  "put_profile_secret i secret now s =
     s\<lparr>nt_profiles := sql_update (\<lambda>p. np_id p = i) (\<lambda>p. p\<lparr>np_secret := secret, np_updated_at := now\<rparr>) (nt_profiles s)\<rparr>"

definition nt_set_profile_secret :: "field_cipher option \<Rightarrow> string \<Rightarrow> string \<Rightarrow> int \<Rightarrow> unit nt_call" where
  "nt_set_profile_secret cipher i secret now =
     cbind (cget (nt_get_profile i)) (\<lambda>found.
     cbind (cguard (found \<noteq> None) NtNotFound) (\<lambda>_.
     cbind (clift (encrypt_secret secret cipher)) (\<lambda>enc. cmod (put_profile_secret i (Some enc) now))))"

definition nt_delete_profile_secret :: "string \<Rightarrow> int \<Rightarrow> unit nt_call" where
  "nt_delete_profile_secret i now =
     cbind (cget (nt_get_profile i)) (\<lambda>found.
     cbind (cguard (found \<noteq> None) NtNotFound) (\<lambda>_. cmod (put_profile_secret i None now)))"

definition nt_has_profile_secret :: "string \<Rightarrow> nt_store \<Rightarrow> bool" where
  "nt_has_profile_secret i s = (case nt_get_profile i s of None \<Rightarrow> False | Some p \<Rightarrow> np_secret p \<noteq> None)"

section \<open>Endpoints\<close>

record endpoint_create =
  ep_slug :: string
  ep_display :: "string option"
  ep_descr :: "string option"
  ep_on :: "bool option"
  ep_auth :: "nt_auth option"
  ep_profile :: "string option"
  ep_targets :: "nt_target list"
  ep_level :: "log_level option"
  ep_title :: "string option"
  ep_template :: "string option"
  ep_filters :: "json list option"
  ep_policy :: "nt_policy_patch option"
  ep_dedupe :: "string option"
  ep_creator :: string

text \<open>In a patch, the outer option is the property's presence and the inner one a null.\<close>

record endpoint_patch =
  eu_display :: "string option"
  eu_descr :: "string option"
  eu_on :: "bool option"
  eu_auth :: "nt_auth option"
  eu_profile :: "string option option"
  eu_targets :: "nt_target list option"
  eu_level :: "log_level option"
  eu_title :: "string option option"
  eu_template :: "string option option"
  eu_filters :: "json list option"
  eu_policy :: "nt_policy_patch option"
  eu_dedupe :: "string option option"

text \<open>What a caller sees of an endpoint: no secret, and the profile by its slug.\<close>

record nt_endpoint =
  nv_id :: string
  nv_slug :: string
  nv_display_name :: string
  nv_description :: string
  nv_enabled :: bool
  nv_auth :: nt_auth
  nv_auth_profile :: "string option"
  nv_targets :: "nt_target list"
  nv_level :: log_level
  nv_title :: "string option"
  nv_template :: "string option"
  nv_filters :: "json list"
  nv_policy :: nt_policy
  nv_dedupe_header :: "string option"
  nv_created_by :: string
  nv_created_at :: int
  nv_updated_at :: int

definition row_to_endpoint :: "endpoint_row \<Rightarrow> nt_store \<Rightarrow> nt_endpoint" where
  "row_to_endpoint e s =
     \<lparr>nv_id = ne_id e, nv_slug = ne_slug e, nv_display_name = ne_display_name e, nv_description = ne_description e,
      nv_enabled = ne_enabled e, nv_auth = ne_auth e,
      nv_auth_profile = (case ne_profile e of None \<Rightarrow> None | Some p \<Rightarrow> map_option np_slug (nt_get_profile p s)),
      nv_targets = ne_targets e, nv_level = ne_level e, nv_title = ne_title e, nv_template = ne_template e,
      nv_filters = ne_filters e, nv_policy = ne_policy e, nv_dedupe_header = ne_dedupe_header e,
      nv_created_by = ne_created_by e, nv_created_at = ne_created_at e, nv_updated_at = ne_updated_at e\<rparr>"

definition select_endpoint :: "string \<Rightarrow> nt_store \<Rightarrow> endpoint_row option" where
  "select_endpoint i s = sql_get (\<lambda>e. ne_id e = i) (nt_endpoints s)"

definition nt_list :: "nt_store \<Rightarrow> nt_endpoint list" where
  "nt_list s = List.map (\<lambda>e. row_to_endpoint e s) (order_asc ne_created_at (nt_endpoints s))"

definition nt_get :: "string \<Rightarrow> nt_store \<Rightarrow> nt_endpoint option" where
  "nt_get i s = map_option (\<lambda>e. row_to_endpoint e s) (select_endpoint i s)"

definition nt_get_by_slug :: "string \<Rightarrow> nt_store \<Rightarrow> nt_endpoint option" where
  "nt_get_by_slug slug s = map_option (\<lambda>e. row_to_endpoint e s) (sql_get (\<lambda>e. ne_slug e = slug) (nt_endpoints s))"

definition resolve_profile_id :: "string option \<Rightarrow> nt_store \<Rightarrow> (nt_error, string option) res" where
  "resolve_profile_id slug s =
     (case slug of
        None \<Rightarrow> Inr None
      | Some n \<Rightarrow> (case nt_get_profile_by_slug n s of None \<Rightarrow> Inl NtUnknownProfile | Some p \<Rightarrow> Inr (Some (np_id p))))"

definition new_endpoint_row :: "endpoint_create \<Rightarrow> string option \<Rightarrow> string \<Rightarrow> int \<Rightarrow> endpoint_row" where
  "new_endpoint_row input profile uuid now =
     \<lparr>ne_id = uuid, ne_slug = ep_slug input, ne_display_name = orelse (ep_display input) [],
      ne_description = orelse (ep_descr input) [], ne_enabled = (ep_on input \<noteq> Some False),
      ne_auth = normalize_auth (ep_auth input), ne_secret = None, ne_profile = profile, ne_targets = ep_targets input,
      ne_level = orelse (ep_level input) Info, ne_title = ep_title input, ne_template = ep_template input,
      ne_filters = orelse (ep_filters input) [], ne_policy = resolve_policy (ep_policy input),
      ne_dedupe_header = ep_dedupe input, ne_created_by = ep_creator input, ne_created_at = now, ne_updated_at = now\<rparr>"

definition nt_create :: "endpoint_create \<Rightarrow> string \<Rightarrow> int \<Rightarrow> nt_endpoint option nt_call" where
  "nt_create input uuid now =
     cbind (clift (nt_validate_slug (ep_slug input))) (\<lambda>_.
     cbind (cget (nt_get_by_slug (ep_slug input))) (\<lambda>taken.
     cbind (cguard (taken = None) NtSlugTaken) (\<lambda>_.
     cbind (clift (validate_targets (ep_targets input))) (\<lambda>_.
     cbind (\<lambda>s. (s, resolve_profile_id (ep_profile input) s)) (\<lambda>profile.
     cbind (\<lambda>s. case sql_insert (\<lambda>e f. ne_id e = ne_id f \<or> ne_slug e = ne_slug f)
                  (new_endpoint_row input profile uuid now) (nt_endpoints s) of
            None \<Rightarrow> (s, Inl NtSqlConstraint)
          | Some rows \<Rightarrow> (s\<lparr>nt_endpoints := rows\<rparr>, Inr ())) (\<lambda>_.
       cget (nt_get uuid)))))))"

definition patch_endpoint :: "endpoint_patch \<Rightarrow> string option \<Rightarrow> int \<Rightarrow> nt_endpoint \<Rightarrow> endpoint_row \<Rightarrow> endpoint_row" where
  "patch_endpoint patch profile now old row =
     row\<lparr>ne_display_name := orelse (eu_display patch) (nv_display_name old),
       ne_description := orelse (eu_descr patch) (nv_description old),
       ne_enabled := orelse (eu_on patch) (nv_enabled old),
       ne_auth := (case eu_auth patch of None \<Rightarrow> nv_auth old | Some a \<Rightarrow> normalize_auth (Some a)),
       ne_profile := profile,
       ne_targets := orelse (eu_targets patch) (nv_targets old),
       ne_level := orelse (eu_level patch) (nv_level old),
       ne_title := orelse (eu_title patch) (nv_title old),
       ne_template := orelse (eu_template patch) (nv_template old),
       ne_filters := orelse (eu_filters patch) (nv_filters old),
       ne_policy := (case eu_policy patch of None \<Rightarrow> nv_policy old | Some p \<Rightarrow> merge_policy (nv_policy old) p),
       ne_dedupe_header := orelse (eu_dedupe patch) (nv_dedupe_header old),
       ne_updated_at := now\<rparr>"

definition nt_update :: "string \<Rightarrow> endpoint_patch \<Rightarrow> int \<Rightarrow> nt_endpoint option nt_call" where
  "nt_update i patch now =
     cbind (cget (select_endpoint i)) (\<lambda>found.
     cbind (clift (from_option NtNotFound found)) (\<lambda>row.
     cbind (cget (row_to_endpoint row)) (\<lambda>existing.
     cbind (clift (case eu_targets patch of None \<Rightarrow> Inr () | Some ts \<Rightarrow> validate_targets ts)) (\<lambda>_.
     cbind (\<lambda>s. (s, case eu_profile patch of None \<Rightarrow> Inr (ne_profile row) | Some p \<Rightarrow> resolve_profile_id p s)) (\<lambda>profile.
     cbind (cmod (\<lambda>s. s\<lparr>nt_endpoints := sql_update (\<lambda>e. ne_id e = i) (patch_endpoint patch profile now existing) (nt_endpoints s)\<rparr>)) (\<lambda>_.
     cget (nt_get i)))))))"

definition nt_delete :: "string \<Rightarrow> unit nt_call" where
  "nt_delete i =
     cbind (cget (nt_get i)) (\<lambda>found.
     cbind (cguard (found \<noteq> None) NtNotFound) (\<lambda>_.
       run_in_transaction (cmod (\<lambda>s.
         s\<lparr>nt_held := sql_delete (\<lambda>h. nh_endpoint h = i) (nt_held s),
           nt_receipts := sql_delete (\<lambda>r. nr_endpoint r = i) (nt_receipts s),
           nt_endpoints := sql_delete (\<lambda>e. ne_id e = i) (nt_endpoints s)\<rparr>))))"

definition put_endpoint_secret :: "string \<Rightarrow> string option \<Rightarrow> int \<Rightarrow> nt_store \<Rightarrow> nt_store" where
  "put_endpoint_secret i secret now s =
     s\<lparr>nt_endpoints := sql_update (\<lambda>e. ne_id e = i) (\<lambda>e. e\<lparr>ne_secret := secret, ne_updated_at := now\<rparr>) (nt_endpoints s)\<rparr>"

definition nt_set_secret :: "field_cipher option \<Rightarrow> string \<Rightarrow> string \<Rightarrow> int \<Rightarrow> unit nt_call" where
  "nt_set_secret cipher i secret now =
     cbind (cget (nt_get i)) (\<lambda>found.
     cbind (cguard (found \<noteq> None) NtNotFound) (\<lambda>_.
     cbind (clift (encrypt_secret secret cipher)) (\<lambda>enc. cmod (put_endpoint_secret i (Some enc) now))))"

definition nt_delete_secret :: "string \<Rightarrow> int \<Rightarrow> unit nt_call" where
  "nt_delete_secret i now =
     cbind (cget (nt_get i)) (\<lambda>found.
     cbind (cguard (found \<noteq> None) NtNotFound) (\<lambda>_. cmod (put_endpoint_secret i None now)))"

definition nt_has_secret :: "string \<Rightarrow> nt_store \<Rightarrow> bool" where
  "nt_has_secret i s = (case select_endpoint i s of None \<Rightarrow> False | Some e \<Rightarrow> ne_secret e \<noteq> None)"

record resolved_verification =
  rv_kind :: auth_kind
  rv_header :: "string option"
  rv_prefix :: "string option"
  rv_secret :: "string option"

text \<open>The profile's configuration when the endpoint has one, its own otherwise; a profile that is gone leaves no secret.\<close>

definition verification_source :: "endpoint_row \<Rightarrow> nt_store \<Rightarrow> nt_auth \<times> string option" where
  "verification_source e s =
     (case ne_profile e of
        None \<Rightarrow> (ne_auth e, ne_secret e)
      | Some p \<Rightarrow> (case nt_get_profile p s of None \<Rightarrow> (ne_auth e, None) | Some pr \<Rightarrow> (np_auth pr, np_secret pr)))"

definition resolve_verification :: "field_cipher option \<Rightarrow> string \<Rightarrow> nt_store \<Rightarrow> (nt_error, resolved_verification) res" where
  "resolve_verification cipher i s =
     andThen (from_option NtNotFound (select_endpoint i s)) (\<lambda>e.
       let (auth, enc) = verification_source e s;
           resolved = (\<lambda>secret. \<lparr>rv_kind = au_kind auth, rv_header = au_header auth, rv_prefix = au_prefix auth, rv_secret = secret\<rparr>)
       in case enc of
            None \<Rightarrow> Inr (resolved None)
          | Some ct \<Rightarrow>
              (case cipher of
                 None \<Rightarrow> Inl NtNoKek
               | Some c \<Rightarrow> (case decrypt c ct of Inl e \<Rightarrow> Inl (NtCipher e) | Inr secret \<Rightarrow> Inr (resolved secret))))"

section \<open>Receipts\<close>

record receipt_input =
  ri_endpoint :: string
  ri_endpoint_slug :: string
  ri_received :: int
  ri_status :: nt_status
  ri_reason :: "string option"
  ri_dedupe :: "string option"
  ri_body :: string
  ri_content_type :: "string option"
  ri_level :: log_level
  ri_title :: "string option"
  ri_overrides :: "nt_overrides option"
  ri_replay_of :: "string option"

definition new_receipt :: "receipt_input \<Rightarrow> string \<Rightarrow> receipt" where
  "new_receipt input uuid =
     \<lparr>nr_id = uuid, nr_endpoint = ri_endpoint input, nr_endpoint_slug = ri_endpoint_slug input, nr_received = ri_received input,
      nr_status = ri_status input, nr_reason = ri_reason input, nr_dedupe = ri_dedupe input, nr_messages = [],
      nr_body = take hook_body_max (ri_body input), nr_content_type = ri_content_type input, nr_rendered = [],
      nr_level = ri_level input, nr_title = ri_title input, nr_overrides = ri_overrides input, nr_delivered_at = None,
      nr_replay_of = ri_replay_of input\<rparr>"

definition receipt_clash :: "receipt \<Rightarrow> receipt \<Rightarrow> bool" where
  "receipt_clash r r' \<longleftrightarrow>
     nr_id r = nr_id r' \<or> nr_dedupe r \<noteq> None \<and> nr_endpoint r = nr_endpoint r' \<and> nr_dedupe r = nr_dedupe r'"

definition beyond_retention :: "string \<Rightarrow> nt_store \<Rightarrow> string list" where
  "beyond_retention i s =
     List.map nr_id (drop receipt_retention
       (order_desc (\<lambda>r. (nr_received r, nr_id r)) (sql_all (\<lambda>r. nr_endpoint r = i) (nt_receipts s))))"

text \<open>One row of the queue in \<open>trimDeliveries\<close>: references to evicted receipts go, and an empty row with them.\<close>

definition trim_held :: "string list \<Rightarrow> held_row \<Rightarrow> held_row option" where
  "trim_held evicted h =
     (let kept = filter (\<lambda>d. d \<notin> set evicted) (nh_deliveries h)
      in if length kept = length (nh_deliveries h) then Some h
         else if length kept = 0 then None else Some (h\<lparr>nh_deliveries := kept\<rparr>))"

definition trim_deliveries :: "string \<Rightarrow> nt_store \<Rightarrow> nt_store" where
  "trim_deliveries i s =
     (let evicted = beyond_retention i s in
      if evicted = [] then s
      else s\<lparr>nt_held := List.map_filter (\<lambda>h. if nh_endpoint h = i then trim_held evicted h else Some h) (nt_held s),
             nt_receipts := sql_delete (\<lambda>r. nr_id r \<in> set evicted) (nt_receipts s)\<rparr>)"

definition nt_receipt :: "string \<Rightarrow> nt_store \<Rightarrow> receipt option" where
  "nt_receipt i s = sql_get (\<lambda>r. nr_id r = i) (nt_receipts s)"

text \<open>The record read back after the insert, null when the insert's own trim took it.\<close>

definition insert_delivery :: "receipt_input \<Rightarrow> string \<Rightarrow> receipt option nt_call" where
  "insert_delivery input uuid =
     cbind (run_in_transaction (\<lambda>s.
         case sql_insert receipt_clash (new_receipt input uuid) (nt_receipts s) of
           None \<Rightarrow> (s, Inl NtSqlConstraint)
         | Some rows \<Rightarrow> (trim_deliveries (ri_endpoint input) (s\<lparr>nt_receipts := rows\<rparr>), Inr ())))
       (\<lambda>_. cget (nt_receipt uuid))"

definition find_by_message :: "string \<Rightarrow> nt_store \<Rightarrow> receipt list" where
  "find_by_message m s = sql_all (\<lambda>r. m \<in> set (nr_messages r)) (nt_receipts s)"

definition find_by_dedupe :: "string \<Rightarrow> string \<Rightarrow> nt_store \<Rightarrow> receipt option" where
  "find_by_dedupe i key s = sql_get (\<lambda>r. nr_endpoint r = i \<and> nr_dedupe r = Some key) (nt_receipts s)"

record receipt_patch =
  rp_status :: "nt_status option"
  rp_reason :: "string option option"
  rp_add :: "string list option"
  rp_rendered :: "string option"
  rp_delivered :: "int option"

definition patch_receipt :: "receipt_patch \<Rightarrow> receipt \<Rightarrow> receipt \<Rightarrow> receipt" where
  "patch_receipt patch old r =
     r\<lparr>nr_status := orelse (rp_status patch) (nr_status old), nr_reason := orelse (rp_reason patch) (nr_reason old),
       nr_messages := (case rp_add patch of None \<Rightarrow> nr_messages old | Some ms \<Rightarrow> nr_messages old @ ms),
       nr_rendered := orelse (rp_rendered patch) (nr_rendered old),
       nr_delivered_at := (case rp_delivered patch of None \<Rightarrow> nr_delivered_at old | Some t \<Rightarrow> Some t)\<rparr>"

definition update_delivery :: "string \<Rightarrow> receipt_patch \<Rightarrow> unit nt_call" where
  "update_delivery i patch =
     cbind (cget (nt_receipt i)) (\<lambda>found.
     cbind (clift (from_option NtNotFound found)) (\<lambda>old.
       cmod (\<lambda>s. s\<lparr>nt_receipts := sql_update (\<lambda>r. nr_id r = i) (patch_receipt patch old) (nt_receipts s)\<rparr>)))"

definition deliveries_by_ids :: "string list \<Rightarrow> nt_store \<Rightarrow> receipt list" where
  "deliveries_by_ids ids s = List.map_filter (\<lambda>i. nt_receipt i s) ids"

text \<open>The projection that goes over the wire: a preview of the body, nothing of the dispatch state.\<close>

record wire_delivery =
  wd_id :: string
  wd_endpoint_slug :: string
  wd_received :: int
  wd_status :: nt_status
  wd_reason :: "string option"
  wd_dedupe :: "string option"
  wd_messages :: "string list"
  wd_preview :: string
  wd_content_type :: "string option"
  wd_overrides :: "nt_overrides option"
  wd_delivered_at :: "int option"
  wd_replay_of :: "string option"

definition body_preview_max :: nat where "body_preview_max = 2048"

definition to_wire_delivery :: "receipt \<Rightarrow> wire_delivery" where
  "to_wire_delivery r =
     \<lparr>wd_id = nr_id r, wd_endpoint_slug = nr_endpoint_slug r, wd_received = nr_received r, wd_status = nr_status r,
      wd_reason = nr_reason r, wd_dedupe = nr_dedupe r, wd_messages = nr_messages r, wd_preview = take body_preview_max (nr_body r),
      wd_content_type = nr_content_type r, wd_overrides = nr_overrides r, wd_delivered_at = nr_delivered_at r,
      wd_replay_of = nr_replay_of r\<rparr>"

definition list_deliveries :: "string \<Rightarrow> int option \<Rightarrow> int option \<Rightarrow> nt_store \<Rightarrow> wire_delivery list" where
  "list_deliveries i limit before s =
     (let n = max 1 (min (orelse limit 50) 500)
      in List.map to_wire_delivery (take (nat n) (order_desc nr_received
           (sql_all (\<lambda>r. nr_endpoint r = i \<and> (case before of None \<Rightarrow> True | Some b \<Rightarrow> nr_received r < b)) (nt_receipts s)))))"

definition debouncing :: string where "debouncing = ''debouncing''"

definition list_stranded_debounce :: "nt_store \<Rightarrow> receipt list" where
  "list_stranded_debounce s =
     order_asc nr_received (sql_all (\<lambda>r. nr_status r = NtPending \<and> nr_reason r = Some debouncing) (nt_receipts s))"

section \<open>The queue\<close>

definition insert_pending :: "held_row \<Rightarrow> unit nt_call" where
  "insert_pending h s =
     (case sql_insert (\<lambda>h h'. nh_id h = nh_id h') h (nt_held s) of
        None \<Rightarrow> (s, Inl NtSqlConstraint)
      | Some rows \<Rightarrow> (s\<lparr>nt_held := rows\<rparr>, Inr ()))"

definition pending_for_member :: "string \<Rightarrow> held_reason option \<Rightarrow> nt_store \<Rightarrow> held_row list" where
  "pending_for_member name reason s =
     order_asc nh_created
       (sql_all (\<lambda>h. nh_member h = name \<and> (case reason of None \<Rightarrow> True | Some w \<Rightarrow> nh_reason h = w)) (nt_held s))"

definition pending_due :: "int \<Rightarrow> nt_store \<Rightarrow> held_row list" where
  "pending_due now s = order_asc nh_deadline (sql_all (\<lambda>h. nh_deadline h \<le> now) (nt_held s))"

definition delete_pending :: "string list \<Rightarrow> nt_store \<Rightarrow> nt_store" where
  "delete_pending ids s = s\<lparr>nt_held := sql_delete (\<lambda>h. nh_id h \<in> set ids) (nt_held s)\<rparr>"

end
