(* ===== verification/NotifyVerify.thy ===== *)
theory NotifyVerify
  imports NotifyStore "HOL-Library.Word"
begin

text \<open>
  Verification of inbound requests, \<open>packages/core/src/notifications/verify.ts\<close>, and the constant-time
  comparison of \<open>packages/core/src/hashing.ts\<close>. A body is the list of its bytes; HMAC-SHA-256, in lowercase
  hex, comes from the platform and is a parameter.
\<close>

unbundle bit_operations_syntax

section \<open>Comparison\<close>

definition constant_time_equal :: "string \<Rightarrow> string \<Rightarrow> bool" where
  "constant_time_equal a b =
     (if length a \<noteq> length b then False
      else fold (\<lambda>(x, y) diff. diff OR (of_char x XOR of_char y)) (zip a b) (0 :: int) = 0)"

lemma xor_zero_iff: "(x :: int) XOR y = 0 \<longleftrightarrow> x = y"
proof
  assume zero: "x XOR y = 0"
  have "bit x n = bit y n" for n
    using arg_cong [OF zero, of "\<lambda>z. bit z n"] by (simp add: bit_xor_iff)
  then show "x = y" by (simp add: bit_eq_iff)
qed simp

lemma fold_diff_zero:
  "fold (\<lambda>(x, y) diff. diff OR (of_char x XOR of_char y)) ps (d :: int) = 0 \<longleftrightarrow> d = 0 \<and> (\<forall>(x, y) \<in> set ps. x = y)"
  by (induction ps arbitrary: d) (auto simp: or_eq_0_iff xor_zero_iff)

text \<open>The loop answers equality.\<close>

lemma constant_time_equal_iff: "constant_time_equal a b \<longleftrightarrow> a = b"
  unfolding constant_time_equal_def fold_diff_zero
  by (auto simp: list_eq_iff_zip_eq)

section \<open>Verification\<close>

datatype verification = VerifyOk | VerifyFailed string

definition default_hmac_header :: string where "default_hmac_header = ''x-hub-signature-256''"
definition default_hmac_prefix :: string where "default_hmac_prefix = ''sha256=''"
definition default_secret_header :: string where "default_secret_header = ''x-hook-secret''"

definition is_hex_digest :: "string \<Rightarrow> bool" where
  "is_hex_digest s \<longleftrightarrow> length s = 64 \<and> list_all (\<lambda>c. is_digit c \<or> (97 :: nat) \<le> of_char c \<and> of_char c \<le> (102 :: nat)) s"

definition verify_inbound ::
  "(string \<Rightarrow> string \<Rightarrow> string) \<Rightarrow> resolved_verification \<Rightarrow> string \<Rightarrow> (string \<Rightarrow> string option) \<Rightarrow> verification" where
  "verify_inbound hmac v body header =
     (case rv_secret v of
        None \<Rightarrow> VerifyFailed ''no signing secret configured''
      | Some secret \<Rightarrow>
          (case rv_kind v of
             HmacSha256 \<Rightarrow>
               (let name = orelse (rv_header v) default_hmac_header; prefix = orelse (rv_prefix v) default_hmac_prefix
                in case header name of
                     None \<Rightarrow> VerifyFailed (''missing signature header '' @ name)
                   | Some value \<Rightarrow>
                       if length prefix > 0 \<and> \<not> starts_with value prefix
                       then VerifyFailed ''signature header missing expected prefix''
                       else (let provided = js_lower (js_trim (drop (length prefix) value))
                             in if \<not> is_hex_digest provided then VerifyFailed ''signature is not a sha256 hex digest''
                                else if \<not> constant_time_equal provided (hmac secret body) then VerifyFailed ''signature mismatch''
                                else VerifyOk))
           | HeaderSecret \<Rightarrow>
               (let name = orelse (rv_header v) default_secret_header
                in case header name of
                     None \<Rightarrow> VerifyFailed (''missing secret header '' @ name)
                   | Some value \<Rightarrow>
                       if \<not> constant_time_equal value secret then VerifyFailed ''secret mismatch'' else VerifyOk)))"

text \<open>\<open>verifyIngress\<close>: what the store or the cipher throws is a failed verification. \<open>text_of\<close> is the error's message.\<close>

definition verify_ingress ::
  "(string \<Rightarrow> string \<Rightarrow> string) \<Rightarrow> (nt_error \<Rightarrow> string) \<Rightarrow> field_cipher option \<Rightarrow> string \<Rightarrow> string \<Rightarrow>
   (string \<Rightarrow> string option) \<Rightarrow> nt_store \<Rightarrow> verification" where
  "verify_ingress hmac text_of cipher endpoint body header s =
     (case resolve_verification cipher endpoint s of
        Inr v \<Rightarrow> verify_inbound hmac v body header
      | Inl e \<Rightarrow> VerifyFailed (if e = NtNoKek then ''encryption key unavailable'' else ''verification error: '' @ text_of e))"

text \<open>A request passes only with proof of the secret that is stored for its endpoint.\<close>

definition proves_secret :: "(string \<Rightarrow> string \<Rightarrow> string) \<Rightarrow> nt_auth \<Rightarrow> string \<Rightarrow> string \<Rightarrow> (string \<Rightarrow> string option) \<Rightarrow> bool" where
  "proves_secret hmac auth secret body header \<longleftrightarrow>
     (case au_kind auth of
       HmacSha256 \<Rightarrow>
         (case header (orelse (au_header auth) default_hmac_header) of
            None \<Rightarrow> False
          | Some value \<Rightarrow> starts_with value (orelse (au_prefix auth) default_hmac_prefix) \<and>
              js_lower (js_trim (drop (length (orelse (au_prefix auth) default_hmac_prefix)) value)) = hmac secret body)
     | HeaderSecret \<Rightarrow> header (orelse (au_header auth) default_secret_header) = Some secret)"

lemma verify_ingress_ok:
  assumes "verify_ingress hmac text_of cipher endpoint body header s = VerifyOk"
  shows "\<exists>e auth ct c secret. select_endpoint endpoint s = Some e \<and> verification_source e s = (auth, Some ct) \<and> cipher = Some c \<and>
    decrypt c ct = Inr (Some secret) \<and> proves_secret hmac auth secret body header"
proof -
  obtain v where v: "resolve_verification cipher endpoint s = Inr v" and ok: "verify_inbound hmac v body header = VerifyOk"
    using assms by (auto simp: verify_ingress_def split: sum.splits)
  obtain e auth enc where e: "select_endpoint endpoint s = Some e" "verification_source e s = (auth, enc)"
    using v by (cases "select_endpoint endpoint s"; cases "verification_source (the (select_endpoint endpoint s)) s")
      (auto simp: resolve_verification_def)
  obtain secret where secret: "rv_secret v = Some secret" using ok by (auto simp: verify_inbound_def split: option.splits)
  obtain ct c where c: "enc = Some ct" "cipher = Some c" "decrypt c ct = Inr (Some secret)"
      "rv_kind v = au_kind auth" "rv_header v = au_header auth" "rv_prefix v = au_prefix auth"
    using v e secret by (auto simp: resolve_verification_def Let_def split: option.splits sum.splits)
  have "proves_secret hmac auth secret body header"
    using ok e c secret unfolding proves_secret_def
    by (cases "au_kind auth")
       (auto simp: verify_inbound_def Let_def constant_time_equal_iff starts_with_def split: option.splits if_splits)
  then show ?thesis using e c(1-3) by blast
qed

end
