(* ===== verification/NotifyDispatch.thy ===== *)
theory NotifyDispatch
  imports NotifyVerify
begin

text \<open>
  The notification dispatcher, \<open>packages/core/src/notifications/dispatcher.ts\<close>: rate limit, deduplication,
  filters, debounce, and the per-target policy for members that are offline or mid-turn. What it asks of
  its collaborators is the environment of a call: the clock, the member list, who is connected and who is
  working, the channel store's recipients, the broker's answer to a push, and the text functions of
  \<open>render.ts\<close>. The pushes handed to the broker are recorded in order. A call runs to its end before the next
  one starts, and a timer is an operation of its own.
\<close>

section \<open>State and environment\<close>

record nt_push =
  nu_from :: string
  nu_to :: "string option"
  nu_thread :: "string option"
  nu_recipients :: "string list option"
  nu_title :: "string option"
  nu_body :: string
  nu_level :: log_level
  nu_endpoint :: string
  nu_deliveries :: "string list"   \<comment> \<open>\<open>data.delivery_ids\<close>\<close>
  nu_coalesced :: "nat option"
  nu_queued_ms :: "int option"

record compose_input =
  cm_slug :: string
  cm_display :: string
  cm_deliveries :: "receipt list"
  cm_queued_ms :: "int option"
  cm_queued_reason :: "held_reason option"
  cm_now :: int

record nt_env =
  en_now :: int
  en_uuid :: "nat \<Rightarrow> string"
  en_members :: "string list"
  en_connected :: "string \<Rightarrow> bool"
  en_working :: "string \<Rightarrow> bool"
  en_channels :: "(string \<Rightarrow> string list option) option"
  en_answer :: "nt_push list \<Rightarrow> nt_push \<Rightarrow> (string \<times> bool) option"  \<comment> \<open>message id, settled; \<open>None\<close> when the push throws\<close>
  en_compose :: "compose_input \<Rightarrow> string"
  en_filter :: "json list \<Rightarrow> string \<Rightarrow> string option"                \<comment> \<open>why the payload fails the rules\<close>
  en_render :: "string option \<Rightarrow> string \<Rightarrow> string"
  en_digest :: "string \<Rightarrow> string"
  en_decode :: "string \<Rightarrow> string"

record debounce_buffer =
  db_deliveries :: "string list"
  db_first :: int
  db_timer :: bool

record nt_dispatcher =
  ds_store :: nt_store
  ds_buffers :: "(string \<times> debounce_buffer) list"
  ds_windows :: "(string \<times> int list) list"
  ds_stopped :: bool
  ds_fresh :: nat              \<comment> \<open>how many ids have been drawn\<close>
  ds_sent :: "nt_push list"    \<comment> \<open>pushes handed to the broker\<close>

type_synonym 'a nd_call = "(nt_dispatcher, nt_error, 'a) call"

definition on_store :: "'a nt_call \<Rightarrow> 'a nd_call" where
  "on_store m d = (case m (ds_store d) of (s', r) \<Rightarrow> (d\<lparr>ds_store := s'\<rparr>, r))"

definition fresh_id :: "nt_env \<Rightarrow> string nd_call" where
  "fresh_id env d = (d\<lparr>ds_fresh := ds_fresh d + 1\<rparr>, Inr (en_uuid env (ds_fresh d)))"

fun each :: "('x \<Rightarrow> ('s, 'e, unit) call) \<Rightarrow> 'x list \<Rightarrow> ('s, 'e, unit) call" where
  "each f [] = cret ()"
| "each f (x # xs) = cbind (f x) (\<lambda>_. each f xs)"

text \<open>Grouping by a key, groups in order of their first member.\<close>

definition group_by :: "('a \<Rightarrow> 'k) \<Rightarrow> 'a list \<Rightarrow> ('k \<times> 'a list) list" where
  "group_by k xs = fold (\<lambda>x g. AList.update (k x) ((case map_of g (k x) of None \<Rightarrow> [] | Some l \<Rightarrow> l) @ [x]) g) xs []"

section \<open>Rate limit\<close>

definition rate_limit_max :: nat where "rate_limit_max = 120"
definition rate_limit_window_ms :: int where "rate_limit_window_ms = 60000"

definition rate_limited :: "nt_env \<Rightarrow> string \<Rightarrow> nt_dispatcher \<Rightarrow> nt_dispatcher \<times> bool" where
  "rate_limited env endpoint d =
     (let window = (case map_of (ds_windows d) endpoint of None \<Rightarrow> [] | Some w \<Rightarrow> w);
          recent = filter (\<lambda>t. en_now env - t < rate_limit_window_ms) window
      in if length recent \<ge> rate_limit_max then (d\<lparr>ds_windows := AList.update endpoint recent (ds_windows d)\<rparr>, True)
         else (d\<lparr>ds_windows := AList.update endpoint (recent @ [en_now env]) (ds_windows d)\<rparr>, False))"

section \<open>Dispatch\<close>

text \<open>Hand a push to the broker; the answer is \<open>None\<close> when it throws.\<close>

definition send_push :: "nt_env \<Rightarrow> nt_push \<Rightarrow> (string \<times> bool) option nd_call" where
  "send_push env p d = (d\<lparr>ds_sent := ds_sent d @ [p]\<rparr>, Inr (en_answer env (ds_sent d) p))"

text \<open>What is settled before the targets are visited.\<close>

record dispatch_plan =
  dp_newest :: "receipt list"
  dp_level :: log_level
  dp_title :: "string option"
  dp_offline :: offline_policy
  dp_busy :: busy_policy
  dp_body :: string
  dp_queued_ms :: "int option"
  dp_force :: "string option"

definition plan_push :: "nt_endpoint \<Rightarrow> dispatch_plan \<Rightarrow> nt_push" where
  "plan_push endpoint plan =
     \<lparr>nu_from = ''hook:'' @ nv_slug endpoint, nu_to = None, nu_thread = None, nu_recipients = None, nu_title = dp_title plan,
      nu_body = dp_body plan, nu_level = dp_level plan, nu_endpoint = nv_slug endpoint,
      nu_deliveries = List.map nr_id (dp_newest plan),
      nu_coalesced = (if length (dp_newest plan) > 1 then Some (length (dp_newest plan)) else None),
      nu_queued_ms = dp_queued_ms plan\<rparr>"

definition push_to_member :: "nt_env \<Rightarrow> nt_endpoint \<Rightarrow> dispatch_plan \<Rightarrow> string \<Rightarrow> (string \<times> bool) option nd_call" where
  "push_to_member env endpoint plan name = send_push env ((plan_push endpoint plan)\<lparr>nu_to := Some name\<rparr>)"

definition push_to_channel :: "nt_env \<Rightarrow> nt_endpoint \<Rightarrow> dispatch_plan \<Rightarrow> string \<Rightarrow> (string \<times> bool) option nd_call" where
  "push_to_channel env endpoint plan channel =
     (let p = (plan_push endpoint plan)\<lparr>nu_thread := Some (''chan:'' @ channel)\<rparr>
      in case en_channels env of
           Some recipients_of \<Rightarrow>
             if channel \<noteq> ''general'' then
               (case recipients_of channel of
                  None \<Rightarrow> cret None
                | Some rs \<Rightarrow> send_push env (p\<lparr>nu_recipients := Some rs\<rparr>))
             else send_push env p
         | None \<Rightarrow> send_push env p)"

record dispatch_acc =
  da_messages :: "string list"
  da_acked :: nat
  da_notes :: "string list"
  da_queued :: nat

definition acc_empty :: dispatch_acc where
  "acc_empty = \<lparr>da_messages = [], da_acked = 0, da_notes = [], da_queued = 0\<rparr>"

definition acc_pushed :: "(string \<times> bool) option \<Rightarrow> string \<Rightarrow> dispatch_acc \<Rightarrow> dispatch_acc" where
  "acc_pushed answer failed acc =
     (case answer of
        Some (i, acked) \<Rightarrow>
          acc\<lparr>da_messages := da_messages acc @ [i], da_acked := (if acked then da_acked acc + 1 else da_acked acc)\<rparr>
      | None \<Rightarrow> acc\<lparr>da_notes := da_notes acc @ [failed]\<rparr>)"

definition acc_note :: "string \<Rightarrow> dispatch_acc \<Rightarrow> dispatch_acc" where
  "acc_note n acc = acc\<lparr>da_notes := da_notes acc @ [n]\<rparr>"

definition hold_for :: "nt_env \<Rightarrow> nt_endpoint \<Rightarrow> dispatch_plan \<Rightarrow> string \<Rightarrow> held_reason \<Rightarrow> int \<Rightarrow> unit nd_call" where
  "hold_for env endpoint plan name why ttl =
     cbind (fresh_id env) (\<lambda>i.
       on_store (insert_pending
         \<lparr>nh_id = i, nh_endpoint = nv_id endpoint, nh_member = name, nh_reason = why,
          nh_deliveries = List.map nr_id (dp_newest plan), nh_level = dp_level plan, nh_title = dp_title plan,
          nh_created = en_now env, nh_deadline = en_now env + ttl\<rparr>))"

text \<open>One target of the loop in \<open>dispatchGroup\<close>.\<close>

definition dispatch_member :: "nt_env \<Rightarrow> nt_endpoint \<Rightarrow> dispatch_plan \<Rightarrow> string \<Rightarrow> dispatch_acc \<Rightarrow> dispatch_acc nd_call" where
  "dispatch_member env endpoint plan name acc =
     (if name \<notin> set (en_members env) then cret (acc_note (''member '' @ name @ '' no longer exists'') acc)
      else
        (let online = en_connected env name; busy = en_working env name; force = dp_force plan = Some name in
         if \<not> online \<and> \<not> force then
           (if dp_offline plan = OfflineQueue then
              cbind (hold_for env endpoint plan name HeldOffline (po_queue_ttl (nv_policy endpoint))) (\<lambda>_.
              cret (acc_note (''queued for '' @ name @ '' (offline)'') (acc\<lparr>da_queued := da_queued acc + 1\<rparr>)))
            else cret (acc_note (''dropped for '' @ name @ '' (offline)'') acc))
         else if online \<and> busy \<and> dp_busy plan = BusyWait \<and> dp_level plan \<noteq> Critical \<and> \<not> force then
           cbind (hold_for env endpoint plan name HeldBusy (po_max_wait (nv_policy endpoint))) (\<lambda>_.
           cret (acc_note (''waiting for '' @ name @ '' (mid-task)'') (acc\<lparr>da_queued := da_queued acc + 1\<rparr>)))
         else
           cbind (push_to_member env endpoint plan name) (\<lambda>answer.
           cret (acc_pushed answer (''push to '' @ name @ '' failed'') acc))))"

definition dispatch_target :: "nt_env \<Rightarrow> nt_endpoint \<Rightarrow> dispatch_plan \<Rightarrow> nt_target \<Rightarrow> dispatch_acc \<Rightarrow> dispatch_acc nd_call" where
  "dispatch_target env endpoint plan target acc =
     (case tg_channel target of
        Some c \<Rightarrow>
          cbind (push_to_channel env endpoint plan c) (\<lambda>answer.
          cret (acc_pushed answer (''channel '' @ c @ '' unavailable'') acc))
      | None \<Rightarrow> (case tg_member target of None \<Rightarrow> cret acc | Some name \<Rightarrow> dispatch_member env endpoint plan name acc))"

fun dispatch_targets :: "nt_env \<Rightarrow> nt_endpoint \<Rightarrow> dispatch_plan \<Rightarrow> nt_target list \<Rightarrow> dispatch_acc \<Rightarrow> dispatch_acc nd_call" where
  "dispatch_targets env endpoint plan [] acc = cret acc"
| "dispatch_targets env endpoint plan (t # ts) acc =
     cbind (dispatch_target env endpoint plan t acc) (dispatch_targets env endpoint plan ts)"

fun join_notes :: "string list \<Rightarrow> string" where
  "join_notes [] = []"
| "join_notes [n] = n"
| "join_notes (n # m # ns) = n @ ''; '' @ join_notes (m # ns)"

definition outcome_status :: "dispatch_acc \<Rightarrow> nt_status" where
  "outcome_status acc =
     (if da_acked acc > 0 then NtDelivered
      else if da_messages acc \<noteq> [] \<or> da_queued acc > 0 then NtPending else NtDropped)"

text \<open>A row that is already delivered or coalesced, in the record the batch was read with, keeps its status.\<close>

fun settle_rows :: "nt_env \<Rightarrow> dispatch_acc \<Rightarrow> nat \<Rightarrow> receipt list \<Rightarrow> unit nd_call" where
  "settle_rows env acc k [] = cret ()"
| "settle_rows env acc k (r # rs) =
     (let row_status = (if da_messages acc \<noteq> [] \<and> k > 0 then NtCoalesced else outcome_status acc) in
      cbind (on_store (update_delivery (nr_id r)
        \<lparr>rp_status = Some (if nr_status r = NtDelivered \<or> nr_status r = NtCoalesced then nr_status r else row_status),
         rp_reason = Some (if da_notes acc \<noteq> [] then Some (join_notes (da_notes acc)) else None),
         rp_add = Some (da_messages acc), rp_rendered = None,
         rp_delivered = (if da_acked acc > 0 then Some (en_now env) else None)\<rparr>))
      (\<lambda>_. settle_rows env acc (k + 1) rs))"

definition make_plan :: "nt_env \<Rightarrow> nt_endpoint \<Rightarrow> receipt list \<Rightarrow> (int \<times> held_reason \<times> string) option \<Rightarrow> dispatch_plan" where
  "make_plan env endpoint batch held =
     (let newest = order_desc nr_received batch; primary = hd newest in
      \<lparr>dp_newest = newest, dp_level = nr_level primary, dp_title = nr_title primary,
       dp_offline = (case nr_overrides primary of None \<Rightarrow> po_offline (nv_policy endpoint)
                     | Some o' \<Rightarrow> orelse (ov_offline o') (po_offline (nv_policy endpoint))),
       dp_busy = (case nr_overrides primary of None \<Rightarrow> po_busy (nv_policy endpoint)
                  | Some o' \<Rightarrow> orelse (ov_busy o') (po_busy (nv_policy endpoint))),
       dp_body = en_compose env
         \<lparr>cm_slug = nv_slug endpoint, cm_display = nv_display_name endpoint, cm_deliveries = newest,
          cm_queued_ms = map_option fst held, cm_queued_reason = map_option (fst \<circ> snd) held, cm_now = en_now env\<rparr>,
       dp_queued_ms = map_option fst held, dp_force = map_option (snd \<circ> snd) held\<rparr>)"

text \<open>\<open>held\<close>: the age of the queue, why it was held, and the one member it is flushed to.\<close>

definition dispatch_group :: "nt_env \<Rightarrow> nt_endpoint \<Rightarrow> receipt list \<Rightarrow> (int \<times> held_reason \<times> string) option \<Rightarrow> unit nd_call" where
  "dispatch_group env endpoint batch held =
     (if batch = [] then cret ()
      else
        (let plan = make_plan env endpoint batch held;
             targets = (case held of Some (_, _, name) \<Rightarrow> if name = [] then nv_targets endpoint
                          else [\<lparr>tg_member = Some name, tg_channel = None\<rparr>]
                        | None \<Rightarrow> nv_targets endpoint)
         in cbind (dispatch_targets env endpoint plan targets acc_empty) (\<lambda>acc.
            settle_rows env acc 0 (dp_newest plan))))"

section \<open>Debounce\<close>

text \<open>What a flush throws is caught and logged.\<close>

definition caught :: "unit nd_call \<Rightarrow> unit nd_call" where
  "caught m d = (fst (m d), Inr ())"

definition flush_debounce :: "nt_env \<Rightarrow> string \<Rightarrow> unit nd_call" where
  "flush_debounce env i =
     cbind (cget (\<lambda>d. map_of (ds_buffers d) i)) (\<lambda>found.
       case found of
         None \<Rightarrow> cret ()
       | Some buffer \<Rightarrow>
           cbind (cmod (\<lambda>d. d\<lparr>ds_buffers := AList.delete i (ds_buffers d)\<rparr>)) (\<lambda>_.
           cbind (cget (\<lambda>d. nt_get i (ds_store d))) (\<lambda>endpoint.
             case endpoint of
               None \<Rightarrow> cret ()
             | Some e \<Rightarrow>
                 cbind (cget (\<lambda>d. deliveries_by_ids (db_deliveries buffer) (ds_store d))) (\<lambda>batch.
                   caught (dispatch_group env e batch None)))))"

section \<open>The pipeline\<close>

record ingest_result =
  ir_id :: "string option"
  ir_status :: nt_status
  ir_http :: nat

definition status_patch :: "nt_status \<Rightarrow> string option \<Rightarrow> receipt_patch" where
  "status_patch st reason =
     \<lparr>rp_status = Some st, rp_reason = Some reason, rp_add = None, rp_rendered = None, rp_delivered = None\<rparr>"

definition rendered_patch :: "string \<Rightarrow> receipt_patch" where
  "rendered_patch txt = \<lparr>rp_status = None, rp_reason = None, rp_add = None, rp_rendered = Some txt, rp_delivered = None\<rparr>"

text \<open>\<open>getDeliveryRecord(id) as DeliveryRecord\<close>, then a property of it.\<close>

definition read_receipt :: "string \<Rightarrow> receipt nd_call" where
  "read_receipt i =
     cbind (cget (\<lambda>d. nt_receipt i (ds_store d))) (\<lambda>found. clift (from_option NtNullRecord found))"

definition buffer_delivery :: "nt_env \<Rightarrow> nt_endpoint \<Rightarrow> string \<Rightarrow> debounce_buffer nd_call" where
  "buffer_delivery env endpoint i =
     cbind (cget (\<lambda>d. (map_of (ds_buffers d) (nv_id endpoint), ds_stopped d))) (\<lambda>(found, stopped).
       let buffer = (case found of
             Some b \<Rightarrow> b\<lparr>db_deliveries := db_deliveries b @ [i]\<rparr>
           | None \<Rightarrow> \<lparr>db_deliveries = [i], db_first = en_now env, db_timer = \<not> stopped\<rparr>)
       in cbind (cmod (\<lambda>d. d\<lparr>ds_buffers := AList.update (nv_id endpoint) buffer (ds_buffers d)\<rparr>)) (\<lambda>_. cret buffer))"

definition run_pipeline :: "nt_env \<Rightarrow> nt_endpoint \<Rightarrow> receipt \<Rightarrow> ingest_result nd_call" where
  "run_pipeline env endpoint delivery =
     (case en_filter env (nv_filters endpoint) (nr_body delivery) of
        Some reason \<Rightarrow>
          cbind (on_store (update_delivery (nr_id delivery) (status_patch NtFiltered (Some reason)))) (\<lambda>_.
          cret \<lparr>ir_id = Some (nr_id delivery), ir_status = NtFiltered, ir_http = 202\<rparr>)
      | None \<Rightarrow>
          cbind (on_store (update_delivery (nr_id delivery) (rendered_patch (en_render env (nv_template endpoint) (nr_body delivery))))) (\<lambda>_.
          cbind (read_receipt (nr_id delivery)) (\<lambda>rec'.
            if po_debounce_ms (nv_policy endpoint) > 0 \<and> nr_level rec' \<noteq> Critical then
              cbind (buffer_delivery env endpoint (nr_id rec')) (\<lambda>buffer.
              cbind (on_store (update_delivery (nr_id rec') (status_patch NtPending (Some debouncing)))) (\<lambda>_.
              cbind (if int (length (db_deliveries buffer)) \<ge> po_debounce_max (nv_policy endpoint)
                     then flush_debounce env (nv_id endpoint) else cret ()) (\<lambda>_.
              cret \<lparr>ir_id = Some (nr_id rec'), ir_status = NtPending, ir_http = 202\<rparr>)))
            else
              cbind (dispatch_group env endpoint [rec'] None) (\<lambda>_.
              cbind (read_receipt (nr_id rec')) (\<lambda>final.
              cret \<lparr>ir_id = Some (nr_id final), ir_status = nr_status final, ir_http = 202\<rparr>)))))"

record ingest_input =
  ig_endpoint :: nt_endpoint
  ig_body :: string
  ig_content_type :: "string option"
  ig_header :: "string \<Rightarrow> string option"
  ig_overrides :: "nt_overrides option"
  ig_verification :: verification

definition endpoint_title :: "nt_endpoint \<Rightarrow> string option" where
  "endpoint_title e =
     (case nv_title e of Some t \<Rightarrow> Some t
      | None \<Rightarrow> Some (if nv_display_name e = [] then nv_slug e else nv_display_name e))"

text \<open>The note kept of an unverified body; its dash, outside the model's characters, is written as two hyphens.\<close>

definition not_retained :: "nat \<Rightarrow> string \<Rightarrow> string" where
  "not_retained n digest =
     ''[unverified payload not retained -- '' @ radix_string 10 n @ '' bytes, sha256:'' @ digest @ '']''"

definition receipt_of :: "nt_env \<Rightarrow> ingest_input \<Rightarrow> nt_status \<Rightarrow> string option \<Rightarrow> string option \<Rightarrow> string \<Rightarrow> receipt_input" where
  "receipt_of env input st reason key body =
     \<lparr>ri_endpoint = nv_id (ig_endpoint input), ri_endpoint_slug = nv_slug (ig_endpoint input), ri_received = en_now env,
      ri_status = st, ri_reason = reason, ri_dedupe = key, ri_body = body, ri_content_type = ig_content_type input,
      ri_level = (case ig_overrides input of None \<Rightarrow> nv_level (ig_endpoint input)
                  | Some o' \<Rightarrow> orelse (ov_level o') (nv_level (ig_endpoint input))),
      ri_title = endpoint_title (ig_endpoint input), ri_overrides = ig_overrides input, ri_replay_of = None\<rparr>"

definition store_receipt :: "nt_env \<Rightarrow> receipt_input \<Rightarrow> receipt nd_call" where
  "store_receipt env input =
     cbind (fresh_id env) (\<lambda>i.
     cbind (on_store (insert_delivery input i)) (\<lambda>found. clift (from_option NtNullRecord found)))"

definition rejected_result :: "string option \<Rightarrow> ingest_result" where
  "rejected_result i = \<lparr>ir_id = i, ir_status = NtRejected, ir_http = 401\<rparr>"

definition dedupe_key :: "ingest_input \<Rightarrow> string option" where
  "dedupe_key input =
     (case nv_dedupe_header (ig_endpoint input) of
        None \<Rightarrow> None
      | Some h \<Rightarrow> (case ig_header input h of None \<Rightarrow> None | Some v \<Rightarrow> if length v > 0 then Some (take 256 v) else None))"

definition ingest :: "nt_env \<Rightarrow> ingest_input \<Rightarrow> ingest_result nd_call" where
  "ingest env input =
     (let endpoint = ig_endpoint input; body = en_decode env (ig_body input) in
      case ig_verification input of
        VerifyFailed reason \<Rightarrow>
          if \<not> nv_enabled endpoint then cret (rejected_result None)
          else
            cbind (store_receipt env (receipt_of env input NtRejected (Some reason) None
                (not_retained (length (ig_body input)) (en_digest env body)))) (\<lambda>r.
            cret (rejected_result (Some (nr_id r))))
      | VerifyOk \<Rightarrow>
          if \<not> nv_enabled endpoint then
            cbind (store_receipt env (receipt_of env input NtRejected (Some ''endpoint disabled'') None body)) (\<lambda>r.
            cret (rejected_result (Some (nr_id r))))
          else
            cbind (cget (\<lambda>d. case dedupe_key input of None \<Rightarrow> None | Some key \<Rightarrow> find_by_dedupe (nv_id endpoint) key (ds_store d)))
              (\<lambda>existing.
              case existing of
                Some r \<Rightarrow> cret \<lparr>ir_id = Some (nr_id r), ir_status = NtDuplicate, ir_http = 202\<rparr>
              | None \<Rightarrow>
                  cbind (store_receipt env (receipt_of env input NtPending None (dedupe_key input) body)) (\<lambda>r.
                  run_pipeline env endpoint r)))"

definition replay :: "nt_env \<Rightarrow> string \<Rightarrow> receipt option nd_call" where
  "replay env i =
     cbind (cget (\<lambda>d. nt_receipt i (ds_store d))) (\<lambda>found.
     cbind (clift (from_option NtNotFound found)) (\<lambda>source.
     cbind (cguard (nr_status source \<noteq> NtRejected) NtInvalidInput) (\<lambda>_.
     cbind (cget (\<lambda>d. nt_get (nr_endpoint source) (ds_store d))) (\<lambda>found.
     cbind (clift (from_option NtNotFound found)) (\<lambda>endpoint.
     cbind (store_receipt env
       \<lparr>ri_endpoint = nv_id endpoint, ri_endpoint_slug = nv_slug endpoint, ri_received = en_now env, ri_status = NtPending,
        ri_reason = None, ri_dedupe = None, ri_body = nr_body source, ri_content_type = nr_content_type source,
        ri_level = nv_level endpoint, ri_title = endpoint_title endpoint, ri_overrides = None, ri_replay_of = Some (nr_id source)\<rparr>) (\<lambda>copy.
     cbind (run_pipeline env endpoint copy) (\<lambda>_.
       cget (\<lambda>d. nt_receipt (nr_id copy) (ds_store d)))))))))"

section \<open>Queues, dispositions, sweeps\<close>

definition queue_reason :: "held_row list \<Rightarrow> held_reason" where
  "queue_reason rows = (if list_all (\<lambda>h. nh_reason h = HeldBusy) rows then HeldBusy else HeldOffline)"

definition flush_endpoint :: "nt_env \<Rightarrow> string \<Rightarrow> string \<times> held_row list \<Rightarrow> unit nd_call" where
  "flush_endpoint env name = (\<lambda>(i, batch).
     cbind (cmod (\<lambda>d. d\<lparr>ds_store := delete_pending (List.map nh_id batch) (ds_store d)\<rparr>)) (\<lambda>_.
     cbind (cget (\<lambda>d. nt_get i (ds_store d))) (\<lambda>endpoint.
       case endpoint of
         None \<Rightarrow> cret ()
       | Some e \<Rightarrow>
           cbind (cget (\<lambda>d. deliveries_by_ids (js_set (concat (List.map nh_deliveries batch))) (ds_store d))) (\<lambda>deliveries.
             if deliveries = [] then cret ()
             else dispatch_group env e deliveries
               (Some (en_now env - Min (set (List.map nh_created batch)), queue_reason batch, name))))))"

definition flush_pending_rows :: "nt_env \<Rightarrow> held_row list \<Rightarrow> string \<Rightarrow> unit nd_call" where
  "flush_pending_rows env rows name = each (flush_endpoint env name) (group_by nh_endpoint rows)"

definition flush_pending_for :: "nt_env \<Rightarrow> string \<Rightarrow> held_reason option \<Rightarrow> unit nd_call" where
  "flush_pending_for env name reason =
     cbind (cget (\<lambda>d. pending_for_member name reason (ds_store d))) (\<lambda>rows.
       if rows = [] then cret () else flush_pending_rows env rows name)"

definition on_wake :: "nt_env \<Rightarrow> string \<Rightarrow> unit nd_call" where
  "on_wake env name = flush_pending_for env name None"

datatype work_state = WorkIdle | Working | Blocked

definition on_activity_report :: "nt_env \<Rightarrow> string \<Rightarrow> work_state \<Rightarrow> unit nd_call" where
  "on_activity_report env name state =
     (if state = Working then cret () else flush_pending_for env name (Some HeldBusy))"

text \<open>The listener on the broker's dispositions.\<close>

definition on_disposition :: "string \<Rightarrow> disposition \<Rightarrow> int \<Rightarrow> string option \<Rightarrow> unit nd_call" where
  "on_disposition message_id dis at_time detail =
     cbind (cget (\<lambda>d. find_by_message message_id (ds_store d))) (\<lambda>rows.
       each (\<lambda>r.
         if dis = Acted \<or> dis = Handled then
           on_store (update_delivery (nr_id r)
             \<lparr>rp_status = Some NtDelivered, rp_reason = Some None, rp_add = None, rp_rendered = None, rp_delivered = Some at_time\<rparr>)
         else if dis = Refused then
           on_store (update_delivery (nr_id r)
             (status_patch NtDropped (Some (orelse detail ''subscriber refused delivery''))))
         else cret ()) rows)"

definition expired_note :: "string \<Rightarrow> string" where
  "expired_note name = ''queue TTL lapsed before '' @ name @ '' woke''"

definition expire_held :: "held_row \<Rightarrow> unit nd_call" where
  "expire_held h =
     cbind (cget (\<lambda>d. deliveries_by_ids (nh_deliveries h) (ds_store d))) (\<lambda>rows.
       each (\<lambda>r. if nr_status r = NtPending
                 then on_store (update_delivery (nr_id r) (status_patch NtExpired (Some (expired_note (nh_member h)))))
                 else cret ()) rows)"

definition backstop :: "nt_env \<Rightarrow> string \<times> debounce_buffer \<Rightarrow> unit nd_call" where
  "backstop env = (\<lambda>(i, buffer).
     cbind (cget (\<lambda>d. nt_get i (ds_store d))) (\<lambda>endpoint.
       let window = (case endpoint of None \<Rightarrow> 0 | Some e \<Rightarrow> po_debounce_ms (nv_policy e))
       in if en_now env - db_first buffer \<ge> window then flush_debounce env i else cret ()))"

definition sweep :: "nt_env \<Rightarrow> unit nd_call" where
  "sweep env =
     cbind (cget ds_buffers) (\<lambda>buffers.
     cbind (each (backstop env) buffers) (\<lambda>_.
     cbind (cget (\<lambda>d. pending_due (en_now env) (ds_store d))) (\<lambda>due.
       if due = [] then cret ()
       else
         (let expired = filter (\<lambda>h. nh_reason h = HeldOffline) due;
              starved = filter (\<lambda>h. nh_reason h = HeldBusy) due
          in cbind (if expired = [] then cret ()
                    else cbind (cmod (\<lambda>d. d\<lparr>ds_store := delete_pending (List.map nh_id expired) (ds_store d)\<rparr>)) (\<lambda>_.
                      each expire_held expired)) (\<lambda>_.
             each (\<lambda>(name, rows). flush_pending_rows env rows name) (group_by nh_member starved))))))"

definition recover :: "nt_env \<Rightarrow> unit nd_call" where
  "recover env =
     cbind (cget (\<lambda>d. list_stranded_debounce (ds_store d))) (\<lambda>stranded.
       if stranded = [] then cret ()
       else each (\<lambda>(i, batch).
         cbind (cget (\<lambda>d. nt_get i (ds_store d))) (\<lambda>endpoint.
           case endpoint of None \<Rightarrow> cret () | Some e \<Rightarrow> dispatch_group env e batch None)) (group_by nr_endpoint stranded))"

definition stop :: "nt_dispatcher \<Rightarrow> nt_dispatcher" where
  "stop d = d\<lparr>ds_stopped := True, ds_buffers := List.map (\<lambda>(i, b). (i, b\<lparr>db_timer := False\<rparr>)) (ds_buffers d)\<rparr>"

text \<open>\<open>POST /hooks/:slug\<close> after the transport checks: the limit is counted first, and an over-limit request stores nothing.\<close>

datatype hook_reply =
    HookTooLarge | HookBadQuery | HookUnauthorized | HookRateLimited | HookAccepted "string option" nt_status

definition hook_request :: "nt_env \<Rightarrow> ingest_input \<Rightarrow> hook_reply nd_call" where
  "hook_request env input =
     cbind (\<lambda>d. case rate_limited env (nv_id (ig_endpoint input)) d of (d', limited) \<Rightarrow> (d', Inr limited)) (\<lambda>limited.
       if limited then cret (if ig_verification input = VerifyOk then HookRateLimited else HookUnauthorized)
       else cbind (ingest env input) (\<lambda>result.
         cret (if ir_http result = 401 then HookUnauthorized else HookAccepted (ir_id result) (ir_status result))))"

text \<open>The whole route. A declared length is the number the header parses to; a query that is absent is \<open>None\<close>.\<close>

record hook_call =
  hc_slug :: string
  hc_declared :: "int option"
  hc_body :: string
  hc_content_type :: "string option"
  hc_header :: "string \<Rightarrow> string option"
  hc_if_offline :: "string option"
  hc_if_busy :: "string option"
  hc_level :: "string option"

definition level_schema :: "string \<Rightarrow> log_level option" where
  "level_schema s =
     map_of [(''debug'', Debug), (''info'', Info), (''notice'', Notice), (''warning'', Warning), (''error'', ErrorLevel),
       (''critical'', Critical)] s"

text \<open>\<open>None\<close> when a query value is refused; the inner option is null when no query is given.\<close>

definition query_value :: "(string \<Rightarrow> 'v option) \<Rightarrow> string option \<Rightarrow> 'v option option" where
  "query_value parse q = (case q of None \<Rightarrow> Some None | Some s \<Rightarrow> (case parse s of None \<Rightarrow> None | Some v \<Rightarrow> Some (Some v)))"

definition query_overrides :: "hook_call \<Rightarrow> nt_overrides option option" where
  "query_overrides req =
     (case query_value (map_of [(''drop'', OfflineDrop), (''queue'', OfflineQueue)]) (hc_if_offline req) of
        None \<Rightarrow> None
      | Some off \<Rightarrow>
          (case query_value (map_of [(''now'', BusyNow), (''wait'', BusyWait)]) (hc_if_busy req) of
             None \<Rightarrow> None
           | Some busy \<Rightarrow>
               (case query_value level_schema (hc_level req) of
                  None \<Rightarrow> None
                | Some l \<Rightarrow>
                    Some (if off = None \<and> busy = None \<and> l = None then None
                          else Some \<lparr>ov_offline = off, ov_busy = busy, ov_level = l\<rparr>))))"

definition hook_too_large :: "hook_call \<Rightarrow> bool" where
  "hook_too_large req \<longleftrightarrow>
     (case hc_declared req of None \<Rightarrow> False | Some n \<Rightarrow> n > int hook_body_max) \<or> length (hc_body req) > hook_body_max"

definition hook_route ::
  "(string \<Rightarrow> string \<Rightarrow> string) \<Rightarrow> (nt_error \<Rightarrow> string) \<Rightarrow> field_cipher option \<Rightarrow> nt_env \<Rightarrow> hook_call \<Rightarrow> hook_reply nd_call" where
  "hook_route hmac text_of cipher env req =
     cbind (cget (\<lambda>d. nt_get_by_slug (hc_slug req) (ds_store d))) (\<lambda>endpoint.
       if hook_too_large req then cret HookTooLarge
       else case query_overrides req of
         None \<Rightarrow> cret HookBadQuery
       | Some overrides \<Rightarrow>
           (case endpoint of
              None \<Rightarrow> cret HookUnauthorized
            | Some e \<Rightarrow>
                cbind (cget (\<lambda>d. verify_ingress hmac text_of cipher (nv_id e) (hc_body req) (hc_header req) (ds_store d)))
                  (\<lambda>verification.
                  hook_request env
                    \<lparr>ig_endpoint = e, ig_body = hc_body req, ig_content_type = hc_content_type req, ig_header = hc_header req,
                     ig_overrides = overrides, ig_verification = verification\<rparr>)))"

end
