(* ===== verification/NotifyKeeps.thy ===== *)
theory NotifyKeeps
  imports NotifyDispatch
begin

text \<open>
  What the notification store and dispatcher keep: identifiers and deduplication keys are unique, receipts
  stay within the cap of their endpoint, held deliveries refer to receipts that are there, and no receipt
  that was rejected is held, buffered, updated or part of a push. Identifiers are drawn from a generator
  that never repeats, which is what the code relies on \<open>randomUUID\<close> for.
\<close>

section \<open>The invariant\<close>

definition live :: "string \<Rightarrow> string \<Rightarrow> nt_dispatcher \<Rightarrow> bool" where
  "live i x d \<longleftrightarrow> (\<exists>r \<in> set (nt_receipts (ds_store d)). nr_id r = x \<and> nr_endpoint r = i \<and> nr_status r \<noteq> NtRejected)"

text \<open>An identifier that was drawn and, if it names a receipt, an admitted one of that endpoint.\<close>

definition admitted :: "string \<Rightarrow> string \<Rightarrow> nt_dispatcher \<Rightarrow> bool" where
  "admitted i x d \<longleftrightarrow> (\<forall>r \<in> set (nt_receipts (ds_store d)). nr_id r = x \<longrightarrow> nr_endpoint r = i \<and> nr_status r \<noteq> NtRejected)"

definition drawn :: "(nat \<Rightarrow> string) \<Rightarrow> nt_dispatcher \<Rightarrow> string \<Rightarrow> bool" where
  "drawn uuid d x \<longleftrightarrow> (\<exists>k < ds_fresh d. x = uuid k)"

definition receipts_ok :: "(nat \<Rightarrow> string) \<Rightarrow> nt_dispatcher \<Rightarrow> bool" where
  "receipts_ok uuid d \<longleftrightarrow>
     distinct (List.map nr_id (nt_receipts (ds_store d))) \<and>
     (\<forall>r \<in> set (nt_receipts (ds_store d)). \<forall>r' \<in> set (nt_receipts (ds_store d)). receipt_clash r r' \<longrightarrow> r = r') \<and>
     (\<forall>i. length (filter (\<lambda>r. nr_endpoint r = i) (nt_receipts (ds_store d))) \<le> receipt_retention) \<and>
     (\<forall>r \<in> set (nt_receipts (ds_store d)). drawn uuid d (nr_id r) \<and> select_endpoint (nr_endpoint r) (ds_store d) \<noteq> None \<and>
        (nr_status r = NtRejected \<longrightarrow> nr_messages r = []))"

definition held_ok :: "(nat \<Rightarrow> string) \<Rightarrow> nt_dispatcher \<Rightarrow> bool" where
  "held_ok uuid d \<longleftrightarrow>
     distinct (List.map nh_id (nt_held (ds_store d))) \<and>
     (\<forall>h \<in> set (nt_held (ds_store d)). drawn uuid d (nh_id h) \<and> nh_deliveries h \<noteq> [] \<and>
        (\<forall>x \<in> set (nh_deliveries h). live (nh_endpoint h) x d))"

definition buffers_ok :: "(nat \<Rightarrow> string) \<Rightarrow> nt_dispatcher \<Rightarrow> bool" where
  "buffers_ok uuid d \<longleftrightarrow>
     (\<forall>(i, b) \<in> set (ds_buffers d). \<forall>x \<in> set (db_deliveries b). drawn uuid d x \<and> admitted i x d)"

definition sent_ok :: "(nat \<Rightarrow> string) \<Rightarrow> nt_dispatcher \<Rightarrow> bool" where
  "sent_ok uuid d \<longleftrightarrow>
     (\<forall>p \<in> set (ds_sent d). \<forall>x \<in> set (nu_deliveries p). drawn uuid d x \<and> (\<exists>i. admitted i x d))"

text \<open>A replay is a copy of a receipt that was not rejected.\<close>

definition replays_ok :: "(nat \<Rightarrow> string) \<Rightarrow> nt_dispatcher \<Rightarrow> bool" where
  "replays_ok uuid d \<longleftrightarrow>
     (\<forall>r \<in> set (nt_receipts (ds_store d)). \<forall>x. nr_replay_of r = Some x \<longrightarrow> drawn uuid d x \<and> (\<exists>i. admitted i x d))"

definition nt_inv :: "(nat \<Rightarrow> string) \<Rightarrow> nt_dispatcher \<Rightarrow> bool" where
  "nt_inv uuid d \<longleftrightarrow> receipts_ok uuid d \<and> held_ok uuid d \<and> buffers_ok uuid d \<and> sent_ok uuid d \<and> replays_ok uuid d"

lemma nt_invD:
  assumes "nt_inv uuid d"
  shows "receipts_ok uuid d" "held_ok uuid d" "buffers_ok uuid d" "sent_ok uuid d" "replays_ok uuid d"
  using assms by (simp_all add: nt_inv_def)

lemma receipt_get: "receipts_ok uuid d \<Longrightarrow> nt_receipt x (ds_store d) = Some r \<longleftrightarrow> r \<in> set (nt_receipts (ds_store d)) \<and> nr_id r = x"
  unfolding nt_receipt_def by (rule sql_get_key_iff) (simp add: receipts_ok_def)

lemma live_receipt:
  assumes "receipts_ok uuid d" "live i x d"
  shows "\<exists>r. nt_receipt x (ds_store d) = Some r \<and> nr_id r = x \<and> nr_endpoint r = i \<and> nr_status r \<noteq> NtRejected"
  using assms receipt_get by (fastforce simp: live_def)

lemma live_admitted: "receipts_ok uuid d \<Longrightarrow> live i x d \<Longrightarrow> admitted i x d"
  by (auto simp: live_def admitted_def receipts_ok_def distinct_map dest: inj_onD)

lemma live_drawn: "receipts_ok uuid d \<Longrightarrow> live i x d \<Longrightarrow> drawn uuid d x"
  by (auto simp: live_def receipts_ok_def)

section \<open>Steps that keep it\<close>

text \<open>From \<open>d\<close> to \<open>d'\<close>: the invariant holds again, endpoints are the same, and what was live still is.\<close>

definition kept :: "(nat \<Rightarrow> string) \<Rightarrow> nt_dispatcher \<Rightarrow> nt_dispatcher \<Rightarrow> bool" where
  "kept uuid d d' \<longleftrightarrow>
     nt_inv uuid d' \<and> nt_endpoints (ds_store d') = nt_endpoints (ds_store d) \<and> (\<forall>i x. live i x d \<longrightarrow> live i x d')"

lemma kept_refl: "nt_inv uuid d \<Longrightarrow> kept uuid d d"
  by (simp add: kept_def)

lemma kept_trans: "kept uuid d t \<Longrightarrow> kept uuid t d' \<Longrightarrow> kept uuid d d'"
  by (simp add: kept_def)

definition call_keeps :: "(nat \<Rightarrow> string) \<Rightarrow> (nt_dispatcher \<Rightarrow> bool) \<Rightarrow> 'a nd_call \<Rightarrow> bool" where
  "call_keeps uuid P m \<longleftrightarrow> (\<forall>d d' r. nt_inv uuid d \<longrightarrow> P d \<longrightarrow> m d = (d', r) \<longrightarrow> kept uuid d d')"

text \<open>A condition that kept steps do not break.\<close>

definition stable :: "(nt_dispatcher \<Rightarrow> bool) \<Rightarrow> bool" where
  "stable P \<longleftrightarrow> (\<forall>d d'. P d \<longrightarrow> nt_endpoints (ds_store d') = nt_endpoints (ds_store d) \<longrightarrow>
     (\<forall>i x. live i x d \<longrightarrow> live i x d') \<longrightarrow> P d')"

lemma stable_live [simp]: "stable (live i x)" "stable (\<lambda>d. \<forall>x \<in> set xs. live i x d)" "stable (\<lambda>d. True)"
  by (auto simp: stable_def)

lemma stable_conj: "stable P \<Longrightarrow> stable Q \<Longrightarrow> stable (\<lambda>d. P d \<and> Q d)"
  unfolding stable_def by blast

lemma stable_kept: "stable P \<Longrightarrow> kept uuid d d' \<Longrightarrow> P d \<Longrightarrow> P d'"
  unfolding stable_def kept_def by blast

lemma keeps_cbind:
  assumes "call_keeps uuid P m" "\<And>a. call_keeps uuid P (f a)" "stable P"
  shows "call_keeps uuid P (cbind m f)"
  unfolding call_keeps_def
proof (intro allI impI)
  fix d d' r assume d: "nt_inv uuid d" "P d" "cbind m f d = (d', r)"
  from d(3) show "kept uuid d d'"
  proof (cases rule: cbindE)
    case (throw e)
    then show ?thesis using assms(1) d(1,2) unfolding call_keeps_def by blast
  next
    case (next_call t a)
    then have t: "kept uuid d t" using assms(1) d(1,2) unfolding call_keeps_def by blast
    then have "nt_inv uuid t" "P t" using stable_kept [OF assms(3) t d(2)] by (simp_all add: kept_def)
    then have "kept uuid t d'" using assms(2) next_call(2) unfolding call_keeps_def by blast
    with t show ?thesis by (rule kept_trans)
  qed
qed

text \<open>A read, whose value may be used under what is known of it.\<close>

lemma keeps_cget:
  assumes "\<And>d. nt_inv uuid d \<Longrightarrow> P d \<Longrightarrow> call_keeps uuid (\<lambda>d'. d' = d) (f (g d))"
  shows "call_keeps uuid P (cbind (cget g) f)"
  unfolding call_keeps_def cget_bind using assms unfolding call_keeps_def by blast

lemma keeps_at: "call_keeps uuid P m \<Longrightarrow> P d \<Longrightarrow> call_keeps uuid (\<lambda>d'. d' = d) m"
  unfolding call_keeps_def by blast

lemma keeps_pure [simp]:
  "call_keeps uuid P (cret a)" "call_keeps uuid P (clift r)" "call_keeps uuid P (cguard b e)" "call_keeps uuid P (cget g)"
  by (auto simp: call_keeps_def cret_def clift_def cguard_def cget_def kept_refl)

lemma keeps_weaken: "call_keeps uuid P m \<Longrightarrow> (\<And>d. nt_inv uuid d \<Longrightarrow> Q d \<Longrightarrow> P d) \<Longrightarrow> call_keeps uuid Q m"
  unfolding call_keeps_def by blast

lemma keeps_each:
  assumes "\<And>x. x \<in> set xs \<Longrightarrow> call_keeps uuid P (f x)" "stable P"
  shows "call_keeps uuid P (each f xs)"
  using assms by (induction xs) (auto intro!: keeps_cbind)

section \<open>Receipts\<close>

text \<open>Rows are rewritten, rejected ones are left alone, and keys stay.\<close>

lemma kept_rewrite:
  assumes inv: "nt_inv uuid d"
    and f: "\<And>r. r \<in> set (nt_receipts (ds_store d)) \<Longrightarrow> nr_id (f r) = nr_id r \<and> nr_endpoint (f r) = nr_endpoint r \<and> nr_dedupe (f r) = nr_dedupe r \<and> nr_replay_of (f r) = nr_replay_of r \<and>
       (nr_status (f r) = NtRejected \<longleftrightarrow> nr_status r = NtRejected) \<and> (nr_status r = NtRejected \<longrightarrow> f r = r)"
    and d': "d' = d\<lparr>ds_store := (ds_store d)\<lparr>nt_receipts := List.map f (nt_receipts (ds_store d))\<rparr>\<rparr>"
  shows "kept uuid d d'"
proof -
  define rs where "rs = nt_receipts (ds_store d)"
  have f': "\<And>r. r \<in> set rs \<Longrightarrow> nr_id (f r) = nr_id r \<and> nr_endpoint (f r) = nr_endpoint r \<and> nr_dedupe (f r) = nr_dedupe r \<and> nr_replay_of (f r) = nr_replay_of r \<and>
       (nr_status (f r) = NtRejected \<longleftrightarrow> nr_status r = NtRejected) \<and> (nr_status r = NtRejected \<longrightarrow> f r = r)"
    using f by (simp add: rs_def)
  have rec: "nt_receipts (ds_store d') = List.map f rs" and other: "nt_held (ds_store d') = nt_held (ds_store d)"
    "nt_endpoints (ds_store d') = nt_endpoints (ds_store d)" "ds_buffers d' = ds_buffers d" "ds_sent d' = ds_sent d" "ds_fresh d' = ds_fresh d"
    by (simp_all add: d' rs_def)
  have live: "live i x d' = live i x d" for i x
    using f' by (auto simp: live_def rec rs_def [symmetric])
  have adm: "admitted i x d' = admitted i x d" for i x
    using f' by (auto simp: admitted_def rec rs_def [symmetric])
  have drawn: "drawn uuid d' = drawn uuid d" using other by (auto simp: drawn_def)
  have r: "receipts_ok uuid d" by (rule nt_invD(1) [OF inv])
  have map_id: "List.map nr_id (List.map f rs) = List.map nr_id rs" using f' by simp
  have len: "length (filter (\<lambda>r. nr_endpoint r = i) (List.map f rs)) = length (filter (\<lambda>r. nr_endpoint r = i) rs)" for i
    using f' by (induction rs) auto
  have clash: "f r = f r'" if "r \<in> set rs" "r' \<in> set rs" "receipt_clash (f r) (f r')" for r r'
  proof -
    have "receipt_clash r r'" using that f' by (simp add: receipt_clash_def)
    then show ?thesis using r that(1,2) by (auto simp: receipts_ok_def rs_def)
  qed
  have "receipts_ok uuid d'"
    using r clash f' unfolding receipts_ok_def rec map_id len drawn
    by (auto simp: rs_def [symmetric] select_endpoint_def other)
  moreover have "replays_ok uuid d'"
    using nt_invD(5) [OF inv] f' unfolding replays_ok_def rec rs_def [symmetric] adm drawn by auto
  ultimately have "nt_inv uuid d'"
    using nt_invD(2-4) [OF inv] by (simp add: nt_inv_def held_ok_def buffers_ok_def sent_ok_def other live adm drawn)
  then show ?thesis using live other by (simp add: kept_def)
qed

lemma keeps_update:
  assumes "rp_status patch \<noteq> Some NtRejected"
  shows "call_keeps uuid (live i x) (on_store (update_delivery x patch))"
  unfolding call_keeps_def
proof (intro allI impI)
  fix d d' q assume inv: "nt_inv uuid d" and l: "live i x d" and run: "on_store (update_delivery x patch) d = (d', q)"
  obtain old where old: "nt_receipt x (ds_store d) = Some old" "nr_id old = x" "nr_status old \<noteq> NtRejected"
    using live_receipt [OF nt_invD(1) [OF inv] l] by blast
  define f where "f = (\<lambda>r. if nr_id r = x then patch_receipt patch old r else r)"
  have d': "d' = d\<lparr>ds_store := (ds_store d)\<lparr>nt_receipts := List.map f (nt_receipts (ds_store d))\<rparr>\<rparr>"
    using run old by (auto simp: on_store_def update_delivery_def cbind_def cget_def clift_def cmod_def sql_update_def f_def)
  have only: "r \<in> set (nt_receipts (ds_store d)) \<Longrightarrow> nr_id r = x \<Longrightarrow> r = old" for r
    using receipt_get [OF nt_invD(1) [OF inv], of x] old(1) by (metis option.inject)
  show "kept uuid d d'"
  proof (rule kept_rewrite [OF inv _ d'])
    fix r assume "r \<in> set (nt_receipts (ds_store d))"
    then have "nr_id r = x \<Longrightarrow> nr_status r \<noteq> NtRejected" using only old(3) by auto
    then show "nr_id (f r) = nr_id r \<and> nr_endpoint (f r) = nr_endpoint r \<and> nr_dedupe (f r) = nr_dedupe r \<and> nr_replay_of (f r) = nr_replay_of r \<and>
       (nr_status (f r) = NtRejected \<longleftrightarrow> nr_status r = NtRejected) \<and> (nr_status r = NtRejected \<longrightarrow> f r = r)"
      using assms old(3) by (auto simp: f_def patch_receipt_def orelse_def split: option.splits)
  qed
qed

section \<open>Pushes and held rows\<close>

lemma kept_frame:
  assumes inv: "nt_inv uuid d" and same: "nt_receipts (ds_store d') = nt_receipts (ds_store d)" "nt_endpoints (ds_store d') = nt_endpoints (ds_store d)"
    "ds_fresh d \<le> ds_fresh d'" and "held_ok uuid d'" "buffers_ok uuid d'" "sent_ok uuid d'"
  shows "kept uuid d d'"
proof -
  have "drawn uuid d x \<Longrightarrow> drawn uuid d' x" for x using same(3) by (auto simp: drawn_def intro: less_le_trans)
  then have "receipts_ok uuid d'"
    using nt_invD(1) [OF inv] by (auto simp: receipts_ok_def same select_endpoint_def)
  moreover have "admitted i x d' = admitted i x d" for i x by (simp add: admitted_def same)
  then have "replays_ok uuid d'"
    using nt_invD(5) [OF inv] \<open>\<And>x. drawn uuid d x \<Longrightarrow> drawn uuid d' x\<close> unfolding replays_ok_def same by blast
  moreover have "live i x d' = live i x d" for i x by (simp add: live_def same)
  ultimately show ?thesis using assms by (simp add: kept_def nt_inv_def)
qed

lemma frames:
  assumes "nt_receipts (ds_store d') = nt_receipts (ds_store d)" "ds_fresh d \<le> ds_fresh d'"
  shows "live i x d' = live i x d" "admitted i x d' = admitted i x d" "drawn uuid d x \<Longrightarrow> drawn uuid d' x"
  using assms by (auto simp: live_def admitted_def drawn_def intro: less_le_trans)

lemma keeps_send:
  "call_keeps uuid (\<lambda>d. \<forall>x \<in> set (nu_deliveries p). live i x d) (send_push env p)"
  unfolding call_keeps_def
proof (intro allI impI)
  fix d d' q assume inv: "nt_inv uuid d" and l: "\<forall>x \<in> set (nu_deliveries p). live i x d" and run: "send_push env p d = (d', q)"
  have d': "ds_store d' = ds_store d" "ds_buffers d' = ds_buffers d" "ds_fresh d' = ds_fresh d" "ds_sent d' = ds_sent d @ [p]"
    using run by (auto simp: send_push_def)
  have fr: "live i x d' = live i x d" "admitted i x d' = admitted i x d" "drawn uuid d' x = drawn uuid d x" for i x
    using d' by (auto simp: live_def admitted_def drawn_def)
  have "\<forall>x \<in> set (nu_deliveries p). drawn uuid d x \<and> admitted i x d"
    using l live_drawn live_admitted nt_invD(1) [OF inv] by blast
  then have "sent_ok uuid d'" using nt_invD(4) [OF inv] by (auto simp: sent_ok_def d' fr)
  moreover have "held_ok uuid d'" "buffers_ok uuid d'" using nt_invD(2,3) [OF inv] by (simp_all add: held_ok_def buffers_ok_def d' fr)
  ultimately show "kept uuid d d'" by (intro kept_frame inv) (simp_all add: d')
qed

lemma undrawn_fresh: "inj uuid \<Longrightarrow> drawn uuid d x \<Longrightarrow> x \<noteq> uuid (ds_fresh d)"
  by (auto simp: drawn_def inj_eq)

lemma keeps_hold:
  assumes "inj uuid" "en_uuid env = uuid" "dp_newest plan \<noteq> []"
  shows "call_keeps uuid (\<lambda>d. \<forall>x \<in> set (List.map nr_id (dp_newest plan)). live (nv_id e) x d) (hold_for env e plan name why ttl)"
  unfolding call_keeps_def
proof (intro allI impI)
  fix d d' q assume inv: "nt_inv uuid d" and l: "\<forall>x \<in> set (List.map nr_id (dp_newest plan)). live (nv_id e) x d"
    and run: "hold_for env e plan name why ttl d = (d', q)"
  define h where "h = \<lparr>nh_id = uuid (ds_fresh d), nh_endpoint = nv_id e, nh_member = name, nh_reason = why,
          nh_deliveries = List.map nr_id (dp_newest plan), nh_level = dp_level plan, nh_title = dp_title plan,
          nh_created = en_now env, nh_deadline = en_now env + ttl\<rparr>"
  have new: "\<forall>h' \<in> set (nt_held (ds_store d)). nh_id h' \<noteq> uuid (ds_fresh d)"
    using nt_invD(2) [OF inv] undrawn_fresh [OF assms(1)] by (auto simp: held_ok_def)
  have h: "nh_id h = uuid (ds_fresh d)" "nh_endpoint h = nv_id e" "nh_deliveries h = List.map nr_id (dp_newest plan)" by (simp_all add: h_def)
  have "d' = d\<lparr>ds_fresh := ds_fresh d + 1, ds_store := (ds_store d)\<lparr>nt_held := nt_held (ds_store d) @ [h]\<rparr>\<rparr>"
    using run new unfolding hold_for_def
    by (auto simp: cbind_def fresh_id_def on_store_def insert_pending_def sql_insert_def assms(2) h_def [symmetric] h(1)
        split: if_splits)
  then have d': "nt_receipts (ds_store d') = nt_receipts (ds_store d)" "nt_endpoints (ds_store d') = nt_endpoints (ds_store d)"
    "nt_held (ds_store d') = nt_held (ds_store d) @ [h]" "ds_fresh d' = ds_fresh d + 1" "ds_buffers d' = ds_buffers d" "ds_sent d' = ds_sent d"
    by simp_all
  have dr: "drawn uuid d x \<Longrightarrow> drawn uuid d' x" for x using d'(4) by (auto simp: drawn_def intro: less_SucI)
  have "drawn uuid d' (nh_id h)" using h(1) d'(4) by (auto simp: drawn_def)
  then have "held_ok uuid d'"
    using nt_invD(2) [OF inv] new l h assms(3) dr unfolding held_ok_def d'(3)
    by (auto simp: live_def d'(1))
  moreover have "buffers_ok uuid d'" "sent_ok uuid d'"
    using nt_invD(3,4) [OF inv] dr by (force simp: buffers_ok_def sent_ok_def d' admitted_def)+
  ultimately show "kept uuid d d'" by (intro kept_frame inv) (simp_all add: d')
qed

end
