(* ===== verification/NotifyFlow.thy ===== *)
theory NotifyFlow
  imports NotifyKeeps
begin

text \<open>
  The dispatcher's operations keep the invariant: dispatch to targets, settlement of the receipts, the
  debounce flush, the queue's flush on wake and idle, dispositions, the sweep and the recovery.
\<close>

section \<open>Sequences\<close>

lemma keeps_cmod_bind:
  assumes "\<And>d. nt_inv uuid d \<Longrightarrow> P d \<Longrightarrow> kept uuid d (g d) \<and> Q (g d)" "call_keeps uuid Q (f ())"
  shows "call_keeps uuid P (cbind (cmod g) f)"
  unfolding call_keeps_def
proof (intro allI impI)
  fix d d' r assume d: "nt_inv uuid d" "P d" and run: "cbind (cmod g) f d = (d', r)"
  have k: "kept uuid d (g d)" "Q (g d)" using assms(1) [OF d] by simp_all
  have "f () (g d) = (d', r)" using run by (simp add: cbind_def cmod_def)
  then have "kept uuid (g d) d'" using assms(2) k unfolding call_keeps_def kept_def by blast
  with k(1) show "kept uuid d d'" by (rule kept_trans)
qed

text \<open>What is known of a value that a call which reads the state returns.\<close>

lemma keeps_read_bind:
  assumes "\<And>d d' r. nt_inv uuid d \<Longrightarrow> P d \<Longrightarrow> m d = (d', r) \<Longrightarrow> d' = d \<and> (\<forall>a. r = Inr a \<longrightarrow> Q a d)"
    and "\<And>a. call_keeps uuid (Q a) (f a)"
  shows "call_keeps uuid P (cbind m f)"
  unfolding call_keeps_def
proof (intro allI impI)
  fix d d' r assume d: "nt_inv uuid d" "P d" and run: "cbind m f d = (d', r)"
  from run show "kept uuid d d'"
  proof (cases rule: cbindE)
    case (throw e)
    then show ?thesis using assms(1) [OF d] d(1) by (auto intro: kept_refl)
  next
    case (next_call t a)
    then have "t = d" "Q a d" using assms(1) [OF d] by blast+
    then show ?thesis using assms(2) next_call(2) d(1) unfolding call_keeps_def by blast
  qed
qed

lemma keeps_caught: "call_keeps uuid P m \<Longrightarrow> call_keeps uuid P (caught m)"
  unfolding call_keeps_def caught_def by (metis fst_conv prod.collapse)

section \<open>Groups\<close>

lemma group_by_fold:
  fixes k :: "'a \<Rightarrow> 'k" and xs :: "'a list"
  assumes "distinct (List.map fst g)" "\<forall>(c, l) \<in> set g. l \<noteq> [] \<and> (\<forall>x \<in> set l. k x = c)"
  defines "g' \<equiv> fold (\<lambda>x g. AList.update (k x) ((case map_of g (k x) of None \<Rightarrow> [] | Some l \<Rightarrow> l) @ [x]) g) xs g"
  shows "distinct (List.map fst g') \<and> (\<forall>(c, l) \<in> set g'. l \<noteq> [] \<and> (\<forall>x \<in> set l. k x = c))"
    and "map_of g' c = (if filter (\<lambda>x. k x = c) xs = [] then map_of g c
       else Some ((case map_of g c of None \<Rightarrow> [] | Some l \<Rightarrow> l) @ filter (\<lambda>x. k x = c) xs))"
proof -
  have "(distinct (List.map fst g') \<and> (\<forall>(c, l) \<in> set g'. l \<noteq> [] \<and> (\<forall>x \<in> set l. k x = c))) \<and>
    (\<forall>c. map_of g' c = (if filter (\<lambda>x. k x = c) xs = [] then map_of g c
       else Some ((case map_of g c of None \<Rightarrow> [] | Some l \<Rightarrow> l) @ filter (\<lambda>x. k x = c) xs)))"
    using assms(1,2) unfolding g'_def
  proof (induction xs arbitrary: g)
    case (Cons x xs)
    define g1 where "g1 = AList.update (k x) ((case map_of g (k x) of None \<Rightarrow> [] | Some l \<Rightarrow> l) @ [x]) g"
    have p2: "l \<noteq> [] \<and> (\<forall>y \<in> set l. k y = c)" if "(c, l) \<in> set g" for c l using Cons.prems(2) that by auto
    have d1: "distinct (List.map fst g1)" unfolding g1_def by (rule distinct_update) (rule Cons.prems(1))
    have m1: "map_of g1 c = (if c = k x then Some ((case map_of g (k x) of None \<Rightarrow> [] | Some l \<Rightarrow> l) @ [x]) else map_of g c)" for c
      by (simp add: g1_def update_conv')
    have s1: "\<forall>(c, l) \<in> set g1. l \<noteq> [] \<and> (\<forall>y \<in> set l. k y = c)"
    proof (clarify)
      fix c l assume "(c, l) \<in> set g1"
      then have "map_of g1 c = Some l" using d1 by (simp add: map_of_eq_Some_iff)
      then show "l \<noteq> [] \<and> (\<forall>y \<in> set l. k y = c)"
        using p2 by (auto simp: m1 split: if_splits option.splits dest!: map_of_SomeD)
    qed
    show ?case using Cons.IH [OF d1 s1] unfolding fold_simps g1_def [symmetric]
      by (auto simp: m1 split: option.splits)
  qed simp
  then show "distinct (List.map fst g') \<and> (\<forall>(c, l) \<in> set g'. l \<noteq> [] \<and> (\<forall>x \<in> set l. k x = c))"
    "map_of g' c = (if filter (\<lambda>x. k x = c) xs = [] then map_of g c
       else Some ((case map_of g c of None \<Rightarrow> [] | Some l \<Rightarrow> l) @ filter (\<lambda>x. k x = c) xs))" by blast+
qed

text \<open>A group is the rows of its key, in their order; keys do not repeat.\<close>

lemma group_by_member: "(c, l) \<in> set (group_by k xs) \<longleftrightarrow> l = filter (\<lambda>x. k x = c) xs \<and> l \<noteq> []"
proof -
  note f = group_by_fold [of "[]" k xs, simplified, folded group_by_def]
  have "(c, l) \<in> set (group_by k xs) \<longleftrightarrow> map_of (group_by k xs) c = Some l" using f(1) by (simp add: map_of_eq_Some_iff)
  then show ?thesis using f(2) [of c] by (auto split: if_splits)
qed

lemma group_by_distinct: "distinct (List.map fst (group_by k xs))"
  using group_by_fold(1) [of "[]" k xs] by (simp add: group_by_def)

section \<open>Dispatch\<close>

lemma keeps_bind_last: "call_keeps uuid P m \<Longrightarrow> stable P \<Longrightarrow> call_keeps uuid P (cbind m (\<lambda>a. cret (f a)))"
  by (rule keeps_cbind) simp_all

lemma keeps_dispatch_member:
  assumes "inj uuid" "en_uuid env = uuid" "dp_newest plan \<noteq> []"
  shows "call_keeps uuid (\<lambda>d. \<forall>x \<in> set (List.map nr_id (dp_newest plan)). live (nv_id e) x d) (dispatch_member env e plan name acc)"
proof -
  have send: "call_keeps uuid (\<lambda>d. \<forall>x \<in> set (List.map nr_id (dp_newest plan)). live (nv_id e) x d) (push_to_member env e plan name)"
    unfolding push_to_member_def by (rule keeps_weaken [OF keeps_send [of _ _ "nv_id e"]]) (simp add: plan_push_def)
  show ?thesis unfolding dispatch_member_def Let_def
    by (simp add: keeps_bind_last keeps_hold [OF assms] send del: set_map)
qed

lemma keeps_push_to_channel:
  "call_keeps uuid (\<lambda>d. \<forall>x \<in> set (List.map nr_id (dp_newest plan)). live (nv_id e) x d) (push_to_channel env e plan c)"
proof -
  have send: "nu_deliveries p = List.map nr_id (dp_newest plan) \<Longrightarrow>
      call_keeps uuid (\<lambda>d. \<forall>x \<in> set (List.map nr_id (dp_newest plan)). live (nv_id e) x d) (send_push env p)" for p
    by (rule keeps_weaken [OF keeps_send [of _ _ "nv_id e"]]) simp
  show ?thesis unfolding push_to_channel_def Let_def
    by (auto split: option.split simp del: set_map intro!: send simp: plan_push_def)
qed

lemma keeps_dispatch_targets:
  assumes "inj uuid" "en_uuid env = uuid" "dp_newest plan \<noteq> []"
  shows "call_keeps uuid (\<lambda>d. \<forall>x \<in> set (List.map nr_id (dp_newest plan)). live (nv_id e) x d) (dispatch_targets env e plan ts acc)"
proof (induction ts arbitrary: acc)
  case (Cons t ts)
  have "call_keeps uuid (\<lambda>d. \<forall>x \<in> set (List.map nr_id (dp_newest plan)). live (nv_id e) x d) (dispatch_target env e plan t acc)"
    unfolding dispatch_target_def
    by (auto split: option.split simp del: set_map intro!: keeps_bind_last keeps_push_to_channel keeps_dispatch_member assms)
  then show ?case unfolding dispatch_targets.simps by (rule keeps_cbind) (auto simp del: set_map intro: Cons)
qed simp

lemma keeps_settle:
  "call_keeps uuid (\<lambda>d. \<forall>r \<in> set rs. live i (nr_id r) d) (settle_rows env acc k rs)"
proof (induction rs arbitrary: k)
  case (Cons r rs)
  have st: "stable (\<lambda>d. \<forall>r \<in> set rs. live i (nr_id r) d)" for rs by (auto simp: stable_def)
  show ?case unfolding settle_rows.simps Let_def
    by (rule keeps_cbind [OF _ _ st])
       (auto intro!: keeps_weaken [OF keeps_update [of _ uuid i]] keeps_weaken [OF Cons] simp: outcome_status_def split: if_splits)
qed simp

definition batch_live :: "string \<Rightarrow> receipt list \<Rightarrow> nt_dispatcher \<Rightarrow> bool" where
  "batch_live i batch d \<longleftrightarrow> (\<forall>r \<in> set batch. live i (nr_id r) d)"

lemma stable_batch [simp]: "stable (batch_live i batch)"
  by (auto simp: stable_def batch_live_def)

lemma keeps_dispatch_group:
  assumes "inj uuid" "en_uuid env = uuid"
  shows "call_keeps uuid (batch_live (nv_id e) batch) (dispatch_group env e batch held)"
proof (cases "batch = []")
  case True
  then show ?thesis by (simp add: dispatch_group_def)
next
  case False
  define plan where "plan = make_plan env e batch held"
  have newest: "set (dp_newest plan) = set batch" by (simp add: plan_def make_plan_def Let_def)
  then have ne: "dp_newest plan \<noteq> []" using False by auto
  show ?thesis unfolding dispatch_group_def Let_def plan_def [symmetric] if_not_P [OF False]
  proof (rule keeps_cbind)
    show "call_keeps uuid (batch_live (nv_id e) batch) (dispatch_targets env e plan ts acc_empty)" for ts
      by (rule keeps_weaken [OF keeps_dispatch_targets [OF assms ne]]) (simp add: batch_live_def newest)
    show "call_keeps uuid (batch_live (nv_id e) batch) (settle_rows env acc 0 (dp_newest plan))" for acc
      by (rule keeps_weaken [OF keeps_settle [of _ _ "nv_id e"]]) (simp add: batch_live_def newest)
  qed simp
qed

lemma nt_get_id: "nt_get i s = Some e \<Longrightarrow> nv_id e = i"
  by (auto simp: nt_get_def select_endpoint_def row_to_endpoint_def dest: sql_get_SomeD)

lemma by_ids_mem: "r \<in> set (deliveries_by_ids ids s) \<Longrightarrow> \<exists>i \<in> set ids. nt_receipt i s = Some r"
  by (auto simp: deliveries_by_ids_def List.map_filter_def)

lemma by_ids_live:
  assumes "\<forall>x \<in> set ids. admitted i x d"
  shows "batch_live i (deliveries_by_ids ids (ds_store d)) d"
  unfolding batch_live_def
proof
  fix r assume "r \<in> set (deliveries_by_ids ids (ds_store d))"
  then obtain x where x: "x \<in> set ids" "nt_receipt x (ds_store d) = Some r" using by_ids_mem by blast
  then have "r \<in> set (nt_receipts (ds_store d))" "nr_id r = x" by (auto simp: nt_receipt_def dest: sql_get_SomeD)
  then show "live i (nr_id r) d" using assms x(1) by (auto simp: admitted_def live_def)
qed

lemma keeps_on_batch:
  assumes "inj uuid" "en_uuid env = uuid" "\<And>d. nt_inv uuid d \<Longrightarrow> P d \<Longrightarrow> \<forall>x \<in> set ids. admitted (nv_id e) x d"
  shows "call_keeps uuid P (cbind (cget (\<lambda>d. deliveries_by_ids ids (ds_store d))) (\<lambda>batch.
    if Q batch then cret () else dispatch_group env e batch held))"
proof (rule keeps_cget)
  fix d assume d: "nt_inv uuid d" "P d"
  have l: "batch_live (nv_id e) (deliveries_by_ids ids (ds_store d)) d" by (rule by_ids_live) (rule assms(3) [OF d])
  show "call_keeps uuid (\<lambda>d'. d' = d) (if Q (deliveries_by_ids ids (ds_store d)) then cret ()
      else dispatch_group env e (deliveries_by_ids ids (ds_store d)) held)"
    by (auto intro: keeps_at [OF keeps_dispatch_group [OF assms(1,2)] l])
qed

end
