(* ===== verification/NotifySteps.thy ===== *)
theory NotifySteps
  imports NotifyFlow
begin

text \<open>
  The dispatcher's entry points keep the invariant, and so do the store's operations the routes call; the
  step relation collects them, and the system interprets \<open>invariant_system\<close>.
\<close>

section \<open>Debounce, queue and recovery\<close>

lemma kept_buffers:
  assumes inv: "nt_inv uuid d" and b: "buffers_ok uuid (d\<lparr>ds_buffers := b\<rparr>)"
  shows "kept uuid d (d\<lparr>ds_buffers := b\<rparr>)"
  by (rule kept_frame [OF inv])
     (use nt_invD(2,4) [OF inv] b in \<open>simp_all add: held_ok_def sent_ok_def live_def drawn_def admitted_def\<close>)

lemma keeps_flush_debounce:
  assumes "inj uuid" "en_uuid env = uuid"
  shows "call_keeps uuid (\<lambda>d. True) (flush_debounce env i)"
  unfolding flush_debounce_def
proof (rule keeps_cget)
  fix d assume inv: "nt_inv uuid d"
  define f where "f = (\<lambda>(buffer :: debounce_buffer) (_ :: unit). cbind (cget (\<lambda>d. nt_get i (ds_store d))) (\<lambda>endpoint.
             case endpoint of
               None \<Rightarrow> cret ()
             | Some e \<Rightarrow>
                 cbind (cget (\<lambda>d. deliveries_by_ids (db_deliveries buffer) (ds_store d))) (\<lambda>batch.
                   caught (dispatch_group env e batch None))))"
  have later: "call_keeps uuid (\<lambda>d. \<forall>x \<in> set (db_deliveries buffer). admitted i x d) (f buffer u)" for buffer u
    unfolding f_def
  proof (rule keeps_cget)
    fix t assume t: "\<forall>x \<in> set (db_deliveries buffer). admitted i x t"
    have "call_keeps uuid (\<lambda>d'. d' = t) (cbind (cget (\<lambda>d. deliveries_by_ids (db_deliveries buffer) (ds_store d))) (\<lambda>batch.
                   caught (dispatch_group env e batch None)))" if "nv_id e = i" for e
      by (rule keeps_cget) (rule keeps_caught, rule keeps_at [OF keeps_dispatch_group [OF assms]],
          use t that in \<open>auto intro: by_ids_live\<close>)
    then show "call_keeps uuid (\<lambda>d'. d' = t) (case nt_get i (ds_store t) of None \<Rightarrow> cret ()
             | Some e \<Rightarrow> cbind (cget (\<lambda>d. deliveries_by_ids (db_deliveries buffer) (ds_store d))) (\<lambda>batch.
                   caught (dispatch_group env e batch None)))"
      by (auto split: option.split dest: nt_get_id)
  qed
  have "call_keeps uuid (\<lambda>d'. d' = d) (cbind (cmod (\<lambda>d. d\<lparr>ds_buffers := AList.delete i (ds_buffers d)\<rparr>)) (f buffer))"
    if found: "map_of (ds_buffers d) i = Some buffer" for buffer
  proof (rule keeps_cmod_bind [OF _ later])
    fix t assume t: "t = d"
    define t' where "t' = d\<lparr>ds_buffers := AList.delete i (ds_buffers d)\<rparr>"
    have bd: "drawn uuid d x \<and> admitted j x d" if "(j, b) \<in> set (ds_buffers d)" "x \<in> set (db_deliveries b)" for j b x
      using nt_invD(3) [OF inv] that by (auto simp: buffers_ok_def)
    have t': "drawn uuid t' x = drawn uuid d x" "admitted j x t' = admitted j x d" "set (ds_buffers t') \<subseteq> set (ds_buffers d)" for j x
      by (auto simp: t'_def drawn_def admitted_def AList.delete_eq)
    have "buffers_ok uuid t'" using bd t' unfolding buffers_ok_def by blast
    then have "kept uuid d t'" unfolding t'_def by (rule kept_buffers [OF inv])
    moreover have "\<forall>x \<in> set (db_deliveries buffer). admitted i x t'"
      using bd [OF map_of_SomeD [OF found]] t'(2) by blast
    ultimately show "kept uuid t (t\<lparr>ds_buffers := AList.delete i (ds_buffers t)\<rparr>) \<and>
        (\<forall>x \<in> set (db_deliveries buffer). admitted i x (t\<lparr>ds_buffers := AList.delete i (ds_buffers t)\<rparr>))"
      unfolding t t'_def by simp
  qed
  then show "call_keeps uuid (\<lambda>d'. d' = d) (case map_of (ds_buffers d) i of None \<Rightarrow> cret ()
       | Some buffer \<Rightarrow> cbind (cmod (\<lambda>d. d\<lparr>ds_buffers := AList.delete i (ds_buffers d)\<rparr>)) (f buffer))"
    by (auto split: option.split)
qed

definition rows_live :: "held_row list \<Rightarrow> nt_dispatcher \<Rightarrow> bool" where
  "rows_live rows d \<longleftrightarrow> (\<forall>h \<in> set rows. \<forall>x \<in> set (nh_deliveries h). live (nh_endpoint h) x d)"

lemma stable_rows [simp]: "stable (rows_live rows)"
  by (auto simp: stable_def rows_live_def)

lemma rows_live_sub: "rows_live rows d \<Longrightarrow> set rows' \<subseteq> set rows \<Longrightarrow> rows_live rows' d"
  by (auto simp: rows_live_def)

lemma held_live: "nt_inv uuid d \<Longrightarrow> set rows \<subseteq> set (nt_held (ds_store d)) \<Longrightarrow> rows_live rows d"
  using nt_invD(2) by (fastforce simp: rows_live_def held_ok_def)

lemma kept_delete_pending:
  assumes inv: "nt_inv uuid d"
  shows "kept uuid d (d\<lparr>ds_store := delete_pending ids (ds_store d)\<rparr>)"
  by (rule kept_frame [OF inv])
     (use nt_invD(2-4) [OF inv] in \<open>simp_all add: delete_pending_def held_ok_def buffers_ok_def sent_ok_def live_def drawn_def admitted_def\<close>)

lemma keeps_delete_bind:
  assumes "call_keeps uuid P (f ())" "stable P"
  shows "call_keeps uuid P (cbind (cmod (\<lambda>d. d\<lparr>ds_store := delete_pending ids (ds_store d)\<rparr>)) f)"
  by (rule keeps_cmod_bind [where Q = P]) (use kept_delete_pending stable_kept [OF assms(2)] assms(1) in blast)+

lemma keeps_flush_endpoint:
  assumes "inj uuid" "en_uuid env = uuid" "\<forall>h \<in> set batch. nh_endpoint h = i"
  shows "call_keeps uuid (rows_live batch) (flush_endpoint env name (i, batch))"
  unfolding flush_endpoint_def prod.case
proof (rule keeps_delete_bind)
  show "call_keeps uuid (rows_live batch)
     (cbind (cget (\<lambda>d. nt_get i (ds_store d))) (\<lambda>endpoint. case endpoint of None \<Rightarrow> cret ()
       | Some e \<Rightarrow> cbind (cget (\<lambda>d. deliveries_by_ids (js_set (concat (List.map nh_deliveries batch))) (ds_store d))) (\<lambda>deliveries.
             if deliveries = [] then cret ()
             else dispatch_group env e deliveries
               (Some (en_now env - Min (set (List.map nh_created batch)), queue_reason batch, name)))))"
  proof (rule keeps_cget)
    fix d assume d: "nt_inv uuid d" "rows_live batch d"
    have adm: "\<forall>x \<in> set (js_set (concat (List.map nh_deliveries batch))). admitted i x d"
      using d assms(3) live_admitted [OF nt_invD(1) [OF d(1)]] by (fastforce simp: rows_live_def)
    have "call_keeps uuid (\<lambda>d'. d' = d) (cbind (cget (\<lambda>d. deliveries_by_ids (js_set (concat (List.map nh_deliveries batch))) (ds_store d)))
        (\<lambda>deliveries. if deliveries = [] then cret () else dispatch_group env e deliveries held))" if "nv_id e = i" for e held
      by (rule keeps_on_batch [OF assms(1,2)]) (use adm that in blast)
    then show "call_keeps uuid (\<lambda>d'. d' = d) (case nt_get i (ds_store d) of None \<Rightarrow> cret ()
       | Some e \<Rightarrow> cbind (cget (\<lambda>d. deliveries_by_ids (js_set (concat (List.map nh_deliveries batch))) (ds_store d))) (\<lambda>deliveries.
             if deliveries = [] then cret ()
             else dispatch_group env e deliveries
               (Some (en_now env - Min (set (List.map nh_created batch)), queue_reason batch, name))))"
      by (auto split: option.split dest: nt_get_id)
  qed
qed simp

lemma keeps_flush_rows:
  assumes "inj uuid" "en_uuid env = uuid"
  shows "call_keeps uuid (rows_live rows) (flush_pending_rows env rows name)"
  unfolding flush_pending_rows_def
proof (rule keeps_each)
  fix g assume g: "g \<in> set (group_by nh_endpoint rows)"
  obtain i batch where ib: "g = (i, batch)" by (cases g)
  have b: "batch = filter (\<lambda>h. nh_endpoint h = i) rows" using g unfolding ib group_by_member by blast
  show "call_keeps uuid (rows_live rows) (flush_endpoint env name g)"
    unfolding ib by (rule keeps_weaken [OF keeps_flush_endpoint [OF assms]]) (auto simp: b intro: rows_live_sub)
qed simp

lemma keeps_flush_for:
  assumes "inj uuid" "en_uuid env = uuid"
  shows "call_keeps uuid (\<lambda>d. True) (flush_pending_for env name why)"
  unfolding flush_pending_for_def
proof (rule keeps_cget)
  fix d assume d: "nt_inv uuid d"
  have "rows_live (pending_for_member name why (ds_store d)) d" by (rule held_live [OF d]) (auto simp: pending_for_member_def)
  then show "call_keeps uuid (\<lambda>d'. d' = d) (if pending_for_member name why (ds_store d) = [] then cret ()
      else flush_pending_rows env (pending_for_member name why (ds_store d)) name)"
    using keeps_at [OF keeps_flush_rows [OF assms]] by auto
qed

lemma keeps_update_each:
  assumes "\<And>r. call_keeps uuid (live i (nr_id r)) (f r)" "batch_live i rows d"
  shows "call_keeps uuid (\<lambda>d'. d' = d) (each f rows)"
proof (rule keeps_at)
  show "call_keeps uuid (batch_live i rows) (each f rows)"
    by (rule keeps_each) (auto intro!: keeps_weaken [OF assms(1)] simp: batch_live_def)
qed (rule assms(2))

lemma keeps_expire: "call_keeps uuid (rows_live [h]) (expire_held h)"
  unfolding expire_held_def
proof (rule keeps_cget)
  fix d assume d: "nt_inv uuid d" "rows_live [h] d"
  have "batch_live (nh_endpoint h) (deliveries_by_ids (nh_deliveries h) (ds_store d)) d"
    using d live_admitted [OF nt_invD(1) [OF d(1)]] by (auto intro!: by_ids_live simp: rows_live_def)
  then show "call_keeps uuid (\<lambda>d'. d' = d) (each (\<lambda>r. if nr_status r = NtPending
                 then on_store (update_delivery (nr_id r) (status_patch NtExpired (Some (expired_note (nh_member h)))))
                 else cret ()) (deliveries_by_ids (nh_deliveries h) (ds_store d)))"
    by (rule keeps_update_each [rotated]) (auto intro!: keeps_update simp: status_patch_def)
qed

lemma keeps_disposition: "call_keeps uuid (\<lambda>d. True) (on_disposition m dis t detail)"
  unfolding on_disposition_def
proof (rule keeps_cget)
  fix d assume inv: "nt_inv uuid d"
  define f where "f = (\<lambda>r :: receipt. if dis = Acted \<or> dis = Handled then
           on_store (update_delivery (nr_id r)
             \<lparr>rp_status = Some NtDelivered, rp_reason = Some None, rp_add = None, rp_rendered = None, rp_delivered = Some t\<rparr>)
         else if dis = Refused then
           on_store (update_delivery (nr_id r)
             (status_patch NtDropped (Some (orelse detail ''subscriber refused delivery''))))
         else cret ())"
  have l: "\<forall>r \<in> set (find_by_message m (ds_store d)). live (nr_endpoint r) (nr_id r) d"
    using nt_invD(1) [OF inv] by (fastforce simp: find_by_message_def live_def receipts_ok_def)
  have f: "call_keeps uuid (live i (nr_id r)) (f r)" for i r
    by (auto simp: f_def status_patch_def intro!: keeps_update)
  have "call_keeps uuid (\<lambda>d. \<forall>r \<in> set (find_by_message m (ds_store d0)). live (nr_endpoint r) (nr_id r) d)
      (each f (find_by_message m (ds_store d0)))" for d0
    by (rule keeps_each) (auto simp: stable_def intro!: keeps_weaken [OF f])
  from keeps_at [OF this, of d d] l
  show "call_keeps uuid (\<lambda>d'. d' = d) (each f (find_by_message m (ds_store d)))" by blast
qed

lemma keeps_sweep:
  assumes "inj uuid" "en_uuid env = uuid"
  shows "call_keeps uuid (\<lambda>d. True) (sweep env)"
proof -
  have bk: "call_keeps uuid (\<lambda>d. True) (backstop env g)" for g
    unfolding backstop_def
    by (cases g) (auto intro!: keeps_cget keeps_weaken [OF keeps_flush_debounce [OF assms]] simp: Let_def split: if_splits)
  have starved: "call_keeps uuid (rows_live due) (each (\<lambda>(name, rows). flush_pending_rows env rows name) (group_by nh_member starved))"
    if "set starved \<subseteq> set due" for starved due
  proof (rule keeps_each)
    fix g assume g: "g \<in> set (group_by nh_member starved)"
    obtain n rows where nr: "g = (n, rows)" by (cases g)
    have "set rows \<subseteq> set due" using g that unfolding nr group_by_member by auto
    then show "call_keeps uuid (rows_live due) (case g of (name, rows) \<Rightarrow> flush_pending_rows env rows name)"
      unfolding nr prod.case by (intro keeps_weaken [OF keeps_flush_rows [OF assms]]) (auto intro: rows_live_sub)
  qed simp
  have exp: "call_keeps uuid (rows_live due) (each expire_held expired)" if "set expired \<subseteq> set due" for expired due
    by (rule keeps_each) (use that in \<open>auto intro!: keeps_weaken [OF keeps_expire] simp: rows_live_def\<close>)
  show ?thesis unfolding sweep_def
  proof (rule keeps_cget, rule keeps_weaken [OF keeps_cbind], rule keeps_each)
    show "call_keeps uuid (\<lambda>d. True) (cbind (cget (\<lambda>d. pending_due (en_now env) (ds_store d))) (\<lambda>due.
       if due = [] then cret ()
       else
         (let expired = filter (\<lambda>h. nh_reason h = HeldOffline) due;
              starved = filter (\<lambda>h. nh_reason h = HeldBusy) due
          in cbind (if expired = [] then cret ()
                    else cbind (cmod (\<lambda>d. d\<lparr>ds_store := delete_pending (List.map nh_id expired) (ds_store d)\<rparr>)) (\<lambda>_.
                      each expire_held expired)) (\<lambda>_.
             each (\<lambda>(name, rows). flush_pending_rows env rows name) (group_by nh_member starved)))))"
    proof (rule keeps_cget)
      fix d assume d: "nt_inv uuid d"
      define due where "due = pending_due (en_now env) (ds_store d)"
      define expired where "expired = filter (\<lambda>h. nh_reason h = HeldOffline) due"
      define starved where "starved = filter (\<lambda>h. nh_reason h = HeldBusy) due"
      have l: "rows_live due d" unfolding due_def by (rule held_live [OF d]) (auto simp: pending_due_def)
      have "call_keeps uuid (rows_live due) (cbind (if expired = [] then cret ()
                    else cbind (cmod (\<lambda>d. d\<lparr>ds_store := delete_pending (List.map nh_id expired) (ds_store d)\<rparr>)) (\<lambda>_.
                      each expire_held expired)) (\<lambda>_.
             each (\<lambda>(name, rows). flush_pending_rows env rows name) (group_by nh_member starved)))"
        by (rule keeps_cbind) (auto simp: expired_def starved_def intro!: keeps_delete_bind exp starved)
      then show "call_keeps uuid (\<lambda>d'. d' = d) ((\<lambda>due. if due = [] then cret ()
       else
         (let expired = filter (\<lambda>h. nh_reason h = HeldOffline) due;
              starved = filter (\<lambda>h. nh_reason h = HeldBusy) due
          in cbind (if expired = [] then cret ()
                    else cbind (cmod (\<lambda>d. d\<lparr>ds_store := delete_pending (List.map nh_id expired) (ds_store d)\<rparr>)) (\<lambda>_.
                      each expire_held expired)) (\<lambda>_.
             each (\<lambda>(name, rows). flush_pending_rows env rows name) (group_by nh_member starved)))) (pending_due (en_now env) (ds_store d)))"
        unfolding Let_def due_def [symmetric] expired_def [symmetric] starved_def [symmetric]
        using keeps_at [where P = "rows_live due", OF _ l] by auto
    qed
  qed (auto intro: bk)
qed

lemma keeps_recover:
  assumes "inj uuid" "en_uuid env = uuid"
  shows "call_keeps uuid (\<lambda>d. True) (recover env)"
  unfolding recover_def
proof (rule keeps_cget)
  fix d assume d: "nt_inv uuid d"
  define rows where "rows = list_stranded_debounce (ds_store d)"
  define P where "P = (\<lambda>d. \<forall>r \<in> set rows. live (nr_endpoint r) (nr_id r) d)"
  have st: "stable P" by (auto simp: P_def stable_def)
  have l: "P d" by (auto simp: P_def rows_def list_stranded_debounce_def live_def)
  have "call_keeps uuid P (each (\<lambda>(i, batch).
         cbind (cget (\<lambda>d. nt_get i (ds_store d))) (\<lambda>endpoint.
           case endpoint of None \<Rightarrow> cret () | Some e \<Rightarrow> dispatch_group env e batch None)) (group_by nr_endpoint rows))"
  proof (rule keeps_each [OF _ st])
    fix g assume g: "g \<in> set (group_by nr_endpoint rows)"
    obtain i batch where ib: "g = (i, batch)" by (cases g)
    have b: "P t \<Longrightarrow> i = j \<Longrightarrow> batch_live j batch t" for t j using g unfolding ib group_by_member by (auto simp: P_def batch_live_def)
    show "call_keeps uuid P (case g of (i, batch) \<Rightarrow> cbind (cget (\<lambda>d. nt_get i (ds_store d))) (\<lambda>endpoint.
           case endpoint of None \<Rightarrow> cret () | Some e \<Rightarrow> dispatch_group env e batch None))"
      unfolding ib prod.case
      by (rule keeps_cget)
         (auto split: option.split dest!: nt_get_id intro!: keeps_at [OF keeps_dispatch_group [OF assms]] b)
  qed
  then show "call_keeps uuid (\<lambda>d'. d' = d) (if list_stranded_debounce (ds_store d) = [] then cret ()
       else each (\<lambda>(i, batch).
         cbind (cget (\<lambda>d. nt_get i (ds_store d))) (\<lambda>endpoint.
           case endpoint of None \<Rightarrow> cret () | Some e \<Rightarrow> dispatch_group env e batch None)) (group_by nr_endpoint (list_stranded_debounce (ds_store d))))"
    unfolding rows_def [symmetric] using keeps_at [where P = P, OF _ l] by auto
qed

end
