(* ===== verification/NotifyReceipts.thy ===== *)
theory NotifyReceipts
  imports NotifySteps "HOL-Library.Multiset"
begin

text \<open>
  Storing a receipt: the row is new, the endpoint's oldest rows go when there are more than the cap, and the
  queue loses its references to them. Then the pipeline, the ingress and the replay on top of it.
\<close>

section \<open>Trimming\<close>

lemma mset_order_desc [simp]: "mset (order_desc k t) = mset t"
  by (simp add: order_desc_def)

lemma evicted_of_endpoint: "x \<in> set (beyond_retention i s) \<Longrightarrow> \<exists>r \<in> set (nt_receipts s). nr_id r = x \<and> nr_endpoint r = i"
  unfolding beyond_retention_def by (auto dest!: in_set_dropD)

lemma length_filter_twice: "length (filter P (filter Q xs)) \<le> length (filter P xs)"
  by (induction xs) auto

lemma trim_count:
  "length (filter (\<lambda>r. nr_endpoint r = i) (filter (\<lambda>r. nr_id r \<notin> set (beyond_retention i s)) (nt_receipts s))) \<le> receipt_retention"
proof -
  define L where "L = order_desc (\<lambda>r. (nr_received r, nr_id r)) (sql_all (\<lambda>r. nr_endpoint r = i) (nt_receipts s))"
  define E where "E = set (beyond_retention i s)"
  have E: "E = nr_id ` set (drop receipt_retention L)" by (simp add: E_def beyond_retention_def L_def)
  have mL: "mset L = mset (filter (\<lambda>r. nr_endpoint r = i) (nt_receipts s))" by (simp add: L_def sql_all_def)
  have split: "filter (\<lambda>r. nr_id r \<notin> E) L = filter (\<lambda>r. nr_id r \<notin> E) (take receipt_retention L) @ filter (\<lambda>r. nr_id r \<notin> E) (drop receipt_retention L)"
    by (metis append_take_drop_id filter_append)
  have "filter (\<lambda>r. nr_id r \<notin> E) (drop receipt_retention L) = []" by (auto simp: E filter_empty_conv)
  then have "length (filter (\<lambda>r. nr_id r \<notin> E) L) \<le> length (take receipt_retention L)"
    using split length_filter_le [of "\<lambda>r. nr_id r \<notin> E" "take receipt_retention L"] by simp
  then have "length (filter (\<lambda>r. nr_id r \<notin> E) L) \<le> receipt_retention" by simp
  moreover have "length (filter (\<lambda>r. nr_endpoint r = i) (filter (\<lambda>r. nr_id r \<notin> E) (nt_receipts s))) = length (filter (\<lambda>r. nr_id r \<notin> E) L)"
    using arg_cong [OF mL, of "\<lambda>m. size (filter_mset (\<lambda>r. nr_id r \<notin> E) m)"]
    by (simp add: mset_filter [symmetric] conj_commute del: mset_filter)
  ultimately show ?thesis by (simp add: E_def)
qed

lemma trim_rows:
  "nt_receipts (trim_deliveries i s) = filter (\<lambda>r. nr_id r \<notin> set (beyond_retention i s)) (nt_receipts s)"
  "nt_endpoints (trim_deliveries i s) = nt_endpoints s"
  by (auto simp: trim_deliveries_def Let_def sql_delete_def)

lemma trim_heldD:
  assumes "trim_held E h = Some h'"
  shows "nh_id h' = nh_id h" "nh_endpoint h' = nh_endpoint h" "nh_deliveries h' = filter (\<lambda>x. x \<notin> set E) (nh_deliveries h)"
    "nh_deliveries h \<noteq> [] \<Longrightarrow> nh_deliveries h' \<noteq> []"
proof -
  define kept where "kept = filter (\<lambda>x. x \<notin> set E) (nh_deliveries h)"
  have full: "length kept = length (nh_deliveries h) \<Longrightarrow> kept = nh_deliveries h"
    unfolding kept_def by (metis filter_id_conv length_filter_less less_irrefl)
  have h': "nh_id h' = nh_id h \<and> nh_endpoint h' = nh_endpoint h \<and> nh_deliveries h' = kept \<and> (nh_deliveries h \<noteq> [] \<longrightarrow> kept \<noteq> [])"
    using assms full unfolding trim_held_def kept_def [symmetric] Let_def
    by (cases "length kept = length (nh_deliveries h)"; cases "length kept = 0") auto
  then show "nh_id h' = nh_id h" "nh_endpoint h' = nh_endpoint h" "nh_deliveries h' = filter (\<lambda>x. x \<notin> set E) (nh_deliveries h)"
    "nh_deliveries h \<noteq> [] \<Longrightarrow> nh_deliveries h' \<noteq> []"
    by (simp_all add: kept_def)
qed

lemma trim_held_rows:
  assumes "h' \<in> set (nt_held (trim_deliveries i s))"
  shows "\<exists>h \<in> set (nt_held s). nh_id h' = nh_id h \<and> nh_endpoint h' = nh_endpoint h \<and>
    set (nh_deliveries h') \<subseteq> set (nh_deliveries h) \<and> (nh_deliveries h \<noteq> [] \<longrightarrow> nh_deliveries h' \<noteq> []) \<and>
    (nh_endpoint h = i \<longrightarrow> set (nh_deliveries h') \<inter> set (beyond_retention i s) = {})"
proof (cases "beyond_retention i s = []")
  case True
  then show ?thesis using assms by (intro bexI [of _ h']) (simp_all add: trim_deliveries_def)
next
  case False
  then obtain h where h: "h \<in> set (nt_held s)" "(if nh_endpoint h = i then trim_held (beyond_retention i s) h else Some h) = Some h'"
    using assms by (auto simp: trim_deliveries_def Let_def List.map_filter_def)
  show ?thesis
  proof (rule bexI [OF _ h(1)], cases "nh_endpoint h = i")
    case True
    then have "trim_held (beyond_retention i s) h = Some h'" using h(2) by simp
    note t = trim_heldD [OF this]
    have "set (nh_deliveries h') \<subseteq> set (nh_deliveries h)" "set (nh_deliveries h') \<inter> set (beyond_retention i s) = {}" by (auto simp: t(3))
    then show "nh_id h' = nh_id h \<and> nh_endpoint h' = nh_endpoint h \<and>
      set (nh_deliveries h') \<subseteq> set (nh_deliveries h) \<and> (nh_deliveries h \<noteq> [] \<longrightarrow> nh_deliveries h' \<noteq> []) \<and>
      (nh_endpoint h = i \<longrightarrow> set (nh_deliveries h') \<inter> set (beyond_retention i s) = {})"
      using t(1,2,4) by blast
  qed (use h(2) in simp)
qed

lemma trim_held_distinct:
  assumes "distinct (List.map nh_id (nt_held s))"
  shows "distinct (List.map nh_id (nt_held (trim_deliveries i s)))"
proof -
  have "distinct (List.map nh_id (List.map_filter (\<lambda>h. if nh_endpoint h = i then trim_held (beyond_retention i s) h else Some h) (nt_held s)))"
    by (rule map_filter_distinct [OF _ assms]) (auto dest: trim_heldD(1) split: if_splits)
  then show ?thesis using assms by (simp add: trim_deliveries_def Let_def)
qed

section \<open>A new receipt\<close>

definition with_receipt :: "receipt \<Rightarrow> nt_store \<Rightarrow> nt_store" where
  "with_receipt r s = trim_deliveries (nr_endpoint r) (s\<lparr>nt_receipts := nt_receipts s @ [r]\<rparr>)"

lemma inv_new_receipt:
  assumes inv: "nt_inv uuid d" and inj: "inj uuid" and r: "nr_id r = uuid (ds_fresh d)" "nr_messages r = []"
    and new: "\<forall>r' \<in> set (nt_receipts (ds_store d)). \<not> receipt_clash r r'"
    and ep: "select_endpoint (nr_endpoint r) (ds_store d) \<noteq> None"
    and src: "\<And>x. nr_replay_of r = Some x \<Longrightarrow> drawn uuid d x \<and> (\<exists>i. admitted i x d)"
  shows "nt_inv uuid (d\<lparr>ds_fresh := ds_fresh d + 1, ds_store := with_receipt r (ds_store d)\<rparr>)"
proof -
  define i where "i = nr_endpoint r"
  define s where "s = (ds_store d)\<lparr>nt_receipts := nt_receipts (ds_store d) @ [r]\<rparr>"
  define E where "E = set (beyond_retention i s)"
  define d' where "d' = d\<lparr>ds_fresh := ds_fresh d + 1, ds_store := with_receipt r (ds_store d)\<rparr>"
  have st: "ds_store d' = trim_deliveries i s" by (simp add: d'_def with_receipt_def i_def s_def)
  have rec: "nt_receipts (ds_store d') = filter (\<lambda>r. nr_id r \<notin> E) (nt_receipts (ds_store d) @ [r])"
    unfolding st trim_rows E_def by (simp add: s_def)
  have eps: "nt_endpoints (ds_store d') = nt_endpoints (ds_store d)" unfolding st trim_rows by (simp add: s_def)
  have other: "ds_buffers d' = ds_buffers d" "ds_sent d' = ds_sent d" "ds_fresh d' = ds_fresh d + 1" by (simp_all add: d'_def)
  have rok: "receipts_ok uuid d" by (rule nt_invD(1) [OF inv])
  have dr: "drawn uuid d x \<Longrightarrow> drawn uuid d' x" for x by (auto simp: drawn_def other intro: less_SucI)
  have undr: "drawn uuid d x \<Longrightarrow> x \<noteq> nr_id r" for x unfolding r(1) by (rule undrawn_fresh [OF inj])
  have ids: "r' \<in> set (nt_receipts (ds_store d)) \<Longrightarrow> nr_id r' \<noteq> nr_id r" for r'
    using rok undr by (auto simp: receipts_ok_def)
  have "nr_id r \<notin> nr_id ` set (nt_receipts (ds_store d))" using ids by (metis imageE)
  then have distinct: "distinct (List.map nr_id (nt_receipts (ds_store d) @ [r]))"
    using rok by (simp add: receipts_ok_def)
  have sym: "receipt_clash a b = receipt_clash b a" for a b by (auto simp: receipt_clash_def)
  have count: "length (filter (\<lambda>r. nr_endpoint r = j) (nt_receipts (ds_store d'))) \<le> receipt_retention" for j
  proof (cases "j = i")
    case True
    show ?thesis unfolding True st trim_rows by (rule trim_count [of i s])
  next
    case False
    then have "filter (\<lambda>r. nr_endpoint r = j) (nt_receipts (ds_store d'))
        = filter (\<lambda>r. nr_endpoint r = j) (filter (\<lambda>r. nr_id r \<notin> E) (nt_receipts (ds_store d)))"
      unfolding rec by (simp add: i_def)
    moreover have "length (filter (\<lambda>r. nr_endpoint r = j) (nt_receipts (ds_store d))) \<le> receipt_retention"
      using rok unfolding receipts_ok_def by blast
    moreover note length_filter_twice [of "\<lambda>r. nr_endpoint r = j" "\<lambda>r. nr_id r \<notin> E" "nt_receipts (ds_store d)"]
    ultimately show ?thesis by (simp only: le_trans)
  qed
  have "receipts_ok uuid d'"
    unfolding receipts_ok_def
  proof (intro conjI)
    show "distinct (List.map nr_id (nt_receipts (ds_store d')))" unfolding rec by (rule distinct_map_filter [OF distinct])
    show "\<forall>r \<in> set (nt_receipts (ds_store d')). \<forall>r' \<in> set (nt_receipts (ds_store d')). receipt_clash r r' \<longrightarrow> r = r'"
    proof (intro ballI impI)
      fix a b assume ab: "a \<in> set (nt_receipts (ds_store d'))" "b \<in> set (nt_receipts (ds_store d'))" "receipt_clash a b"
      have old: "x \<noteq> r \<Longrightarrow> x \<in> set (nt_receipts (ds_store d')) \<Longrightarrow> x \<in> set (nt_receipts (ds_store d))" for x
        unfolding rec by (auto split: if_splits)
      show "a = b"
      proof (cases "a = r \<or> b = r")
        case True
        then consider "a = r" "b \<noteq> r" | "b = r" "a \<noteq> r" | "a = b" by blast
        then show ?thesis
        proof cases
          case 1
          then show ?thesis using new old [OF _ ab(2)] ab(3) by simp
        next
          case 2
          then show ?thesis using new old [OF _ ab(1)] ab(3) sym [of a b] by simp
        qed
      next
        case False
        then have "a \<in> set (nt_receipts (ds_store d))" "b \<in> set (nt_receipts (ds_store d))" using old ab(1,2) by blast+
        then show ?thesis using rok ab(3) unfolding receipts_ok_def by blast
      qed
    qed
    show "\<forall>i. length (filter (\<lambda>r. nr_endpoint r = i) (nt_receipts (ds_store d'))) \<le> receipt_retention" using count by blast
    show "\<forall>r \<in> set (nt_receipts (ds_store d')). drawn uuid d' (nr_id r) \<and> select_endpoint (nr_endpoint r) (ds_store d') \<noteq> None \<and>
        (nr_status r = NtRejected \<longrightarrow> nr_messages r = [])"
    proof
      fix a assume a: "a \<in> set (nt_receipts (ds_store d'))"
      have sel: "select_endpoint j (ds_store d') = select_endpoint j (ds_store d)" for j by (simp add: select_endpoint_def eps)
      have "drawn uuid d' (nr_id r)" by (auto simp: drawn_def other r(1))
      moreover have "a \<noteq> r \<Longrightarrow> a \<in> set (nt_receipts (ds_store d))" using a unfolding rec by (auto split: if_splits)
      then have "a \<noteq> r \<Longrightarrow> drawn uuid d (nr_id a) \<and> select_endpoint (nr_endpoint a) (ds_store d) \<noteq> None \<and> (nr_status a = NtRejected \<longrightarrow> nr_messages a = [])"
        using rok unfolding receipts_ok_def by blast
      ultimately show "drawn uuid d' (nr_id a) \<and> select_endpoint (nr_endpoint a) (ds_store d') \<noteq> None \<and>
        (nr_status a = NtRejected \<longrightarrow> nr_messages a = [])"
        using dr ep r(2) unfolding sel by (cases "a = r") simp_all
    qed
  qed
  moreover have "held_ok uuid d'"
    unfolding held_ok_def
  proof (intro conjI ballI)
    show "distinct (List.map nh_id (nt_held (ds_store d')))"
      unfolding st by (rule trim_held_distinct) (use nt_invD(2) [OF inv] in \<open>simp add: held_ok_def s_def\<close>)
    fix h' assume h': "h' \<in> set (nt_held (ds_store d'))"
    obtain h where h: "h \<in> set (nt_held (ds_store d))" "nh_id h' = nh_id h" "nh_endpoint h' = nh_endpoint h"
        "set (nh_deliveries h') \<subseteq> set (nh_deliveries h)" "nh_deliveries h \<noteq> [] \<longrightarrow> nh_deliveries h' \<noteq> []"
        "nh_endpoint h = i \<longrightarrow> set (nh_deliveries h') \<inter> E = {}"
      using trim_held_rows [OF h' [unfolded st]] unfolding E_def by (auto simp: s_def)
    have ok: "drawn uuid d (nh_id h)" "nh_deliveries h \<noteq> []" "\<forall>x \<in> set (nh_deliveries h). live (nh_endpoint h) x d"
      using nt_invD(2) [OF inv] h(1) by (auto simp: held_ok_def)
    show "drawn uuid d' (nh_id h')" using ok(1) h(2) dr by simp
    show "nh_deliveries h' \<noteq> []" using ok(2) h(5) by simp
    fix x assume x: "x \<in> set (nh_deliveries h')"
    then have l: "live (nh_endpoint h) x d" using h(4) ok(3) by blast
    have "x \<notin> E"
    proof
      assume xE: "x \<in> E"
      then obtain q where q: "q \<in> set (nt_receipts s)" "nr_id q = x" "nr_endpoint q = i"
        using evicted_of_endpoint unfolding E_def by blast
      have "drawn uuid d x" using live_drawn [OF rok l] .
      then have "x \<noteq> nr_id r" by (rule undr)
      then have "q \<in> set (nt_receipts (ds_store d))" using q by (auto simp: s_def)
      then have "nh_endpoint h = i" using live_admitted [OF rok l] q by (auto simp: admitted_def)
      then show False using h(6) x xE by blast
    qed
    then show "live (nh_endpoint h') x d'" using l unfolding live_def rec h(3) by auto
  qed
  moreover have keep: "drawn uuid d' x \<and> admitted j x d'" if "drawn uuid d x" "admitted j x d" for j x
    using dr undr that unfolding admitted_def rec by auto
  have "buffers_ok uuid d'" using nt_invD(3) [OF inv] keep unfolding buffers_ok_def other by blast
  moreover have "sent_ok uuid d'" using nt_invD(4) [OF inv] keep unfolding sent_ok_def other by blast
  moreover have "replays_ok uuid d'"
    unfolding replays_ok_def
  proof (intro ballI allI impI)
    fix a x assume a: "a \<in> set (nt_receipts (ds_store d'))" "nr_replay_of a = Some x"
    have "a = r \<or> a \<in> set (nt_receipts (ds_store d))" using a(1) unfolding rec by (auto split: if_splits)
    then have "drawn uuid d x \<and> (\<exists>i. admitted i x d)"
      using a(2) src nt_invD(5) [OF inv] unfolding replays_ok_def by blast
    then show "drawn uuid d' x \<and> (\<exists>i. admitted i x d')" using keep by blast
  qed
  ultimately show ?thesis unfolding d'_def [symmetric] nt_inv_def by blast
qed

end
