(* ===== verification/NotifyCalls.thy ===== *)
theory NotifyCalls
  imports NotifyReceipts
begin

text \<open>
  The pipeline, the ingress, the replay and the store's operations keep the invariant. \<open>nt_step\<close> is one
  call of the server; the whole is an \<open>invariant_system\<close>.
\<close>

section \<open>Storing a receipt\<close>

text \<open>A call that keeps the invariant and the endpoints, with what is known of its value.\<close>

definition call_safe :: "(nat \<Rightarrow> string) \<Rightarrow> (nt_dispatcher \<Rightarrow> bool) \<Rightarrow> 'a nd_call \<Rightarrow> ('a \<Rightarrow> nt_dispatcher \<Rightarrow> bool) \<Rightarrow> bool" where
  "call_safe uuid P m Q \<longleftrightarrow> (\<forall>d d' r. nt_inv uuid d \<longrightarrow> P d \<longrightarrow> m d = (d', r) \<longrightarrow>
     nt_inv uuid d' \<and> nt_endpoints (ds_store d') = nt_endpoints (ds_store d) \<and> (\<forall>a. r = Inr a \<longrightarrow> Q a d'))"

lemma call_safeD:
  assumes "call_safe uuid P m Q" "nt_inv uuid d" "P d" "m d = (d', r)"
  shows "nt_inv uuid d'" "nt_endpoints (ds_store d') = nt_endpoints (ds_store d)" "r = Inr a \<Longrightarrow> Q a d'"
  using assms unfolding call_safe_def by blast+

lemma safe_of_keeps: "call_keeps uuid P m \<Longrightarrow> call_safe uuid P m (\<lambda>a d. True)"
  unfolding call_safe_def call_keeps_def kept_def by blast

lemma safe_bind:
  assumes "call_safe uuid P m Q" "\<And>a. call_safe uuid (Q a) (f a) R"
  shows "call_safe uuid P (cbind m f) R"
  unfolding call_safe_def
proof (intro allI impI)
  fix d d' r assume d: "nt_inv uuid d" "P d" and run: "cbind m f d = (d', r)"
  from run show "nt_inv uuid d' \<and> nt_endpoints (ds_store d') = nt_endpoints (ds_store d) \<and> (\<forall>a. r = Inr a \<longrightarrow> R a d')"
  proof (cases rule: cbindE)
    case (throw e)
    then show ?thesis using call_safeD(1,2) [OF assms(1) d throw(1)] by simp
  next
    case (next_call t a)
    note t = call_safeD [OF assms(1) d next_call(1)]
    show ?thesis using call_safeD [OF assms(2) t(1) t(3) [OF refl] next_call(2)] t(2) by simp
  qed
qed

lemma safe_weaken: "call_safe uuid P m Q \<Longrightarrow> (\<And>d. nt_inv uuid d \<Longrightarrow> P' d \<Longrightarrow> P d) \<Longrightarrow> (\<And>a d. Q a d \<Longrightarrow> Q' a d) \<Longrightarrow> call_safe uuid P' m Q'"
  unfolding call_safe_def by blast

lemma safe_pure:
  "(\<And>d. nt_inv uuid d \<Longrightarrow> P d \<Longrightarrow> Q a d) \<Longrightarrow> call_safe uuid P (cret a) Q"
  "(\<And>d. nt_inv uuid d \<Longrightarrow> P d \<Longrightarrow> Q (g d) d) \<Longrightarrow> call_safe uuid P (cget g) Q"
  "(\<And>a d. nt_inv uuid d \<Longrightarrow> P d \<Longrightarrow> x = Inr a \<Longrightarrow> Q a d) \<Longrightarrow> call_safe uuid P (clift x) Q"
  by (auto simp: call_safe_def cret_def cget_def clift_def)

lemma new_receipt_fields [simp]:
  "nr_id (new_receipt input i) = i" "nr_endpoint (new_receipt input i) = ri_endpoint input" "nr_messages (new_receipt input i) = []"
  "nr_status (new_receipt input i) = ri_status input" "nr_replay_of (new_receipt input i) = ri_replay_of input"
  by (simp_all add: new_receipt_def)

lemma insert_delivery_run:
  "insert_delivery input i s =
     (if \<exists>r' \<in> set (nt_receipts s). receipt_clash (new_receipt input i) r' then (s, Inl NtSqlConstraint)
      else (with_receipt (new_receipt input i) s, Inr (nt_receipt i (with_receipt (new_receipt input i) s))))"
  by (simp add: insert_delivery_def run_in_transaction_def sql_insert_def cbind_def cget_def with_receipt_def)

lemma with_receipt_row:
  assumes "r \<in> set (nt_receipts (with_receipt n s))" "nr_id r = nr_id n" "\<forall>r' \<in> set (nt_receipts s). nr_id r' \<noteq> nr_id n"
  shows "r = n"
  using assms unfolding with_receipt_def trim_rows by (auto split: if_splits)

definition fresh_state :: "nt_dispatcher \<Rightarrow> nt_dispatcher" where
  "fresh_state d = d\<lparr>ds_fresh := ds_fresh d + 1\<rparr>"

lemma kept_fresh:
  assumes "nt_inv uuid d"
  shows "kept uuid d (fresh_state d)"
proof (rule kept_frame [OF assms])
  have dr: "drawn uuid d x \<Longrightarrow> drawn uuid (fresh_state d) x" for x by (auto simp: drawn_def fresh_state_def intro: less_SucI)
  have same: "live i x (fresh_state d) = live i x d" "admitted i x (fresh_state d) = admitted i x d"
    "ds_store (fresh_state d) = ds_store d" "ds_buffers (fresh_state d) = ds_buffers d" "ds_sent (fresh_state d) = ds_sent d" for i x
    by (simp_all add: fresh_state_def live_def admitted_def)
  show "held_ok uuid (fresh_state d)" using nt_invD(2) [OF assms] dr unfolding held_ok_def same by blast
  show "buffers_ok uuid (fresh_state d)" using nt_invD(3) [OF assms] dr unfolding buffers_ok_def same by blast
  show "sent_ok uuid (fresh_state d)" using nt_invD(4) [OF assms] dr unfolding sent_ok_def same by blast
qed (simp_all add: fresh_state_def)

text \<open>The record the store answers with is the row just written, when the trim left it.\<close>

lemma store_receipt_run:
  assumes "nt_inv uuid d" "inj uuid" "en_uuid env = uuid" "store_receipt env input d = (d', q)"
  shows "d' = fresh_state d \<and> (\<exists>e. q = Inl e) \<or>
    (\<forall>r' \<in> set (nt_receipts (ds_store d)). \<not> receipt_clash (new_receipt input (uuid (ds_fresh d))) r') \<and>
    d' = (fresh_state d)\<lparr>ds_store := with_receipt (new_receipt input (uuid (ds_fresh d))) (ds_store d)\<rparr> \<and>
    (\<forall>r. q = Inr r \<longrightarrow> r = new_receipt input (uuid (ds_fresh d)) \<and> r \<in> set (nt_receipts (ds_store d')))"
proof -
  define n where "n = new_receipt input (uuid (ds_fresh d))"
  have ids: "\<forall>r' \<in> set (nt_receipts (ds_store d)). nr_id r' \<noteq> nr_id n"
    using nt_invD(1) [OF assms(1)] undrawn_fresh [OF assms(2)] by (auto simp: n_def receipts_ok_def)
  have run: "store_receipt env input d =
      (if \<exists>r' \<in> set (nt_receipts (ds_store d)). receipt_clash n r' then (fresh_state d, Inl NtSqlConstraint)
       else ((fresh_state d)\<lparr>ds_store := with_receipt n (ds_store d)\<rparr>, from_option NtNullRecord (nt_receipt (nr_id n) (with_receipt n (ds_store d)))))"
    by (simp add: store_receipt_def cbind_def fresh_id_def on_store_def insert_delivery_run clift_def assms(3) n_def [symmetric] fresh_state_def)
       (simp add: n_def)
  have row: "r = n \<and> r \<in> set (nt_receipts (with_receipt n (ds_store d)))"
    if "from_option NtNullRecord (nt_receipt (nr_id n) (with_receipt n (ds_store d))) = Inr r" for r
  proof -
    have "nt_receipt (nr_id n) (with_receipt n (ds_store d)) = Some r" using that by (auto simp: from_option_def split: option.splits)
    then have "r \<in> set (nt_receipts (with_receipt n (ds_store d)))" "nr_id r = nr_id n" by (auto simp: nt_receipt_def dest: sql_get_SomeD)
    then show ?thesis using with_receipt_row ids by blast
  qed
  show ?thesis using assms(4) row unfolding run n_def [symmetric] by (auto split: if_splits)
qed

definition storable :: "(nat \<Rightarrow> string) \<Rightarrow> receipt_input \<Rightarrow> nt_dispatcher \<Rightarrow> bool" where
  "storable uuid input d \<longleftrightarrow> select_endpoint (ri_endpoint input) (ds_store d) \<noteq> None \<and>
     (\<forall>x. ri_replay_of input = Some x \<longrightarrow> drawn uuid d x \<and> (\<exists>i. admitted i x d))"

definition new_row :: "receipt_input \<Rightarrow> receipt \<Rightarrow> nt_dispatcher \<Rightarrow> bool" where
  "new_row input r d \<longleftrightarrow> r = new_receipt input (nr_id r) \<and> r \<in> set (nt_receipts (ds_store d))"

lemma with_receipt_endpoints: "nt_endpoints (with_receipt n s) = nt_endpoints s"
  by (simp add: with_receipt_def trim_rows)

lemma safe_store_receipt:
  assumes "inj uuid" "en_uuid env = uuid"
  shows "call_safe uuid (storable uuid input) (store_receipt env input) (new_row input)"
  unfolding call_safe_def
proof (intro allI impI)
  fix d d' q assume d: "nt_inv uuid d" "storable uuid input d" and run: "store_receipt env input d = (d', q)"
  define n where "n = new_receipt input (uuid (ds_fresh d))"
  from store_receipt_run [OF d(1) assms run, folded n_def]
  show "nt_inv uuid d' \<and> nt_endpoints (ds_store d') = nt_endpoints (ds_store d) \<and> (\<forall>r. q = Inr r \<longrightarrow> new_row input r d')"
  proof (elim disjE conjE exE)
    fix e assume "d' = fresh_state d" "q = Inl e"
    then show ?thesis using kept_fresh [OF d(1)] by (simp add: kept_def)
  next
    assume new: "\<forall>r' \<in> set (nt_receipts (ds_store d)). \<not> receipt_clash n r'"
      and d': "d' = (fresh_state d)\<lparr>ds_store := with_receipt n (ds_store d)\<rparr>"
      and q: "\<forall>r. q = Inr r \<longrightarrow> r = n \<and> r \<in> set (nt_receipts (ds_store d'))"
    have "nt_inv uuid (d\<lparr>ds_fresh := ds_fresh d + 1, ds_store := with_receipt n (ds_store d)\<rparr>)"
      by (rule inv_new_receipt [OF d(1) assms(1) _ _ new]) (use d(2) in \<open>simp_all add: n_def storable_def\<close>)
    then have "nt_inv uuid d'" by (simp add: d' fresh_state_def)
    moreover have "nt_endpoints (ds_store d') = nt_endpoints (ds_store d)" by (simp add: d' with_receipt_endpoints)
    moreover have "\<forall>r. q = Inr r \<longrightarrow> new_row input r d'" using q by (auto simp: new_row_def n_def)
    ultimately show ?thesis by blast
  qed
qed

section \<open>Pipeline, ingress, replay\<close>

lemma read_receipt_live:
  assumes "nt_inv uuid d" "live i x d" "read_receipt x d = (d', r)"
  shows "d' = d \<and> (\<exists>a. r = Inr a \<and> nr_id a = x \<and> nr_endpoint a = i)"
  using live_receipt [OF nt_invD(1) [OF assms(1)] assms(2)] assms(3)
  by (auto simp: read_receipt_def cbind_def cget_def clift_def)

lemma keeps_buffer:
  "call_keeps uuid (live (nv_id e) x) (buffer_delivery env e x)"
  unfolding call_keeps_def
proof (intro allI impI)
  fix d d' r assume inv: "nt_inv uuid d" and l: "live (nv_id e) x d" and run: "buffer_delivery env e x d = (d', r)"
  define b where "b = (case map_of (ds_buffers d) (nv_id e) of Some b \<Rightarrow> b\<lparr>db_deliveries := db_deliveries b @ [x]\<rparr>
           | None \<Rightarrow> \<lparr>db_deliveries = [x], db_first = en_now env, db_timer = \<not> ds_stopped d\<rparr>)"
  define bs where "bs = AList.update (nv_id e) b (ds_buffers d)"
  have d': "d' = d\<lparr>ds_buffers := bs\<rparr>"
    using run unfolding bs_def b_def
    by (auto simp: buffer_delivery_def cbind_def cget_def cmod_def cret_def Let_def split: option.splits)
  have ok: "drawn uuid d y \<and> admitted i y d" if "(i, c) \<in> set (ds_buffers d)" "y \<in> set (db_deliveries c)" for i c y
    using nt_invD(3) [OF inv] that by (auto simp: buffers_ok_def)
  have new: "drawn uuid d y \<and> admitted (nv_id e) y d" if "y \<in> set (db_deliveries b)" for y
  proof -
    have x: "drawn uuid d x" "admitted (nv_id e) x d" using l live_drawn live_admitted nt_invD(1) [OF inv] by blast+
    show ?thesis using that x ok map_of_SomeD [of "ds_buffers d" "nv_id e"] by (auto simp: b_def split: option.splits)
  qed
  have "set (AList.update k c ps) \<subseteq> insert (k, c) (set ps)" for k :: string and c :: debounce_buffer and ps
    by (induction ps) auto
  then have "set bs \<subseteq> insert (nv_id e, b) (set (ds_buffers d))" unfolding bs_def .
  then have "buffers_ok uuid (d\<lparr>ds_buffers := bs\<rparr>)"
    using ok new unfolding buffers_ok_def by (auto simp: drawn_def admitted_def)
  then show "kept uuid d d'" unfolding d' by (rule kept_buffers [OF inv])
qed

end
