(* ===== verification/NotifyRest.thy ===== *)
theory NotifyRest
  imports NotifyCalls
begin

text \<open>
  The pipeline, the ingress, the replay and the operations the administration routes call keep the invariant.
\<close>

section \<open>Pipeline, ingress, replay\<close>

lemma keeps_debounced:
  assumes "inj uuid" "en_uuid env = uuid" "nr_id r = x"
  shows "call_keeps uuid (live (nv_id e) x) (
              cbind (buffer_delivery env e (nr_id r)) (\<lambda>buffer.
              cbind (on_store (update_delivery (nr_id r) (status_patch NtPending (Some debouncing)))) (\<lambda>_.
              cbind (if int (length (db_deliveries buffer)) \<ge> po_debounce_max (nv_policy e)
                     then flush_debounce env (nv_id e) else cret ()) (\<lambda>_.
              cret \<lparr>ir_id = Some (nr_id r), ir_status = NtPending, ir_http = 202\<rparr>))))"
  unfolding assms(3)
proof (intro keeps_cbind [where P = "live (nv_id e) x"] keeps_bind_last)
  show "call_keeps uuid (live (nv_id e) x) (buffer_delivery env e x)" by (rule keeps_buffer)
  show "call_keeps uuid (live (nv_id e) x) (on_store (update_delivery x (status_patch NtPending (Some debouncing))))"
    by (rule keeps_update) (simp add: status_patch_def)
  show "call_keeps uuid (live (nv_id e) x) (if int (length (db_deliveries buffer)) \<ge> po_debounce_max (nv_policy e)
                     then flush_debounce env (nv_id e) else cret ())" for buffer
    by (auto intro: keeps_weaken [OF keeps_flush_debounce [OF assms(1,2)]])
qed simp_all

lemma keeps_pipeline:
  assumes "inj uuid" "en_uuid env = uuid"
  shows "call_keeps uuid (live (nv_id e) (nr_id r)) (run_pipeline env e r)"
proof -
  have read: "call_keeps uuid (live (nv_id e) x) (cbind (read_receipt x) f)"
    if "\<And>a. nr_id a = x \<Longrightarrow> call_keeps uuid (live (nv_id e) x) (f a)" for x and f :: "receipt \<Rightarrow> ingest_result nd_call"
    by (rule keeps_read_bind [where Q = "\<lambda>a d. live (nv_id e) x d \<and> nr_id a = x"])
       (use read_receipt_live in fastforce, use that in \<open>auto simp: call_keeps_def\<close>)
  have group: "call_keeps uuid (live (nv_id e) x) (dispatch_group env e [a] None)" if "nr_id a = x" for a x
    by (rule keeps_weaken [OF keeps_dispatch_group [OF assms]]) (use that in \<open>simp add: batch_live_def\<close>)
  have up: "call_keeps uuid (live (nv_id e) x) (on_store (update_delivery x p))" if "rp_status p \<noteq> Some NtRejected" for x p
    by (rule keeps_update) (rule that)
  show ?thesis
    unfolding run_pipeline_def
    by (auto split: option.split simp: status_patch_def rendered_patch_def
        intro!: keeps_bind_last keeps_cbind up read group keeps_debounced [OF assms, unfolded status_patch_def])
qed

definition known_endpoint :: "string \<Rightarrow> nt_dispatcher \<Rightarrow> bool" where
  "known_endpoint i d \<longleftrightarrow> select_endpoint i (ds_store d) \<noteq> None"

lemma safe_stored:
  assumes "inj uuid" "en_uuid env = uuid" "\<And>r. ri_status input \<noteq> NtRejected \<Longrightarrow> call_keeps uuid (live (ri_endpoint input) (nr_id r)) (f r)"
    "\<And>r. ri_status input = NtRejected \<Longrightarrow> \<exists>a. f r = cret a"
  shows "call_safe uuid (storable uuid input) (cbind (store_receipt env input) f) (\<lambda>a d. True)"
proof (rule safe_bind)
  show "call_safe uuid (storable uuid input) (store_receipt env input) (new_row input)"
    by (rule safe_store_receipt [OF assms(1,2)])
  fix r
  show "call_safe uuid (new_row input r) (f r) (\<lambda>a d. True)"
  proof (cases "ri_status input = NtRejected")
    case True
    then show ?thesis using assms(4) by (metis safe_pure(1))
  next
    case False
    have "new_row input r d \<Longrightarrow> live (ri_endpoint input) (nr_id r) d" for d
      using False unfolding new_row_def live_def by (metis new_receipt_fields(2,4))
    then show ?thesis by (intro safe_of_keeps keeps_weaken [OF assms(3) [OF False]])
  qed
qed

lemma safe_ingest:
  assumes "inj uuid" "en_uuid env = uuid"
  shows "call_safe uuid (known_endpoint (nv_id (ig_endpoint input))) (ingest env input) (\<lambda>a d. True)"
proof -
  have stored: "call_safe uuid (known_endpoint (nv_id (ig_endpoint input))) (cbind (store_receipt env (receipt_of env input st why key body)) f) (\<lambda>a d. True)"
    if "st \<noteq> NtRejected \<Longrightarrow> f = run_pipeline env (ig_endpoint input)" "st = NtRejected \<Longrightarrow> f = (\<lambda>r. cret (rejected_result (Some (nr_id r))))"
    for st why key body f
  proof -
    have ri: "ri_endpoint (receipt_of env input st why key body) = nv_id (ig_endpoint input)" "ri_status (receipt_of env input st why key body) = st"
      "ri_replay_of (receipt_of env input st why key body) = None"
      by (simp_all add: receipt_of_def)
    show ?thesis
      by (rule safe_weaken [OF safe_stored [OF assms, of "receipt_of env input st why key body" f, unfolded ri]])
         (simp add: that(1) keeps_pipeline [OF assms], auto simp: that(2) storable_def ri known_endpoint_def)
  qed
  show ?thesis
    unfolding ingest_def Let_def
  proof (cases "ig_verification input"; cases "nv_enabled (ig_endpoint input)")
    assume "ig_verification input = VerifyOk" "nv_enabled (ig_endpoint input)"
    then show "call_safe uuid (known_endpoint (nv_id (ig_endpoint input))) (case ig_verification input of
      VerifyOk \<Rightarrow> if \<not> nv_enabled (ig_endpoint input) then
            cbind (store_receipt env (receipt_of env input NtRejected (Some ''endpoint disabled'') None (en_decode env (ig_body input)))) (\<lambda>r.
            cret (rejected_result (Some (nr_id r))))
          else
            cbind (cget (\<lambda>d. case dedupe_key input of None \<Rightarrow> None | Some key \<Rightarrow> find_by_dedupe (nv_id (ig_endpoint input)) key (ds_store d)))
              (\<lambda>existing. case existing of
                Some r \<Rightarrow> cret \<lparr>ir_id = Some (nr_id r), ir_status = NtDuplicate, ir_http = 202\<rparr>
              | None \<Rightarrow> cbind (store_receipt env (receipt_of env input NtPending None (dedupe_key input) (en_decode env (ig_body input)))) (\<lambda>r.
                  run_pipeline env (ig_endpoint input) r))
      | VerifyFailed reason \<Rightarrow> if \<not> nv_enabled (ig_endpoint input) then cret (rejected_result None)
          else cbind (store_receipt env (receipt_of env input NtRejected (Some reason) None
                (not_retained (length (ig_body input)) (en_digest env (en_decode env (ig_body input)))))) (\<lambda>r.
            cret (rejected_result (Some (nr_id r))))) (\<lambda>a d. True)"
      by (auto intro!: safe_bind [where Q = "\<lambda>_. known_endpoint (nv_id (ig_endpoint input))"] safe_pure stored split: option.split)
  qed (auto intro!: stored safe_pure)
qed

lemma safe_throw: "call_safe uuid P (\<lambda>s. (s, Inl e)) R"
  by (simp add: call_safe_def)

lemma safe_cget_bind:
  assumes "\<And>d. nt_inv uuid d \<Longrightarrow> P d \<Longrightarrow> call_safe uuid (\<lambda>d'. d' = d) (f (g d)) R"
  shows "call_safe uuid P (cbind (cget g) f) R"
  unfolding call_safe_def
proof (intro allI impI)
  fix d d' r assume d: "nt_inv uuid d" "P d" and run: "cbind (cget g) f d = (d', r)"
  show "nt_inv uuid d' \<and> nt_endpoints (ds_store d') = nt_endpoints (ds_store d) \<and> (\<forall>a. r = Inr a \<longrightarrow> R a d')"
    using call_safeD [OF assms [OF d] d(1) refl run [unfolded cget_bind]] by blast
qed

lemma safe_clift_bind:
  assumes "\<And>a. x = Inr a \<Longrightarrow> call_safe uuid P (f a) R"
  shows "call_safe uuid P (cbind (clift x) f) R"
proof (cases x)
  case (Inl e)
  then have "cbind (clift x) f = (\<lambda>s. (s, Inl e))" by (simp add: cbind_def clift_def fun_eq_iff)
  then show ?thesis by (simp add: safe_throw)
next
  case (Inr a)
  then have "cbind (clift x) f = f a" by (simp add: cbind_def clift_def fun_eq_iff)
  then show ?thesis using assms [OF Inr] by simp
qed

lemma safe_cguard_bind:
  assumes "b \<Longrightarrow> call_safe uuid P (f ()) R"
  shows "call_safe uuid P (cbind (cguard b e) f) R"
proof (cases b)
  case True
  then have "cbind (cguard b e) f = f ()" by (simp add: cbind_def cguard_def guard_def fun_eq_iff)
  then show ?thesis using assms True by simp
next
  case False
  then have "cbind (cguard b e) f = (\<lambda>s. (s, Inl e))" by (simp add: cbind_def cguard_def guard_def fun_eq_iff)
  then show ?thesis by (simp add: safe_throw)
qed

lemma known_of_get: "nt_get j s = Some e \<Longrightarrow> select_endpoint (nv_id e) s \<noteq> None"
  using nt_get_id [of j s e] by (auto simp: nt_get_def)

lemma safe_replay:
  assumes "inj uuid" "en_uuid env = uuid"
  shows "call_safe uuid (\<lambda>d. True) (replay env i) (\<lambda>a d. True)"
proof -
  have tail: "call_safe uuid (storable uuid inp) (cbind (store_receipt env inp) (\<lambda>copy.
     cbind (run_pipeline env e copy) (\<lambda>_. cget (\<lambda>d. nt_receipt (nr_id copy) (ds_store d))))) (\<lambda>a d. True)"
    if "ri_endpoint inp = nv_id e" "ri_status inp = NtPending" for e inp
    unfolding that(1) [symmetric]
    by (rule safe_stored [OF assms]) (auto simp: that intro!: keeps_cbind keeps_pipeline [OF assms])
  show ?thesis unfolding replay_def
  proof (intro safe_cget_bind safe_clift_bind safe_cguard_bind)
    fix d t :: nt_dispatcher and source e
    assume inv: "nt_inv uuid d" and source: "from_option NtNotFound (nt_receipt i (ds_store d)) = Inr source" "nr_status source \<noteq> NtRejected"
      and td: "t = d" and e: "from_option NtNotFound (nt_get (nr_endpoint source) (ds_store t)) = Inr e"
    have known: "select_endpoint (nv_id e) (ds_store t) \<noteq> None"
      using e by (auto dest!: known_of_get simp: from_option_def split: option.splits)
    have "nt_receipt i (ds_store d) = Some source" using source(1) by (auto simp: from_option_def split: option.splits)
    then have "live (nr_endpoint source) (nr_id source) d"
      using receipt_get [OF nt_invD(1) [OF inv]] source(2) unfolding live_def by blast
    then have src: "drawn uuid t (nr_id source) \<and> (\<exists>j. admitted j (nr_id source) t)"
      using live_drawn live_admitted nt_invD(1) [OF inv] unfolding td by blast
    show "call_safe uuid (\<lambda>d'. d' = t) (cbind (store_receipt env
       \<lparr>ri_endpoint = nv_id e, ri_endpoint_slug = nv_slug e, ri_received = en_now env, ri_status = NtPending,
        ri_reason = None, ri_dedupe = None, ri_body = nr_body source, ri_content_type = nr_content_type source,
        ri_level = nv_level e, ri_title = endpoint_title e, ri_overrides = None, ri_replay_of = Some (nr_id source)\<rparr>) (\<lambda>copy.
     cbind (run_pipeline env e copy) (\<lambda>_. cget (\<lambda>d. nt_receipt (nr_id copy) (ds_store d))))) (\<lambda>a d. True)"
      by (rule safe_weaken [OF tail]) (use known src in \<open>simp_all add: storable_def\<close>)
  qed
qed

section \<open>The limit and shutdown\<close>

lemma frame_inv:
  assumes "nt_inv uuid d" "ds_store d' = ds_store d" "ds_buffers d' = ds_buffers d" "ds_sent d' = ds_sent d" "ds_fresh d' = ds_fresh d"
  shows "nt_inv uuid d'"
  using assms unfolding nt_inv_def receipts_ok_def held_ok_def buffers_ok_def sent_ok_def replays_ok_def live_def admitted_def drawn_def by simp

lemma rate_limited_frame:
  assumes "rate_limited env i d = (d', b)"
  shows "ds_store d' = ds_store d" "ds_buffers d' = ds_buffers d" "ds_sent d' = ds_sent d" "ds_fresh d' = ds_fresh d"
  using assms by (auto simp: rate_limited_def Let_def split: if_splits)

lemma safe_hook:
  assumes "inj uuid" "en_uuid env = uuid"
  shows "call_safe uuid (known_endpoint (nv_id (ig_endpoint input))) (hook_request env input) (\<lambda>a d. True)"
  unfolding hook_request_def
proof (rule safe_bind [where Q = "\<lambda>_. known_endpoint (nv_id (ig_endpoint input))"])
  show "call_safe uuid (known_endpoint (nv_id (ig_endpoint input)))
     (\<lambda>d. case rate_limited env (nv_id (ig_endpoint input)) d of (d', limited) \<Rightarrow> (d', Inr limited)) (\<lambda>_. known_endpoint (nv_id (ig_endpoint input)))"
    unfolding call_safe_def known_endpoint_def
  proof (intro allI impI)
    fix d d' r assume d: "nt_inv uuid d" "select_endpoint (nv_id (ig_endpoint input)) (ds_store d) \<noteq> None"
      and run: "(case rate_limited env (nv_id (ig_endpoint input)) d of (d', limited) \<Rightarrow> (d', Inr limited)) = (d', r)"
    then obtain b where "rate_limited env (nv_id (ig_endpoint input)) d = (d', b)" by (auto split: prod.splits)
    note f = rate_limited_frame [OF this]
    show "nt_inv uuid d' \<and> nt_endpoints (ds_store d') = nt_endpoints (ds_store d) \<and>
      (\<forall>a. r = Inr a \<longrightarrow> select_endpoint (nv_id (ig_endpoint input)) (ds_store d') \<noteq> None)"
      using frame_inv [OF d(1) f] d(2) f(1) by simp
  qed
  show "call_safe uuid (known_endpoint (nv_id (ig_endpoint input)))
     (if limited then cret (if ig_verification input = VerifyOk then HookRateLimited else HookUnauthorized)
      else cbind (ingest env input) (\<lambda>result.
         cret (if ir_http result = 401 then HookUnauthorized else HookAccepted (ir_id result) (ir_status result)))) (\<lambda>a d. True)" for limited
    by (cases limited) (auto intro!: safe_bind [OF safe_ingest [OF assms]] safe_pure)
qed

lemma stop_inv: "nt_inv uuid d \<Longrightarrow> nt_inv uuid (stop d)"
  unfolding nt_inv_def receipts_ok_def held_ok_def buffers_ok_def sent_ok_def replays_ok_def live_def admitted_def drawn_def
  by (auto simp: stop_def)

end
