(* ===== verification/NotifyLife.thy ===== *)
theory NotifyLife
  imports NotifyRest
begin

text \<open>
  The life of the notification subsystem: the store's administration, the server's calls as a step
  relation, and the interpretation that makes the invariant hold of every reachable state.
\<close>

section \<open>Administration\<close>

text \<open>What the store's profile and endpoint operations leave alone.\<close>

definition same_queue :: "nt_store \<Rightarrow> nt_store \<Rightarrow> bool" where
  "same_queue s s' \<longleftrightarrow> nt_receipts s' = nt_receipts s \<and> nt_held s' = nt_held s \<and>
     ne_id ` set (nt_endpoints s) \<subseteq> ne_id ` set (nt_endpoints s')"

definition admin_call :: "'a nt_call \<Rightarrow> bool" where
  "admin_call m \<longleftrightarrow> (\<forall>s. same_queue s (fst (m s)))"

named_theorems admin

lemma same_queue_refl [simp]: "same_queue s s"
  by (simp add: same_queue_def)

lemma same_queue_trans: "same_queue s t \<Longrightarrow> same_queue t u \<Longrightarrow> same_queue s u"
  by (auto simp: same_queue_def)

lemma admin_pure [admin]: "admin_call (clift r)" "admin_call (cguard b e)" "admin_call (cget g)" "admin_call (\<lambda>s. (s, h s))"
  by (simp_all add: admin_call_def clift_def cguard_def cget_def)

lemma admin_bind [admin]:
  assumes "admin_call m" "\<And>a. admin_call (f a)"
  shows "admin_call (cbind m f)"
  unfolding admin_call_def
proof
  fix s
  obtain t r where m: "m s = (t, r)" by (cases "m s")
  have t: "same_queue s t" using assms(1) m unfolding admin_call_def by (metis fst_conv)
  show "same_queue s (fst (cbind m f s))"
  proof (cases r)
    case (Inr a)
    have "same_queue t (fst (f a t))" using assms(2) by (simp add: admin_call_def)
    then show ?thesis using t m Inr by (simp add: cbind_def same_queue_trans)
  qed (use t m in \<open>simp add: cbind_def\<close>)
qed

lemma admin_cmod [admin]: "(\<And>s. same_queue s (g s)) \<Longrightarrow> admin_call (cmod g)"
  by (simp add: admin_call_def cmod_def)

lemma same_queue_profiles [admin]: "same_queue s (s\<lparr>nt_profiles := ps\<rparr>)"
  by (simp add: same_queue_def)

lemma same_queue_update [admin]:
  assumes "\<And>e. ne_id (f e) = ne_id e"
  shows "same_queue s (s\<lparr>nt_endpoints := sql_update P f (nt_endpoints s)\<rparr>)"
proof -
  have "List.map ne_id (sql_update P f (nt_endpoints s)) = List.map ne_id (nt_endpoints s)"
    by (rule map_key_sql_update) (rule assms)
  from arg_cong [OF this, of set] show ?thesis by (simp add: same_queue_def)
qed

lemma admin_profiles:
  "admin_call (nt_create_profile slug description auth creator i now)" "admin_call (nt_update_profile i description auth' now)"
  "admin_call (nt_delete_profile i)" "admin_call (nt_set_profile_secret cipher i secret now)" "admin_call (nt_delete_profile_secret i now)"
proof -
  have ins: "admin_call (\<lambda>s. case sql_insert clash row (nt_profiles s) of None \<Rightarrow> (s, Inl e) | Some rows \<Rightarrow> (s\<lparr>nt_profiles := rows\<rparr>, Inr row))"
    for clash and row :: profile_row and e
    by (auto simp: admin_call_def same_queue_def split: option.split)
  show "admin_call (nt_create_profile slug description auth creator i now)"
    unfolding nt_create_profile_def Let_def by (intro admin ins)
  show "admin_call (nt_update_profile i description auth' now)" unfolding nt_update_profile_def by (intro admin)
  show "admin_call (nt_delete_profile i)" unfolding nt_delete_profile_def by (intro admin)
  show "admin_call (nt_set_profile_secret cipher i secret now)" unfolding nt_set_profile_secret_def put_profile_secret_def by (intro admin)
  show "admin_call (nt_delete_profile_secret i now)" unfolding nt_delete_profile_secret_def put_profile_secret_def by (intro admin)
qed

lemma admin_endpoints:
  "admin_call (nt_create input i now)" "admin_call (nt_update i patch now)"
  "admin_call (nt_set_secret cipher i secret now)" "admin_call (nt_delete_secret i now)"
proof -
  have ins: "admin_call (\<lambda>s. case sql_insert clash row (nt_endpoints s) of None \<Rightarrow> (s, Inl e) | Some rows \<Rightarrow> (s\<lparr>nt_endpoints := rows\<rparr>, Inr ()))"
    for clash and row :: endpoint_row and e
    by (auto simp: admin_call_def same_queue_def sql_insert_Some split: option.split)
  show "admin_call (nt_create input i now)" unfolding nt_create_def by (intro admin ins)
  show "admin_call (nt_update i patch now)" unfolding nt_update_def by (intro admin) (simp add: patch_endpoint_def)
  show "admin_call (nt_set_secret cipher i secret now)" unfolding nt_set_secret_def put_endpoint_secret_def by (intro admin) simp
  show "admin_call (nt_delete_secret i now)" unfolding nt_delete_secret_def put_endpoint_secret_def by (intro admin) simp
qed

lemma select_endpoint_iff: "select_endpoint i s \<noteq> None \<longleftrightarrow> i \<in> ne_id ` set (nt_endpoints s)"
  by (auto simp: select_endpoint_def sql_get_None simp del: not_None_eq)

lemma admin_inv:
  assumes inv: "nt_inv uuid d" and m: "admin_call m" and run: "on_store m d = (d', r)"
  shows "nt_inv uuid d'"
proof -
  have d': "d' = d\<lparr>ds_store := fst (m (ds_store d))\<rparr>" using run by (auto simp: on_store_def split: prod.splits)
  have s: "same_queue (ds_store d) (ds_store d')" using m d' by (simp add: admin_call_def)
  then have same: "nt_receipts (ds_store d') = nt_receipts (ds_store d)" "nt_held (ds_store d') = nt_held (ds_store d)"
    by (simp_all add: same_queue_def)
  have other: "ds_buffers d' = ds_buffers d" "ds_sent d' = ds_sent d" "ds_fresh d' = ds_fresh d" by (simp_all add: d')
  have eqs: "live i x d' = live i x d" "admitted i x d' = admitted i x d" "drawn uuid d' x = drawn uuid d x" for i x
    by (simp_all add: live_def admitted_def drawn_def same other)
  have "select_endpoint i (ds_store d) \<noteq> None \<Longrightarrow> select_endpoint i (ds_store d') \<noteq> None" for i
    using s unfolding select_endpoint_iff same_queue_def by blast
  then have "receipts_ok uuid d'" using nt_invD(1) [OF inv] unfolding receipts_ok_def same eqs by blast
  then show ?thesis using nt_invD(2-5) [OF inv] unfolding nt_inv_def held_ok_def buffers_ok_def sent_ok_def replays_ok_def same other eqs by blast
qed

text \<open>Deleting an endpoint takes its receipts and held deliveries with it.\<close>

lemma delete_inv:
  assumes inv: "nt_inv uuid d" and run: "on_store (nt_delete i) d = (d', r)"
  shows "nt_inv uuid d'"
proof (cases "nt_get i (ds_store d)")
  case None
  then have "d' = d" using run by (auto simp: on_store_def nt_delete_def cbind_def cget_def cguard_def guard_def)
  then show ?thesis using inv by simp
next
  case (Some e)
  define s where "s = ds_store d"
  have d': "d' = d\<lparr>ds_store := s\<lparr>nt_held := sql_delete (\<lambda>h. nh_endpoint h = i) (nt_held s),
           nt_receipts := sql_delete (\<lambda>r. nr_endpoint r = i) (nt_receipts s),
           nt_endpoints := sql_delete (\<lambda>e. ne_id e = i) (nt_endpoints s)\<rparr>\<rparr>"
    using run Some by (auto simp: on_store_def nt_delete_def cbind_def cget_def cguard_def guard_def run_in_transaction_def cmod_def s_def)
  have st: "nt_held (ds_store d') = filter (\<lambda>h. nh_endpoint h \<noteq> i) (nt_held (ds_store d))"
    "nt_receipts (ds_store d') = filter (\<lambda>r. nr_endpoint r \<noteq> i) (nt_receipts (ds_store d))"
    "nt_endpoints (ds_store d') = filter (\<lambda>e. ne_id e \<noteq> i) (nt_endpoints (ds_store d))"
    by (simp_all add: d' s_def sql_delete_def)
  have other: "ds_buffers d' = ds_buffers d" "ds_sent d' = ds_sent d" "ds_fresh d' = ds_fresh d" by (simp_all add: d')
  have dr: "drawn uuid d' x = drawn uuid d x" for x by (simp add: drawn_def other)
  have adm: "admitted j x d \<Longrightarrow> admitted j x d'" for j x by (auto simp: admitted_def st)
  have lv: "j \<noteq> i \<Longrightarrow> live j x d \<Longrightarrow> live j x d'" for j x by (auto simp: live_def st)
  have sel: "j \<noteq> i \<Longrightarrow> select_endpoint j (ds_store d) \<noteq> None \<Longrightarrow> select_endpoint j (ds_store d') \<noteq> None" for j
    unfolding select_endpoint_iff st by auto
  have rok: "receipts_ok uuid d" by (rule nt_invD(1) [OF inv])
  have "receipts_ok uuid d'"
    unfolding receipts_ok_def
  proof (intro conjI)
    show "distinct (List.map nr_id (nt_receipts (ds_store d')))" unfolding st
      by (rule distinct_map_filter) (use rok in \<open>simp add: receipts_ok_def\<close>)
    show "\<forall>r \<in> set (nt_receipts (ds_store d')). \<forall>r' \<in> set (nt_receipts (ds_store d')). receipt_clash r r' \<longrightarrow> r = r'"
      using rok unfolding receipts_ok_def st by simp
    show "\<forall>j. length (filter (\<lambda>r. nr_endpoint r = j) (nt_receipts (ds_store d'))) \<le> receipt_retention"
    proof
      fix j
      have "length (filter (\<lambda>r. nr_endpoint r = j) (nt_receipts (ds_store d))) \<le> receipt_retention"
        using rok unfolding receipts_ok_def by blast
      then show "length (filter (\<lambda>r. nr_endpoint r = j) (nt_receipts (ds_store d'))) \<le> receipt_retention"
        unfolding st by (rule le_trans [OF length_filter_twice])
    qed
    show "\<forall>r \<in> set (nt_receipts (ds_store d')). drawn uuid d' (nr_id r) \<and> select_endpoint (nr_endpoint r) (ds_store d') \<noteq> None \<and>
        (nr_status r = NtRejected \<longrightarrow> nr_messages r = [])"
      using rok sel unfolding receipts_ok_def st(2) dr by simp
  qed
  moreover have "held_ok uuid d'"
    using nt_invD(2) [OF inv] lv unfolding held_ok_def st(1) dr by (auto intro: distinct_map_filter)
  moreover have "buffers_ok uuid d'" using nt_invD(3) [OF inv] adm unfolding buffers_ok_def other dr by blast
  moreover have "sent_ok uuid d'" using nt_invD(4) [OF inv] adm unfolding sent_ok_def other dr by blast
  moreover have "replays_ok uuid d'"
    using nt_invD(5) [OF inv] adm unfolding replays_ok_def st(2) dr by (meson filter_is_subset subsetD)
  ultimately show ?thesis by (simp add: nt_inv_def)
qed

section \<open>Steps\<close>

text \<open>A new process on the same database: no buffers, no rate windows.\<close>

definition nt_boot :: "nt_dispatcher \<Rightarrow> nt_dispatcher" where
  "nt_boot d = d\<lparr>ds_buffers := [], ds_windows := [], ds_stopped := False\<rparr>"

lemma boot_inv: "nt_inv uuid d \<Longrightarrow> nt_inv uuid (nt_boot d)"
  unfolding nt_inv_def receipts_ok_def held_ok_def buffers_ok_def sent_ok_def replays_ok_def live_def admitted_def drawn_def
  by (simp add: nt_boot_def)

inductive nt_step :: "(nat \<Rightarrow> string) \<Rightarrow> nt_dispatcher \<Rightarrow> nt_dispatcher \<Rightarrow> bool" for uuid where
  step_hook: "en_uuid env = uuid \<Longrightarrow> nt_get (nv_id (ig_endpoint input)) (ds_store d) = Some (ig_endpoint input) \<Longrightarrow>
     hook_request env input d = (d', r) \<Longrightarrow> nt_step uuid d d'"
| step_replay: "en_uuid env = uuid \<Longrightarrow> replay env i d = (d', rr) \<Longrightarrow> nt_step uuid d d'"
| step_wake: "en_uuid env = uuid \<Longrightarrow> on_wake env name d = (d', u) \<Longrightarrow> nt_step uuid d d'"
| step_activity: "en_uuid env = uuid \<Longrightarrow> on_activity_report env name w d = (d', u) \<Longrightarrow> nt_step uuid d d'"
| step_disposition: "on_disposition m dis t detail d = (d', u) \<Longrightarrow> nt_step uuid d d'"
| step_timer: "en_uuid env = uuid \<Longrightarrow> flush_debounce env i d = (d', u) \<Longrightarrow> nt_step uuid d d'"
| step_sweep: "en_uuid env = uuid \<Longrightarrow> sweep env d = (d', u) \<Longrightarrow> nt_step uuid d d'"
| step_recover: "en_uuid env = uuid \<Longrightarrow> recover env d = (d', u) \<Longrightarrow> nt_step uuid d d'"
| step_stop: "nt_step uuid d (stop d)"
| step_boot: "nt_step uuid d (nt_boot d)"
| step_create: "on_store (nt_create c i now) d = (d', e) \<Longrightarrow> nt_step uuid d d'"
| step_update: "on_store (nt_update i patch now) d = (d', e) \<Longrightarrow> nt_step uuid d d'"
| step_delete: "on_store (nt_delete i) d = (d', u) \<Longrightarrow> nt_step uuid d d'"
| step_secret: "on_store (nt_set_secret cipher i secret now) d = (d', u) \<Longrightarrow> nt_step uuid d d'"
| step_no_secret: "on_store (nt_delete_secret i now) d = (d', u) \<Longrightarrow> nt_step uuid d d'"
| step_create_profile: "on_store (nt_create_profile slug descr auth creator i now) d = (d', p) \<Longrightarrow> nt_step uuid d d'"
| step_update_profile: "on_store (nt_update_profile i descr auth' now) d = (d', q) \<Longrightarrow> nt_step uuid d d'"
| step_delete_profile: "on_store (nt_delete_profile i) d = (d', u) \<Longrightarrow> nt_step uuid d d'"
| step_profile_secret: "on_store (nt_set_profile_secret cipher i secret now) d = (d', u) \<Longrightarrow> nt_step uuid d d'"
| step_no_profile_secret: "on_store (nt_delete_profile_secret i now) d = (d', u) \<Longrightarrow> nt_step uuid d d'"

lemma keeps_inv: "call_keeps uuid (\<lambda>d. True) m \<Longrightarrow> m d = (d', r) \<Longrightarrow> nt_inv uuid d \<Longrightarrow> nt_inv uuid d'"
  unfolding call_keeps_def kept_def by blast

lemma nt_step_inv:
  assumes "inj uuid" "nt_step uuid d d'" "nt_inv uuid d"
  shows "nt_inv uuid d'"
  using assms(2,3)
proof (cases rule: nt_step.cases)
  case (step_hook env input r)
  have k: "known_endpoint (nv_id (ig_endpoint input)) d"
    using step_hook(2) unfolding known_endpoint_def by (rule known_of_get)
  show ?thesis by (rule call_safeD(1) [OF safe_hook [OF assms(1) step_hook(1)] assms(3) k step_hook(3)])
next
  case (step_replay env i rr)
  show ?thesis by (rule call_safeD(1) [OF safe_replay [OF assms(1) step_replay(1)] assms(3) TrueI step_replay(2)])
next
  case (step_wake env name u)
  show ?thesis by (rule keeps_inv [OF keeps_flush_for [OF assms(1) step_wake(1)] step_wake(2) [unfolded on_wake_def] assms(3)])
next
  case (step_activity env name w u)
  then show ?thesis
    using keeps_inv [OF keeps_flush_for [OF assms(1) step_activity(1)]] assms(3)
    by (auto simp: on_activity_report_def cret_def split: if_splits)
next
  case (step_disposition m dis t detail u)
  show ?thesis by (rule keeps_inv [OF keeps_disposition step_disposition(1) assms(3)])
next
  case (step_timer env i u)
  show ?thesis by (rule keeps_inv [OF keeps_flush_debounce [OF assms(1) step_timer(1)] step_timer(2) assms(3)])
next
  case (step_sweep env u)
  show ?thesis by (rule keeps_inv [OF keeps_sweep [OF assms(1) step_sweep(1)] step_sweep(2) assms(3)])
next
  case (step_recover env u)
  show ?thesis by (rule keeps_inv [OF keeps_recover [OF assms(1) step_recover(1)] step_recover(2) assms(3)])
next
  case step_stop
  then show ?thesis using stop_inv [OF assms(3)] by simp
next
  case step_boot
  then show ?thesis using boot_inv [OF assms(3)] by simp
next
  case (step_delete i u)
  show ?thesis by (rule delete_inv [OF assms(3) step_delete(1)])
next
  case (step_create c i now e)
  show ?thesis by (rule admin_inv [OF assms(3) admin_endpoints(1) step_create(1)])
next
  case (step_update i patch now e)
  show ?thesis by (rule admin_inv [OF assms(3) admin_endpoints(2) step_update(1)])
next
  case (step_secret cipher i secret now u)
  show ?thesis by (rule admin_inv [OF assms(3) admin_endpoints(3) step_secret(1)])
next
  case (step_no_secret i now u)
  show ?thesis by (rule admin_inv [OF assms(3) admin_endpoints(4) step_no_secret(1)])
next
  case (step_create_profile slug descr auth creator i now p)
  show ?thesis by (rule admin_inv [OF assms(3) admin_profiles(1) step_create_profile(1)])
next
  case (step_update_profile i descr auth' now q)
  show ?thesis by (rule admin_inv [OF assms(3) admin_profiles(2) step_update_profile(1)])
next
  case (step_delete_profile i u)
  show ?thesis by (rule admin_inv [OF assms(3) admin_profiles(3) step_delete_profile(1)])
next
  case (step_profile_secret cipher i secret now u)
  show ?thesis by (rule admin_inv [OF assms(3) admin_profiles(4) step_profile_secret(1)])
next
  case (step_no_profile_secret i now u)
  show ?thesis by (rule admin_inv [OF assms(3) admin_profiles(5) step_no_profile_secret(1)])
qed

definition nt_empty :: nt_dispatcher where
  "nt_empty = \<lparr>ds_store = \<lparr>nt_profiles = [], nt_endpoints = [], nt_receipts = [], nt_held = []\<rparr>, ds_buffers = [], ds_windows = [],
     ds_stopped = False, ds_fresh = 0, ds_sent = []\<rparr>"

lemma empty_inv: "nt_inv uuid nt_empty"
  by (simp add: nt_empty_def nt_inv_def receipts_ok_def held_ok_def buffers_ok_def sent_ok_def replays_ok_def)

text \<open>A database with its identifier source. No step is taken on one that repeats itself.\<close>

definition nt_sys_step :: "(nat \<Rightarrow> string) \<times> nt_dispatcher \<Rightarrow> (nat \<Rightarrow> string) \<times> nt_dispatcher \<Rightarrow> bool" where
  "nt_sys_step x y \<longleftrightarrow> fst y = fst x \<and> nt_step (fst x) (snd x) (snd y)"

definition nt_sys_inv :: "(nat \<Rightarrow> string) \<times> nt_dispatcher \<Rightarrow> bool" where
  "nt_sys_inv x \<longleftrightarrow> inj (fst x) \<and> nt_inv (fst x) (snd x)"

interpretation notify_system: invariant_system nt_sys_step nt_sys_inv
  by unfold_locales (auto simp: nt_sys_step_def nt_sys_inv_def intro: nt_step_inv)

definition nt_reachable :: "(nat \<Rightarrow> string) \<Rightarrow> nt_dispatcher \<Rightarrow> bool" where
  "nt_reachable uuid d \<longleftrightarrow> rtranclp nt_sys_step (uuid, nt_empty) (uuid, d)"

lemma nt_reachable_inv: "inj uuid \<Longrightarrow> nt_reachable uuid d \<Longrightarrow> nt_inv uuid d"
  using notify_system.run_preserved [of "(uuid, nt_empty)" "(uuid, d)"] empty_inv
  by (simp add: nt_reachable_def nt_sys_inv_def)

end
