(* ===== verification/NotifyOutcomes.thy ===== *)
theory NotifyOutcomes
  imports NotifyLife
begin

text \<open>
  What the dispatcher's operations come to: a request that fails verification, the settlement of rows, the
  flush of a member's queue on wake, dispositions, and the sliding window of the rate limit.
\<close>

section \<open>Requests that fail verification\<close>

lemma with_receipt_rows: "r \<in> set (nt_receipts (with_receipt n s)) \<Longrightarrow> r = n \<or> r \<in> set (nt_receipts s)"
  unfolding with_receipt_def trim_rows by (auto split: if_splits)

definition failure_note :: "nt_env \<Rightarrow> ingest_input \<Rightarrow> string" where
  "failure_note env input = not_retained (length (ig_body input)) (en_digest env (en_decode env (ig_body input)))"

lemma ingest_failed:
  assumes inv: "nt_inv uuid d" "inj uuid" "en_uuid env = uuid" and bad: "ig_verification input = VerifyFailed why"
    and run: "ingest env input d = (d', q)"
  shows "ds_sent d' = ds_sent d \<and> ds_buffers d' = ds_buffers d" and "\<not> nv_enabled (ig_endpoint input) \<Longrightarrow> d' = d"
    and "\<forall>r \<in> set (nt_receipts (ds_store d')). r \<in> set (nt_receipts (ds_store d)) \<or>
      nr_status r = NtRejected \<and> nr_reason r = Some why \<and> nr_body r = take hook_body_max (failure_note env input)"
    and "q = Inr a \<Longrightarrow> ir_http a = 401 \<and> ir_status a = NtRejected"
proof -
  define inp where "inp = receipt_of env input NtRejected (Some why) None (failure_note env input)"
  define res where "res = (\<lambda>r :: receipt. cret (rejected_result (Some (nr_id r))) :: ingest_result nd_call)"
  have off: "\<not> nv_enabled (ig_endpoint input) \<Longrightarrow> d' = d \<and> q = Inr (rejected_result None)"
    using run bad by (simp add: ingest_def cret_def)
  have on: "cbind (store_receipt env inp) res d = (d', q)" if "nv_enabled (ig_endpoint input)"
    using run bad that by (simp add: ingest_def inp_def res_def failure_note_def)
  define n where "n = new_receipt inp (uuid (ds_fresh d))"
  have n: "nr_status n = NtRejected" "nr_reason n = Some why" "nr_body n = take hook_body_max (failure_note env input)"
    by (simp_all add: n_def inp_def receipt_of_def new_receipt_def)
  have stored: "(d' = fresh_state d \<or> d' = (fresh_state d)\<lparr>ds_store := with_receipt n (ds_store d)\<rparr>) \<and>
      (\<forall>a. q = Inr a \<longrightarrow> (\<exists>x. a = rejected_result (Some x)))" if "nv_enabled (ig_endpoint input)"
    using on [OF that]
  proof (cases rule: cbindE)
    case (throw e)
    then show ?thesis using store_receipt_run [OF inv throw(1), folded n_def] by auto
  next
    case (next_call t r)
    then have "d' = t" "q = Inr (rejected_result (Some (nr_id r)))" by (simp_all add: res_def cret_def)
    then show ?thesis using store_receipt_run [OF inv next_call(1), folded n_def] by auto
  qed
  show "ds_sent d' = ds_sent d \<and> ds_buffers d' = ds_buffers d"
    using off stored by (cases "nv_enabled (ig_endpoint input)") (auto simp: fresh_state_def)
  show "\<not> nv_enabled (ig_endpoint input) \<Longrightarrow> d' = d" using off by simp
  show "q = Inr a \<Longrightarrow> ir_http a = 401 \<and> ir_status a = NtRejected"
    using off stored by (cases "nv_enabled (ig_endpoint input)") (auto simp: rejected_result_def)
  show "\<forall>r \<in> set (nt_receipts (ds_store d')). r \<in> set (nt_receipts (ds_store d)) \<or>
      nr_status r = NtRejected \<and> nr_reason r = Some why \<and> nr_body r = take hook_body_max (failure_note env input)"
    using off stored n
    by (cases "nv_enabled (ig_endpoint input)") (auto simp: fresh_state_def dest!: with_receipt_rows)
qed

section \<open>Settlement\<close>

lemma update_run:
  assumes "nt_inv uuid d" "live i x d"
  shows "\<exists>f. on_store (update_delivery x p) d = (d\<lparr>ds_store := (ds_store d)\<lparr>nt_receipts := f\<rparr>\<rparr>, Inr ())"
proof -
  obtain old where "nt_receipt x (ds_store d) = Some old" using live_receipt [OF nt_invD(1) [OF assms(1)] assms(2)] by blast
  then have "on_store (update_delivery x p) d = (d\<lparr>ds_store := (ds_store d)
      \<lparr>nt_receipts := sql_update (\<lambda>r. nr_id r = x) (patch_receipt p old) (nt_receipts (ds_store d))\<rparr>\<rparr>, Inr ())"
    by (simp add: on_store_def update_delivery_def cbind_def cget_def clift_def cmod_def from_option_def)
  then show ?thesis by blast
qed

lemma settle_run:
  assumes "nt_inv uuid d" "\<forall>r \<in> set rs. live i (nr_id r) d"
  shows "\<exists>f. settle_rows env acc k rs d = (d\<lparr>ds_store := (ds_store d)\<lparr>nt_receipts := f\<rparr>\<rparr>, Inr ())"
  using assms
proof (induction rs arbitrary: d k)
  case Nil
  then show ?case by (intro exI [of _ "nt_receipts (ds_store d)"]) (simp add: cret_def)
next
  case (Cons r rs)
  define p where "p = \<lparr>rp_status = Some (if nr_status r = NtDelivered \<or> nr_status r = NtCoalesced then nr_status r
           else if da_messages acc \<noteq> [] \<and> k > 0 then NtCoalesced else outcome_status acc),
         rp_reason = Some (if da_notes acc \<noteq> [] then Some (join_notes (da_notes acc)) else None),
         rp_add = Some (da_messages acc), rp_rendered = None, rp_delivered = (if da_acked acc > 0 then Some (en_now env) else None)\<rparr>"
  have l: "live i (nr_id r) d" using Cons.prems(2) by simp
  obtain f where f: "on_store (update_delivery (nr_id r) p) d = (d\<lparr>ds_store := (ds_store d)\<lparr>nt_receipts := f\<rparr>\<rparr>, Inr ())"
    using update_run [OF Cons.prems(1) l] by blast
  define t where "t = d\<lparr>ds_store := (ds_store d)\<lparr>nt_receipts := f\<rparr>\<rparr>"
  have "call_keeps uuid (live i (nr_id r)) (on_store (update_delivery (nr_id r) p))"
    by (rule keeps_update) (simp add: p_def outcome_status_def)
  then have k': "kept uuid d t" using Cons.prems(1) l f unfolding call_keeps_def t_def by blast
  then have "nt_inv uuid t" "\<forall>r \<in> set rs. live i (nr_id r) t" using Cons.prems(2) by (simp_all add: kept_def)
  then obtain g where g: "settle_rows env acc (k + 1) rs t = (t\<lparr>ds_store := (ds_store t)\<lparr>nt_receipts := g\<rparr>\<rparr>, Inr ())"
    using Cons.IH by blast
  have "settle_rows env acc k (r # rs) d = settle_rows env acc (k + 1) rs t"
    unfolding settle_rows.simps Let_def p_def [symmetric] by (simp add: cbind_def f t_def)
  then show ?case using g by (intro exI [of _ g]) (simp add: t_def)
qed

section \<open>Wake\<close>

text \<open>A flush to one member is one push to that member, whatever its state.\<close>

lemma forced_dispatch:
  assumes inv: "nt_inv uuid d" and batch: "batch_live (nv_id e) batch d" "batch \<noteq> []"
    and name: "name \<in> set (en_members env)" "name \<noteq> []"
  shows "\<exists>f p. dispatch_group env e batch (Some (age, why, name)) d
      = (d\<lparr>ds_sent := ds_sent d @ [p], ds_store := (ds_store d)\<lparr>nt_receipts := f\<rparr>\<rparr>, Inr ()) \<and>
    nu_to p = Some name \<and> nu_thread p = None \<and> nu_endpoint p = nv_slug e \<and> set (nu_deliveries p) = nr_id ` set batch"
proof -
  define plan where "plan = make_plan env e batch (Some (age, why, name))"
  define p where "p = (plan_push e plan)\<lparr>nu_to := Some name\<rparr>"
  define t where "t = d\<lparr>ds_sent := ds_sent d @ [p]\<rparr>"
  define acc where "acc = acc_pushed (en_answer env (ds_sent d) p) (''push to '' @ name @ '' failed'') acc_empty"
  have newest: "set (dp_newest plan) = set batch" and force: "dp_force plan = Some name"
    by (simp_all add: plan_def make_plan_def Let_def)
  have targets: "dispatch_targets env e plan [\<lparr>tg_member = Some name, tg_channel = None\<rparr>] acc_empty d = (t, Inr acc)"
    using name(1) force
    by (simp add: dispatch_target_def dispatch_member_def Let_def cbind_def cret_def push_to_member_def send_push_def
        p_def [symmetric] t_def acc_def)
  have fr: "live i x t = live i x d" for i x by (simp add: live_def t_def)
  have "call_keeps uuid (\<lambda>d. \<forall>x \<in> set (nu_deliveries p). live (nv_id e) x d) (send_push env p)" by (rule keeps_send)
  moreover have "\<forall>x \<in> set (nu_deliveries p). live (nv_id e) x d"
    using batch(1) newest by (simp add: p_def plan_push_def batch_live_def)
  ultimately have "nt_inv uuid t" using inv unfolding call_keeps_def kept_def t_def send_push_def by blast
  moreover have "\<forall>r \<in> set (dp_newest plan). live (nv_id e) (nr_id r) t" using batch(1) unfolding newest batch_live_def fr .
  ultimately obtain f where f: "settle_rows env acc 0 (dp_newest plan) t = (t\<lparr>ds_store := (ds_store t)\<lparr>nt_receipts := f\<rparr>\<rparr>, Inr ())"
    using settle_run by blast
  have "dispatch_group env e batch (Some (age, why, name)) d = (t\<lparr>ds_store := (ds_store t)\<lparr>nt_receipts := f\<rparr>\<rparr>, Inr ())"
    using batch(2) name(2) unfolding dispatch_group_def Let_def plan_def [symmetric]
    by (simp add: cbind_def targets f del: dispatch_targets.simps)
  moreover have "nu_to p = Some name" "nu_thread p = None" "nu_endpoint p = nv_slug e" "set (nu_deliveries p) = nr_id ` set batch"
    using newest by (simp_all add: p_def plan_push_def)
  ultimately show ?thesis by (intro exI [of _ f] exI [of _ p]) (simp add: t_def)
qed

lemma by_ids_all:
  assumes "nt_inv uuid d" "\<forall>x \<in> set ids. live i x d"
  shows "nr_id ` set (deliveries_by_ids ids (ds_store d)) = set ids"
proof -
  have "\<exists>r. nt_receipt x (ds_store d) = Some r \<and> nr_id r = x" if "x \<in> set ids" for x
    using live_receipt [OF nt_invD(1) [OF assms(1)]] assms(2) that by blast
  then show ?thesis by (force simp: deliveries_by_ids_def List.map_filter_def image_iff)
qed

lemma flush_endpoint_run:
  assumes inv: "nt_inv uuid d" and rows: "rows_live batch d" "\<forall>h \<in> set batch. nh_endpoint h = i \<and> nh_deliveries h \<noteq> []" "batch \<noteq> []"
    and name: "name \<in> set (en_members env)" "name \<noteq> []" and ids: "inj uuid" "en_uuid env = uuid"
  shows "\<exists>d' p e. flush_endpoint env name (i, batch) d = (d', Inr ()) \<and> kept uuid d d' \<and>
    nt_held (ds_store d') = sql_delete (\<lambda>h. nh_id h \<in> nh_id ` set batch) (nt_held (ds_store d)) \<and>
    nt_get i (ds_store d) = Some e \<and> ds_sent d' = ds_sent d @ [p] \<and>
    nu_to p = Some name \<and> nu_thread p = None \<and> nu_endpoint p = nv_slug e \<and> set (nu_deliveries p) = (\<Union>h \<in> set batch. set (nh_deliveries h))"
proof -
  define t where "t = d\<lparr>ds_store := delete_pending (List.map nh_id batch) (ds_store d)\<rparr>"
  define ns where "ns = js_set (concat (List.map nh_deliveries batch))"
  have t: "nt_inv uuid t" using kept_delete_pending [OF inv] unfolding t_def kept_def by blast
  have view: "row_to_endpoint e (s\<lparr>nt_held := hs\<rparr>) = row_to_endpoint e s" for e s hs
    by (cases "ne_profile e") (simp_all add: row_to_endpoint_def nt_get_profile_def)
  have same: "nt_get i (ds_store t) = nt_get i (ds_store d)" "deliveries_by_ids xs (ds_store t) = deliveries_by_ids xs (ds_store d)"
    "live j x t = live j x d" for xs j x
    by (simp_all add: t_def delete_pending_def nt_get_def select_endpoint_def view deliveries_by_ids_def nt_receipt_def live_def)
  have set_ns: "set ns = (\<Union>h \<in> set batch. set (nh_deliveries h))" by (simp add: ns_def)
  have lv: "\<forall>x \<in> set ns. live i x d" using rows(1,2) unfolding set_ns rows_live_def by auto
  obtain h where h: "h \<in> set batch" using rows(3) by (cases batch) auto
  then obtain x where "x \<in> set (nh_deliveries h)" using rows(2) by (cases "nh_deliveries h") auto
  then have x: "x \<in> set ns" using h unfolding set_ns by blast
  then have "live i x d" using lv by blast
  then have "select_endpoint i (ds_store d) \<noteq> None" using nt_invD(1) [OF inv] unfolding live_def receipts_ok_def by blast
  then obtain e where e: "nt_get i (ds_store d) = Some e" by (auto simp: nt_get_def)
  define batch' where "batch' = deliveries_by_ids ns (ds_store t)"
  have ids': "nr_id ` set batch' = set ns" unfolding batch'_def same(2) by (rule by_ids_all [OF inv lv])
  then have ne: "batch' \<noteq> []" using x by auto
  have "batch_live i batch' t" unfolding batch'_def
    by (rule by_ids_live) (use lv live_admitted nt_invD(1) [OF t] same(3) in blast)
  moreover define held where "held = Some (en_now env - Min (set (List.map nh_created batch)), queue_reason batch, name)"
  ultimately obtain f p where fp: "dispatch_group env e batch' held t
      = (t\<lparr>ds_sent := ds_sent t @ [p], ds_store := (ds_store t)\<lparr>nt_receipts := f\<rparr>\<rparr>, Inr ())" "nu_to p = Some name" "nu_thread p = None"
      "nu_endpoint p = nv_slug e" "set (nu_deliveries p) = nr_id ` set batch'"
    using forced_dispatch [OF t _ ne name] nt_get_id [OF e] unfolding held_def by blast
  define d' where "d' = t\<lparr>ds_sent := ds_sent t @ [p], ds_store := (ds_store t)\<lparr>nt_receipts := f\<rparr>\<rparr>"
  have run: "flush_endpoint env name (i, batch) d = (d', Inr ())"
    unfolding flush_endpoint_def prod.case ns_def [symmetric] held_def [symmetric]
    using ne by (simp add: cbind_def cmod_def cget_def t_def [symmetric] same(1) e batch'_def [symmetric] fp(1) d'_def)
  have "kept uuid d d'"
    using keeps_flush_endpoint [OF ids, of batch i name] rows inv run unfolding call_keeps_def by blast
  moreover have "nt_held (ds_store d') = sql_delete (\<lambda>h. nh_id h \<in> nh_id ` set batch) (nt_held (ds_store d))" "ds_sent d' = ds_sent d @ [p]"
    by (simp_all add: d'_def t_def delete_pending_def)
  ultimately show ?thesis using run e fp(2-5) ids' set_ns by auto
qed


text \<open>Over the groups of a member's rows.\<close>

definition group_ok :: "nt_dispatcher \<Rightarrow> string \<times> held_row list \<Rightarrow> bool" where
  "group_ok d g \<longleftrightarrow> rows_live (snd g) d \<and> snd g \<noteq> [] \<and> (\<forall>h \<in> set (snd g). nh_endpoint h = fst g \<and> nh_deliveries h \<noteq> [])"

definition in_group :: "(string \<times> held_row list) list \<Rightarrow> held_row \<Rightarrow> bool" where
  "in_group gs h \<longleftrightarrow> (\<exists>g \<in> set gs. nh_id h \<in> nh_id ` set (snd g))"

lemma flush_groups_run:
  assumes "nt_inv uuid d" "\<forall>g \<in> set gs. group_ok d g"
    and name: "name \<in> set (en_members env)" "name \<noteq> []" and ids: "inj uuid" "en_uuid env = uuid"
  shows "\<exists>d' ps. each (flush_endpoint env name) gs d = (d', Inr ()) \<and>
    nt_held (ds_store d') = sql_delete (in_group gs) (nt_held (ds_store d)) \<and>
    ds_sent d' = ds_sent d @ ps \<and> length ps = length gs \<and> (\<forall>p \<in> set ps. nu_to p = Some name \<and> nu_thread p = None) \<and>
    (\<Union>p \<in> set ps. set (nu_deliveries p)) = (\<Union>g \<in> set gs. \<Union>h \<in> set (snd g). set (nh_deliveries h))"
  using assms(1,2)
proof (induction gs arbitrary: d)
  case Nil
  then show ?case by (simp add: cret_def sql_delete_def in_group_def)
next
  case (Cons g gs)
  obtain i b where g: "g = (i, b)" by (cases g)
  have b: "rows_live b d" "\<forall>h \<in> set b. nh_endpoint h = i \<and> nh_deliveries h \<noteq> []" "b \<noteq> []" using Cons.prems(2) by (simp_all add: g group_ok_def)
  obtain t p where t: "flush_endpoint env name (i, b) d = (t, Inr ())" "kept uuid d t"
      "nt_held (ds_store t) = sql_delete (\<lambda>h. nh_id h \<in> nh_id ` set b) (nt_held (ds_store d))" "ds_sent t = ds_sent d @ [p]"
      "nu_to p = Some name" "nu_thread p = None" "set (nu_deliveries p) = (\<Union>h \<in> set b. set (nh_deliveries h))"
    using flush_endpoint_run [OF Cons.prems(1) b name ids] by (elim exE conjE)
  have inv': "nt_inv uuid t" using t(2) by (simp add: kept_def)
  have ok': "\<forall>g \<in> set gs. group_ok t g"
    using Cons.prems(2) stable_kept [OF stable_rows t(2)] by (simp add: group_ok_def)
  from Cons.IH [OF inv' ok'] obtain d' ps where d': "each (flush_endpoint env name) gs t = (d', Inr ())"
      "nt_held (ds_store d') = sql_delete (in_group gs) (nt_held (ds_store t))"
      "ds_sent d' = ds_sent t @ ps" "length ps = length gs" "\<forall>p \<in> set ps. nu_to p = Some name \<and> nu_thread p = None"
      "(\<Union>p \<in> set ps. set (nu_deliveries p)) = (\<Union>g \<in> set gs. \<Union>h \<in> set (snd g). set (nh_deliveries h))"
    by (elim exE conjE)
  have "each (flush_endpoint env name) (g # gs) d = (d', Inr ())" using t(1) d'(1) by (simp add: g cbind_def)
  moreover have "nt_held (ds_store d') = sql_delete (in_group (g # gs)) (nt_held (ds_store d))"
    unfolding d'(2) t(3) by (simp add: g sql_delete_def in_group_def)
  moreover have "ds_sent d' = ds_sent d @ (p # ps)" by (simp add: d'(3) t(4))
  moreover have "(\<Union>p \<in> set (p # ps). set (nu_deliveries p)) = (\<Union>g \<in> set (g # gs). \<Union>h \<in> set (snd g). set (nh_deliveries h))"
    using d'(6) t(7) by (simp add: g)
  moreover have "length (p # ps) = length (g # gs)" "\<forall>p \<in> set (p # ps). nu_to p = Some name \<and> nu_thread p = None"
    using d'(4,5) t(5,6) by simp_all
  ultimately show ?case by (intro exI [of _ d'] exI [of _ "p # ps"] conjI)
qed

lemma group_by_count: "length (group_by k xs) = card (k ` set xs)"
proof -
  have "set (List.map fst (group_by k xs)) = k ` set xs"
  proof (rule set_eqI)
    fix c
    have "c \<in> set (List.map fst (group_by k xs)) \<longleftrightarrow> (\<exists>l. (c, l) \<in> set (group_by k xs))" by force
    also have "\<dots> \<longleftrightarrow> filter (\<lambda>x. k x = c) xs \<noteq> []" unfolding group_by_member by blast
    also have "\<dots> \<longleftrightarrow> c \<in> k ` set xs" by (auto simp: filter_empty_conv)
    finally show "c \<in> set (List.map fst (group_by k xs)) \<longleftrightarrow> c \<in> k ` set xs" .
  qed
  then show ?thesis using distinct_card [OF group_by_distinct [of k xs]] by simp
qed

lemma wake_run:
  assumes inv: "nt_inv uuid d" and name: "name \<in> set (en_members env)" "name \<noteq> []" and ids: "inj uuid" "en_uuid env = uuid"
  defines "rows \<equiv> pending_for_member name None (ds_store d)"
  shows "\<exists>d' ps. on_wake env name d = (d', Inr ()) \<and>
    nt_held (ds_store d') = sql_delete (\<lambda>h. nh_member h = name) (nt_held (ds_store d)) \<and>
    ds_sent d' = ds_sent d @ ps \<and> length ps = card (nh_endpoint ` set rows) \<and> (\<forall>p \<in> set ps. nu_to p = Some name \<and> nu_thread p = None) \<and>
    (\<Union>p \<in> set ps. set (nu_deliveries p)) = (\<Union>h \<in> set rows. set (nh_deliveries h))"
proof -
  define gs where "gs = group_by nh_endpoint rows"
  have rows: "set rows = {h \<in> set (nt_held (ds_store d)). nh_member h = name}" by (auto simp: rows_def pending_for_member_def)
  have in_gs: "(i, b) \<in> set gs \<longleftrightarrow> b = filter (\<lambda>h. nh_endpoint h = i) rows \<and> b \<noteq> []" for i b
    unfolding gs_def by (rule group_by_member)
  have held: "rows_live rows d" "\<forall>h \<in> set rows. nh_deliveries h \<noteq> []"
    using held_live [OF inv, of rows] nt_invD(2) [OF inv] rows by (auto simp: held_ok_def)
  have "\<forall>g \<in> set gs. group_ok d g"
  proof
    fix g assume "g \<in> set gs"
    then have g: "snd g = filter (\<lambda>h. nh_endpoint h = fst g) rows" "snd g \<noteq> []" using in_gs [of "fst g" "snd g"] by (metis prod.collapse)+
    have "set (snd g) \<subseteq> set rows" "\<forall>h \<in> set (snd g). nh_endpoint h = fst g" unfolding g(1) by auto
    then show "group_ok d g" using held g(2) rows_live_sub [OF held(1)] unfolding group_ok_def by blast
  qed
  from flush_groups_run [OF inv this name ids] obtain d' ps where d': "each (flush_endpoint env name) gs d = (d', Inr ())"
      "nt_held (ds_store d') = sql_delete (in_group gs) (nt_held (ds_store d))"
      "ds_sent d' = ds_sent d @ ps" "length ps = length gs" "\<forall>p \<in> set ps. nu_to p = Some name \<and> nu_thread p = None"
      "(\<Union>p \<in> set ps. set (nu_deliveries p)) = (\<Union>g \<in> set gs. \<Union>h \<in> set (snd g). set (nh_deliveries h))" by (elim exE conjE)
  have cover: "(\<exists>g \<in> set gs. h \<in> set (snd g)) \<longleftrightarrow> h \<in> set rows" for h
  proof
    assume h: "h \<in> set rows"
    define b where "b = filter (\<lambda>h'. nh_endpoint h' = nh_endpoint h) rows"
    have hb: "h \<in> set b" using h by (simp add: b_def)
    then have "(nh_endpoint h, b) \<in> set gs" unfolding in_gs b_def [symmetric] by auto
    then show "\<exists>g \<in> set gs. h \<in> set (snd g)" using hb by (metis snd_conv)
  next
    assume "\<exists>g \<in> set gs. h \<in> set (snd g)"
    then obtain i b where "(i, b) \<in> set gs" "h \<in> set b" by force
    then show "h \<in> set rows" unfolding in_gs by auto
  qed
  have dist: "distinct (List.map nh_id (nt_held (ds_store d)))" using nt_invD(2) [OF inv] by (simp add: held_ok_def)
  have gone: "in_group gs h \<longleftrightarrow> nh_member h = name" if "h \<in> set (nt_held (ds_store d))" for h
  proof -
    have "in_group gs h \<longleftrightarrow> (\<exists>h'. (\<exists>g \<in> set gs. h' \<in> set (snd g)) \<and> nh_id h = nh_id h')"
      unfolding in_group_def image_iff by blast
    also have "\<dots> \<longleftrightarrow> (\<exists>h' \<in> set rows. nh_id h = nh_id h')" unfolding cover by blast
    also have "\<dots> \<longleftrightarrow> h \<in> set rows" using dist that rows by (auto simp: distinct_map dest: inj_onD)
    finally show ?thesis using that rows by simp
  qed
  have "on_wake env name d = (d', Inr ())"
  proof (cases "rows = []")
    case True
    then have "gs = []" by (simp add: gs_def group_by_def)
    then have "d' = d" using d'(1) by (simp add: cret_def)
    then show ?thesis using True by (simp add: on_wake_def flush_pending_for_def cbind_def cget_def rows_def [symmetric] cret_def)
  next
    case False
    then show ?thesis using d'(1) by (simp add: on_wake_def flush_pending_for_def flush_pending_rows_def cbind_def cget_def rows_def [symmetric] gs_def)
  qed
  moreover have "nt_held (ds_store d') = sql_delete (\<lambda>h. nh_member h = name) (nt_held (ds_store d))"
    unfolding d'(2) sql_delete_def by (rule filter_cong) (use gone in auto)
  moreover have "length ps = card (nh_endpoint ` set rows)" unfolding d'(4) gs_def by (rule group_by_count)
  moreover have "(\<Union>g \<in> set gs. \<Union>h \<in> set (snd g). set (nh_deliveries h)) = (\<Union>h \<in> {h. \<exists>g \<in> set gs. h \<in> set (snd g)}. set (nh_deliveries h))"
    by blast
  then have "(\<Union>g \<in> set gs. \<Union>h \<in> set (snd g). set (nh_deliveries h)) = (\<Union>h \<in> set rows. set (nh_deliveries h))"
    unfolding cover by simp
  ultimately show ?thesis using d'(3,5,6) by (intro exI [of _ d'] exI [of _ ps]) simp
qed

section \<open>Dispositions\<close>

lemma update_exact:
  assumes "nt_inv uuid d" "r \<in> set (nt_receipts (ds_store d))"
  shows "on_store (update_delivery (nr_id r) p) d = (d\<lparr>ds_store := (ds_store d)\<lparr>nt_receipts :=
    List.map (\<lambda>x. if nr_id x = nr_id r then patch_receipt p x x else x) (nt_receipts (ds_store d))\<rparr>\<rparr>, Inr ())"
proof -
  have g: "nt_receipt (nr_id r) (ds_store d) = Some x \<longleftrightarrow> x \<in> set (nt_receipts (ds_store d)) \<and> nr_id x = nr_id r" for x
    by (rule receipt_get [OF nt_invD(1) [OF assms(1)]])
  have "nt_receipt (nr_id r) (ds_store d) = Some r" using g assms(2) by blast
  moreover have "sql_update (\<lambda>x. nr_id x = nr_id r) (patch_receipt p r) (nt_receipts (ds_store d)) =
      List.map (\<lambda>x. if nr_id x = nr_id r then patch_receipt p x x else x) (nt_receipts (ds_store d))"
  proof (unfold sql_update_def, rule map_cong [OF refl])
    fix x assume "x \<in> set (nt_receipts (ds_store d))"
    then have "nr_id x = nr_id r \<Longrightarrow> x = r" using g [of x] g [of r] assms(2) by simp
    then show "(if nr_id x = nr_id r then patch_receipt p r x else x) = (if nr_id x = nr_id r then patch_receipt p x x else x)" by auto
  qed
  ultimately show ?thesis
    by (simp add: on_store_def update_delivery_def cbind_def cget_def clift_def cmod_def from_option_def)
qed

text \<open>What a disposition makes of a receipt that carries its message.\<close>

definition disposed :: "disposition \<Rightarrow> int \<Rightarrow> string option \<Rightarrow> receipt \<Rightarrow> receipt" where
  "disposed dis t detail r =
     (case dis of
        Refused \<Rightarrow> r\<lparr>nr_status := NtDropped, nr_reason := Some (orelse detail ''subscriber refused delivery'')\<rparr>
      | _ \<Rightarrow> if dis = Acted \<or> dis = Handled then r\<lparr>nr_status := NtDelivered, nr_reason := None, nr_delivered_at := Some t\<rparr> else r)"


lemma each_update_exact:
  assumes "inj uuid" "nt_inv uuid d" "set rows \<subseteq> set (nt_receipts (ds_store d))" "distinct (List.map nr_id rows)"
    "\<forall>r \<in> set rows. nr_status r \<noteq> NtRejected" "rp_status p \<noteq> Some NtRejected"
  shows "each (\<lambda>r. on_store (update_delivery (nr_id r) p)) rows d = (d\<lparr>ds_store := (ds_store d)\<lparr>nt_receipts :=
    List.map (\<lambda>x. if nr_id x \<in> nr_id ` set rows then patch_receipt p x x else x) (nt_receipts (ds_store d))\<rparr>\<rparr>, Inr ())"
  using assms(2-5)
proof (induction rows arbitrary: d)
  case Nil
  then show ?case by (simp add: cret_def)
next
  case (Cons r rows)
  define f where "f = (\<lambda>x. if nr_id x = nr_id r then patch_receipt p x x else x)"
  define t where "t = d\<lparr>ds_store := (ds_store d)\<lparr>nt_receipts := List.map f (nt_receipts (ds_store d))\<rparr>\<rparr>"
  have r: "r \<in> set (nt_receipts (ds_store d))" using Cons.prems(2) by simp
  have run: "on_store (update_delivery (nr_id r) p) d = (t, Inr ())"
    unfolding t_def f_def by (rule update_exact [OF Cons.prems(1) r])
  have "live (nr_endpoint r) (nr_id r) d" using r Cons.prems(4) by (auto simp: live_def)
  moreover have "call_keeps uuid (live (nr_endpoint r) (nr_id r)) (on_store (update_delivery (nr_id r) p))"
    by (rule keeps_update) (rule assms(6))
  ultimately have "kept uuid d t" using Cons.prems(1) run unfolding call_keeps_def by blast
  then have inv: "nt_inv uuid t" by (simp add: kept_def)
  have recs: "nt_receipts (ds_store t) = List.map f (nt_receipts (ds_store d))" by (simp add: t_def)
  have f_other: "nr_id x \<noteq> nr_id r \<Longrightarrow> f x = x" "nr_id (f x) = nr_id x" for x by (simp_all add: f_def patch_receipt_def)
  have "set rows \<subseteq> set (nt_receipts (ds_store t))"
  proof
    fix x assume x: "x \<in> set rows"
    then have "nr_id x \<noteq> nr_id r" using Cons.prems(3) by (metis distinct.simps(2) image_eqI list.set_map list.simps(9))
    then have "f x = x" by (rule f_other)
    moreover have "x \<in> set (nt_receipts (ds_store d))" using x Cons.prems(2) by auto
    ultimately show "x \<in> set (nt_receipts (ds_store t))" unfolding recs set_map by (metis imageI)
  qed
  then have "each (\<lambda>r. on_store (update_delivery (nr_id r) p)) rows t = (t\<lparr>ds_store := (ds_store t)\<lparr>nt_receipts :=
    List.map (\<lambda>x. if nr_id x \<in> nr_id ` set rows then patch_receipt p x x else x) (nt_receipts (ds_store t))\<rparr>\<rparr>, Inr ())"
    using Cons.IH [OF inv] Cons.prems(3,4) by simp
  moreover have "nr_id r \<notin> nr_id ` set rows" using Cons.prems(3) by simp
  then have "(if nr_id (f x) \<in> nr_id ` set rows then patch_receipt p (f x) (f x) else f x) =
      (if nr_id x \<in> nr_id ` set (r # rows) then patch_receipt p x x else x)" for x
    by (cases "nr_id x = nr_id r") (simp_all add: f_other(2), simp_all add: f_def)
  then have "List.map (\<lambda>x. if nr_id x \<in> nr_id ` set rows then patch_receipt p x x else x) (nt_receipts (ds_store t)) =
      List.map (\<lambda>x. if nr_id x \<in> nr_id ` set (r # rows) then patch_receipt p x x else x) (nt_receipts (ds_store d))"
    unfolding recs by simp
  moreover have "each (\<lambda>r. on_store (update_delivery (nr_id r) p)) (r # rows) d = each (\<lambda>r. on_store (update_delivery (nr_id r) p)) rows t"
    by (simp add: cbind_def run)
  ultimately show ?case by (simp add: t_def)
qed

lemma disposition_run:
  assumes "inj uuid" "nt_inv uuid d"
  shows "on_disposition m dis t detail d = (d\<lparr>ds_store := (ds_store d)\<lparr>nt_receipts :=
    List.map (\<lambda>r. if m \<in> set (nr_messages r) then disposed dis t detail r else r) (nt_receipts (ds_store d))\<rparr>\<rparr>, Inr ())"
proof -
  define rs where "rs = nt_receipts (ds_store d)"
  define rows where "rows = find_by_message m (ds_store d)"
  have rows: "rows = filter (\<lambda>r. m \<in> set (nr_messages r)) rs" by (simp add: rows_def find_by_message_def sql_all_def rs_def)
  have ok: "receipts_ok uuid d" by (rule nt_invD(1) [OF assms(2)])
  have dist: "distinct (List.map nr_id rs)" using ok by (simp add: receipts_ok_def rs_def)
  have admitted: "\<forall>r \<in> set rows. nr_status r \<noteq> NtRejected" using ok unfolding rows receipts_ok_def rs_def by auto
  have pick: "(if nr_id x \<in> nr_id ` set rows then g x else x) = (if m \<in> set (nr_messages x) then g x else x)" if "x \<in> set rs" for g x
  proof -
    have "nr_id x \<in> nr_id ` set rows \<longleftrightarrow> x \<in> set rows" using dist that by (auto simp: rows distinct_map dest: inj_onD)
    then show ?thesis using that by (simp add: rows)
  qed
  have upd: "each (\<lambda>r. on_store (update_delivery (nr_id r) p)) rows d =
      (d\<lparr>ds_store := (ds_store d)\<lparr>nt_receipts := List.map (\<lambda>r. if m \<in> set (nr_messages r) then patch_receipt p r r else r) rs\<rparr>\<rparr>, Inr ())"
    if "rp_status p \<noteq> Some NtRejected" for p
  proof -
    have "set rows \<subseteq> set (nt_receipts (ds_store d))" "distinct (List.map nr_id rows)"
      using dist by (auto simp: rows rs_def intro: distinct_map_filter)
    note e = each_update_exact [OF assms this admitted that]
    have "List.map (\<lambda>x. if nr_id x \<in> nr_id ` set rows then patch_receipt p x x else x) rs =
        List.map (\<lambda>r. if m \<in> set (nr_messages r) then patch_receipt p r r else r) rs"
      by (rule map_cong [OF refl]) (rule pick)
    then show ?thesis using e by (simp add: rs_def)
  qed
  have skip: "each (\<lambda>r :: receipt. cret ()) xs d = (d, Inr ())" for xs by (induction xs) (auto simp: cbind_def cret_def)
  show ?thesis
    unfolding on_disposition_def cget_bind rows_def [symmetric] rs_def [symmetric]
    by (cases dis) (simp_all add: upd skip status_patch_def disposed_def patch_receipt_def orelse_def rs_def cong: if_cong)
qed

section \<open>The sliding window\<close>

text \<open>The times at which requests for an endpoint pass the limit, over a sequence of arrival times.\<close>

fun admitted_times :: "nt_env \<Rightarrow> string \<Rightarrow> int list \<Rightarrow> nt_dispatcher \<Rightarrow> int list" where
  "admitted_times env i [] d = []"
| "admitted_times env i (t # ts) d =
     (case rate_limited (env\<lparr>en_now := t\<rparr>) i d of
        (d', limited) \<Rightarrow> if limited then admitted_times env i ts d' else t # admitted_times env i ts d')"

definition in_window :: "int \<Rightarrow> int list \<Rightarrow> int list" where
  "in_window t = filter (\<lambda>a. t - a < rate_limit_window_ms)"

definition window_of :: "string \<Rightarrow> nt_dispatcher \<Rightarrow> int list" where
  "window_of i d = (case map_of (ds_windows d) i of None \<Rightarrow> [] | Some w \<Rightarrow> w)"

lemma rate_limited_run:
  "rate_limited (env\<lparr>en_now := t\<rparr>) i d =
     (let recent = in_window t (window_of i d)
      in if length recent \<ge> rate_limit_max then (d\<lparr>ds_windows := AList.update i recent (ds_windows d)\<rparr>, True)
         else (d\<lparr>ds_windows := AList.update i (recent @ [t]) (ds_windows d)\<rparr>, False))"
  by (simp add: rate_limited_def in_window_def window_of_def Let_def)

lemma window_of_update [simp]: "window_of i (d\<lparr>ds_windows := AList.update i w (ds_windows d)\<rparr>) = w"
  by (simp add: window_of_def update_conv')

lemma in_window_twice: "t \<le> t' \<Longrightarrow> in_window t' (in_window t w) = in_window t' w"
  by (auto simp: in_window_def intro!: filter_cong)

lemma admitted_bound:
  assumes "sorted ts" "\<forall>a \<in> set A. \<forall>t \<in> set ts. a \<le> t" "\<forall>t \<in> set ts. in_window t A = in_window t (window_of i d)"
    "\<forall>u. length (filter (\<lambda>a. u - rate_limit_window_ms < a \<and> a \<le> u) A) \<le> rate_limit_max"
  shows "length (filter (\<lambda>a. u - rate_limit_window_ms < a \<and> a \<le> u) (A @ admitted_times env i ts d)) \<le> rate_limit_max"
  using assms
proof (induction ts arbitrary: A d)
  case (Cons t ts)
  define recent where "recent = in_window t (window_of i d)"
  have rA: "recent = in_window t A" using Cons.prems(3) by (simp add: recent_def)
  have later: "\<forall>t' \<in> set ts. t \<le> t'" "sorted ts" using Cons.prems(1) by simp_all
  have eq: "in_window t' A = in_window t' recent" if "t' \<in> set ts" for t'
    using that later(1) unfolding rA by (simp add: in_window_twice)
  show ?case
  proof (cases "length recent \<ge> rate_limit_max")
    case True
    define d' where "d' = d\<lparr>ds_windows := AList.update i recent (ds_windows d)\<rparr>"
    have "admitted_times env i (t # ts) d = admitted_times env i ts d'"
      using True by (simp add: rate_limited_run Let_def recent_def [symmetric] d'_def)
    moreover have "\<forall>t' \<in> set ts. in_window t' A = in_window t' (window_of i d')" using eq by (simp add: d'_def)
    ultimately show ?thesis using Cons.IH [OF later(2), of A d'] Cons.prems(2,4) by simp
  next
    case False
    define d' where "d' = d\<lparr>ds_windows := AList.update i (recent @ [t]) (ds_windows d)\<rparr>"
    have run: "admitted_times env i (t # ts) d = t # admitted_times env i ts d'"
      using False by (simp add: rate_limited_run Let_def recent_def [symmetric] d'_def)
    have old: "\<forall>a \<in> set A. a \<le> t" using Cons.prems(2) by simp
    have win: "\<forall>t' \<in> set ts. in_window t' (A @ [t]) = in_window t' (window_of i d')"
      using eq by (simp add: d'_def) (simp add: in_window_def)
    have ord: "\<forall>a \<in> set (A @ [t]). \<forall>t' \<in> set ts. a \<le> t'" using Cons.prems(2) later(1) by auto
    have "length (filter (\<lambda>a. v - rate_limit_window_ms < a \<and> a \<le> v) (A @ [t])) \<le> rate_limit_max" for v
    proof (cases "v < t")
      case True
      then show ?thesis using Cons.prems(4) by simp
    next
      case False
      have "filter (\<lambda>a. v - rate_limit_window_ms < a \<and> a \<le> v) A = filter (\<lambda>a. v - rate_limit_window_ms < a \<and> a \<le> v) recent"
        unfolding rA in_window_def filter_filter using False by (intro filter_cong refl) auto
      then have "length (filter (\<lambda>a. v - rate_limit_window_ms < a \<and> a \<le> v) A) \<le> length recent" by simp
      then show ?thesis using \<open>\<not> length recent \<ge> rate_limit_max\<close> by simp
    qed
    then show ?thesis using Cons.IH [OF later(2) ord win] unfolding run by simp
  qed
qed simp

end
