(* ===== verification/NotifyTheorems.thy ===== *)
theory NotifyTheorems
  imports NotifyOutcomes "HOL-Library.Code_Target_Nat"
begin

text \<open>
  The properties of external notifications, each with a concrete run of the model that meets its
  hypotheses. The demonstration team has one member and one endpoint that queues for members who are offline.
\<close>

section \<open>A demonstration\<close>

definition demo_uuid :: "nat \<Rightarrow> string" where "demo_uuid n = replicate n (CHR ''x'')"

definition demo_nt_env :: nt_env where
  "demo_nt_env = \<lparr>en_now = 1000, en_uuid = demo_uuid, en_members = [''ann''], en_connected = (\<lambda>_. False), en_working = (\<lambda>_. False),
     en_channels = None, en_answer = (\<lambda>_ _. Some (''m1'', True)), en_compose = (\<lambda>_. ''text''), en_filter = (\<lambda>_ _. None),
     en_render = (\<lambda>_ b. b), en_digest = (\<lambda>_. ''d''), en_decode = (\<lambda>b. b)\<rparr>"

definition demo_nt_create :: endpoint_create where
  "demo_nt_create = \<lparr>ep_slug = ''ci'', ep_display = None, ep_descr = None, ep_on = None, ep_auth = None, ep_profile = None,
     ep_targets = [\<lparr>tg_member = Some ''ann'', tg_channel = None\<rparr>], ep_level = None, ep_title = None, ep_template = None,
     ep_filters = None, ep_policy = Some \<lparr>pp_offline = Some OfflineQueue, pp_busy = None, pp_debounce_ms = None, pp_debounce_max = None,
       pp_queue_ttl = None, pp_max_wait = None\<rparr>, ep_dedupe = None, ep_creator = ''ann''\<rparr>"

definition demo_nt_cipher :: field_cipher where
  "demo_nt_cipher = \<lparr>encrypt = (\<lambda>s. Some (CHR ''e'' # s)), decrypt = (\<lambda>c. Inr (Some (tl c)))\<rparr>"

definition demo_nt_1 :: nt_dispatcher where "demo_nt_1 = fst (on_store (nt_create demo_nt_create ''ep'' 1) nt_empty)"
definition demo_nt_2 :: nt_dispatcher where
  "demo_nt_2 = fst (on_store (nt_set_secret (Some demo_nt_cipher) ''ep'' ''key'' 2) demo_nt_1)"

definition demo_nt_input :: "verification \<Rightarrow> ingest_input" where
  "demo_nt_input v = \<lparr>ig_endpoint = the (nt_get ''ep'' (ds_store demo_nt_2)), ig_body = ''hello'', ig_content_type = None,
     ig_header = (\<lambda>h. if h = ''x-hook-secret'' then Some ''key'' else None), ig_overrides = None, ig_verification = v\<rparr>"

definition demo_nt_3 :: nt_dispatcher where "demo_nt_3 = fst (hook_request demo_nt_env (demo_nt_input VerifyOk) demo_nt_2)"
definition demo_nt_4 :: nt_dispatcher where "demo_nt_4 = fst (on_wake demo_nt_env ''ann'' demo_nt_3)"

lemma demo_uuid_inj: "inj demo_uuid"
  by (auto simp: inj_def demo_uuid_def)

lemma demo_env_uuid: "en_uuid demo_nt_env = demo_uuid"
  by (simp add: demo_nt_env_def)

lemma reachable_step: "nt_reachable uuid d \<Longrightarrow> nt_step uuid d d' \<Longrightarrow> nt_reachable uuid d'"
  unfolding nt_reachable_def by (erule rtranclp.rtrancl_into_rtrancl) (simp add: nt_sys_step_def)

lemma demo_nt_known: "nt_get (nv_id (ig_endpoint (demo_nt_input VerifyOk))) (ds_store demo_nt_2) = Some (ig_endpoint (demo_nt_input VerifyOk))"
  by code_simp

lemma demo_nt_reachable: "nt_reachable demo_uuid demo_nt_2" "nt_reachable demo_uuid demo_nt_3" "nt_reachable demo_uuid demo_nt_4"
proof -
  have 0: "nt_reachable demo_uuid nt_empty" by (simp add: nt_reachable_def)
  have 1: "nt_reachable demo_uuid demo_nt_1"
    by (rule reachable_step [OF 0 nt_step.step_create]) (unfold demo_nt_1_def, rule surjective_pairing)
  show 2: "nt_reachable demo_uuid demo_nt_2"
    by (rule reachable_step [OF 1 nt_step.step_secret]) (unfold demo_nt_2_def, rule surjective_pairing)
  show 3: "nt_reachable demo_uuid demo_nt_3"
    by (rule reachable_step [OF 2 nt_step.step_hook [OF demo_env_uuid demo_nt_known]]) (unfold demo_nt_3_def, rule surjective_pairing)
  show "nt_reachable demo_uuid demo_nt_4"
    by (rule reachable_step [OF 3 nt_step.step_wake [OF demo_env_uuid]]) (unfold demo_nt_4_def, rule surjective_pairing)
qed

section \<open>Receipts and the queue\<close>

text \<open>
  In every reachable state an endpoint has at most 1000 receipts, no two receipts share an id, no two
  of an endpoint share a deduplication key, and every delivery the queue holds is a receipt that is there,
  of the same endpoint, and was not rejected.
\<close>

theorem notify_receipts_bounded:
  assumes "inj uuid" "nt_reachable uuid d"
  shows "length (filter (\<lambda>r. nr_endpoint r = i) (nt_receipts (ds_store d))) \<le> receipt_retention \<and>
    distinct (List.map nr_id (nt_receipts (ds_store d))) \<and>
    (\<forall>r \<in> set (nt_receipts (ds_store d)). \<forall>r' \<in> set (nt_receipts (ds_store d)).
       nr_dedupe r \<noteq> None \<and> nr_endpoint r = nr_endpoint r' \<and> nr_dedupe r = nr_dedupe r' \<longrightarrow> r = r') \<and>
    (\<forall>h \<in> set (nt_held (ds_store d)). \<forall>x \<in> set (nh_deliveries h).
       \<exists>r. nt_receipt x (ds_store d) = Some r \<and> nr_endpoint r = nh_endpoint h \<and> nr_status r \<noteq> NtRejected)"
proof -
  have ok: "receipts_ok uuid d" "held_ok uuid d" using nt_invD nt_reachable_inv [OF assms] by blast+
  have "\<forall>h \<in> set (nt_held (ds_store d)). \<forall>x \<in> set (nh_deliveries h). live (nh_endpoint h) x d"
    using ok(2) unfolding held_ok_def by blast
  then show ?thesis
    using ok(1) live_receipt [OF ok(1)] unfolding receipts_ok_def receipt_clash_def by blast
qed

theorem notify_receipts_bounded_witness:
  "length (filter (\<lambda>r. nr_endpoint r = ''ep'') (nt_receipts (ds_store demo_nt_3))) \<le> receipt_retention \<and>
   length (nt_held (ds_store demo_nt_3)) = 1"
proof -
  have "length (nt_held (ds_store demo_nt_3)) = 1" by code_simp
  with notify_receipts_bounded [OF demo_uuid_inj demo_nt_reachable(2), of "''ep''"] show ?thesis by blast
qed

section \<open>Authentication\<close>



text \<open>
  A request that fails verification sends nothing, buffers nothing, and leaves at most a rejected receipt
  whose body is the note of its size and digest; at a disabled endpoint it leaves nothing at all. The answer
  is 401.
\<close>

theorem notify_unverified_leaves_a_note:
  assumes "inj uuid" "nt_reachable uuid d" "en_uuid env = uuid" "ig_verification input = VerifyFailed why"
    and "ingest env input d = (d', Inr a)"
  shows "ir_http a = 401 \<and> ds_sent d' = ds_sent d \<and> ds_buffers d' = ds_buffers d \<and>
    (nv_enabled (ig_endpoint input) \<or> d' = d) \<and>
    (\<forall>r \<in> set (nt_receipts (ds_store d')). r \<in> set (nt_receipts (ds_store d)) \<or>
       nr_status r = NtRejected \<and> nr_reason r = Some why \<and>
       nr_body r = take hook_body_max (not_retained (length (ig_body input)) (en_digest env (en_decode env (ig_body input)))))"
  using ingest_failed [OF nt_reachable_inv [OF assms(1,2)] assms(1,3-5)]
  unfolding failure_note_def by blast

theorem notify_unverified_leaves_a_note_witness:
  "List.map nr_body (nt_receipts (ds_store (fst (ingest demo_nt_env (demo_nt_input (VerifyFailed ''no'')) demo_nt_2)))) =
     [''[unverified payload not retained -- 5 bytes, sha256:d]''] \<and>
   ds_sent (fst (ingest demo_nt_env (demo_nt_input (VerifyFailed ''no'')) demo_nt_2)) = []"
proof -
  define out where "out = ingest demo_nt_env (demo_nt_input (VerifyFailed ''no'')) demo_nt_2"
  have body: "List.map nr_body (nt_receipts (ds_store (fst out))) = [''[unverified payload not retained -- 5 bytes, sha256:d]'']"
    unfolding out_def by code_simp
  have "snd out = Inr (rejected_result (Some []))" unfolding out_def by code_simp
  then have run: "ingest demo_nt_env (demo_nt_input (VerifyFailed ''no'')) demo_nt_2 = (fst out, Inr (rejected_result (Some [])))"
    by (simp add: out_def prod_eq_iff)
  have "ig_verification (demo_nt_input (VerifyFailed ''no'')) = VerifyFailed ''no''" by (simp add: demo_nt_input_def)
  from notify_unverified_leaves_a_note [OF demo_uuid_inj demo_nt_reachable(1) demo_env_uuid this run]
  have "ds_sent (fst out) = ds_sent demo_nt_2" by blast
  moreover have "ds_sent demo_nt_2 = []" by code_simp
  ultimately show ?thesis using body by (simp add: out_def)
qed

definition hook_input :: "(string \<Rightarrow> string \<Rightarrow> string) \<Rightarrow> (nt_error \<Rightarrow> string) \<Rightarrow> field_cipher option \<Rightarrow> hook_call \<Rightarrow> nt_overrides option \<Rightarrow> nt_endpoint \<Rightarrow> nt_store \<Rightarrow> ingest_input" where
  "hook_input hmac text_of cipher req overrides v s =
     \<lparr>ig_endpoint = v, ig_body = hc_body req, ig_content_type = hc_content_type req, ig_header = hc_header req, ig_overrides = overrides,
      ig_verification = verify_ingress hmac text_of cipher (nv_id v) (hc_body req) (hc_header req) s\<rparr>"

lemma hook_route_run:
  "hook_route hmac text_of cipher env req d =
     (if hook_too_large req then (d, Inr HookTooLarge)
      else case query_overrides req of
        None \<Rightarrow> (d, Inr HookBadQuery)
      | Some overrides \<Rightarrow>
          (case nt_get_by_slug (hc_slug req) (ds_store d) of
             None \<Rightarrow> (d, Inr HookUnauthorized)
           | Some v \<Rightarrow> hook_request env (hook_input hmac text_of cipher req overrides v (ds_store d)) d))"
  unfolding hook_route_def cget_bind by (simp add: hook_input_def cget_bind cret_def split: option.split)

lemma hook_request_accepts:
  assumes "hook_request env input d = (d', Inr (HookAccepted i st))"
  shows "ig_verification input = VerifyOk \<and> nv_enabled (ig_endpoint input)"
proof -
  obtain t result where t: "ingest env input t = (d', Inr result)" "ir_http result \<noteq> 401"
    using assms unfolding hook_request_def
    by (auto simp: cbind_def cret_def split: prod.splits sum.splits if_splits)
  show ?thesis
  proof (rule ccontr)
    assume "\<not> (ig_verification input = VerifyOk \<and> nv_enabled (ig_endpoint input))"
    then show False
      using t unfolding ingest_def Let_def
      by (cases "ig_verification input"; cases "nv_enabled (ig_endpoint input)")
         (auto simp: cbind_def cret_def rejected_result_def split: prod.splits sum.splits)
  qed
qed

text \<open>
  The hook route accepts a request only for an enabled endpoint of that slug, and only when it proves the
  secret that is stored, encrypted, for the endpoint or for its profile. Without a stored secret or without
  a key nothing is accepted.
\<close>

theorem notify_hook_authenticated:
  assumes "hook_route hmac text_of cipher env req d = (d', Inr (HookAccepted i st))"
  shows "\<exists>v e auth ct c secret. nt_get_by_slug (hc_slug req) (ds_store d) = Some v \<and> nv_enabled v \<and>
    select_endpoint (nv_id v) (ds_store d) = Some e \<and> verification_source e (ds_store d) = (auth, Some ct) \<and>
    cipher = Some c \<and> decrypt c ct = Inr (Some secret) \<and> proves_secret hmac auth secret (hc_body req) (hc_header req)"
proof -
  obtain v overrides where v: "nt_get_by_slug (hc_slug req) (ds_store d) = Some v"
      and run: "hook_request env (hook_input hmac text_of cipher req overrides v (ds_store d)) d = (d', Inr (HookAccepted i st))"
    using assms unfolding hook_route_run by (auto split: if_splits option.splits)
  have ok: "verify_ingress hmac text_of cipher (nv_id v) (hc_body req) (hc_header req) (ds_store d) = VerifyOk" and on: "nv_enabled v"
    using hook_request_accepts [OF run] by (simp_all add: hook_input_def)
  show ?thesis using v on verify_ingress_ok [OF ok] by blast
qed

definition demo_hook :: hook_call where
  "demo_hook = \<lparr>hc_slug = ''ci'', hc_declared = None, hc_body = ''hello'', hc_content_type = None,
     hc_header = (\<lambda>h. if h = ''x-hook-secret'' then Some ''key'' else None), hc_if_offline = None, hc_if_busy = None, hc_level = None\<rparr>"

theorem notify_hook_authenticated_witness:
  "nt_get_by_slug ''ci'' (ds_store demo_nt_2) \<noteq> None \<and>
   proves_secret (\<lambda>k b. []) (normalize_auth None) ''key'' ''hello'' (hc_header demo_hook)"
proof -
  have "snd (hook_route (\<lambda>k b. []) (\<lambda>_. []) (Some demo_nt_cipher) demo_nt_env demo_hook demo_nt_2) = Inr (HookAccepted (Some []) NtPending)"
    by code_simp
  then have run: "hook_route (\<lambda>k b. []) (\<lambda>_. []) (Some demo_nt_cipher) demo_nt_env demo_hook demo_nt_2 =
      (fst (hook_route (\<lambda>k b. []) (\<lambda>_. []) (Some demo_nt_cipher) demo_nt_env demo_hook demo_nt_2), Inr (HookAccepted (Some []) NtPending))"
    by (simp add: prod_eq_iff)
  have "nt_get_by_slug ''ci'' (ds_store demo_nt_2) \<noteq> None"
    using notify_hook_authenticated [OF run] by (auto simp: demo_hook_def)
  moreover have "proves_secret (\<lambda>k b. []) (normalize_auth None) ''key'' ''hello'' (hc_header demo_hook)" by code_simp
  ultimately show ?thesis by blast
qed

text \<open>
  To a caller who does not prove the secret, an endpoint that is unknown, disabled, over its rate limit or
  live answers the same: whatever the two teams' states, the replies to one request are equal.
\<close>

theorem notify_hook_no_oracle:
  assumes "hook_route hmac text_of cipher env req d = (d', Inr reply)" "hook_route hmac text_of cipher' env' req t = (t', Inr reply')"
    and "nt_get_by_slug (hc_slug req) (ds_store d) = None"
    and "\<And>v. nt_get_by_slug (hc_slug req) (ds_store t) = Some v \<Longrightarrow>
      verify_ingress hmac text_of cipher' (nv_id v) (hc_body req) (hc_header req) (ds_store t) \<noteq> VerifyOk"
  shows "reply = reply'"
proof -
  have unverified: "reply' = HookUnauthorized"
    if run: "hook_request env' input t = (t', Inr reply')" and bad: "ig_verification input \<noteq> VerifyOk" for input
  proof -
    obtain why where why: "ig_verification input = VerifyFailed why" using bad by (cases "ig_verification input") auto
    have 401: "ingest env' input u = (u', Inr a) \<Longrightarrow> ir_http a = 401" for u u' a
      unfolding ingest_def Let_def why
      by (cases "nv_enabled (ig_endpoint input)") (auto simp: cbind_def cret_def rejected_result_def split: prod.splits sum.splits)
    show ?thesis using run why unfolding hook_request_def
      by (auto simp: cbind_def cret_def split: prod.splits sum.splits if_splits dest!: 401)
  qed
  show ?thesis
  proof (cases "hook_too_large req \<or> query_overrides req = None")
    case True
    then show ?thesis using assms(1,2) unfolding hook_route_run by (auto split: if_splits)
  next
    case False
    then obtain o' where o': "query_overrides req = Some o'" by auto
    have "reply = HookUnauthorized" using assms(1,3) False o' unfolding hook_route_run by simp
    moreover have "reply' = HookUnauthorized"
    proof (cases "nt_get_by_slug (hc_slug req) (ds_store t)")
      case None
      then show ?thesis using assms(2) False o' unfolding hook_route_run by simp
    next
      case (Some v)
      have "hook_request env' (hook_input hmac text_of cipher' req o' v (ds_store t)) t = (t', Inr reply')"
        using assms(2) False o' Some unfolding hook_route_run by simp
      then show ?thesis by (rule unverified) (use assms(4) [OF Some] in \<open>simp add: hook_input_def\<close>)
    qed
    ultimately show ?thesis by simp
  qed
qed

theorem notify_hook_no_oracle_witness:
  "snd (hook_route (\<lambda>k b. []) (\<lambda>_. []) None demo_nt_env demo_hook nt_empty) =
   snd (hook_route (\<lambda>k b. []) (\<lambda>_. []) None demo_nt_env demo_hook demo_nt_2)"
proof -
  have u: "snd (hook_route (\<lambda>k b. []) (\<lambda>_. []) None demo_nt_env demo_hook nt_empty) = Inr HookUnauthorized" by code_simp
  have l: "snd (hook_route (\<lambda>k b. []) (\<lambda>_. []) None demo_nt_env demo_hook demo_nt_2) = Inr HookUnauthorized" by code_simp
  have none: "nt_get_by_slug (hc_slug demo_hook) (ds_store nt_empty) = None" by code_simp
  have "verify_ingress (\<lambda>k b. []) (\<lambda>_. []) None ''ep'' (hc_body demo_hook) (hc_header demo_hook) (ds_store demo_nt_2) \<noteq> VerifyOk" by code_simp
  moreover have "map_option nv_id (nt_get_by_slug (hc_slug demo_hook) (ds_store demo_nt_2)) = Some ''ep''" by code_simp
  ultimately have bad: "nt_get_by_slug (hc_slug demo_hook) (ds_store demo_nt_2) = Some v \<Longrightarrow>
      verify_ingress (\<lambda>k b. []) (\<lambda>_. []) None (nv_id v) (hc_body demo_hook) (hc_header demo_hook) (ds_store demo_nt_2) \<noteq> VerifyOk" for v
    by auto
  have pair: "snd x = y \<Longrightarrow> x = (fst x, y)" for x :: "nt_dispatcher \<times> (nt_error + hook_reply)" and y by auto
  from notify_hook_no_oracle [OF pair [OF u] pair [OF l] none bad] show ?thesis by (simp add: u l)
qed

section \<open>Wake\<close>



section \<open>Dispositions\<close>



section \<open>The rate limit\<close>

text \<open>
  However requests for an endpoint arrive, no 60 seconds admit more than 120 of them.
\<close>

theorem notify_rate_bound:
  assumes "sorted ts" "map_of (ds_windows d) i = None"
  shows "length (filter (\<lambda>a. u - rate_limit_window_ms < a \<and> a \<le> u) (admitted_times env i ts d)) \<le> rate_limit_max"
  using admitted_bound [of ts "[]" i d u env] assms by (simp add: window_of_def in_window_def)

theorem notify_rate_bound_witness:
  "length (filter (\<lambda>a. 60000 - rate_limit_window_ms < a \<and> a \<le> 60000) (admitted_times demo_nt_env ''ep'' [1, 2, 60000] nt_empty)) \<le> rate_limit_max"
  by (rule notify_rate_bound) (simp_all add: nt_empty_def)

end
