(* ===== verification/Spec2Isabelle.thy ===== *)
theory Spec2Isabelle
  imports ObjectiveTheorems ChannelTheorems DeliveryTheorems EventLogTheorems EnvTheorems EnrollTheorems BrokerTheorems FsOutcomes
    NotifyTheorems
begin

text \<open>
  A model of the core of commandsuite, the server that lets a team of people and coding agents share
  messages, objectives, channels, files and secrets. The code is TypeScript; this development covers the
  parts of \<open>packages/core\<close> that decide what the team's state is and who sees it.

  The parts and how they interact. The server keeps its state in SQLite tables (\<open>objectives.ts\<close>, \<open>channels.ts\<close>,
  \<open>secrets.ts\<close>, \<open>variables.ts\<close>, \<open>enrollments.ts\<close>, \<open>files/filesystem-store.ts\<close>, \<open>notifications/store.ts\<close>,
  \<open>sqlite-event-log.ts\<close>, \<open>message-delivery.ts\<close>) and in the memory of the broker (\<open>broker.ts\<close>, \<open>registry.ts\<close>).
  The routes of \<open>app.ts\<close> check permissions, call a store and push an event through the broker; the broker
  appends it to the event log, fans it out to the subscribers of its audience, and has the disposition ledger
  track which runner handles it. The notification dispatcher turns requests from outside into such pushes.

  Which theory models what.

  \<^item> \<open>Prelude\<close>: the JavaScript strings, sets and results the code uses, JSON, and the locales \<open>invariant_system\<close>,
    \<open>append_only_log\<close> and \<open>frozen_once\<close>, which state once what a component promises of its runs. \<open>SqlTables\<close>
    (\<open>sql-driver.ts\<close>): statements on tables, \<open>runInTransaction\<close>, three-valued logic. \<open>Wire\<close> (\<open>packages/sdk\<close>):
    messages, validators. \<open>Calls\<close>: calls that thread a state and may throw.
  \<^item> \<open>Objectives\<close>, \<open>ObjectiveCalls\<close>, \<open>ObjectiveAudit\<close>, \<open>ObjectiveLife\<close>, \<open>ObjectiveTheorems\<close> (\<open>objectives.ts\<close>): the
    lifecycle of an objective and its audit log. The abstract machine \<open>replay\<close> reads the log back; the store refines it.
  \<^item> \<open>Channels\<close>, \<open>ChannelAudit\<close>, \<open>ChannelLife\<close>, \<open>ChannelTheorems\<close> (\<open>channels.ts\<close>): channels and memberships, refined in
    the same way by their audit log.
  \<^item> \<open>DeliveryLedger\<close> has both implementations of \<open>message-delivery.ts\<close>; \<open>DeliveryContract\<close> is their contract as a
    locale over one abstract cell per delivery; \<open>DeliveryMemory\<close> and \<open>DeliverySqlite\<close> interpret it;
    \<open>DeliverySimulation\<close> relates the two; \<open>DeliveryTheorems\<close> has the properties.
  \<^item> \<open>EventLog\<close> (\<open>event-log.ts\<close>, \<open>sqlite-event-log.ts\<close>), \<open>EventLogAgree\<close>, \<open>EventLogContract\<close>, \<open>EventLogTheorems\<close>: both
    event logs, the visibility rule of the feed against its \<open>WHERE\<close> clause, and their agreement.
  \<^item> \<open>EnvNamespace\<close> (\<open>env-namespace.ts\<close>), \<open>EnvStores\<close> (\<open>secrets.ts\<close>, \<open>variables.ts\<close>), \<open>EnvMigrate\<close> (the boot migration),
    \<open>EnvInvariant\<close>, \<open>EnvLife\<close>, \<open>EnvMove\<close>, \<open>EnvTheorems\<close>: what a member's runner finds in its environment.
  \<^item> \<open>Enrollments\<close> (\<open>enrollments.ts\<close> and the mint limit of \<open>app.ts\<close>), \<open>EnrollLife\<close>, \<open>EnrollTheorems\<close>: device codes from
    mint to the single delivery of a token.
  \<^item> \<open>Registry\<close> (\<open>registry.ts\<close>), \<open>Fanout\<close> (\<open>boundedParallel\<close>), \<open>Broker\<close> and \<open>BrokerRunners\<close> (\<open>broker.ts\<close>), \<open>BrokerLife\<close>,
    \<open>BrokerReports\<close>, \<open>BrokerPush\<close>, \<open>BrokerLeases\<close>, \<open>BrokerTheorems\<close>: presence, push, redelivery, leases.
  \<^item> \<open>FsPaths\<close> (\<open>files/paths.ts\<close>), \<open>FsStore\<close> and \<open>FsWrite\<close> (\<open>files/filesystem-store.ts\<close>), \<open>FsTree\<close>, \<open>FsBlobs\<close>, \<open>FsLife\<close>,
    \<open>FsOps\<close>, \<open>FsMoves\<close>, \<open>FsRemove\<close>, \<open>FsCalls\<close>, \<open>FsResults\<close>, \<open>FsTheorems\<close>, \<open>FsOutcomes\<close>: the team's files.
  \<^item> \<open>NotifyStore\<close> (\<open>notifications/store.ts\<close>), \<open>NotifyVerify\<close> (\<open>verify.ts\<close>, \<open>hashing.ts\<close>), \<open>NotifyDispatch\<close>
    (\<open>dispatcher.ts\<close> and \<open>POST /hooks/:slug\<close> of \<open>app.ts\<close>), \<open>NotifyKeeps\<close>, \<open>NotifyFlow\<close>, \<open>NotifySteps\<close>, \<open>NotifyReceipts\<close>,
    \<open>NotifyCalls\<close>, \<open>NotifyRest\<close>, \<open>NotifyLife\<close>, \<open>NotifyOutcomes\<close>, \<open>NotifyTheorems\<close>: notifications from outside.

  How the model corresponds to the code. A table is the list of its rows in rowid order and a row is a record
  with the columns; a prepared statement is a function on the list. A method is a definition of the same name
  in lower case (\<open>obj_\<close>, \<open>ch_\<close>, \<open>fs_\<close>, \<open>nt_\<close> where names would meet). It takes the state and returns the state
  reached with a result that is \<open>Inl\<close> of the component's error for what the code throws, so an early exit keeps
  what was written before it, and \<open>run_in_transaction\<close> rolls it back where the code does. A \<open>Map\<close> is an association
  list in insertion order. Numbers are integers: the code stores times and counts, far below the limits of
  a double.

  What the groups of lemmas show. In each component the \<open>...Life\<close> theory has the step relation, one rule per call,
  failures included, and proves the invariant for every run from the empty state through an interpretation of
  \<open>invariant_system\<close>. Refinements: the objectives and channels stores by the replay of their logs, the two
  ledgers by the contract, the two event logs by each other, the migration by what members resolve. Errors
  are values, and the properties say for failing calls too what they leave behind.

  Assumptions. Calls on the stores are atomic, since the SQLite driver is synchronous; where an \<open>await\<close> separates
  two of them in the dispatcher, a call runs to its end before the next one starts, and the fan-out of the broker
  is modelled with every schedule of its workers. Rows of equal sort key come in rowid order. Characters
  are code points below 256. Parameters stand for the platform and for code outside the part: the clock, random
  bytes and ids (with the hypothesis that ids do not repeat where the notifications need it), the field cipher
  (with the hypothesis that it decrypts what it encrypted where a property needs it), SHA-256 and HMAC, the blob
  store, the callbacks of subscribers, the membership of objectives, the text functions of \<open>notifications/render.ts\<close>.
  A property that has such a hypothesis has a witness with a concrete parameter.

  Bounds and fuel. The model uses no fuel. Loops are recursions on lists, except those the code bounds itself:
  five attempts to draw a code in \<open>mint\<close>, 9999 candidates in \<open>dedupeBasename\<close>, and the ascent of
  \<open>ensureDirectoryTree\<close>, which ends because the parent of a path is shorter.

  Not modelled, and why. The remaining routes of \<open>app.ts\<close> are request parsing and permission guards over the
  stores. The texts of notifications are parameters. Sessions, tokens and one-time codes are row storage
  around the platform's cryptography; members and team settings are configuration. Activity, telemetry and
  traces observe the system without acting on it. The client, the command line, the runner, the server
  executable and the web interface are I/O with processes, networks and browsers.
\<close>

end
